(* ===== verification/GoBase.thy ===== *)
theory GoBase
  imports Main "HOL-Library.Char_ord" "HOL-Library.List_Lexorder" "HOL-Library.Sublist" "HOL-Library.Multiset"
begin

text \<open>
  Prelude: the fragment of Go and of its standard library that every component of
  the semantic operator uses, and the lemma collections the component theories share.

  A Go string is a sequence of bytes, so it is Isabelle's \<^typ>\<open>string\<close> (a \<^typ>\<open>char\<close> is
  a byte). Go orders strings bytewise, which is the lexicographic order of
  \<^theory_text>\<open>List_Lexorder\<close> over \<^theory_text>\<open>Char_ord\<close>. A function with an error result is a function
  into a sum type, \<open>Inl\<close> for the error; \<open>ebind\<close> is the pattern
  \<^verbatim>\<open>x, err := f(); if err != nil { return err }\<close> and \<open>emap\<close> the same pattern in a loop
  that appends to a slice. A \<^verbatim>\<open>map[string]bool\<close> used as a set is the list of its keys.
\<close>

named_theorems result_simps \<open>when a chain of fallible steps succeeds or fails\<close>
named_theorems returns_intros \<open>a property of every value a computation can return\<close>
named_theorems byte_defs \<open>definitions of the byte classes\<close>

section \<open>Fallible computations\<close>

type_synonym ('e, 'a) result = "'e + 'a"

definition ebind :: "('e, 'a) result \<Rightarrow> ('a \<Rightarrow> ('e, 'b) result) \<Rightarrow> ('e, 'b) result" where
  "ebind m f = (case m of Inl e \<Rightarrow> Inl e | Inr x \<Rightarrow> f x)"

definition eguard :: "bool \<Rightarrow> 'e \<Rightarrow> ('e, unit) result" where
  "eguard b e = (if b then Inr () else Inl e)"

definition emap_err :: "('e \<Rightarrow> 'f) \<Rightarrow> ('e, 'a) result \<Rightarrow> ('f, 'a) result" where
  "emap_err w m = (case m of Inl e \<Rightarrow> Inl (w e) | Inr x \<Rightarrow> Inr x)"

primrec emap :: "('a \<Rightarrow> ('e, 'b) result) \<Rightarrow> 'a list \<Rightarrow> ('e, 'b list) result" where
  "emap f [] = Inr []"
| "emap f (x # xs) = ebind (f x) (\<lambda>y. ebind (emap f xs) (\<lambda>ys. Inr (y # ys)))"

lemma ebind_simps [simp]: "ebind (Inl e) f = Inl e" "ebind (Inr x) f = f x"
  by (simp_all add: ebind_def)

lemma ebind_Inr_iff [result_simps]:
  "ebind m f = Inr y \<longleftrightarrow> (\<exists>x. m = Inr x \<and> f x = Inr y)"
  by (cases m) auto

lemma ebind_Inl_iff [result_simps]:
  "ebind m f = Inl e \<longleftrightarrow> m = Inl e \<or> (\<exists>x. m = Inr x \<and> f x = Inl e)"
  by (cases m) auto

lemma eguard_iff [result_simps]:
  "eguard b e = Inr u \<longleftrightarrow> b" "eguard b e = Inl e' \<longleftrightarrow> \<not> b \<and> e' = e"
  by (auto simp: eguard_def)

lemma eguard_simps [simp]: "eguard True e = Inr ()" "eguard False e = Inl e"
  by (simp_all add: eguard_def)

lemma emap_err_iff [result_simps]:
  "emap_err w m = Inr x \<longleftrightarrow> m = Inr x"
  "emap_err w m = Inl e \<longleftrightarrow> (\<exists>e'. m = Inl e' \<and> e = w e')"
  by (auto simp: emap_err_def split: sum.splits)

lemma emap_err_simps [simp]: "emap_err w (Inl e) = Inl (w e)" "emap_err w (Inr x) = Inr x"
  by (simp_all add: emap_err_def)

lemma emap_Inr_iff:
  "emap f xs = Inr ys \<longleftrightarrow> list_all2 (\<lambda>x y. f x = Inr y) xs ys"
  by (induction xs arbitrary: ys)
    (auto simp: result_simps list_all2_Cons1)

lemma emap_Inl_ex: "emap f xs = Inl e \<Longrightarrow> \<exists>x\<in>set xs. f x = Inl e"
  by (induction xs) (auto simp: result_simps)

lemma emap_total: "(\<And>x. x \<in> set xs \<Longrightarrow> \<exists>y. f x = Inr y) \<Longrightarrow> \<exists>ys. emap f xs = Inr ys"
  by (metis emap_Inl_ex Inl_Inr_False sumE)

lemma emap_Inr_length: "emap f xs = Inr ys \<Longrightarrow> length ys = length xs"
  by (auto simp: emap_Inr_iff dest: list_all2_lengthD)

lemma emap_Inr_ex1: "emap f xs = Inr ys \<Longrightarrow> x \<in> set xs \<Longrightarrow> \<exists>y\<in>set ys. f x = Inr y"
  by (auto simp: emap_Inr_iff list_all2_conv_all_nth in_set_conv_nth)

lemma emap_Inr_ex2: "emap f xs = Inr ys \<Longrightarrow> y \<in> set ys \<Longrightarrow> \<exists>x\<in>set xs. f x = Inr y"
  unfolding emap_Inr_iff list_all2_conv_all_nth in_set_conv_nth by (metis nth_mem)

lemma emap_map_keys:
  "emap f xs = Inr ys \<Longrightarrow> (\<And>x y. f x = Inr y \<Longrightarrow> h y = g x) \<Longrightarrow> map h ys = map g xs"
  by (induction xs arbitrary: ys) (auto simp: result_simps)

lemma emap_Inr_map: "emap (\<lambda>x. Inr (f x)) xs = Inr (map f xs)"
  by (induction xs) auto

lemma emap_cong: "(\<And>x. x \<in> set xs \<Longrightarrow> f x = g x) \<Longrightarrow> emap f xs = emap g xs"
  by (induction xs) auto

text \<open>\<open>returns m P\<close>: whatever \<open>m\<close> returns without an error satisfies \<open>P\<close>. The rules follow the
  shape of the code, one subgoal per branch.\<close>

definition returns :: "('e, 'a) result \<Rightarrow> ('a \<Rightarrow> bool) \<Rightarrow> bool" where
  "returns m P \<longleftrightarrow> (\<forall>x. m = Inr x \<longrightarrow> P x)"

lemma returnsD: "returns m P \<Longrightarrow> m = Inr x \<Longrightarrow> P x"
  by (simp add: returns_def)

lemma returns_Inl [returns_intros, simp]: "returns (Inl e) P"
  by (simp add: returns_def)

lemma returns_Inr_iff [simp]: "returns (Inr x) P \<longleftrightarrow> P x"
  by (simp add: returns_def)

lemma returns_Inr [returns_intros]: "P x \<Longrightarrow> returns (Inr x) P"
  by simp

lemma returns_if [returns_intros]:
  "(b \<Longrightarrow> returns m P) \<Longrightarrow> (\<not> b \<Longrightarrow> returns n P) \<Longrightarrow> returns (if b then m else n) P"
  by simp

lemma returns_ebind [returns_intros]:
  "(\<And>x. m = Inr x \<Longrightarrow> returns (f x) P) \<Longrightarrow> returns (ebind m f) P"
  by (cases m) auto

lemma returns_option [returns_intros]:
  "(x = None \<Longrightarrow> returns m P) \<Longrightarrow> (\<And>y. x = Some y \<Longrightarrow> returns (f y) P) \<Longrightarrow>
   returns (case x of None \<Rightarrow> m | Some y \<Rightarrow> f y) P"
  by (cases x) auto

lemma returns_sum [returns_intros]:
  "(\<And>e. m = Inl e \<Longrightarrow> returns (g e) P) \<Longrightarrow> (\<And>x. m = Inr x \<Longrightarrow> returns (f x) P) \<Longrightarrow>
   returns (case m of Inl e \<Rightarrow> g e | Inr x \<Rightarrow> f x) P"
  by (cases m) auto

lemma returns_list [returns_intros]:
  "(xs = [] \<Longrightarrow> returns m P) \<Longrightarrow> (\<And>y ys. xs = y # ys \<Longrightarrow> returns (f y ys) P) \<Longrightarrow>
   returns (case xs of [] \<Rightarrow> m | y # ys \<Rightarrow> f y ys) P"
  by (cases xs) auto

lemma returns_prod [returns_intros]:
  "(\<And>x y. p = (x, y) \<Longrightarrow> returns (f x y) P) \<Longrightarrow> returns (case p of (x, y) \<Rightarrow> f x y) P"
  by (cases p) auto

lemma returns_let [returns_intros]: "(\<And>x. x = a \<Longrightarrow> returns (f x) P) \<Longrightarrow> returns (let x = a in f x) P"
  by simp

definition isOK :: "('e, 'a) result \<Rightarrow> bool" where
  "isOK m = (case m of Inl e \<Rightarrow> False | Inr x \<Rightarrow> True)"

lemma isOK_iff: "isOK m \<longleftrightarrow> (\<exists>x. m = Inr x)"
  by (auto simp: isOK_def split: sum.splits)

lemma isOK_simps [simp]: "isOK (Inr x)" "\<not> isOK (Inl e)"
  by (simp_all add: isOK_def)

section \<open>Bytes\<close>

definition byte :: "char \<Rightarrow> nat" where
  "byte c = of_char c"

lemma byte_eq_iff: "byte c = byte d \<longleftrightarrow> c = d"
  by (simp add: byte_def)

lemma byte_less: "byte c < 256"
  by (simp add: byte_def)

text \<open>\<^verbatim>\<open>unicode.IsSpace(rune(b))\<close> of one byte: the Latin-1 space characters.\<close>

definition is_space_byte :: "char \<Rightarrow> bool" where
  "is_space_byte c \<longleftrightarrow> byte c \<in> {9, 10, 11, 12, 13, 32, 133, 160}"

definition is_lower :: "char \<Rightarrow> bool" where
  "is_lower c \<longleftrightarrow> 97 \<le> byte c \<and> byte c \<le> 122"

definition is_upper :: "char \<Rightarrow> bool" where
  "is_upper c \<longleftrightarrow> 65 \<le> byte c \<and> byte c \<le> 90"

definition is_digit :: "char \<Rightarrow> bool" where
  "is_digit c \<longleftrightarrow> 48 \<le> byte c \<and> byte c \<le> 57"

lemmas byte_class_defs [byte_defs] = is_space_byte_def is_lower_def is_upper_def is_digit_def byte_def

text \<open>\<^verbatim>\<open>strings.ToUpper\<close> and \<^verbatim>\<open>strings.ToLower\<close> on ASCII text; other bytes are kept.\<close>

definition upper_byte :: "char \<Rightarrow> char" where
  "upper_byte c = (if is_lower c then char_of (byte c - 32) else c)"

definition lower_byte :: "char \<Rightarrow> char" where
  "lower_byte c = (if is_upper c then char_of (byte c + 32) else c)"

definition to_upper :: "string \<Rightarrow> string" where
  "to_upper = map upper_byte"

definition to_lower :: "string \<Rightarrow> string" where
  "to_lower = map lower_byte"

definition equal_fold :: "string \<Rightarrow> string \<Rightarrow> bool" where
  "equal_fold s t \<longleftrightarrow> to_upper s = to_upper t"

section \<open>Strings\<close>

definition NL :: string where "NL = [CHR 0x0A]"
definition quote_ch :: char where "quote_ch = CHR 0x27"
definition dquote_ch :: char where "dquote_ch = CHR 0x22"
definition backtick_ch :: char where "backtick_ch = CHR 0x60"
definition backslash_ch :: char where "backslash_ch = CHR 0x5C"

lemmas special_chars = NL_def quote_ch_def dquote_ch_def backtick_ch_def backslash_ch_def

fun join :: "string \<Rightarrow> string list \<Rightarrow> string" where
  "join sep [] = []"
| "join sep [x] = x"
| "join sep (x # y # ys) = x @ sep @ join sep (y # ys)"

text \<open>\<^verbatim>\<open>strings.Split\<close> at a one-byte separator; never empty.\<close>

fun split_at :: "char \<Rightarrow> string \<Rightarrow> string list" where
  "split_at c [] = [[]]"
| "split_at c (x # xs) =
     (if x = c then [] # split_at c xs
      else (case split_at c xs of [] \<Rightarrow> [[x]] | w # ws \<Rightarrow> (x # w) # ws))"

text \<open>\<^verbatim>\<open>strings.ReplaceAll\<close> of a one-byte pattern.\<close>

definition replace_char :: "char \<Rightarrow> string \<Rightarrow> string \<Rightarrow> string" where
  "replace_char c r s = concat (map (\<lambda>x. if x = c then r else [x]) s)"

lemma replace_char_simps [simp]:
  "replace_char c r [] = []"
  "replace_char c r (x # xs) = (if x = c then r else [x]) @ replace_char c r xs"
  by (simp_all add: replace_char_def)

text \<open>\<^verbatim>\<open>strings.TrimSpace\<close>: the white space of Unicode in its UTF-8 encoding.\<close>

definition space_codes :: "nat list list" where
  "space_codes =
     [[9], [10], [11], [12], [13], [32], [194, 133], [194, 160], [225, 154, 128],
      [226, 128, 128], [226, 128, 129], [226, 128, 130], [226, 128, 131], [226, 128, 132],
      [226, 128, 133], [226, 128, 134], [226, 128, 135], [226, 128, 136], [226, 128, 137],
      [226, 128, 138], [226, 128, 168], [226, 128, 169], [226, 128, 175], [226, 129, 159],
      [227, 128, 128]]"

fun strip_code :: "nat list list \<Rightarrow> string \<Rightarrow> string option" where
  "strip_code [] s = None"
| "strip_code (w # ws) s =
     (if w \<noteq> [] \<and> take (length w) (map byte s) = w then Some (drop (length w) s)
      else strip_code ws s)"

lemma strip_code_shorter: "strip_code ws s = Some t \<Longrightarrow> length t < length s"
proof (induction ws s rule: strip_code.induct)
  case (2 w ws s)
  show ?case
  proof (cases "w \<noteq> [] \<and> take (length w) (map byte s) = w")
    case True
    then have "s \<noteq> []" by (cases s) auto
    with True 2 show ?thesis by auto
  next
    case False
    with 2 show ?thesis by auto
  qed
qed simp

function trim_left_codes :: "nat list list \<Rightarrow> string \<Rightarrow> string" where
  "trim_left_codes ws s = (case strip_code ws s of None \<Rightarrow> s | Some t \<Rightarrow> trim_left_codes ws t)"
  by pat_completeness auto
termination
  by (relation "measure (\<lambda>(ws, s). length s)") (auto dest: strip_code_shorter)

declare trim_left_codes.simps [simp del]

definition trim_space :: "string \<Rightarrow> string" where
  "trim_space s =
     rev (trim_left_codes (map rev space_codes) (rev (trim_left_codes space_codes s)))"

text \<open>Decimal rendering of integers (\<^verbatim>\<open>strconv.Itoa\<close>, \<^verbatim>\<open>%d\<close>).\<close>

text \<open>\<^verbatim>\<open>strings.TrimRight\<close> with a cutset of one byte.\<close>

definition trim_right_of :: "char \<Rightarrow> string \<Rightarrow> string" where
  "trim_right_of c s = rev (dropWhile (\<lambda>x. x = c) (rev s))"

definition digit_char :: "nat \<Rightarrow> char" where
  "digit_char d = char_of (48 + d)"

fun nat_str :: "nat \<Rightarrow> string" where
  "nat_str n = (if n < 10 then [digit_char n] else nat_str (n div 10) @ [digit_char (n mod 10)])"

declare nat_str.simps [simp del]

definition int_str :: "int \<Rightarrow> string" where
  "int_str i = (if i < 0 then CHR ''-'' # nat_str (nat (- i)) else nat_str (nat i))"

text \<open>\<^verbatim>\<open>s[:i], s[i+1:]\<close> around the first dot, where both sides are non-empty.\<close>

definition cut_dot :: "string \<Rightarrow> (string \<times> string) option" where
  "cut_dot s =
     (let a = takeWhile (\<lambda>c. c \<noteq> CHR ''.'') s; b = dropWhile (\<lambda>c. c \<noteq> CHR ''.'') s
      in if a = [] \<or> length b \<le> 1 then None else Some (a, tl b))"

section \<open>Lemmas on strings and digits\<close>

lemma cut_dot_Some: "cut_dot s = Some (a, b) \<Longrightarrow> s = a @ CHR ''.'' # b \<and> a \<noteq> [] \<and> b \<noteq> []
    \<and> CHR ''.'' \<notin> set a"
proof -
  assume a: "cut_dot s = Some (a, b)"
  let ?d = "dropWhile (\<lambda>c. c \<noteq> CHR ''.'') s"
  from a have ab: "a = takeWhile (\<lambda>c. c \<noteq> CHR ''.'') s" "b = tl ?d" "a \<noteq> []" "\<not> length ?d \<le> 1"
    by (auto simp: cut_dot_def Let_def split: if_splits)
  then have ne: "?d \<noteq> []" by (metis length_0_conv zero_le_one)
  then have "hd ?d = CHR ''.''" using hd_dropWhile[OF ne] by simp
  then have d: "?d = CHR ''.'' # b" using ne ab(2) by (cases ?d) auto
  have "s = a @ ?d" by (simp add: ab(1))
  moreover have "b \<noteq> []" using ab(4) d by auto
  moreover have "CHR ''.'' \<notin> set a" unfolding ab(1) by (metis (mono_tags, lifting) set_takeWhileD)
  ultimately show ?thesis using d ab(3) by auto
qed

lemma cut_dot_app: "CHR ''.'' \<notin> set a \<Longrightarrow> a \<noteq> [] \<Longrightarrow> b \<noteq> [] \<Longrightarrow> cut_dot (a @ CHR ''.'' # b) = Some (a, b)"
proof -
  assume a: "CHR ''.'' \<notin> set a" "a \<noteq> []" "b \<noteq> []"
  then have *: "\<forall>c\<in>set a. c \<noteq> CHR ''.''" by blast
  have "takeWhile (\<lambda>c. c \<noteq> CHR ''.'') (a @ CHR ''.'' # b) = a"
    using * by (simp add: takeWhile_append2)
  moreover have "dropWhile (\<lambda>c. c \<noteq> CHR ''.'') (a @ CHR ''.'' # b) = CHR ''.'' # b"
    using * by (simp add: dropWhile_append2)
  ultimately show ?thesis using a(2,3) by (cases b) (auto simp: cut_dot_def Let_def)
qed

lemma byte_char_of: "byte (char_of (n::nat)) = n mod 256"
  by (simp add: byte_def)

lemma byte_digit_char: "d < 10 \<Longrightarrow> byte (digit_char d) = 48 + d"
  by (simp add: digit_char_def byte_char_of)

lemma is_digit_digit_char: "d < 10 \<Longrightarrow> is_digit (digit_char d)"
  by (simp add: is_digit_def byte_digit_char)

lemma nat_str_not_Nil [simp]: "nat_str n \<noteq> []"
  by (subst nat_str.simps) simp

lemma nat_str_digits: "c \<in> set (nat_str n) \<Longrightarrow> is_digit c"
proof (induction n rule: nat_str.induct)
  case (1 n)
  show ?case
  proof (cases "n < 10")
    case True
    with 1(2) show ?thesis by (subst (asm) nat_str.simps) (simp add: is_digit_digit_char)
  next
    case False
    with 1(2) have "c \<in> set (nat_str (n div 10)) \<or> c = digit_char (n mod 10)"
      by (subst (asm) nat_str.simps) auto
    with 1(1)[OF False] show ?thesis by (auto simp: is_digit_digit_char)
  qed
qed

text \<open>Reading a decimal back: rendering is injective.\<close>

definition digits_val :: "string \<Rightarrow> nat" where
  "digits_val s = foldl (\<lambda>n c. 10 * n + (byte c - 48)) 0 s"

lemma digits_val_nat_str: "digits_val (nat_str n) = n"
proof (induction n rule: nat_str.induct)
  case (1 n)
  show ?case
  proof (cases "n < 10")
    case True
    then show ?thesis by (subst nat_str.simps) (simp add: digits_val_def byte_digit_char)
  next
    case False
    have "digits_val (nat_str n) = 10 * digits_val (nat_str (n div 10)) + n mod 10"
      using False by (subst nat_str.simps) (simp add: digits_val_def byte_digit_char)
    with 1[OF False] show ?thesis by simp
  qed
qed

lemma nat_str_inject: "nat_str m = nat_str n \<longleftrightarrow> m = n"
  by (metis digits_val_nat_str)

lemma length_dropWhile_Cons [simp]: "P x \<Longrightarrow> length (dropWhile P (x # xs)) < Suc (length xs)"
  using length_dropWhile_le[of P xs] by simp

lemma join_append_single: "xs \<noteq> [] \<Longrightarrow> join sep (xs @ [y]) = join sep xs @ sep @ y"
  by (induction sep xs rule: join.induct) auto

lemma split_at_not_Nil [simp]: "split_at c s \<noteq> []"
  by (induction s) (auto split: list.splits)

lemma join_split_at: "join [c] (split_at c s) = s"
proof (induction s)
  case (Cons x xs)
  obtain w ws where w: "split_at c xs = w # ws" by (metis split_at_not_Nil neq_Nil_conv)
  show ?case
  proof (cases "x = c")
    case True
    with w Cons show ?thesis by simp
  next
    case False
    with w Cons show ?thesis by (cases ws) auto
  qed
qed simp

lemma split_at_no_sep: "w \<in> set (split_at c s) \<Longrightarrow> c \<notin> set w"
proof (induction s arbitrary: w)
  case (Cons x xs)
  obtain v vs where v: "split_at c xs = v # vs" by (metis split_at_not_Nil neq_Nil_conv)
  with Cons show ?case by (auto split: if_splits)
qed simp

end
