(* ===== verification/GoValues.thy ===== *)
theory GoValues
  imports GoBase "HOL-Library.Word"
begin

unbundle bit_operations_syntax

text \<open>
  Dynamic values and the parts of the standard library that turn them into text.
  \<open>go_value\<close> is what an \<^verbatim>\<open>any\<close> of the program can hold: the results of decoding JSON
  plus the typed scalars the planner and the dialects name in their type switches. A float
  is its IEEE bit pattern, an instant is its Unix time in seconds. The functions below are
  \<^verbatim>\<open>strconv.FormatFloat(x, 'g', -1, bits)\<close> (shortest decimal that reads back to the same
  float), \<^verbatim>\<open>time.Format\<close> for the one layout the program uses, \<^verbatim>\<open>encoding/json\<close> for the values
  that are hashed, and SHA-256 with hexadecimal output.
\<close>

section \<open>Values\<close>

datatype go_value =
    VNil
  | VString string
  | VBool bool
  | VInt int
  | VInt32 int
  | VInt64 int
  | VFloat32 "32 word"
  | VFloat64 "64 word"
  | VTime int
  | VArray "go_value list"
  | VObject "(string \<times> go_value) list"

section \<open>Floats\<close>

text \<open>\<open>FFin neg m e\<close> is plus or minus \<open>m * 2 ^ e\<close>; the flag \<open>narrow\<close> says that the gap below
  the value is half the gap above it.\<close>

datatype go_float = FNaN | FInf bool | FFin bool nat int bool

definition decode_float :: "nat \<Rightarrow> nat \<Rightarrow> nat \<Rightarrow> go_float" where
  "decode_float mb eb n =
     (let neg = (n div 2 ^ (mb + eb)) mod 2 = 1;
          ex = (n div 2 ^ mb) mod 2 ^ eb;
          fr = n mod 2 ^ mb;
          bias = 2 ^ (eb - 1) - 1 :: nat
      in if ex = 2 ^ eb - 1 then (if fr = 0 then FInf neg else FNaN)
         else if ex = 0 then FFin neg fr (1 - int bias - int mb) False
         else FFin neg (fr + 2 ^ mb) (int ex - int bias - int mb) (fr = 0 \<and> 1 < ex))"

definition float64 :: "64 word \<Rightarrow> go_float" where
  "float64 w = decode_float 52 11 (unat w)"

definition float32 :: "32 word \<Rightarrow> go_float" where
  "float32 w = decode_float 23 8 (unat w)"

text \<open>\<^verbatim>\<open>math.IsNaN(x) || math.IsInf(x, 0)\<close>, negated.\<close>

definition is_finite :: "go_float \<Rightarrow> bool" where
  "is_finite f = (case f of FFin _ _ _ _ \<Rightarrow> True | _ \<Rightarrow> False)"

text \<open>\<^verbatim>\<open>x == float64(int64(x))\<close>: the integer, when the value is one and fits an int64. Go leaves the
  conversion of a value outside that range to the implementation; as on amd64, it never
  compares equal here.\<close>

definition as_int64 :: "go_float \<Rightarrow> int option" where
  "as_int64 f =
     (case f of
        FFin neg m e _ \<Rightarrow>
          if e < 0 \<and> m mod 2 ^ nat (- e) \<noteq> 0 then None
          else let a = (if e < 0 then int (m div 2 ^ nat (- e)) else int m * 2 ^ nat e);
                   i = (if neg then - a else a)
               in if - (2 ^ 63) \<le> i \<and> i < 2 ^ 63 then Some i else None
      | _ \<Rightarrow> None)"

text \<open>
  Shortest decimal. \<open>search\<close> walks the decimal positions downwards from the first digit of
  the upper bound and stops where cutting the value off, or cutting it off and adding one
  unit, stays inside the interval that rounds back to the value. All quantities are
  integers over the common denominator \<open>S\<close>; position \<open>p\<close> has the unit \<open>10 ^ p\<close>. At
  \<open>p = - k\<close>, with \<open>S = 2 ^ k\<close>, the value is a multiple of the unit, so \<open>fuel\<close> is enough.
\<close>

primrec search :: "nat \<Rightarrow> bool \<Rightarrow> nat \<Rightarrow> nat \<Rightarrow> nat \<Rightarrow> nat \<Rightarrow> int \<Rightarrow> nat \<times> int" where
  "search 0 inc S lo M up p = (0, p)"
| "search (Suc fuel) inc S lo M up p =
     (let A = 10 ^ nat (- p); B = S * 10 ^ nat p; d = (M * A) div B;
          okdown = (lo * A < d * B \<or> inc \<and> lo * A = d * B);
          okup = ((d + 1) * B < up * A \<or> inc \<and> (d + 1) * B = up * A)
      in if okdown \<and> okup then
           (let r2 = 2 * ((M * A) mod B)
            in if B < r2 \<or> r2 = B \<and> odd d then (d + 1, p) else (d, p))
         else if okdown then (d, p)
         else if okup then (d + 1, p)
         else search fuel inc S lo M up (p - 1))"

definition pow10_above :: "nat \<Rightarrow> nat \<Rightarrow> int" where
  \<comment> \<open>the number of decimal digits before the point of \<open>n / S\<close>, at least 0 digits only when
      the quotient is below one; then counted downwards\<close>
  "pow10_above n S =
     (if S \<le> n then int (length (nat_str (n div S)))
      else 1 - int (length (nat_str ((S + n - 1) div n))))"

definition shortest :: "nat \<Rightarrow> int \<Rightarrow> bool \<Rightarrow> string \<times> int" where
  "shortest m e narrow =
     (let k = nat (2 - e); S = 2 ^ k; E = nat (e + int k); M = m * 2 ^ E;
          up = M + 2 ^ (E - 1);
          lo = M - (if narrow then 2 ^ (E - 2) else 2 ^ (E - 1));
          p = pow10_above up S;
          (n, q) = search (nat (p + int k) + 2) (even m) S lo M up p;
          full = nat_str n;
          ds = rev (dropWhile (\<lambda>c. c = CHR ''0'') (rev full))
      in (ds, int (length full) + q))"

text \<open>The digits \<open>ds\<close> and the decimal point \<open>dp\<close>: the value is \<open>0.ds * 10 ^ dp\<close>.\<close>

definition fmt_f :: "string \<Rightarrow> int \<Rightarrow> string" where
  "fmt_f ds dp =
     (let ip = (if 0 < dp then take (nat dp) ds @ replicate (nat dp - length ds) CHR ''0'' else ''0'');
          frac = (if 0 \<le> dp then drop (nat dp) ds else replicate (nat (- dp)) CHR ''0'' @ ds)
      in if frac = [] \<or> ds = [] then ip else ip @ ''.'' @ frac)"

definition fmt_e :: "nat \<Rightarrow> string \<Rightarrow> int \<Rightarrow> string" where
  "fmt_e width ds dp =
     (let x = dp - 1; xs = nat_str (nat (abs x))
      in take 1 ds @ (if length ds \<le> 1 then '''' else ''.'' @ drop 1 ds) @ ''e'' @
         (if x < 0 then ''-'' else ''+'') @
         replicate (width - length xs) CHR ''0'' @ xs)"

definition fmt_g :: "go_float \<Rightarrow> string" where
  "fmt_g f =
     (case f of
        FNaN \<Rightarrow> ''NaN''
      | FInf neg \<Rightarrow> (if neg then ''-Inf'' else ''+Inf'')
      | FFin neg m e nr \<Rightarrow>
          (if neg then ''-'' else '''') @
          (if m = 0 then ''0''
           else let (ds, dp) = shortest m e nr
                in if dp - 1 < - 4 \<or> 6 \<le> dp - 1 then fmt_e 2 ds dp else fmt_f ds dp))"

section \<open>Instants\<close>

definition pad_zero :: "nat \<Rightarrow> string \<Rightarrow> string" where
  "pad_zero w s = replicate (w - length s) CHR ''0'' @ s"

text \<open>The civil date of a day number counted from 1970-01-01, in the proleptic Gregorian calendar.\<close>

definition civil :: "int \<Rightarrow> int \<times> int \<times> int" where
  "civil days =
     (let z = days + 719468; era = z div 146097; doe = z mod 146097;
          yoe = (doe - doe div 1460 + doe div 36524 - doe div 146096) div 365;
          doy = doe - (365 * yoe + yoe div 4 - yoe div 100);
          mp = (5 * doy + 2) div 153;
          d = doy - (153 * mp + 2) div 5 + 1;
          m = (if mp < 10 then mp + 3 else mp - 9)
      in ((yoe + era * 400) + (if m \<le> 2 then 1 else 0), m, d))"

definition year_str :: "int \<Rightarrow> string" where
  "year_str y = (if y < 0 then ''-'' else '''') @ pad_zero 4 (nat_str (nat (abs y)))"

text \<open>\<^verbatim>\<open>x.UTC().Format("2006-01-02 15:04:05")\<close>\<close>

definition time_str :: "int \<Rightarrow> string" where
  "time_str t =
     (let (y, m, d) = civil (t div 86400); s = t mod 86400; two = (\<lambda>i. pad_zero 2 (nat_str (nat i)))
      in year_str y @ ''-'' @ two m @ ''-'' @ two d @ '' '' @
         two (s div 3600) @ '':'' @ two (s mod 3600 div 60) @ '':'' @ two (s mod 60))"

section \<open>JSON\<close>

definition cont_byte :: "nat \<Rightarrow> bool" where
  "cont_byte b \<longleftrightarrow> 128 \<le> b \<and> b < 192"

text \<open>The width of the first well-formed UTF-8 sequence of a string, 0 when there is none.\<close>

definition utf8_width :: "string \<Rightarrow> nat" where
  "utf8_width s =
     (let bs = map byte (take 4 s); at = (\<lambda>i. if i < length bs then bs ! i else 0);
          b0 = at 0; b1 = at 1; c = (\<lambda>i. cont_byte (at i)); r = (\<lambda>lo hi. lo \<le> b1 \<and> b1 \<le> hi)
      in if bs = [] then 0
         else if b0 < 128 then 1
         else if 194 \<le> b0 \<and> b0 \<le> 223 \<and> c 1 then 2
         else if b0 = 224 \<and> r 160 191 \<and> c 2 then 3
         else if b0 = 237 \<and> r 128 159 \<and> c 2 then 3
         else if 225 \<le> b0 \<and> b0 \<le> 239 \<and> b0 \<noteq> 237 \<and> c 1 \<and> c 2 then 3
         else if b0 = 240 \<and> r 144 191 \<and> c 2 \<and> c 3 then 4
         else if 241 \<le> b0 \<and> b0 \<le> 243 \<and> c 1 \<and> c 2 \<and> c 3 then 4
         else if b0 = 244 \<and> r 128 143 \<and> c 2 \<and> c 3 then 4
         else 0)"

definition hex_digit :: "nat \<Rightarrow> char" where
  "hex_digit d = char_of (if d < 10 then 48 + d else 87 + d)"

definition json_byte :: "char \<Rightarrow> string" where
  "json_byte c =
     (if c = dquote_ch \<or> c = backslash_ch then [backslash_ch, c]
      else if byte c = 8 then [backslash_ch, CHR ''b'']
      else if byte c = 12 then [backslash_ch, CHR ''f'']
      else if byte c = 10 then [backslash_ch, CHR ''n'']
      else if byte c = 13 then [backslash_ch, CHR ''r'']
      else if byte c = 9 then [backslash_ch, CHR ''t'']
      else if byte c < 32 \<or> c \<in> {CHR ''<'', CHR ''>'', CHR ''&''} then
        [backslash_ch] @ ''u00'' @ [hex_digit (byte c div 16), hex_digit (byte c mod 16)]
      else [c])"

function json_chars :: "string \<Rightarrow> string" where
  "json_chars [] = []"
| "json_chars (c # cs) =
     (let w = utf8_width (c # cs)
      in if w = 0 then [backslash_ch] @ ''ufffd'' @ json_chars cs
         else if w = 1 then json_byte c @ json_chars cs
         else if map byte (take 3 (c # cs)) = [226, 128, 168] then
           [backslash_ch] @ ''u2028'' @ json_chars (drop 3 (c # cs))
         else if map byte (take 3 (c # cs)) = [226, 128, 169] then
           [backslash_ch] @ ''u2029'' @ json_chars (drop 3 (c # cs))
         else take w (c # cs) @ json_chars (drop w (c # cs)))"
  by pat_completeness auto
termination
  by (relation "measure length") auto

definition json_string :: "string \<Rightarrow> string" where
  "json_string s = [dquote_ch] @ json_chars s @ [dquote_ch]"

definition json_float :: "go_float \<Rightarrow> string option" where
  "json_float f =
     (case f of
        FFin neg m e nr \<Rightarrow>
          Some ((if neg then ''-'' else '''') @
            (if m = 0 then ''0''
             else let (ds, dp) = shortest m e nr
                  in if dp \<le> - 6 \<or> 21 < dp then fmt_e (if dp - 1 < 0 then 1 else 2) ds dp
                     else fmt_f ds dp))
      | _ \<Rightarrow> None)"

definition json_list :: "string list \<Rightarrow> string" where
  "json_list xs = ''['' @ join '','' xs @ '']''"

definition json_members :: "(string \<times> string) list \<Rightarrow> string" where
  "json_members kvs = ''{'' @ join '','' (map (\<lambda>(k, v). json_string k @ '':'' @ v) kvs) @ ''}''"

primrec option_list :: "'a option list \<Rightarrow> 'a list option" where
  "option_list [] = Some []"
| "option_list (x # xs) =
     (case x of None \<Rightarrow> None | Some y \<Rightarrow> map_option (\<lambda>ys. y # ys) (option_list xs))"

text \<open>\<^verbatim>\<open>json.Marshal\<close> of a dynamic value; None where it fails (a float that is not finite). The keys
  of a map are written in sorted order. An instant is written in its RFC 3339 form in UTC.\<close>

function json_value :: "go_value \<Rightarrow> string option" where
  "json_value VNil = Some ''null''"
| "json_value (VString s) = Some (json_string s)"
| "json_value (VBool b) = Some (if b then ''true'' else ''false'')"
| "json_value (VInt i) = Some (int_str i)"
| "json_value (VInt32 i) = Some (int_str i)"
| "json_value (VInt64 i) = Some (int_str i)"
| "json_value (VFloat32 w) = json_float (float32 w)"
| "json_value (VFloat64 w) = json_float (float64 w)"
| "json_value (VTime t) =
     Some ([dquote_ch] @ map (\<lambda>c. if c = CHR '' '' then CHR ''T'' else c) (time_str t) @ ''Z'' @ [dquote_ch])"
| "json_value (VArray vs) = map_option json_list (option_list (map json_value vs))"
| "json_value (VObject kvs) =
     map_option (\<lambda>ss. json_members (sort_key fst (zip (map fst kvs) ss)))
       (option_list (map (\<lambda>kv. json_value (snd kv)) kvs))"
  by pat_completeness auto
termination
proof (relation "measure size", goal_cases)
  case 1 show ?case by simp
next
  case (2 vs x) then show ?case by (simp add: size_list_estimation' less_Suc_eq_le)
next
  case (3 kvs x)
  have "size (snd x) \<le> size_prod (\<lambda>x. 0) size x" by (cases x) simp
  moreover have "size_prod (\<lambda>x. 0) size x \<le> size_list (size_prod (\<lambda>x. 0) size) kvs"
    using 3 by (induction kvs) auto
  ultimately show ?case by simp
qed

section \<open>SHA-256\<close>

text \<open>The leading 32 bits of the fractional parts of the cube roots of the first 64 primes, and of the square
  roots of the first eight, in decimal.\<close>

definition sha_k :: "32 word list" where
  "sha_k =
    [1116352408, 1899447441, 3049323471, 3921009573, 961987163, 1508970993,
     2453635748, 2870763221, 3624381080, 310598401, 607225278, 1426881987,
     1925078388, 2162078206, 2614888103, 3248222580, 3835390401, 4022224774,
     264347078, 604807628, 770255983, 1249150122, 1555081692, 1996064986,
     2554220882, 2821834349, 2952996808, 3210313671, 3336571891, 3584528711,
     113926993, 338241895, 666307205, 773529912, 1294757372, 1396182291,
     1695183700, 1986661051, 2177026350, 2456956037, 2730485921, 2820302411,
     3259730800, 3345764771, 3516065817, 3600352804, 4094571909, 275423344,
     430227734, 506948616, 659060556, 883997877, 958139571, 1322822218,
     1537002063, 1747873779, 1955562222, 2024104815, 2227730452, 2361852424,
     2428436474, 2756734187, 3204031479, 3329325298]"

definition sha_init :: "32 word list" where
  "sha_init =
    [1779033703, 3144134277, 1013904242, 2773480762,
     1359893119, 2600822924, 528734635, 1541459225]"

definition be_bytes :: "nat \<Rightarrow> nat \<Rightarrow> nat list" where
  "be_bytes w n = map (\<lambda>i. n div 256 ^ (w - 1 - i) mod 256) [0..<w]"

definition sha_pad :: "string \<Rightarrow> nat list" where
  "sha_pad s =
     (let n = length s
      in map byte s @ [128] @ replicate ((119 - n mod 64) mod 64) 0 @ be_bytes 8 (8 * n))"

fun be_words :: "nat list \<Rightarrow> 32 word list" where
  "be_words (a # b # c # d # r) = of_nat (((a * 256 + b) * 256 + c) * 256 + d) # be_words r"
| "be_words _ = []"

primrec sha_schedule :: "nat \<Rightarrow> 32 word list \<Rightarrow> 32 word list" where
  \<comment> \<open>the sixteen latest words, newest first\<close>
  "sha_schedule 0 ws = []"
| "sha_schedule (Suc n) ws =
     (let w15 = ws ! 14; w2 = ws ! 1;
          s0 = word_rotr 7 w15 XOR word_rotr 18 w15 XOR drop_bit 3 w15;
          s1 = word_rotr 17 w2 XOR word_rotr 19 w2 XOR drop_bit 10 w2;
          w = ws ! 15 + s0 + ws ! 6 + s1
      in w # sha_schedule n (w # butlast ws))"

fun sha_round :: "32 word list \<Rightarrow> 32 word \<times> 32 word \<Rightarrow> 32 word list" where
  "sha_round [a, b, c, d, e, f, g, h] (k, w) =
     (let s1 = word_rotr 6 e XOR word_rotr 11 e XOR word_rotr 25 e;
          ch = (e AND f) XOR (NOT e AND g);
          t1 = h + s1 + ch + k + w;
          s0 = word_rotr 2 a XOR word_rotr 13 a XOR word_rotr 22 a;
          maj = (a AND b) XOR (a AND c) XOR (b AND c)
      in [t1 + s0 + maj, a, b, c, d + t1, e, f, g])"
| "sha_round hs _ = hs"

fun sha_blocks :: "32 word list \<Rightarrow> 32 word list \<Rightarrow> 32 word list" where
  "sha_blocks hs [] = hs"
| "sha_blocks hs (x # xs) =
     (let ws = x # xs; blk = take 16 ws;
          hs' = foldl sha_round hs (zip sha_k (blk @ sha_schedule 48 (rev blk)))
      in sha_blocks (map2 (+) hs hs') (drop 15 xs))"

definition sha256 :: "string \<Rightarrow> nat list" where
  "sha256 s = concat (map (\<lambda>w. be_bytes 4 (unat w)) (sha_blocks sha_init (be_words (sha_pad s))))"

definition hex_str :: "nat list \<Rightarrow> string" where
  "hex_str bs = concat (map (\<lambda>b. [hex_digit (b div 16), hex_digit (b mod 16)]) bs)"

definition sha256_hex :: "string \<Rightarrow> string" where
  "sha256_hex s = hex_str (sha256 s)"

lemma length_sha_round: "length (sha_round hs kw) = length hs"
  by (induction hs kw rule: sha_round.induct) (auto simp: Let_def)

lemma length_sha_rounds: "length (foldl sha_round hs kws) = length hs"
  by (induction kws arbitrary: hs) (auto simp: length_sha_round)

lemma length_sha_blocks: "length (sha_blocks hs ws) = length hs"
  by (induction hs ws rule: sha_blocks.induct) (auto simp: Let_def length_sha_rounds)

lemma length_sha256: "length (sha256 s) = 32"
  by (simp add: sha256_def be_bytes_def length_concat o_def length_sha_blocks sha_init_def
      flip: map_replicate_const) (simp add: map_replicate_const length_sha_blocks sum_list_replicate)

lemma length_sha256_hex: "length (sha256_hex s) = 64"
  by (simp add: sha256_hex_def hex_str_def length_concat o_def length_sha256 map_replicate_const
      sum_list_replicate)

end
