(* ===== verification/GoJson.thy ===== *)
theory GoJson
  imports GoValues
begin

text \<open>
  Reading JSON, as \<^verbatim>\<open>encoding/json\<close> does: a document is one value between white space, a string
  is unescaped and its malformed UTF-8 replaced, a number keeps its text, an object keeps its
  members in order, duplicates included. The parsers consume the input from the left and
  return the value with the rest; a recursive call is guarded by the rest being shorter, and
  \<open>json_parsers_consume\<close> shows that the guard never fails.
\<close>

datatype json =
    JNull
  | JBool bool
  | JNum string
  | JStr string
  | JArr "json list"
  | JObj "(string \<times> json) list"

definition json_ws :: "string \<Rightarrow> string" where
  "json_ws s = dropWhile (\<lambda>c. byte c \<in> {32, 9, 10, 13}) s"

definition hex_val :: "char \<Rightarrow> nat option" where
  "hex_val c =
     (if is_digit c then Some (byte c - 48)
      else if 97 \<le> byte c \<and> byte c \<le> 102 then Some (byte c - 87)
      else if 65 \<le> byte c \<and> byte c \<le> 70 then Some (byte c - 55) else None)"

fun hex4 :: "string \<Rightarrow> (nat \<times> string) option" where
  "hex4 (a # b # c # d # r) =
     (case (hex_val a, hex_val b, hex_val c, hex_val d) of
        (Some w, Some x, Some y, Some z) \<Rightarrow> Some (((w * 16 + x) * 16 + y) * 16 + z, r)
      | _ \<Rightarrow> None)"
| "hex4 _ = None"

text \<open>A \<^verbatim>\<open>\uXXXX\<close> escape from just before the backslash.\<close>

fun uni_escape :: "string \<Rightarrow> (nat \<times> string) option" where
  "uni_escape (a # b # r) = (if a = backslash_ch \<and> b = CHR ''u'' then hex4 r else None)"
| "uni_escape _ = None"

definition utf8_encode :: "nat \<Rightarrow> string" where
  "utf8_encode r =
     map char_of
       (if r < 128 then [r]
        else if r < 2048 then [192 + r div 64, 128 + r mod 64]
        else if r < 65536 then [224 + r div 4096, 128 + r div 64 mod 64, 128 + r mod 64]
        else [240 + r div 262144, 128 + r div 4096 mod 64, 128 + r div 64 mod 64, 128 + r mod 64])"

definition simple_escape :: "char \<Rightarrow> char option" where
  "simple_escape c =
     map_of [(dquote_ch, dquote_ch), (backslash_ch, backslash_ch), (CHR ''/'', CHR ''/''),
       (CHR ''b'', CHR 0x08), (CHR ''f'', CHR 0x0C), (CHR ''n'', CHR 0x0A),
       (CHR ''r'', CHR 0x0D), (CHR ''t'', CHR 0x09)] c"

text \<open>The rune of an escape and the input after it; a lone surrogate is the replacement rune.\<close>

definition escaped_rune :: "string \<Rightarrow> (nat \<times> string) option" where
  "escaped_rune s =
     (case uni_escape s of
        None \<Rightarrow> None
      | Some (r, rest) \<Rightarrow>
          if 55296 \<le> r \<and> r < 57344 then
            (case uni_escape rest of
               Some (r2, rest2) \<Rightarrow>
                 if r < 56320 \<and> 56320 \<le> r2 \<and> r2 < 57344
                 then Some (65536 + (r - 55296) * 1024 + (r2 - 56320), rest2)
                 else Some (65533, rest)
             | None \<Rightarrow> Some (65533, rest))
          else Some (r, rest))"

lemma hex4_shorter: "hex4 s = Some (r, t) \<Longrightarrow> length t < length s"
  by (induction s rule: hex4.induct) (auto split: option.splits)

lemma uni_escape_shorter: "uni_escape s = Some (r, t) \<Longrightarrow> length t < length s"
  by (induction s rule: uni_escape.induct) (auto split: if_splits dest: hex4_shorter)

lemma escaped_rune_shorter: "escaped_rune s = Some (r, t) \<Longrightarrow> length t < length s"
proof -
  assume e: "escaped_rune s = Some (r, t)"
  then obtain a u where u: "uni_escape s = Some (a, u)"
    by (auto simp: escaped_rune_def split: option.splits)
  have "t = u \<or> (\<exists>b. uni_escape u = Some (b, t))"
    using e by (auto simp: escaped_rune_def u split: option.splits if_splits)
  with uni_escape_shorter[OF u] show ?thesis by (auto dest: uni_escape_shorter)
qed

definition push :: "string \<Rightarrow> (string \<times> string) option \<Rightarrow> (string \<times> string) option" where
  "push p m = map_option (\<lambda>(t, r). (p @ t, r)) m"

lemma push_eq_Some [simp]: "push p m = Some (t, r) \<longleftrightarrow> (\<exists>t'. m = Some (t', r) \<and> t = p @ t')"
  by (auto simp: push_def)

text \<open>A string from just after its opening quote.\<close>

function json_str :: "string \<Rightarrow> (string \<times> string) option" where
  "json_str [] = None"
| "json_str (c # cs) =
     (if c = dquote_ch then Some ([], cs)
      else if c = backslash_ch then
        (case cs of
           [] \<Rightarrow> None
         | d # ds \<Rightarrow>
             (case simple_escape d of
                Some e \<Rightarrow> push [e] (json_str ds)
              | None \<Rightarrow>
                  (case escaped_rune (c # cs) of
                     Some (r, rest) \<Rightarrow> push (utf8_encode r) (json_str rest)
                   | None \<Rightarrow> None)))
      else if byte c < 32 then None
      else if utf8_width (c # cs) = 0 then push (utf8_encode 65533) (json_str cs)
      else push (take (utf8_width (c # cs)) (c # cs)) (json_str (drop (utf8_width (c # cs)) (c # cs))))"
  by pat_completeness auto
termination
  by (relation "measure length") (auto dest: escaped_rune_shorter)

declare json_str.simps(2) [simp del]

lemma json_str_step:
  "json_str (c # cs) = Some (t, r) \<Longrightarrow>
     r = cs \<or> (\<exists>s' t'. json_str s' = Some (t', r) \<and> length s' < length (c # cs))"
proof (cases "c = dquote_ch \<or> byte c < 32 \<and> c \<noteq> backslash_ch")
  case True
  assume "json_str (c # cs) = Some (t, r)"
  with True show ?thesis by (auto simp: json_str.simps(2) special_chars split: if_splits)
next
  case False
  assume j: "json_str (c # cs) = Some (t, r)"
  show ?thesis
  proof (cases "c = backslash_ch")
    case True
    with j False show ?thesis
      by (auto simp: json_str.simps(2) split: list.splits option.splits dest!: escaped_rune_shorter)
        (metis length_Cons lessI less_Suc_eq)+
  next
    case esc: False
    let ?n = "if utf8_width (c # cs) = 0 then 1 else utf8_width (c # cs)"
    from j False esc have "\<exists>t'. json_str (drop ?n (c # cs)) = Some (t', r)"
      by (auto simp: json_str.simps(2) split: if_splits)
    moreover have "length (drop ?n (c # cs)) < length (c # cs)" by simp
    ultimately show ?thesis by blast
  qed
qed

lemma json_str_shorter: "json_str s = Some (t, r) \<Longrightarrow> length r < length s"
proof (induction "length s" arbitrary: s t rule: less_induct)
  case less
  show ?case
  proof (cases s)
    case (Cons c cs)
    with json_str_step[of c cs t r] less show ?thesis
      by (metis length_Cons lessI less_trans)
  qed (use less in simp)
qed

text \<open>A number: the longest prefix of the right form.\<close>

definition json_digits :: "string \<Rightarrow> (string \<times> string) option" where
  "json_digits s =
     (let d = takeWhile is_digit s in if d = [] then None else Some (d, dropWhile is_digit s))"

definition json_exp :: "string \<Rightarrow> (string \<times> string) option" where
  "json_exp s =
     (case s of
        c # cs \<Rightarrow>
          if c = CHR ''e'' \<or> c = CHR ''E'' then
            (case cs of
               d # ds \<Rightarrow> if d = CHR ''+'' \<or> d = CHR ''-'' then push [c, d] (json_digits ds)
                         else push [c] (json_digits cs)
             | [] \<Rightarrow> None)
          else Some ([], s)
      | [] \<Rightarrow> Some ([], []))"

definition json_frac :: "string \<Rightarrow> (string \<times> string) option" where
  "json_frac s =
     (case s of
        c # cs \<Rightarrow>
          if c = CHR ''.'' then
            (case json_digits cs of
               Some (d, r) \<Rightarrow> push (c # d) (json_exp r)
             | None \<Rightarrow> None)
          else json_exp s
      | [] \<Rightarrow> Some ([], []))"

fun json_int :: "string \<Rightarrow> (string \<times> string) option" where
  "json_int [] = None"
| "json_int (c # cs) =
     (if c = CHR ''0'' then push [c] (json_frac cs)
      else if is_digit c then push (c # takeWhile is_digit cs) (json_frac (dropWhile is_digit cs))
      else None)"

fun json_num :: "string \<Rightarrow> (string \<times> string) option" where
  "json_num [] = None"
| "json_num (c # cs) = (if c = CHR ''-'' then push [c] (json_int cs) else json_int (c # cs))"

lemma json_digits_le: "json_digits s = Some (d, r) \<Longrightarrow> length r \<le> length s"
  by (auto simp: json_digits_def Let_def length_dropWhile_le split: if_splits)

lemma json_exp_le: "json_exp s = Some (d, r) \<Longrightarrow> length r \<le> length s"
  by (auto simp: json_exp_def split: list.splits if_splits dest!: json_digits_le)

lemma json_frac_le: "json_frac s = Some (d, r) \<Longrightarrow> length r \<le> length s"
  by (auto simp: json_frac_def split: list.splits if_splits option.splits
      dest!: json_digits_le json_exp_le)

lemma json_int_shorter: "json_int s = Some (d, r) \<Longrightarrow> length r < length s"
proof (cases s)
  case (Cons c cs)
  assume "json_int s = Some (d, r)"
  then have "\<exists>t d'. json_frac t = Some (d', r) \<and> length t \<le> length cs"
    by (auto simp: Cons length_dropWhile_le split: if_splits)
  then show ?thesis using json_frac_le by (fastforce simp: Cons)
qed simp

lemma json_num_shorter: "json_num s = Some (d, r) \<Longrightarrow> length r < length s"
  by (cases s) (auto split: if_splits dest!: json_int_shorter simp del: json_int.simps)

definition json_word :: "string \<Rightarrow> 'a \<Rightarrow> string \<Rightarrow> ('a \<times> string) option" where
  "json_word w v s = (if take (length w) s = w then Some (v, drop (length w) s) else None)"

lemma json_ws_le: "length (json_ws s) \<le> length s"
  by (simp add: json_ws_def length_dropWhile_le)

function (sequential) json_val :: "string \<Rightarrow> (json \<times> string) option"
  and json_elems :: "string \<Rightarrow> (json list \<times> string) option"
  and json_members_of :: "string \<Rightarrow> ((string \<times> json) list \<times> string) option" where
  "json_val [] = None"
| "json_val (c # cs) =
     (if c = CHR ''{'' then
        (case json_ws cs of
           [] \<Rightarrow> None
         | d # ds \<Rightarrow> if d = CHR ''}'' then Some (JObj [], ds)
                     else map_option (\<lambda>(ms, r). (JObj ms, r)) (json_members_of cs))
      else if c = CHR ''['' then
        (case json_ws cs of
           [] \<Rightarrow> None
         | d # ds \<Rightarrow> if d = CHR '']'' then Some (JArr [], ds)
                     else map_option (\<lambda>(es, r). (JArr es, r)) (json_elems cs))
      else if c = dquote_ch then map_option (\<lambda>(t, r). (JStr t, r)) (json_str cs)
      else if c = CHR ''t'' then json_word ''rue'' (JBool True) cs
      else if c = CHR ''f'' then json_word ''alse'' (JBool False) cs
      else if c = CHR ''n'' then json_word ''ull'' JNull cs
      else map_option (\<lambda>(t, r). (JNum t, r)) (json_num (c # cs)))"
| "json_elems s =
     (case json_val (json_ws s) of
        None \<Rightarrow> None
      | Some (v, r) \<Rightarrow>
          (case json_ws r of
             [] \<Rightarrow> None
           | d # ds \<Rightarrow>
               if d = CHR '']'' then Some ([v], ds)
               else if d = CHR '','' \<and> length ds < length s
               then map_option (\<lambda>(es, r'). (v # es, r')) (json_elems ds)
               else None))"
| "json_members_of s =
     (case json_ws s of
        [] \<Rightarrow> None
      | q # s1 \<Rightarrow>
          if q \<noteq> dquote_ch then None
          else (case json_str s1 of
             None \<Rightarrow> None
           | Some (k, s2) \<Rightarrow>
               (case json_ws s2 of
                  [] \<Rightarrow> None
                | e # s3 \<Rightarrow>
                    if e \<noteq> CHR '':'' \<or> \<not> length s3 < length s then None
                    else (case json_val (json_ws s3) of
                       None \<Rightarrow> None
                     | Some (v, r) \<Rightarrow>
                         (case json_ws r of
                            [] \<Rightarrow> None
                          | d # ds \<Rightarrow>
                              if d = CHR ''}'' then Some ([(k, v)], ds)
                              else if d = CHR '','' \<and> length ds < length s
                              then map_option (\<lambda>(ms, r'). ((k, v) # ms, r')) (json_members_of ds)
                              else None)))))"
  by pat_completeness auto

termination
  by (relation "measure (\<lambda>x. case x of Inl s \<Rightarrow> 2 * length s
        | Inr (Inl s) \<Rightarrow> 2 * length s + 1 | Inr (Inr s) \<Rightarrow> 2 * length s + 1)")
    (auto intro: le_less_trans[OF json_ws_le] order_trans[OF json_ws_le] simp: less_Suc_eq_le)

lemmas json_parsers_simps [simp del] = json_val.simps(2) json_elems.simps json_members_of.simps

lemma json_word_shorter: "json_word w v s = Some (x, r) \<Longrightarrow> length r \<le> length s"
  by (auto simp: json_word_def split: if_splits)

lemma json_val_step:
  assumes "json_val (c # cs) = Some (v, r)"
  shows "length r < length (c # cs)
    \<or> (\<exists>ms d ds. c = CHR ''{'' \<and> json_ws cs = d # ds \<and> d \<noteq> CHR ''}'' \<and> json_members_of cs = Some (ms, r))
    \<or> (\<exists>es d ds. c = CHR ''['' \<and> json_ws cs = d # ds \<and> d \<noteq> CHR '']'' \<and> json_elems cs = Some (es, r))"
proof -
  have ws: "json_ws cs = d # ds \<Longrightarrow> length ds \<le> length cs" for d ds
    using json_ws_le[of cs] by simp
  show ?thesis
    using assms
    by (auto simp: json_val.simps(2) simp del: json_num.simps split: if_splits list.splits
        dest!: ws json_str_shorter json_num_shorter json_word_shorter)
qed

text \<open>Every parser consumes input, so no guard of the recursion ever fails.\<close>

lemma json_parsers_consume:
  "json_val s = Some (v, r) \<Longrightarrow> length r < length s"
  "json_elems s = Some (vs, r) \<Longrightarrow> length r < length s"
  "json_members_of s = Some (ms, r) \<Longrightarrow> length r < length s"
proof (induction s and s and s arbitrary: v r and vs r and ms r
    rule: json_val_json_elems_json_members_of.induct)
  case 1
  then show ?case by simp
next
  case (2 c cs)
  from json_val_step[OF 2(3)] show ?case
  proof (elim disjE exE conjE)
    fix ms d ds
    assume "c = CHR ''{''" "json_ws cs = d # ds" "d \<noteq> CHR ''}''" "json_members_of cs = Some (ms, r)"
    from 2(1)[OF this] show ?thesis by simp
  next
    fix es d ds
    assume a: "c = CHR ''[''" "json_ws cs = d # ds" "d \<noteq> CHR '']''" "json_elems cs = Some (es, r)"
    then have "c \<noteq> CHR ''{''" by simp
    from 2(2)[OF this a] show ?thesis by simp
  qed
next
  case (3 s)
  from 3(3) obtain x u where x: "json_val (json_ws s) = Some (x, u)"
    by (auto simp: json_elems.simps split: option.splits)
  then have u: "length u < length s" using 3(1) json_ws_le[of s] less_le_trans by blast
  from 3(3) x obtain d ds where d: "json_ws u = d # ds"
    by (auto simp: json_elems.simps split: list.splits)
  then have ds: "length ds < length s" using json_ws_le[of u] u by simp
  have "r = ds \<or> (\<exists>es. json_elems ds = Some (es, r) \<and> d = CHR '','')"
    using 3(3) x d by (auto simp: json_elems.simps[of s] split: if_splits)
  with 3(2)[OF x refl d] ds show ?case by fastforce
next
  case (4 s)
  from 4(3) obtain s1 where s1: "json_ws s = dquote_ch # s1"
    by (auto simp: json_members_of.simps split: list.splits if_splits)
  from 4(3) s1 obtain k s2 where s2: "json_str s1 = Some (k, s2)"
    by (auto simp: json_members_of.simps split: option.splits)
  from 4(3) s1 s2 obtain s3 where s3: "json_ws s2 = CHR '':'' # s3" "length s3 < length s"
    by (auto simp: json_members_of.simps split: list.splits if_splits)
  from 4(3) s1 s2 s3 obtain x u where x: "json_val (json_ws s3) = Some (x, u)"
    by (auto simp: json_members_of.simps split: option.splits)
  have u: "length u < length s"
    using 4(1)[OF s1 _ s2 _ s3(1) _ x] s1 s2 s3 json_ws_le[of s3] by fastforce
  from 4(3) s1 s2 s3 x obtain d ds where d: "json_ws u = d # ds"
    by (auto simp: json_members_of.simps split: list.splits)
  then have ds: "length ds < length s" using json_ws_le[of u] u by simp
  have "r = ds \<or> (\<exists>es. json_members_of ds = Some (es, r) \<and> d = CHR '','')"
    using 4(3) s1 s2 s3 x d by (auto simp: json_members_of.simps[of s] split: if_splits)
  with 4(2)[OF s1 _ s2 _ s3(1) _ x refl d] s3 ds show ?case by fastforce
qed

definition json_parse :: "string \<Rightarrow> json option" where
  "json_parse s =
     (case json_val (json_ws s) of
        Some (v, r) \<Rightarrow> if json_ws r = [] then Some v else None
      | None \<Rightarrow> None)"

end
