(* ===== verification/JsonText.thy ===== *)
theory JsonText
  imports GoJson
begin

text \<open>
  What \<^verbatim>\<open>encoding/json\<close> writes, it reads back: strings of well-formed UTF-8, lists and objects of
  them. The caches store their entries as such texts. \<open>ParseFloat\<close> is the decimal to binary conversion
  with which a JSON number becomes a \<^verbatim>\<open>float64\<close>.
\<close>

section \<open>Strings\<close>

function utf8_ok :: "string \<Rightarrow> bool" where
  "utf8_ok s =
     (if s = [] then True else if utf8_width s = 0 then False else utf8_ok (drop (utf8_width s) s))"
  by pat_completeness auto
termination
  by (relation "measure length") auto

declare utf8_ok.simps [simp del]

lemma utf8_ok_Nil [simp]: "utf8_ok []"
  by (simp add: utf8_ok.simps)

lemma hex_val_digit: "d < 16 \<Longrightarrow> hex_val (hex_digit d) = Some d"
  by (auto simp: hex_val_def hex_digit_def is_digit_def byte_char_of)

text \<open>The width in terms of the first four bytes, 0 standing for a missing one.\<close>

definition width_of :: "nat \<Rightarrow> nat \<Rightarrow> nat \<Rightarrow> nat \<Rightarrow> nat" where
  "width_of b0 b1 b2 b3 =
     (if b0 < 128 then 1
      else if 194 \<le> b0 \<and> b0 \<le> 223 \<and> cont_byte b1 then 2
      else if b0 = 224 \<and> 160 \<le> b1 \<and> b1 \<le> 191 \<and> cont_byte b2 then 3
      else if b0 = 237 \<and> 128 \<le> b1 \<and> b1 \<le> 159 \<and> cont_byte b2 then 3
      else if 225 \<le> b0 \<and> b0 \<le> 239 \<and> b0 \<noteq> 237 \<and> cont_byte b1 \<and> cont_byte b2 then 3
      else if b0 = 240 \<and> 144 \<le> b1 \<and> b1 \<le> 191 \<and> cont_byte b2 \<and> cont_byte b3 then 4
      else if 241 \<le> b0 \<and> b0 \<le> 243 \<and> cont_byte b1 \<and> cont_byte b2 \<and> cont_byte b3 then 4
      else if b0 = 244 \<and> 128 \<le> b1 \<and> b1 \<le> 143 \<and> cont_byte b2 \<and> cont_byte b3 then 4
      else 0)"

definition byte_at :: "string \<Rightarrow> nat \<Rightarrow> nat" where
  "byte_at s i = (if i < length s then byte (s ! i) else 0)"

lemma utf8_width_of:
  assumes "s \<noteq> []"
  shows "utf8_width s = width_of (byte_at s 0) (byte_at s 1) (byte_at s 2) (byte_at s 3)"
proof -
  have at: "(if i < length (map byte (take 4 s)) then map byte (take 4 s) ! i else 0) = byte_at s i" if "i < 4" for i
    using that by (simp add: byte_at_def)
  show ?thesis
    using assms by (simp only: utf8_width_def Let_def width_of_def at zero_less_numeral one_less_numeral_iff
        numeral_less_iff semiring_norm map_is_Nil_conv take_eq_Nil simp_thms conj_assoc if_False zero_neq_numeral)
qed

lemma width_of_cases:
  "width_of b0 b1 b2 b3 = 1 \<longleftrightarrow> b0 < 128"
  "width_of b0 b1 b2 b3 = 2 \<longleftrightarrow> 194 \<le> b0 \<and> b0 \<le> 223 \<and> cont_byte b1"
  "width_of b0 b1 b2 b3 \<le> 4"
  by (simp_all add: width_of_def)

lemma width_of_agree:
  assumes w: "width_of b0 b1 b2 b3 = w" "w \<noteq> 0"
    and "1 < w \<Longrightarrow> c1 = b1" "2 < w \<Longrightarrow> c2 = b2" "3 < w \<Longrightarrow> c3 = b3"
  shows "width_of b0 c1 c2 c3 = w"
  using assms unfolding width_of_def by (simp split: if_split_asm)

lemma utf8_width_le: "utf8_width s \<le> length s"
proof (cases "s = []")
  case False
  have zero: "byte_at s i = 0" if "length s \<le> i" for i using that by (simp add: byte_at_def)
  have nc: "\<not> cont_byte 0" by (simp add: cont_byte_def)
  show ?thesis
  proof (rule ccontr)
    assume n: "\<not> utf8_width s \<le> length s"
    moreover have "0 < length s" using False by simp
    moreover have "utf8_width s \<le> 4" using width_of_cases(3) by (simp add: utf8_width_of[OF False])
    ultimately have "length s = 1 \<or> length s = 2 \<or> length s = 3" by linarith
    then show False
      using n nc zero[of 1] zero[of 2] zero[of 3]
      by (elim disjE) (simp_all add: utf8_width_of[OF False] width_of_def split: if_splits)
  qed
qed (simp add: utf8_width_def)

lemma utf8_width_prefix:
  assumes "utf8_width s = w" "w \<noteq> 0"
  shows "utf8_width (take w s @ t) = w"
proof -
  have s: "s \<noteq> []" using assms by (auto simp: utf8_width_def)
  have le: "w \<le> length s" using utf8_width_le assms by blast
  then have at: "byte_at (take w s @ t) i = byte_at s i" if "i < w" for i
    using that by (simp add: byte_at_def nth_append)
  have "take w s @ t \<noteq> []" using s assms by simp
  then show ?thesis
    using width_of_agree[of "byte_at s 0" "byte_at s 1" "byte_at s 2" "byte_at s 3" w] assms at[of 0] at
    by (simp add: utf8_width_of s)
qed

lemma utf8_width_ascii: "byte c < 128 \<Longrightarrow> utf8_width (c # cs) = 1"
  by (simp add: utf8_width_of width_of_def byte_at_def)

lemma utf8_ok_ascii: "\<forall>c\<in>set s. byte c < 128 \<Longrightarrow> utf8_ok s"
  by (induction s) (simp_all add: utf8_ok.simps[of "_ # _"] utf8_width_ascii)

lemma utf8_width_lead: "1 < utf8_width (c # cs) \<Longrightarrow> 128 \<le> byte c"
  using utf8_width_ascii[of c cs] by (cases "byte c < 128") simp_all

text \<open>How the decoder takes one encoded character.\<close>

lemma json_str_plain:
  "utf8_width (c # cs) = w \<Longrightarrow> 0 < w \<Longrightarrow> 32 \<le> byte c \<Longrightarrow> c \<noteq> dquote_ch \<Longrightarrow> c \<noteq> backslash_ch \<Longrightarrow>
   json_str (take w (c # cs) @ r) = push (take w (c # cs)) (json_str r)"
proof -
  assume w: "utf8_width (c # cs) = w" "0 < w" and c: "32 \<le> byte c" "c \<noteq> dquote_ch" "c \<noteq> backslash_ch"
  obtain u where u: "take w (c # cs) = c # u" using w by (cases w) auto
  have "utf8_width (c # u @ r) = w" using utf8_width_prefix[OF w(1), of r] w u by simp
  moreover have "w = length (c # u)" using utf8_width_le[of "c # cs"] w u by (metis length_take min.absorb2)
  ultimately show ?thesis using c w unfolding u append_Cons by (simp add: json_str.simps(2))
qed

lemma json_str_byte:
  assumes "byte c < 128"
  shows "json_str (json_byte c @ r) = push [c] (json_str r)"
proof -
  have esc: "json_str (backslash_ch # d # ds) = push [e] (json_str ds)" if "simple_escape d = Some e" for d ds e
    using that by (simp add: json_str.simps(2) special_chars)
  have uni: "json_str (backslash_ch # ''u00'' @ [hex_digit (byte c div 16), hex_digit (byte c mod 16)] @ r) = push [c] (json_str r)"
  proof -
    have "uni_escape (backslash_ch # ''u00'' @ [hex_digit (byte c div 16), hex_digit (byte c mod 16)] @ r) = Some (byte c, r)"
    proof -
      have "hex_val CHR ''0'' = Some 0" by (simp add: hex_val_def is_digit_def byte_def)
      then show ?thesis using assms hex_val_digit[of "byte c div 16"] hex_val_digit[of "byte c mod 16"] by simp
    qed
    then have "escaped_rune (backslash_ch # ''u00'' @ [hex_digit (byte c div 16), hex_digit (byte c mod 16)] @ r) = Some (byte c, r)"
      using assms by (simp add: escaped_rune_def)
    moreover have "utf8_encode (byte c) = [c]" using assms by (simp add: utf8_encode_def byte_def)
    ultimately show ?thesis by (simp add: json_str.simps(2) special_chars simple_escape_def)
  qed
  have plain: "json_str (c # r) = push [c] (json_str r)" if "32 \<le> byte c" "c \<noteq> dquote_ch" "c \<noteq> backslash_ch"
    using json_str_plain[OF utf8_width_ascii[OF assms, of "[]"]] that by simp
  have code: "byte c = byte d \<Longrightarrow> c = d" for d by (simp add: byte_eq_iff)
  consider d where "json_byte c = [backslash_ch, d]" "simple_escape d = Some c"
    | "json_byte c = backslash_ch # ''u00'' @ [hex_digit (byte c div 16), hex_digit (byte c mod 16)]"
    | "json_byte c = [c]" "32 \<le> byte c" "c \<noteq> dquote_ch" "c \<noteq> backslash_ch"
  proof (cases "c = dquote_ch \<or> c = backslash_ch \<or> byte c \<in> {8, 12, 10, 13, 9}")
    case True
    then have "c \<in> {dquote_ch, backslash_ch, CHR 0x08, CHR 0x0C, CHR 0x0A, CHR 0x0D, CHR 0x09}"
      using code[of "CHR 0x08"] code[of "CHR 0x0C"] code[of "CHR 0x0A"] code[of "CHR 0x0D"] code[of "CHR 0x09"]
      by (auto simp: byte_def)
    then show ?thesis
      by (elim insertE emptyE)
        (rule that(1), simp add: json_byte_def special_chars byte_def, simp add: simple_escape_def special_chars)+
  next
    case False
    then show ?thesis using that(2,3) by (cases "byte c < 32 \<or> c \<in> {CHR ''<'', CHR ''>'', CHR ''&''}")
        (simp_all add: json_byte_def)
  qed
  then show ?thesis using esc uni plain by cases simp_all
qed

lemma take_3_chars:
  assumes "map byte (take 3 s) = [226, 128, 168 + k]" "k < 2"
  shows "take 3 s = utf8_encode (8232 + k)" "utf8_width s = 3"
proof -
  obtain a b c t where s: "s = a # b # c # t"
    using assms(1) by (cases s; cases "tl s"; cases "tl (tl s)") auto
  have "byte a = 226" "byte b = 128" "byte c = 168 + k"
    using assms(1) by (simp_all add: s)
  moreover have "char_of (byte d) = d" for d by (simp add: byte_def)
  ultimately have "a = char_of (226::nat)" "b = char_of (128::nat)" "c = char_of (168 + k)" by metis+
  moreover from assms(2) have "k = 0 \<or> k = 1" by linarith
  ultimately show "take 3 s = utf8_encode (8232 + k)" by (auto simp: s utf8_encode_def)
  show "utf8_width s = 3"
    using assms by (simp add: s utf8_width_of width_of_def byte_at_def cont_byte_def)
qed

text \<open>A string comes back from its JSON text, whatever follows it.\<close>

lemma json_str_chars: "utf8_ok s \<Longrightarrow> json_str (json_chars s @ dquote_ch # r) = Some (s, r)"
proof (induction s rule: json_chars.induct)
  case 1
  then show ?case by (simp add: json_str.simps(2))
next
  case (2 c cs)
  let ?w = "utf8_width (c # cs)"
  have w: "?w \<noteq> 0" and ok: "utf8_ok (drop ?w (c # cs))"
    using 2(6) by (simp_all add: utf8_ok.simps[of "c # cs"] split: if_splits)
  have escaped: "json_str ([backslash_ch] @ ''u202'' @ [d] @ t) = push (utf8_encode r) (json_str t)"
    if "d = CHR ''8'' \<and> r = 8232 \<or> d = CHR ''9'' \<and> r = 8233" for d r t
    using that by (auto simp: json_str.simps(2) special_chars simple_escape_def escaped_rune_def hex_val_def is_digit_def byte_def)
  show ?case
  proof (cases "?w = 1")
    case True
    then have "byte c < 128" using utf8_width_lead[of c cs] utf8_width_of[of "c # cs"] width_of_cases(1) by (simp add: byte_at_def)
    with 2(2)[OF refl w True] ok True show ?thesis by (simp add: json_str_byte)
  next
    case False
    with w have lead: "128 \<le> byte c" using utf8_width_lead[of c cs] by simp
    show ?thesis
    proof (cases "map byte (take 3 (c # cs)) = [226, 128, 168] \<or> map byte (take 3 (c # cs)) = [226, 128, 169]")
      case True
      then obtain k d where k: "map byte (take 3 (c # cs)) = [226, 128, 168 + k]" "k < 2"
        and d: "d = CHR ''8'' \<and> 8232 + k = 8232 \<or> d = CHR ''9'' \<and> 8232 + k = 8233"
        and j: "json_chars (c # cs) = [backslash_ch] @ ''u202'' @ [d] @ json_chars (drop 3 (c # cs))"
        using w False that[of 0 "CHR ''8''"] that[of 1 "CHR ''9''"] by (fastforce simp: Let_def)
      note t = take_3_chars[OF k]
      have ih: "json_str (json_chars (drop 3 (c # cs)) @ dquote_ch # r) = Some (drop 3 (c # cs), r)"
        using 2(3)[OF refl w False] 2(4)[OF refl w False] ok[unfolded t(2)] True by blast
      have "json_str (json_chars (c # cs) @ dquote_ch # r)
          = push (utf8_encode (8232 + k)) (json_str (json_chars (drop 3 (c # cs)) @ dquote_ch # r))"
        unfolding j append_assoc by (rule escaped[OF d])
      also have "\<dots> = Some (take 3 (c # cs) @ drop 3 (c # cs), r)" unfolding ih t(1) by (simp add: push_def)
      finally show ?thesis unfolding append_take_drop_id .
    next
      case no: False
      then have "json_chars (c # cs) = take ?w (c # cs) @ json_chars (drop ?w (c # cs))"
        unfolding json_chars.simps(2) Let_def using False w by (simp only: if_False simp_thms de_Morgan_disj)
      moreover have "json_str (take ?w (c # cs) @ json_chars (drop ?w (c # cs)) @ dquote_ch # r)
          = push (take ?w (c # cs)) (json_str (json_chars (drop ?w (c # cs)) @ dquote_ch # r))"
        using lead w by (intro json_str_plain) (auto simp: special_chars byte_def)
      ultimately show ?thesis using 2(5)[OF refl w False] no ok by simp
    qed
  qed
qed

section \<open>Values\<close>

lemma json_val_string: "utf8_ok s \<Longrightarrow> json_val (json_string s @ r) = Some (JStr s, r)"
  by (simp add: json_string_def json_val.simps(2) json_str_chars) (simp add: dquote_ch_def)

text \<open>\<open>reads v t\<close>: the text \<open>t\<close> is that of the value, up to any continuation that cannot extend a
  number, and starts with no white space.\<close>

definition delimited :: "string \<Rightarrow> bool" where
  "delimited r \<longleftrightarrow> (case r of [] \<Rightarrow> True | c # cs \<Rightarrow> c = CHR '','' \<or> c = CHR '']'' \<or> c = CHR ''}'')"

definition reads :: "json \<Rightarrow> string \<Rightarrow> bool" where
  "reads v t \<longleftrightarrow> t \<noteq> [] \<and> byte (hd t) \<notin> {32, 9, 10, 13} \<and> hd t \<noteq> CHR '']'' \<and> (\<forall>r. delimited r \<longrightarrow> json_val (t @ r) = Some (v, r))"

lemma readsD: "reads v t \<Longrightarrow> delimited r \<Longrightarrow> json_val (json_ws (t @ r)) = Some (v, r)"
  by (cases t) (auto simp: reads_def json_ws_def)

lemma reads_string: "utf8_ok s \<Longrightarrow> reads (JStr s) (json_string s)"
  by (simp add: reads_def json_val_string) (simp add: json_string_def dquote_ch_def byte_def)

lemma reads_words: "reads JNull ''null''" "reads (JBool True) ''true''" "reads (JBool False) ''false''"
  by (auto simp: reads_def json_val.simps(2) json_word_def dquote_ch_def byte_def)

lemma json_ws_delim [simp]: "json_ws (CHR '','' # r) = CHR '','' # r" "json_ws (CHR '']'' # r) = CHR '']'' # r"
  "json_ws (CHR ''}'' # r) = CHR ''}'' # r" "json_ws (CHR '':'' # r) = CHR '':'' # r"
  by (simp_all add: json_ws_def byte_def)

lemma json_elems_list:
  "list_all2 reads vs ts \<Longrightarrow> vs \<noteq> [] \<Longrightarrow> json_elems (join '','' ts @ '']'' @ r) = Some (vs, r)"
proof (induction rule: list_all2_induct)
  case (Cons v vs t ts)
  show ?case
  proof (cases ts)
    case Nil
    with Cons readsD[OF Cons(1), of "'']'' @ r"] show ?thesis
      by (simp add: json_elems.simps[of "t @ CHR '']'' # r"] delimited_def)
  next
    case (Cons u us)
    let ?rest = "join '','' (u # us) @ '']'' @ r"
    have "json_elems ?rest = Some (vs, r)" using Cons.IH Cons.hyps(2) Cons by auto
    moreover have "json_val (json_ws (t @ '','' @ ?rest)) = Some (v, '','' @ ?rest)"
      using readsD[OF Cons.hyps(1)] by (simp add: delimited_def)
    ultimately show ?thesis using Cons by (simp add: json_elems.simps[of "t @ CHR '','' # _"])
  qed
qed simp

lemma reads_list:
  assumes "list_all2 reads vs ts"
  shows "reads (JArr vs) (json_list ts)"
proof -
  have "json_val (json_list ts @ r) = Some (JArr vs, r)" for r
  proof (cases ts)
    case Nil
    with assms show ?thesis by (simp add: json_list_def json_val.simps(2))
  next
    case (Cons t us)
    then obtain v vs' where vs: "vs = v # vs'" "reads v t" using assms by (auto simp: list_all2_Cons2)
    have ws: "json_ws (join '','' ts @ '']'' @ r) = join '','' ts @ '']'' @ r" "hd (join '','' ts @ '']'' @ r) \<noteq> CHR '']''"
      "join '','' ts @ '']'' @ r \<noteq> []"
      using vs(2) Cons by (cases t; cases us; auto simp: reads_def json_ws_def)+
    have "json_elems (join '','' ts @ '']'' @ r) = Some (vs, r)" by (rule json_elems_list[OF assms]) (simp add: vs)
    with ws show ?thesis
      by (cases "join '','' ts @ '']'' @ r") (auto simp: json_list_def json_val.simps(2))
  qed
  then show ?thesis by (simp add: reads_def) (simp add: json_list_def byte_def)
qed

lemma json_members_text:
  assumes "list_all2 (\<lambda>(k, v) (k', t). k = k' \<and> utf8_ok k \<and> reads v t) kvs kts" "kvs \<noteq> []"
  shows "json_members_of (join '','' (map (\<lambda>(k, v). json_string k @ '':'' @ v) kts) @ ''}'' @ r) = Some (kvs, r)"
  using assms
proof (induction rule: list_all2_induct)
  case (Cons kv kvs kt kts)
  obtain k v t where kv: "kv = (k, v)" "kt = (k, t)" "utf8_ok k" "reads v t"
    using Cons(1) by (cases kv; cases kt) auto
  let ?rest = "case kts of [] \<Rightarrow> ''}'' @ r
     | _ \<Rightarrow> '','' @ join '','' (map (\<lambda>(k, v). json_string k @ '':'' @ v) kts) @ ''}'' @ r"
  have eq: "join '','' (map (\<lambda>(k, v). json_string k @ '':'' @ v) (kt # kts)) @ ''}'' @ r
      = dquote_ch # json_chars k @ dquote_ch # CHR '':'' # t @ ?rest"
    by (cases kts) (simp_all add: kv json_string_def)
  have ws: "json_ws (dquote_ch # x) = dquote_ch # x" for x by (simp add: json_ws_def dquote_ch_def byte_def)
  have v: "json_val (json_ws (t @ ?rest)) = Some (v, ?rest)"
    using readsD[OF kv(4), of ?rest] by (cases kts) (simp_all add: delimited_def)
  show ?case
  proof (cases kts)
    case Nil
    then have "kvs = []" using Cons(2) by simp
    with v Nil show ?thesis unfolding eq
      by (simp add: json_members_of.simps[of "dquote_ch # _"] ws json_str_chars[OF kv(3)] kv(1))
  next
    case (Cons x xs)
    then have "json_members_of (join '','' (map (\<lambda>(k, v). json_string k @ '':'' @ v) kts) @ ''}'' @ r) = Some (kvs, r)"
      using Cons.IH Cons.hyps(2) by auto
    with v Cons show ?thesis unfolding eq
      by (simp add: json_members_of.simps[of "dquote_ch # _"] ws json_str_chars[OF kv(3)] kv(1))
  qed
qed simp

lemma reads_members:
  assumes "list_all2 (\<lambda>(k, v) (k', t). k = k' \<and> utf8_ok k \<and> reads v t) kvs kts"
  shows "reads (JObj kvs) (json_members kts)"
proof -
  have "json_val (json_members kts @ r) = Some (JObj kvs, r)" for r
  proof (cases kts)
    case Nil
    with assms show ?thesis by (simp add: json_members_def json_val.simps(2) )
  next
    case (Cons kt us)
    then have ne: "kvs \<noteq> []" using assms by auto
    let ?t = "join '','' (map (\<lambda>(k, v). json_string k @ '':'' @ v) kts) @ ''}'' @ r"
    obtain x where x: "?t = dquote_ch # x" using Cons by (cases kt; cases us) (auto simp: json_string_def)
    have "json_ws ?t = ?t" unfolding x by (simp add: json_ws_def dquote_ch_def byte_def)
    then show ?thesis using json_members_text[OF assms ne, of r] x
      by (simp add: json_members_def json_val.simps(2)) (simp add: dquote_ch_def)
  qed
  then show ?thesis by (simp add: reads_def) (simp add: json_members_def byte_def)
qed

lemma json_parse_reads: "reads v t \<Longrightarrow> json_parse t = Some v"
  using readsD[of v t "[]"] by (simp add: json_parse_def delimited_def json_ws_def)

section \<open>Numbers\<close>

text \<open>\<^verbatim>\<open>strconv.ParseFloat(s, 64)\<close> on the text of a JSON number: the value \<open>n / d\<close> is rounded to the nearest
  multiple of a power of two with 53 bits, a tie to even; None where it overflows.\<close>

fun bit_length :: "nat \<Rightarrow> nat" where
  "bit_length n = (if n = 0 then 0 else Suc (bit_length (n div 2)))"

declare bit_length.simps [simp del]

definition round_half_even :: "nat \<Rightarrow> nat \<Rightarrow> nat" where
  "round_half_even n d =
     (let q = n div d; r2 = 2 * (n mod d) in if d < r2 \<or> r2 = d \<and> odd q then q + 1 else q)"

text \<open>\<open>n / d\<close> in units of \<open>2 ^ k\<close>.\<close>

definition in_units :: "nat \<Rightarrow> nat \<Rightarrow> int \<Rightarrow> nat \<times> nat" where
  "in_units n d k = (n * 2 ^ nat (- k), d * 2 ^ nat k)"

definition nearest_float64 :: "bool \<Rightarrow> nat \<Rightarrow> nat \<Rightarrow> 64 word option" where
  "nearest_float64 neg n d =
     (let k0 = int (bit_length n) - int (bit_length d) - 53;
          k1 = (let (a, b) = in_units n d k0 in if a < b * 2 ^ 53 then k0 else k0 + 1);
          k = max k1 (- 1074);
          (a, b) = in_units n d k;
          q = round_half_even a b;
          (m, e) = (if q = 2 ^ 53 then (2 ^ 52, k + 1) else (q, k));
          bits = (if m < 2 ^ 52 then m else nat (e + 1075) * 2 ^ 52 + (m - 2 ^ 52))
      in if e > 971 then None else Some (of_nat (bits + (if neg then 2 ^ 63 else 0))))"

definition ParseFloat :: "string \<Rightarrow> 64 word option" where
  "ParseFloat s =
     (let neg = (take 1 s = ''-''); u = (if neg then drop 1 s else s);
          ip = takeWhile is_digit u; r = dropWhile is_digit u;
          fp = (if take 1 r = ''.'' then takeWhile is_digit (drop 1 r) else []);
          r' = (if take 1 r = ''.'' then dropWhile is_digit (drop 1 r) else r);
          x = (if r' = [] then 0
               else let y = drop 1 r'
                    in if take 1 y = ''-'' then - int (digits_val (drop 1 y))
                       else if take 1 y = ''+'' then int (digits_val (drop 1 y)) else int (digits_val y));
          n = digits_val (ip @ fp); e = x - int (length fp)
      in nearest_float64 neg (n * 10 ^ nat e) (10 ^ nat (- e)))"

end
