(* ===== verification/Strconv.thy ===== *)
theory Strconv
  imports JsonText
begin

text \<open>
  \<^verbatim>\<open>strconv.ParseInt(s, 10, 64)\<close> and \<^verbatim>\<open>strconv.ParseFloat(s, 64)\<close> on any text; None where they return an
  error, also the one for a value out of range.
\<close>

definition ParseInt10 :: "string \<Rightarrow> int option" where
  "ParseInt10 s =
     (let neg = take 1 s = ''-''; ds = (if take 1 s = ''-'' \<or> take 1 s = ''+'' then drop 1 s else s);
          v = (if neg then - int (digits_val ds) else int (digits_val ds))
      in if ds = [] \<or> \<not> list_all is_digit ds then None
         else if v < - (2 ^ 63) \<or> 2 ^ 63 \<le> v then None else Some v)"

text \<open>The names of the values that are not numbers, in any case; NaN takes no sign.\<close>

definition special_float :: "string \<Rightarrow> 64 word option" where
  "special_float s =
     (let u = (if take 1 s = ''-'' \<or> take 1 s = ''+'' then drop 1 s else s)
      in if to_lower u = ''inf'' \<or> to_lower u = ''infinity''
         then Some (if take 1 s = ''-'' then 0xFFF0000000000000 else 0x7FF0000000000000)
         else if to_lower s = ''nan'' then Some 0x7FF8000000000001 else None)"

definition is_hex :: "char \<Rightarrow> bool" where
  "is_hex c \<longleftrightarrow> is_digit c \<or> 97 \<le> byte (lower_byte c) \<and> byte (lower_byte c) \<le> 102"

definition hex_val :: "char \<Rightarrow> nat" where
  "hex_val c = (if is_digit c then byte c - 48 else byte (lower_byte c) - 87)"

text \<open>The digits of a mantissa, how many of them follow the point, and what is left of the text.\<close>

fun scan_mantissa :: "bool \<Rightarrow> bool \<Rightarrow> string \<Rightarrow> nat \<Rightarrow> string \<Rightarrow> string \<times> nat \<times> string" where
  "scan_mantissa hex dot ds fr [] = (ds, fr, [])"
| "scan_mantissa hex dot ds fr (c # cs) =
     (if c = CHR ''_'' then scan_mantissa hex dot ds fr cs
      else if c = CHR ''.'' then (if dot then (ds, fr, c # cs) else scan_mantissa hex True ds fr cs)
      else if is_digit c \<or> hex \<and> is_hex c
        then scan_mantissa hex dot (ds @ [c]) (if dot then fr + 1 else fr) cs
      else (ds, fr, c # cs))"

text \<open>The digits of an exponent; beyond five of them the value is not followed further.\<close>

definition exp_val :: "string \<Rightarrow> nat" where
  "exp_val s = foldl (\<lambda>e c. if c = CHR ''_'' then e else if e < 10000 then 10 * e + (byte c - 48) else e) 0 s"

definition scan_exponent :: "bool \<Rightarrow> string \<Rightarrow> int option" where
  "scan_exponent hex s =
     (if s = [] then (if hex then None else Some 0)
      else if lower_byte (hd s) \<noteq> (if hex then CHR ''p'' else CHR ''e'') then None
      else let t = tl s; neg = take 1 t = ''-''; ds = (if neg \<or> take 1 t = ''+'' then drop 1 t else t)
           in if ds = [] \<or> \<not> is_digit (hd ds) \<or> \<not> list_all (\<lambda>c. is_digit c \<or> c = CHR ''_'') ds then None
              else Some (if neg then - int (exp_val ds) else int (exp_val ds)))"

text \<open>\<^verbatim>\<open>underscoreOK\<close>: an underscore stands between digits, or between a base prefix and a digit. The state
  is the kind of the last character: a digit, an underscore, or another one.\<close>

fun underscores_ok :: "bool \<Rightarrow> char \<Rightarrow> string \<Rightarrow> bool" where
  "underscores_ok hex i [] = (i \<noteq> CHR ''_'')"
| "underscores_ok hex i (c # cs) =
     (if is_digit c \<or> hex \<and> is_hex c then underscores_ok hex CHR ''0'' cs
      else if c = CHR ''_'' then i = CHR ''0'' \<and> underscores_ok hex CHR ''_'' cs
      else i \<noteq> CHR ''_'' \<and> underscores_ok hex CHR ''!'' cs)"

definition underscoreOK :: "string \<Rightarrow> bool" where
  "underscoreOK s =
     (let u = (if take 1 s = ''-'' \<or> take 1 s = ''+'' then drop 1 s else s); p = to_lower (take 2 u)
      in if p = ''0x'' \<or> p = ''0b'' \<or> p = ''0o'' then underscores_ok (p = ''0x'') CHR ''0'' (drop 2 u)
         else underscores_ok False CHR ''^'' u)"

definition ParseFloat_text :: "string \<Rightarrow> 64 word option" where
  "ParseFloat_text s =
     (case special_float s of
        Some w \<Rightarrow> Some w
      | None \<Rightarrow>
          (let neg = take 1 s = ''-''; u = (if neg \<or> take 1 s = ''+'' then drop 1 s else s);
               hex = (to_lower (take 2 u) = ''0x'' \<and> 2 < length u);
               (ds, fr, r) = scan_mantissa hex False [] 0 (if hex then drop 2 u else u)
           in if ds = [] then None
              else if CHR ''_'' \<in> set s \<and> \<not> underscoreOK s then None
              else case scan_exponent hex r of
                     None \<Rightarrow> None
                   | Some e \<Rightarrow>
                       (let n = foldl (\<lambda>n c. (if hex then 16 else 10) * n + hex_val c) 0 ds;
                            b = (if hex then 2 else 10) :: nat; x = (if hex then e - 4 * int fr else e - int fr)
                        in nearest_float64 neg (n * b ^ nat x) (b ^ nat (- x)))))"


end
