(* ===== verification/Effects.thy ===== *)
theory Effects
  imports GoBase "HOL-Library.State_Monad"
begin

text \<open>
  Code that calls other systems is a state monad over what those systems hold, or over the list of
  calls made so far. \<open>emits J m\<close> says that all the calls \<open>m\<close> adds to the list satisfy \<open>J\<close>; its rules
  follow the structure of the code.
\<close>

named_theorems emits_intros

definition emits :: "('c \<Rightarrow> bool) \<Rightarrow> ('c list, 'a) state \<Rightarrow> bool" where
  "emits J m \<longleftrightarrow> (\<forall>w. \<exists>es. snd (run_state m w) = w @ es \<and> (\<forall>e\<in>set es. J e))"

lemma emits_return [emits_intros, simp]: "emits J (State_Monad.return x)"
  by (simp add: emits_def)

lemma emits_bind [emits_intros]:
  assumes m: "emits J m" and f: "\<And>w x w'. run_state m w = (x, w') \<Longrightarrow> emits J (f x)"
  shows "emits J (State_Monad.bind m f)"
  unfolding emits_def
proof
  fix w
  obtain x w' where x: "run_state m w = (x, w')" by fastforce
  obtain es where es: "w' = w @ es" "\<forall>e\<in>set es. J e" using m x unfolding emits_def by (metis snd_conv)
  obtain fs where fs: "snd (run_state (f x) w') = w' @ fs" "\<forall>e\<in>set fs. J e" using f[OF x] unfolding emits_def by blast
  show "\<exists>es. snd (run_state (State_Monad.bind m f) w) = w @ es \<and> (\<forall>e\<in>set es. J e)"
    by (rule exI[of _ "es @ fs"]) (use x es fs in auto)
qed

lemma emits_sum [emits_intros]:
  "(\<And>e. r = Inl e \<Longrightarrow> emits J (f e)) \<Longrightarrow> (\<And>x. r = Inr x \<Longrightarrow> emits J (g x)) \<Longrightarrow>
   emits J (case r of Inl e \<Rightarrow> f e | Inr x \<Rightarrow> g x)"
  by (cases r) auto

lemma emits_option [emits_intros]:
  "(r = None \<Longrightarrow> emits J m) \<Longrightarrow> (\<And>x. r = Some x \<Longrightarrow> emits J (g x)) \<Longrightarrow>
   emits J (case r of None \<Rightarrow> m | Some x \<Rightarrow> g x)"
  by (cases r) auto

lemma emits_if [emits_intros]:
  "(b \<Longrightarrow> emits J m) \<Longrightarrow> (\<not> b \<Longrightarrow> emits J n) \<Longrightarrow> emits J (if b then m else n)"
  by simp

lemma emits_prod [emits_intros]:
  "(\<And>x y. p = (x, y) \<Longrightarrow> emits J (f x y)) \<Longrightarrow> emits J (case p of (x, y) \<Rightarrow> f x y)"
  by (cases p) auto

lemma emits_let [emits_intros]: "(\<And>x. x = a \<Longrightarrow> emits J (f x)) \<Longrightarrow> emits J (let x = a in f x)"
  by simp

text \<open>One call: it is recorded, and answered in view of all calls before it.\<close>

definition answer :: "('c list \<Rightarrow> 'r) \<Rightarrow> 'c \<Rightarrow> ('c list, 'r) state" where
  "answer reply c = State (\<lambda>w. (reply w, w @ [c]))"

lemma run_answer [simp]: "run_state (answer reply c) w = (reply w, w @ [c])"
  by (simp add: answer_def)

lemma emits_answer [emits_intros]: "J c \<Longrightarrow> emits J (answer reply c)"
  by (simp add: emits_def)

lemma emits_mono: "emits J m \<Longrightarrow> (\<And>e. J e \<Longrightarrow> K e) \<Longrightarrow> emits K m"
  unfolding emits_def by blast

lemma emitsD: "emits J m \<Longrightarrow> run_state m w = (x, w') \<Longrightarrow> \<exists>es. w' = w @ es \<and> (\<forall>e\<in>set es. J e)"
  unfolding emits_def by (metis snd_conv)

end
