(* ===== verification/Machine.thy ===== *)
theory Machine
  imports Main
begin

text \<open>
  Components that keep state across concurrent calls are transition systems. The locale is the
  contract an invariant of such a system meets, and its lemma is what every safety proof uses.
\<close>

locale machine =
  fixes start :: "'s \<Rightarrow> bool" and step :: "'s \<Rightarrow> 's \<Rightarrow> bool" and invariant :: "'s \<Rightarrow> bool"
  assumes start_invariant: "start s \<Longrightarrow> invariant s"
    and step_invariant: "invariant s \<Longrightarrow> step s t \<Longrightarrow> invariant t"
begin

lemma steps_invariant: "step\<^sup>*\<^sup>* s t \<Longrightarrow> invariant s \<Longrightarrow> invariant t"
  by (induction rule: rtranclp_induct) (auto intro: step_invariant)

lemma reachable_invariant: "start s \<Longrightarrow> step\<^sup>*\<^sup>* s t \<Longrightarrow> invariant t"
  using steps_invariant start_invariant by blast

end

text \<open>A system driven by a list of events, one at a time.\<close>

locale event_machine =
  fixes handle :: "'s \<Rightarrow> 'e \<Rightarrow> 's" and invariant :: "'s \<Rightarrow> bool" and view :: "'s \<Rightarrow> 'a" and spec :: "'a \<Rightarrow> 'e \<Rightarrow> 'a"
  assumes handle_invariant: "invariant s \<Longrightarrow> invariant (handle s e)"
    and handle_view: "invariant s \<Longrightarrow> view (handle s e) = spec (view s) e"
begin

lemma run_invariant: "invariant s \<Longrightarrow> invariant (foldl handle s es)"
  by (induction es arbitrary: s) (auto intro: handle_invariant)

lemma run_view: "invariant s \<Longrightarrow> view (foldl handle s es) = foldl spec (view s) es"
  by (induction es arbitrary: s) (auto simp: handle_view handle_invariant)

end

end
