(* ===== verification/Emitter.thy ===== *)
theory Emitter
  imports GoValues
begin

text \<open>
  The SQL dialect boundary: \<^verbatim>\<open>internal/emitter\<close> and its two implementations, Trino and
  StarRocks. A \<open>dialect\<close> is the Go interface as a record of its methods. What the planner
  relies on is that quoting is unambiguous: an engine that reads a quoted identifier or a
  string literal gets back exactly the text that was quoted and stops exactly where the
  quoted text stops. The locale \<open>quoting\<close> states that contract against a reader and derives
  what the planner uses; both dialects interpret it.
\<close>

section \<open>The interface\<close>

datatype literal_error = UnsupportedLiteral

record dialect =
  dialect_name :: string
  QuoteIdent :: "string \<Rightarrow> string"
  QualifyTable :: "string \<Rightarrow> string \<Rightarrow> string \<Rightarrow> string"
  Literal :: "go_value \<Rightarrow> (literal_error, string) result"
  DateTrunc :: "string \<Rightarrow> string \<Rightarrow> string"
  NullSafeEq :: "string \<Rightarrow> string \<Rightarrow> string"
  CreateSchema :: "string \<Rightarrow> string"

section \<open>Trino\<close>

definition quote_with :: "char \<Rightarrow> string \<Rightarrow> string" where
  "quote_with q s = [q] @ replace_char q [q, q] s @ [q]"

definition trino_QuoteIdent :: "string \<Rightarrow> string" where
  "trino_QuoteIdent ident = quote_with dquote_ch ident"

definition trino_QualifyTable :: "string \<Rightarrow> string \<Rightarrow> string \<Rightarrow> string" where
  "trino_QualifyTable catalog database table =
     trino_QuoteIdent catalog @ ''.'' @ trino_QuoteIdent database @ ''.'' @ trino_QuoteIdent table"

definition float64_literal :: "64 word \<Rightarrow> string" where
  "float64_literal x =
     (case as_int64 (float64 x) of Some i \<Rightarrow> int_str i | None \<Rightarrow> fmt_g (float64 x))"

fun trino_Literal :: "go_value \<Rightarrow> (literal_error, string) result" where
  "trino_Literal VNil = Inr ''NULL''"
| "trino_Literal (VString x) = Inr (quote_with quote_ch x)"
| "trino_Literal (VBool x) = Inr (if x then ''TRUE'' else ''FALSE'')"
| "trino_Literal (VInt x) = Inr (int_str x)"
| "trino_Literal (VInt32 x) = Inr (int_str x)"
| "trino_Literal (VInt64 x) = Inr (int_str x)"
| "trino_Literal (VFloat32 x) = Inr (fmt_g (float32 x))"
| "trino_Literal (VFloat64 x) = Inr (float64_literal x)"
| "trino_Literal (VTime x) = Inr (''TIMESTAMP '' @ [quote_ch] @ time_str x @ [quote_ch])"
| "trino_Literal _ = Inl UnsupportedLiteral"

definition date_trunc_sql :: "string \<Rightarrow> string \<Rightarrow> string" where
  "date_trunc_sql grain scalar =
     ''DATE_TRUNC('' @ [quote_ch] @ grain @ [quote_ch] @ '', '' @ scalar @ '')''"

definition trino_NullSafeEq :: "string \<Rightarrow> string \<Rightarrow> string" where
  "trino_NullSafeEq a b = a @ '' IS NOT DISTINCT FROM '' @ b"

definition trino_CreateSchema :: "string \<Rightarrow> string" where
  "trino_CreateSchema quotedSchema = ''CREATE SCHEMA IF NOT EXISTS '' @ quotedSchema"

definition trino :: dialect where
  "trino = \<lparr>dialect_name = ''trino'', QuoteIdent = trino_QuoteIdent,
            QualifyTable = trino_QualifyTable, Literal = trino_Literal,
            DateTrunc = date_trunc_sql, NullSafeEq = trino_NullSafeEq,
            CreateSchema = trino_CreateSchema\<rparr>"

section \<open>StarRocks\<close>

definition starrocks_QuoteIdent :: "string \<Rightarrow> string" where
  "starrocks_QuoteIdent ident = quote_with backtick_ch ident"

definition starrocks_QualifyTable :: "string \<Rightarrow> string \<Rightarrow> string \<Rightarrow> string" where
  "starrocks_QualifyTable catalog database table =
     starrocks_QuoteIdent catalog @ ''.'' @ starrocks_QuoteIdent database @ ''.'' @ starrocks_QuoteIdent table"

definition starrocks_string :: "string \<Rightarrow> string" where
  "starrocks_string x =
     quote_with quote_ch (replace_char backslash_ch [backslash_ch, backslash_ch] x)"

fun starrocks_Literal :: "go_value \<Rightarrow> (literal_error, string) result" where
  "starrocks_Literal VNil = Inr ''NULL''"
| "starrocks_Literal (VString x) = Inr (starrocks_string x)"
| "starrocks_Literal (VBool x) = Inr (if x then ''TRUE'' else ''FALSE'')"
| "starrocks_Literal (VInt x) = Inr (int_str x)"
| "starrocks_Literal (VInt32 x) = Inr (int_str x)"
| "starrocks_Literal (VInt64 x) = Inr (int_str x)"
| "starrocks_Literal (VFloat32 x) = Inr (fmt_g (float32 x))"
| "starrocks_Literal (VFloat64 x) = Inr (float64_literal x)"
| "starrocks_Literal (VTime x) = Inr ([quote_ch] @ time_str x @ [quote_ch])"
| "starrocks_Literal _ = Inl UnsupportedLiteral"

definition starrocks_NullSafeEq :: "string \<Rightarrow> string \<Rightarrow> string" where
  "starrocks_NullSafeEq a b = a @ '' <=> '' @ b"

definition starrocks_CreateSchema :: "string \<Rightarrow> string" where
  "starrocks_CreateSchema quotedSchema = ''CREATE DATABASE IF NOT EXISTS '' @ quotedSchema"

definition starrocks :: dialect where
  "starrocks = \<lparr>dialect_name = ''starrocks'', QuoteIdent = starrocks_QuoteIdent,
                QualifyTable = starrocks_QualifyTable, Literal = starrocks_Literal,
                DateTrunc = date_trunc_sql, NullSafeEq = starrocks_NullSafeEq,
                CreateSchema = starrocks_CreateSchema\<rparr>"

section \<open>The registry\<close>

datatype emitter_error = UnknownDialect string

definition Register :: "(string \<rightharpoonup> dialect) \<Rightarrow> dialect \<Rightarrow> (string \<rightharpoonup> dialect)" where
  "Register registry d = registry(dialect_name d \<mapsto> d)"

definition Get :: "(string \<rightharpoonup> dialect) \<Rightarrow> string \<Rightarrow> (emitter_error, dialect) result" where
  "Get registry name =
     (case registry name of None \<Rightarrow> Inl (UnknownDialect name) | Some d \<Rightarrow> Inr d)"

section \<open>How an engine reads quoted text\<close>

text \<open>
  The reader of standard SQL: from just after an opening quote, a doubled quote is one
  quote character and a single one ends the text. The result is the text and what follows.
\<close>

fun read_quoted :: "char \<Rightarrow> string \<Rightarrow> (string \<times> string) option" where
  "read_quoted q [] = None"
| "read_quoted q (c # cs) =
     (if c \<noteq> q then map_option (\<lambda>(t, r). (c # t, r)) (read_quoted q cs)
      else (case cs of
              [] \<Rightarrow> Some ([], [])
            | d # ds \<Rightarrow> if d = q then map_option (\<lambda>(t, r). (q # t, r)) (read_quoted q ds)
                       else Some ([], d # ds)))"

text \<open>The reader of the MySQL family, where a backslash escapes the next character.\<close>

definition mysql_escape :: "char \<Rightarrow> string" where
  "mysql_escape c =
     (if c = CHR ''0'' then [CHR 0x00] else if c = CHR ''b'' then [CHR 0x08]
      else if c = CHR ''n'' then [CHR 0x0A] else if c = CHR ''r'' then [CHR 0x0D]
      else if c = CHR ''t'' then [CHR 0x09] else if c = CHR ''Z'' then [CHR 0x1A]
      else if c = CHR ''%'' \<or> c = CHR ''_'' then [backslash_ch, c] else [c])"

fun read_mysql :: "string \<Rightarrow> (string \<times> string) option" where
  "read_mysql [] = None"
| "read_mysql (c # cs) =
     (if c = backslash_ch then
        (case cs of [] \<Rightarrow> None
         | d # ds \<Rightarrow> map_option (\<lambda>(t, r). (mysql_escape d @ t, r)) (read_mysql ds))
      else if c \<noteq> quote_ch then map_option (\<lambda>(t, r). (c # t, r)) (read_mysql cs)
      else (case cs of
              [] \<Rightarrow> Some ([], [])
            | d # ds \<Rightarrow> if d = quote_ch then map_option (\<lambda>(t, r). (quote_ch # t, r)) (read_mysql ds)
                       else Some ([], d # ds)))"

definition stops :: "char \<Rightarrow> string \<Rightarrow> bool" where
  "stops q rest \<longleftrightarrow> (rest = [] \<or> hd rest \<noteq> q)"

text \<open>The contract of a quoting function: its reader undoes it, whatever may follow.\<close>

locale quoting =
  fixes quote :: "string \<Rightarrow> string" and q :: char
    and read :: "string \<Rightarrow> (string \<times> string) option"
  assumes starts: "\<exists>t. quote s = q # t"
    and reads: "stops q rest \<Longrightarrow> read (tl (quote s @ rest)) = Some (s, rest)"
begin

lemma quote_not_Nil: "quote s \<noteq> []"
  using starts[of s] by auto

lemma quote_inject: "quote s = quote t \<longleftrightarrow> s = t"
proof
  assume "quote s = quote t"
  then show "s = t" using reads[of "[]" s] reads[of "[]" t] by (simp add: stops_def)
qed simp

lemma quote_prefix_free:
  assumes "quote s @ u = quote t @ v" "stops q u" "stops q v"
  shows "s = t \<and> u = v"
proof -
  have "Some (s, u) = Some (t, v)"
    using reads[OF assms(2), of s] reads[OF assms(3), of t] by (simp only: assms(1))
  then show ?thesis by simp
qed

lemma dotted_inject:
  assumes "q \<noteq> CHR ''.''"
    and "quote a @ ''.'' @ quote b @ ''.'' @ quote c = quote a' @ ''.'' @ quote b' @ ''.'' @ quote c'"
  shows "a = a' \<and> b = b' \<and> c = c'"
proof -
  have st: "stops q (''.'' @ x)" for x using assms(1) by (simp add: stops_def)
  from quote_prefix_free[OF assms(2) st st] have 1: "a = a'"
    and 2: "quote b @ ''.'' @ quote c = quote b' @ ''.'' @ quote c'" by auto
  from quote_prefix_free[OF 2 st st] have "b = b'" and "quote c = quote c'" by auto
  with 1 show ?thesis by (simp add: quote_inject)
qed

end

lemma read_quoted_body:
  "stops q rest \<Longrightarrow> read_quoted q (replace_char q [q, q] s @ q # rest) = Some (s, rest)"
  by (induction s) (auto simp: stops_def split: list.splits)

lemma read_mysql_body:
  "stops quote_ch rest \<Longrightarrow>
   read_mysql (replace_char quote_ch [quote_ch, quote_ch]
     (replace_char backslash_ch [backslash_ch, backslash_ch] s) @ quote_ch # rest) = Some (s, rest)"
proof (induction s)
  case Nil
  then show ?case by (auto simp: stops_def special_chars split: list.splits)
next
  case (Cons c s)
  have ne: "backslash_ch \<noteq> quote_ch" "mysql_escape backslash_ch = [backslash_ch]"
    by (simp_all add: special_chars mysql_escape_def)
  from Cons.IH[OF Cons.prems] show ?case using ne by auto
qed

lemma quoting_quote_with: "quoting (quote_with q) q (read_quoted q)"
  by unfold_locales (auto simp: quote_with_def read_quoted_body)

interpretation trino_ident: quoting trino_QuoteIdent dquote_ch "read_quoted dquote_ch"
  using quoting_quote_with[of dquote_ch] by (simp add: trino_QuoteIdent_def[abs_def])

interpretation starrocks_ident: quoting starrocks_QuoteIdent backtick_ch "read_quoted backtick_ch"
  using quoting_quote_with[of backtick_ch] by (simp add: starrocks_QuoteIdent_def[abs_def])

interpretation trino_lit: quoting "\<lambda>s. quote_with quote_ch s" quote_ch "read_quoted quote_ch"
  by (rule quoting_quote_with)

interpretation starrocks_lit: quoting starrocks_string quote_ch read_mysql
  by unfold_locales (auto simp: starrocks_string_def quote_with_def read_mysql_body)

text \<open>
  C31. A string value survives both dialects: the literal either dialect renders for it is
  read back by that engine's string reader as exactly the value, and the reader stops
  exactly at the end of the literal. So no request value and no claim value can close
  the literal it is put in.
\<close>

theorem literal_roundtrip:
  "stops quote_ch rest \<Longrightarrow>
     (\<exists>t. Literal trino (VString s) = Inr (quote_ch # t) \<and> read_quoted quote_ch (t @ rest) = Some (s, rest)) \<and>
     (\<exists>t. Literal starrocks (VString s) = Inr (quote_ch # t) \<and> read_mysql (t @ rest) = Some (s, rest))"
  using trino_lit.reads[of rest s] starrocks_lit.reads[of rest s]
  by (auto simp: trino_def starrocks_def quote_with_def starrocks_string_def)

theorem literal_roundtrip_witness:
  "stops quote_ch '' OR 1=1'' \<and>
   (\<exists>t. Literal trino (VString (''x'' @ [quote_ch])) = Inr (quote_ch # t) \<and>
        read_quoted quote_ch (t @ '' OR 1=1'') = Some (''x'' @ [quote_ch], '' OR 1=1''))"
proof -
  have h: "stops quote_ch '' OR 1=1''" by (simp add: stops_def quote_ch_def)
  from literal_roundtrip[OF h, of "''x'' @ [quote_ch]"] h show ?thesis by blast
qed

end
