(* ===== verification/ApiTypes.thy ===== *)
theory ApiTypes
  imports GoJson
begin

text \<open>
  The SemanticModel resource of \<^verbatim>\<open>api/v1alpha1\<close>: the Go structs as records, field by field, and the
  lookup helpers. A pointer to a struct is an option (None is nil); a slice is a list; a raw
  JSON value is its text.
\<close>

section \<open>Types\<close>

record ConnectionSpec =
  conn_Catalog :: string
  conn_Database :: string
  conn_ViewDatabase :: string

record DialectExpression =
  de_Dialect :: string
  de_Expression :: string

record Dimension =
  dim_IsTime :: bool

record CustomExtension =
  ce_VendorName :: string
  ce_Data :: string

record Field =
  f_Name :: string
  f_Expression :: "DialectExpression list"
  f_Dimension :: "Dimension option"
  f_Label :: string
  f_Description :: string
  f_AIContext :: "string option"
  f_CustomExtensions :: "CustomExtension list"

record Dataset =
  d_Name :: string
  d_Source :: string
  d_PrimaryKey :: "string list"
  d_UniqueKeys :: "string list list"
  d_Description :: string
  d_AIContext :: "string option"
  d_Fields :: "Field list"
  d_CustomExtensions :: "CustomExtension list"

record Relationship =
  r_Name :: string
  r_From :: string
  r_To :: string
  r_FromColumns :: "string list"
  r_ToColumns :: "string list"
  r_AIContext :: "string option"
  r_CustomExtensions :: "CustomExtension list"

record RelationshipJoin =
  rj_Relationship :: string
  rj_Type :: string

record Metric =
  mt_Name :: string
  mt_Expression :: "DialectExpression list"
  mt_Description :: string
  mt_AIContext :: "string option"
  mt_CustomExtensions :: "CustomExtension list"

record OssieModel =
  om_Name :: string
  om_Description :: string
  om_AIContext :: "string option"
  om_Datasets :: "Dataset list"
  om_Relationships :: "Relationship list"
  om_Metrics :: "Metric list"
  om_CustomExtensions :: "CustomExtension list"

record RowFilter =
  rf_Dataset :: string
  rf_Predicate :: string

record RolePolicy =
  rp_Name :: string
  rp_AllowMetrics :: "string list"
  rp_DenyFields :: "string list"
  rp_RowFilters :: "RowFilter list"

record ExternalAuthorizationSpec =
  ext_ProviderRef :: string

record GovernanceSpec =
  g_DefaultRole :: string
  g_Roles :: "RolePolicy list"
  g_External :: "ExternalAuthorizationSpec option"

record ViewFilter =
  vf_Field :: string
  vf_Op :: string
  vf_Value :: string
  vf_Values :: "string list"
  vf_ValueType :: string

record ViewSpec =
  v_Name :: string
  v_Metrics :: "string list"
  v_Dimensions :: "string list"
  v_Filters :: "ViewFilter list"
  v_TimeGrain :: string
  v_Role :: string

record SemanticModelSpec =
  s_Connection :: ConnectionSpec
  s_Ossie :: OssieModel
  s_Governance :: "GovernanceSpec option"
  s_Views :: "ViewSpec list"
  s_Joins :: "RelationshipJoin list"

section \<open>Helpers\<close>

definition DialectPreference :: "string list" where
  "DialectPreference = [''STARROCKS'', ''ANSI_SQL'']"

definition first_dialect :: "string \<Rightarrow> DialectExpression list \<Rightarrow> string option" where
  "first_dialect d des = map_option de_Expression (find (\<lambda>de. de_Dialect de = d) des)"

fun select_in :: "string list \<Rightarrow> DialectExpression list \<Rightarrow> string option" where
  "select_in [] des = None"
| "select_in (d # ds) des =
     (case first_dialect d des of Some e \<Rightarrow> Some e | None \<Rightarrow> select_in ds des)"

text \<open>\<^verbatim>\<open>Expression.Select\<close>: the body for the most preferred dialect present.\<close>

definition Select :: "DialectExpression list \<Rightarrow> string option" where
  "Select e = select_in DialectPreference e"

definition FindDataset :: "OssieModel \<Rightarrow> string \<Rightarrow> Dataset option" where
  "FindDataset m name = find (\<lambda>d. d_Name d = name) (om_Datasets m)"

definition FindField :: "Dataset \<Rightarrow> string \<Rightarrow> Field option" where
  "FindField d name = find (\<lambda>f. f_Name f = name) (d_Fields d)"

definition FindMetric :: "OssieModel \<Rightarrow> string \<Rightarrow> Metric option" where
  "FindMetric m name = find (\<lambda>mt. mt_Name mt = name) (om_Metrics m)"

text \<open>\<^verbatim>\<open>GovernanceSpec.Role\<close>, which is nil-safe in its receiver.\<close>

definition Role :: "GovernanceSpec option \<Rightarrow> string \<Rightarrow> RolePolicy option" where
  "Role g name =
     (case g of None \<Rightarrow> None | Some gs \<Rightarrow> find (\<lambda>r. rp_Name r = name) (g_Roles gs))"

lemma find_name: "find (\<lambda>x. f x = n) xs = Some y \<Longrightarrow> y \<in> set xs \<and> f y = n"
  by (auto simp: find_Some_iff)

lemma find_name_None: "find (\<lambda>x. f x = n) xs = None \<longleftrightarrow> n \<notin> f ` set xs"
  by (auto simp: find_None_iff)

lemma Role_Some: "Role (Some g) n = Some r \<Longrightarrow> r \<in> set (g_Roles g) \<and> rp_Name r = n"
  unfolding Role_def option.case by (rule find_name)

lemma Select_Some_iff:
  "Select e \<noteq> None \<longleftrightarrow> (\<exists>de\<in>set e. de_Dialect de \<in> {''STARROCKS'', ''ANSI_SQL''})"
proof -
  have fd: "first_dialect d e = None \<longleftrightarrow> d \<notin> de_Dialect ` set e" for d
    using find_name_None[of de_Dialect d e] by (auto simp: first_dialect_def)
  have "Select e = None \<longleftrightarrow> first_dialect ''STARROCKS'' e = None \<and> first_dialect ''ANSI_SQL'' e = None"
    by (simp add: Select_def DialectPreference_def split: option.splits)
  then show ?thesis unfolding fd by force
qed

section \<open>ai\_context\<close>

record AIContext =
  ai_Instructions :: string
  ai_Synonyms :: "string list"
  ai_Examples :: "string list"

definition empty_AIContext :: AIContext where
  "empty_AIContext = \<lparr>ai_Instructions = [], ai_Synonyms = [], ai_Examples = []\<rparr>"

text \<open>Decoding one JSON value into a Go string field or string slice that already holds a value. A
  value of another type leaves the destination as it was (the error is reported at the end
  and dropped by the caller); a null empties a slice and keeps a string.\<close>

fun decode_string :: "string \<Rightarrow> json \<Rightarrow> string" where
  "decode_string old (JStr s) = s"
| "decode_string old _ = old"

fun decode_strings_at :: "string list \<Rightarrow> json list \<Rightarrow> string list" where
  "decode_strings_at old [] = []"
| "decode_strings_at [] (v # vs) = decode_string [] v # decode_strings_at [] vs"
| "decode_strings_at (o1 # old) (v # vs) = decode_string o1 v # decode_strings_at old vs"

fun decode_strings :: "string list \<Rightarrow> json \<Rightarrow> string list" where
  "decode_strings old (JArr vs) = decode_strings_at old vs"
| "decode_strings old JNull = []"
| "decode_strings old _ = old"

definition ai_member :: "AIContext \<Rightarrow> string \<times> json \<Rightarrow> AIContext" where
  "ai_member c kv =
     (let (k, v) = kv
      in if equal_fold k ''instructions'' then c\<lparr>ai_Instructions := decode_string (ai_Instructions c) v\<rparr>
         else if equal_fold k ''synonyms'' then c\<lparr>ai_Synonyms := decode_strings (ai_Synonyms c) v\<rparr>
         else if equal_fold k ''examples'' then c\<lparr>ai_Examples := decode_strings (ai_Examples c) v\<rparr>
         else c)"

definition DecodeAIContext :: "string option \<Rightarrow> AIContext" where
  "DecodeAIContext raw =
     (case raw of
        None \<Rightarrow> empty_AIContext
      | Some r \<Rightarrow>
          if r = [] then empty_AIContext
          else (case json_parse r of
             Some (JStr s) \<Rightarrow> empty_AIContext\<lparr>ai_Instructions := s\<rparr>
           | Some (JObj kvs) \<Rightarrow> foldl ai_member empty_AIContext kvs
           | _ \<Rightarrow> empty_AIContext))"

end
