(* ===== verification/Expr.thy ===== *)
theory Expr
  imports GoBase
begin

text \<open>
  \<^verbatim>\<open>internal/planner/expr/expr.go\<close>: the bounded grammar of metric expressions and the three
  scanners over SQL scalars. Go indexes a string with a position that only grows; here each
  loop consumes the rest of the string, so the termination measure is its length. The
  scanners are separate loops in the source and separate functions here; that they cut a
  scalar into the same tokens is a theorem, not a definition.
\<close>

section \<open>Types\<close>

record FieldRef =
  fr_Dataset :: string
  fr_Field :: string

definition FieldRef_String :: "FieldRef \<Rightarrow> string" where
  "FieldRef_String r = fr_Dataset r @ ''.'' @ fr_Field r"

record AggTerm =
  t_Func :: string
  t_Distinct :: bool
  t_Scalar :: string
  t_Refs :: "FieldRef list"

record MetricExpr =
  me_Numerator :: AggTerm
  me_Denominator :: "AggTerm option"

definition Datasets :: "MetricExpr \<Rightarrow> string list" where
  "Datasets m =
     sort (remdups (map fr_Dataset (t_Refs (me_Numerator m)) @
       (case me_Denominator m of None \<Rightarrow> [] | Some d \<Rightarrow> map fr_Dataset (t_Refs d))))"

datatype expr_error =
    UnexpectedAfterTerm string
  | TrailingInput string
  | ExpectedParen string
  | ExpectedNullifComma
  | ExpectedNullifClose
  | ExpectedAggregate string
  | Unbalanced
  | EmptyArgument string
  | NoReference string string
  | BareIdentifier string string

definition aggFuncs :: "string list" where
  "aggFuncs = [''SUM'', ''COUNT'', ''AVG'', ''MIN'', ''MAX'']"

definition sqlKeywords :: "string list" where
  "sqlKeywords =
     [''AND'', ''OR'', ''NOT'', ''NULL'', ''CASE'', ''WHEN'', ''THEN'', ''ELSE'', ''END'', ''IN'',
      ''IS'', ''LIKE'', ''BETWEEN'', ''DISTINCT'', ''TRUE'', ''FALSE'', ''INTERVAL'', ''AS'',
      ''DIV'', ''MOD'']"

definition isIdentStart :: "char \<Rightarrow> bool" where
  "isIdentStart c \<longleftrightarrow> c = CHR ''_'' \<or> is_lower c \<or> is_upper c"

definition isIdentChar :: "char \<Rightarrow> bool" where
  "isIdentChar c \<longleftrightarrow> c = CHR ''_'' \<or> is_lower c \<or> is_upper c \<or> is_digit c"

definition isNumeric :: "string \<Rightarrow> bool" where
  "isNumeric s \<longleftrightarrow> (\<forall>c\<in>set s. is_digit c) \<and> s \<noteq> []"

lemma isIdentStart_isIdentChar [simp]: "isIdentStart c \<Longrightarrow> isIdentChar c"
  by (auto simp: isIdentStart_def isIdentChar_def)

lemma ident_specials [simp]:
  "\<not> isIdentChar quote_ch" "\<not> isIdentChar CHR ''.''" "\<not> isIdentChar CHR ''(''"
  "\<not> isIdentChar CHR '' ''" "\<not> isIdentStart quote_ch"
  by (simp_all add: isIdentChar_def isIdentStart_def byte_defs special_chars)

section \<open>Scanners\<close>

definition ident_word :: "string \<Rightarrow> string" where
  "ident_word s = takeWhile isIdentChar s"

definition ident_rest :: "string \<Rightarrow> string" where
  "ident_rest s = dropWhile isIdentChar s"

text \<open>\<open>has_field rest\<close>: the loops' test that a dot and an identifier follow the word just read.\<close>

fun has_field :: "string \<Rightarrow> bool" where
  "has_field (d # c # cs) = (d = CHR ''.'' \<and> isIdentStart c)"
| "has_field _ = False"

definition skip_spaces :: "string \<Rightarrow> string" where
  "skip_spaces s = dropWhile is_space_byte s"

definition calls :: "string \<Rightarrow> bool" where
  "calls rest = (case skip_spaces rest of c # _ \<Rightarrow> c = CHR ''('' | [] \<Rightarrow> False)"

definition literal_body :: "string \<Rightarrow> string" where
  "literal_body cs = takeWhile (\<lambda>c. c \<noteq> quote_ch) cs"

definition literal_rest :: "string \<Rightarrow> string" where
  "literal_rest cs = dropWhile (\<lambda>c. c \<noteq> quote_ch) cs"

text \<open>\<^verbatim>\<open>scalar[start:i]\<close> of a string literal: up to and including the closing quote, or to the end.\<close>

definition literal_text :: "string \<Rightarrow> string" where
  "literal_text cs = quote_ch # literal_body cs @ take 1 (literal_rest cs)"

lemma ident_rest_le: "length (ident_rest s) \<le> length s"
  by (simp add: ident_rest_def length_dropWhile_le)

lemma literal_rest_le: "length (literal_rest s) \<le> length s"
  by (simp add: literal_rest_def length_dropWhile_le)

lemma ident_rest_less: "isIdentChar c \<Longrightarrow> length (ident_rest (c # cs)) < Suc (length cs)"
  using ident_rest_le[of cs] by (simp add: ident_rest_def)

lemma ident_split: "ident_word s @ ident_rest s = s"
  by (simp add: ident_word_def ident_rest_def)

lemma tl_ident_rest_less:
  "isIdentStart c \<Longrightarrow> length (ident_rest (tl (ident_rest (c # cs)))) < Suc (length cs)"
  by (metis ident_rest_le ident_rest_less isIdentStart_isIdentChar le_less_trans length_tl diff_le_self)

lemma drop_literal_less: "length (drop 1 (literal_rest cs)) < Suc (length cs)"
  using literal_rest_le[of cs] by (simp add: less_Suc_eq_le)

function ScanRefs_loop :: "string \<Rightarrow> string \<Rightarrow> FieldRef list \<Rightarrow> (expr_error, FieldRef list) result" where
  "ScanRefs_loop scalar [] refs = Inr refs"
| "ScanRefs_loop scalar (c # cs) refs =
     (if c = quote_ch then ScanRefs_loop scalar (drop 1 (literal_rest cs)) refs
      else if \<not> isIdentStart c then ScanRefs_loop scalar cs refs
      else
        let word = ident_word (c # cs); rest = ident_rest (c # cs)
        in if has_field rest then
             (let ref = \<lparr>fr_Dataset = word, fr_Field = ident_word (tl rest)\<rparr>
              in ScanRefs_loop scalar (ident_rest (tl rest))
                   (if ref \<in> set refs then refs else refs @ [ref]))
           else if calls rest \<or> to_upper word \<in> set sqlKeywords \<or> word = ''*'' then
             ScanRefs_loop scalar rest refs
           else Inl (BareIdentifier word scalar))"
  by pat_completeness auto
termination
  by (relation "measure (\<lambda>(_, s, _). length s)")
    (auto simp: ident_rest_less tl_ident_rest_less drop_literal_less[simplified])

definition ScanRefs :: "string \<Rightarrow> (expr_error, FieldRef list) result" where
  "ScanRefs scalar = ScanRefs_loop scalar scalar []"

text \<open>
  \<^verbatim>\<open>RewriteRefs(scalar, repl)\<close>. The callers pass a closure that also records the first error it
  meets, so \<open>repl\<close> takes and returns the state the closure captures.
\<close>

function RewriteRefs :: "(FieldRef \<Rightarrow> 's \<Rightarrow> string \<times> 's) \<Rightarrow> string \<Rightarrow> 's \<Rightarrow> string \<times> 's" where
  "RewriteRefs repl [] st = ([], st)"
| "RewriteRefs repl (c # cs) st =
     (if c = quote_ch then
        (let (out, st') = RewriteRefs repl (drop 1 (literal_rest cs)) st
         in (literal_text cs @ out, st'))
      else if \<not> isIdentStart c then
        (let (out, st') = RewriteRefs repl cs st in (c # out, st'))
      else
        let word = ident_word (c # cs); rest = ident_rest (c # cs)
        in if has_field rest then
             (let (r, st1) = repl \<lparr>fr_Dataset = word, fr_Field = ident_word (tl rest)\<rparr> st;
                  (out, st') = RewriteRefs repl (ident_rest (tl rest)) st1
              in (r @ out, st'))
           else (let (out, st') = RewriteRefs repl rest st in (word @ out, st')))"
  by pat_completeness auto
termination
  by (relation "measure (\<lambda>(_, s, _). length s)")
    (auto simp: ident_rest_less tl_ident_rest_less drop_literal_less[simplified])

text \<open>\<^verbatim>\<open>QualifyBareColumns\<close>; note that after \<^verbatim>\<open>a.\<close> the scan goes on at the next word.\<close>

function QualifyBareColumns :: "string \<Rightarrow> string \<Rightarrow> (string \<Rightarrow> string) \<Rightarrow> string" where
  "QualifyBareColumns [] quotedAlias quote = []"
| "QualifyBareColumns (c # cs) quotedAlias quote =
     (if c = quote_ch then
        literal_text cs @ QualifyBareColumns (drop 1 (literal_rest cs)) quotedAlias quote
      else if \<not> isIdentStart c then c # QualifyBareColumns cs quotedAlias quote
      else
        let word = ident_word (c # cs); rest = ident_rest (c # cs)
        in if rest \<noteq> [] \<and> hd rest = CHR ''.'' then
             word @ ''.'' @ QualifyBareColumns (tl rest) quotedAlias quote
           else if calls rest \<or> to_upper word \<in> set sqlKeywords then
             word @ QualifyBareColumns rest quotedAlias quote
           else if isNumeric word then word @ QualifyBareColumns rest quotedAlias quote
           else quotedAlias @ ''.'' @ quote word @ QualifyBareColumns rest quotedAlias quote)"
  by pat_completeness auto
termination
  by (relation "measure (\<lambda>(s, _, _). length s)")
    (auto simp: ident_rest_less drop_literal_less[simplified] less_imp_diff_less)

lemmas scanner_simps [simp del] =
  ScanRefs_loop.simps(2) RewriteRefs.simps(2) QualifyBareColumns.simps(2)

section \<open>The metric parser\<close>

text \<open>\<^verbatim>\<open>readBalanced\<close>: up to the parenthesis that closes depth one, past nested parentheses and
  string literals.\<close>

function readBalanced :: "nat \<Rightarrow> string \<Rightarrow> (string \<times> string) option" where
  "readBalanced depth [] = None"
| "readBalanced depth (c # cs) =
     (if c = quote_ch then
        map_option (\<lambda>(t, r). (literal_text cs @ t, r)) (readBalanced depth (drop 1 (literal_rest cs)))
      else if c = CHR ''('' then map_option (\<lambda>(t, r). (c # t, r)) (readBalanced (Suc depth) cs)
      else if c = CHR '')'' then
        (if depth = 1 then Some ([], cs)
         else map_option (\<lambda>(t, r). (c # t, r)) (readBalanced (depth - 1) cs))
      else map_option (\<lambda>(t, r). (c # t, r)) (readBalanced depth cs))"
  by pat_completeness auto
termination
  by (relation "measure (\<lambda>(_, s). length s)") (auto simp: drop_literal_less[simplified])

definition consume :: "char \<Rightarrow> 'e \<Rightarrow> string \<Rightarrow> ('e, string) result" where
  "consume c e s = (case s of d # ds \<Rightarrow> if d = c then Inr ds else Inl e | [] \<Rightarrow> Inl e)"

text \<open>The part of \<^verbatim>\<open>parseTerm\<close> after the parentheses: the argument text becomes a term.\<close>

definition term_argument :: "string \<Rightarrow> string \<Rightarrow> (expr_error, AggTerm) result" where
  "term_argument fn raw =
     (let inner0 = trim_space raw;
          distinct = (prefix ''DISTINCT'' (to_upper inner0) \<and> 8 < length inner0 \<and> is_space_byte (inner0 ! 8));
          inner = (if distinct then trim_space (drop 8 inner0) else inner0)
      in if inner = [] then Inl (EmptyArgument fn)
         else ebind (ScanRefs inner) (\<lambda>refs.
           if refs = [] \<and> inner \<noteq> ''*'' then Inl (NoReference fn inner)
           else Inr \<lparr>t_Func = fn, t_Distinct = distinct, t_Scalar = inner, t_Refs = refs\<rparr>))"

definition parseTerm :: "string \<Rightarrow> (expr_error, AggTerm \<times> string) result" where
  "parseTerm s =
     (let s1 = skip_spaces s; fn = to_upper (ident_word s1)
      in if fn \<notin> set aggFuncs then Inl (ExpectedAggregate fn)
         else ebind (consume CHR ''('' (ExpectedParen fn) (skip_spaces (ident_rest s1))) (\<lambda>s2.
           case readBalanced 1 s2 of
             None \<Rightarrow> Inl Unbalanced
           | Some (raw, rest) \<Rightarrow> ebind (term_argument fn raw) (\<lambda>t. Inr (t, rest))))"

definition number_char :: "char \<Rightarrow> bool" where
  "number_char c \<longleftrightarrow> is_digit c \<or> c = CHR ''.'' \<or> c = CHR ''-''"

definition readNumber :: "string \<Rightarrow> string" where
  "readNumber s = dropWhile number_char s"

definition parseDenom :: "string \<Rightarrow> (expr_error, AggTerm \<times> string) result" where
  "parseDenom s =
     (let s1 = skip_spaces s
      in if equal_fold (ident_word s1) ''NULLIF'' then
           ebind (consume CHR ''('' (ExpectedParen ''NULLIF'') (skip_spaces (ident_rest s1))) (\<lambda>s2.
           ebind (parseTerm s2) (\<lambda>(t, s3).
           ebind (consume CHR '','' ExpectedNullifComma (skip_spaces s3)) (\<lambda>s4.
           ebind (consume CHR '')'' ExpectedNullifClose (skip_spaces (readNumber (skip_spaces s4)))) (\<lambda>s5.
           Inr (t, s5)))))
         else parseTerm s1)"

definition Parse :: "string \<Rightarrow> (expr_error, MetricExpr) result" where
  "Parse s =
     ebind (parseTerm s) (\<lambda>(num, r).
       case skip_spaces r of
         [] \<Rightarrow> Inr \<lparr>me_Numerator = num, me_Denominator = None\<rparr>
       | c # cs \<Rightarrow>
           if c \<noteq> CHR ''/'' then Inl (UnexpectedAfterTerm (c # cs))
           else ebind (parseDenom cs) (\<lambda>(den, r2).
             if skip_spaces r2 \<noteq> [] then Inl (TrailingInput (skip_spaces r2))
             else Inr \<lparr>me_Numerator = num, me_Denominator = Some den\<rparr>))"

section \<open>What the scanners and the parser guarantee\<close>

text \<open>References are collected once each, in the order of their first occurrence.\<close>

lemma ScanRefs_loop_distinct:
  "ScanRefs_loop scalar s refs = Inr out \<Longrightarrow> distinct refs \<Longrightarrow> distinct out"
  by (induction scalar s refs rule: ScanRefs_loop.induct)
    (auto simp: ScanRefs_loop.simps(2) Let_def split: if_splits)

lemma ScanRefs_distinct: "ScanRefs s = Inr refs \<Longrightarrow> distinct refs"
  by (auto simp: ScanRefs_def dest: ScanRefs_loop_distinct)

text \<open>
  The tokens of a scalar, as \<open>RewriteRefs\<close> sees them: the references it asks its callback about.
\<close>

definition rewritten :: "string \<Rightarrow> FieldRef set \<Rightarrow> FieldRef set" where
  "rewritten s st = snd (RewriteRefs (\<lambda>r st. ([], insert r st)) s st)"

lemma rewritten_simps:
  "rewritten [] st = st"
  "rewritten (c # cs) st =
     (if c = quote_ch then rewritten (drop 1 (literal_rest cs)) st
      else if \<not> isIdentStart c then rewritten cs st
      else let word = ident_word (c # cs); rest = ident_rest (c # cs)
           in if has_field rest then
                rewritten (ident_rest (tl rest))
                  (insert \<lparr>fr_Dataset = word, fr_Field = ident_word (tl rest)\<rparr> st)
              else rewritten rest st)"
  by (auto simp: rewritten_def RewriteRefs.simps(2) Let_def split: prod.splits)

lemma ScanRefs_loop_rewritten:
  "ScanRefs_loop scalar s refs = Inr out \<Longrightarrow> rewritten s (set refs) = set out"
proof (induction scalar s refs rule: ScanRefs_loop.induct)
  case (1 scalar refs)
  then show ?case by (simp add: rewritten_simps)
next
  case (2 scalar c cs refs)
  let ?w = "ident_word (c # cs)" and ?r = "ident_rest (c # cs)"
  let ?ref = "\<lparr>fr_Dataset = ?w, fr_Field = ident_word (tl ?r)\<rparr>"
  consider (lit) "c = quote_ch" | (other) "c \<noteq> quote_ch" "\<not> isIdentStart c"
    | (ref) "c \<noteq> quote_ch" "isIdentStart c" "has_field ?r"
    | (word) "c \<noteq> quote_ch" "isIdentStart c" "\<not> has_field ?r" by blast
  then show ?case
  proof cases
    case lit
    with 2(1)[OF lit] 2(5) show ?thesis by (simp add: ScanRefs_loop.simps(2) rewritten_simps)
  next
    case other
    with 2(2)[OF other] 2(5) show ?thesis by (simp add: ScanRefs_loop.simps(2) rewritten_simps)
  next
    case ref
    have "set (if ?ref \<in> set refs then refs else refs @ [?ref]) = insert ?ref (set refs)" by auto
    with 2(3)[OF ref(1) _ refl refl ref(3) refl] 2(5) ref show ?thesis
      by (simp add: ScanRefs_loop.simps(2) rewritten_simps Let_def)
  next
    case word
    from 2(5) word have ok: "calls ?r \<or> to_upper ?w \<in> set sqlKeywords \<or> ?w = ''*''"
      by (simp add: ScanRefs_loop.simps(2) Let_def split: if_splits)
    with 2(4)[OF word(1) _ refl refl word(3) ok] 2(5) word show ?thesis
      by (simp add: ScanRefs_loop.simps(2) rewritten_simps Let_def split: if_splits)
  qed
qed

text \<open>
  The reference scanner and the reference rewriter agree: when \<open>ScanRefs\<close> accepts a
  scalar, \<open>RewriteRefs\<close> asks its callback about exactly the references that were scanned. The
  scanned references are what governance checks, so no other field reaches the SQL text.
\<close>

theorem rewrite_asks_scanned_refs:
  "ScanRefs s = Inr refs \<Longrightarrow> snd (RewriteRefs (\<lambda>r st. (f r, insert r st)) s {}) = set refs"
proof -
  assume s: "ScanRefs s = Inr refs"
  have "snd (RewriteRefs (\<lambda>r st. (f r, insert r st)) s st) = rewritten s st" for st
    by (induction "\<lambda>r st. (f r, insert r st)" s st rule: RewriteRefs.induct)
      (auto simp: RewriteRefs.simps(2) rewritten_simps Let_def split: prod.splits)
  with s ScanRefs_loop_rewritten[of s s "[]" refs] show ?thesis by (simp add: ScanRefs_def)
qed

theorem rewrite_asks_scanned_refs_witness:
  "ScanRefs ''ss.a * d.b'' = Inr [\<lparr>fr_Dataset = ''ss'', fr_Field = ''a''\<rparr>, \<lparr>fr_Dataset = ''d'', fr_Field = ''b''\<rparr>]
   \<and> snd (RewriteRefs (\<lambda>r st. (fr_Field r, insert r st)) ''ss.a * d.b'' {}) =
      {\<lparr>fr_Dataset = ''ss'', fr_Field = ''a''\<rparr>, \<lparr>fr_Dataset = ''d'', fr_Field = ''b''\<rparr>}"
proof -
  have h: "ScanRefs ''ss.a * d.b'' = Inr [\<lparr>fr_Dataset = ''ss'', fr_Field = ''a''\<rparr>, \<lparr>fr_Dataset = ''d'', fr_Field = ''b''\<rparr>]"
    by (simp add: ScanRefs_def ScanRefs_loop.simps(2) ident_word_def ident_rest_def isIdentStart_def
        isIdentChar_def byte_defs special_chars Let_def)
  show ?thesis using h rewrite_asks_scanned_refs[OF h, of fr_Field] by simp
qed

lemma literal_text_rest: "literal_text cs @ drop 1 (literal_rest cs) = quote_ch # cs"
proof -
  have "take 1 (literal_rest cs) @ drop 1 (literal_rest cs) = literal_rest cs" by (rule append_take_drop_id)
  then show ?thesis by (simp add: literal_text_def literal_body_def literal_rest_def)
qed

lemma has_field_tl: "has_field rest \<Longrightarrow> ''.'' @ tl rest = rest"
  by (cases rest rule: has_field.cases) auto

text \<open>
  Rewriting every reference to its own text is the identity: outside the references, the
  rewriter copies the scalar byte for byte, string literals included.
\<close>

theorem rewrite_identity: "RewriteRefs (\<lambda>r (st :: 's). (FieldRef_String r, st)) s st = (s, st)"
proof (induction "\<lambda>r (st :: 's). (FieldRef_String r, st)" s st rule: RewriteRefs.induct)
  case (2 c cs st)
  let ?r = "ident_rest (c # cs)"
  have "has_field ?r \<Longrightarrow> ident_word (c # cs) @ ''.'' @ tl ?r = c # cs"
    using has_field_tl[of ?r] ident_split[of "c # cs"] by simp
  moreover have "ident_word (tl ?r) @ ident_rest (tl ?r) = tl ?r" by (rule ident_split)
  ultimately show ?case using 2
    by (auto simp: RewriteRefs.simps(2) Let_def FieldRef_String_def literal_text_rest[simplified] ident_split)
qed simp

text \<open>The terms the parser produces.\<close>

definition wf_term :: "AggTerm \<Rightarrow> bool" where
  "wf_term t \<longleftrightarrow> t_Func t \<in> set aggFuncs \<and> t_Scalar t \<noteq> [] \<and> ScanRefs (t_Scalar t) = Inr (t_Refs t)
     \<and> (t_Refs t = [] \<longrightarrow> t_Scalar t = ''*'')"

lemma term_argument_wf:
  "term_argument fn raw = Inr t \<Longrightarrow> fn \<in> set aggFuncs \<Longrightarrow> wf_term t"
  by (auto simp: term_argument_def wf_term_def Let_def result_simps split: if_splits)

lemma parseTerm_wf: "parseTerm s = Inr (t, r) \<Longrightarrow> wf_term t"
  by (auto simp: parseTerm_def Let_def result_simps split: if_splits option.splits
      dest: term_argument_wf)

lemma parseDenom_wf: "parseDenom s = Inr (t, r) \<Longrightarrow> wf_term t"
  by (auto simp: parseDenom_def Let_def result_simps split: if_splits dest!: parseTerm_wf)

text \<open>
  A parsed metric expression is well formed: each side applies one of the five aggregate
  functions to a non-empty scalar, its references are exactly what the scanner finds in that
  scalar, and a scalar without a reference is the star.
\<close>

theorem Parse_wf:
  "Parse s = Inr m \<Longrightarrow> wf_term (me_Numerator m) \<and> (\<forall>d. me_Denominator m = Some d \<longrightarrow> wf_term d)"
proof -
  assume "Parse s = Inr m"
  then obtain num r where num: "parseTerm s = Inr (num, r)"
    and rest: "(case skip_spaces r of
         [] \<Rightarrow> Inr \<lparr>me_Numerator = num, me_Denominator = None\<rparr>
       | c # cs \<Rightarrow>
           if c \<noteq> CHR ''/'' then Inl (UnexpectedAfterTerm (c # cs))
           else ebind (parseDenom cs) (\<lambda>(den, r2).
             if skip_spaces r2 \<noteq> [] then Inl (TrailingInput (skip_spaces r2))
             else Inr \<lparr>me_Numerator = num, me_Denominator = Some den\<rparr>)) = Inr m"
    by (auto simp: Parse_def result_simps)
  from rest consider "m = \<lparr>me_Numerator = num, me_Denominator = None\<rparr>"
    | cs den r2 where "parseDenom cs = Inr (den, r2)" "m = \<lparr>me_Numerator = num, me_Denominator = Some den\<rparr>"
    by (auto simp: result_simps split: list.splits if_splits)
  then show ?thesis
    by cases (use parseTerm_wf[OF num] parseDenom_wf in auto)
qed

theorem Parse_wf_witness:
  "Parse ''SUM(s.a)/COUNT(*)'' = Inr
     \<lparr>me_Numerator = \<lparr>t_Func = ''SUM'', t_Distinct = False, t_Scalar = ''s.a'',
        t_Refs = [\<lparr>fr_Dataset = ''s'', fr_Field = ''a''\<rparr>]\<rparr>,
      me_Denominator = Some \<lparr>t_Func = ''COUNT'', t_Distinct = False, t_Scalar = ''*'', t_Refs = []\<rparr>\<rparr>
   \<and> wf_term \<lparr>t_Func = ''COUNT'', t_Distinct = False, t_Scalar = ''*'', t_Refs = []\<rparr>"
  (is "?eq \<and> _")
proof -
  have eq: ?eq by code_simp
  show ?thesis using eq Parse_wf[OF eq] by simp
qed

end
