(* ===== verification/RowPredicate.thy ===== *)
theory RowPredicate
  imports Expr Emitter
begin

text \<open>
  \<^verbatim>\<open>internal/planner/expr/predicate.go\<close>: the bounded boolean grammar of row-filter predicates.
  The tokenizer consumes the text; the recursive-descent parser is the source's mutual
  recursion over the list of tokens that are left (\<^verbatim>\<open>p.toks[p.pos:]\<close>). Reading past the last
  token is a Go panic: \<open>IndexOutOfRange\<close>. A recursive call is guarded by the token list being
  shorter; \<open>parse_sound\<close> shows that every parser consumes and that no guard fails.
\<close>

section \<open>Tokens\<close>

datatype tkind = TIdent | TString | TNumber | TOp | TOpen | TClose | TComma | TEof

record ptok =
  tk_kind :: tkind
  tk_val :: string

definition tok :: "tkind \<Rightarrow> string \<Rightarrow> ptok" where
  "tok k v = \<lparr>tk_kind = k, tk_val = v\<rparr>"

lemma tok_sel [simp]: "tk_kind (tok k v) = k" "tk_val (tok k v) = v"
  by (simp_all add: tok_def)

datatype pred_error =
    SemicolonNotAllowed
  | CommentNotAllowed string
  | UnterminatedString
  | UnexpectedBang
  | InvalidNumber string
  | UnexpectedCharacter char
  | TrailingTokens string
  | NoColumn
  | ExpectedClose
  | ExpectedColumn string
  | FunctionCall string
  | ExpectedNull
  | ExpectedInOrLike
  | ExpectedComparison string
  | ExpectedOpenIn
  | ExpectedCloseIn
  | ExpectedLiteral string
  | ExpectedStringLiteral
  | IndexOutOfRange

text \<open>The string loop of the tokenizer: the unescaped text and what follows the closing quote.\<close>

fun string_token :: "string \<Rightarrow> (string \<times> string) option" where
  "string_token [] = None"
| "string_token [c] = (if c = quote_ch then Some ([], []) else None)"
| "string_token (c # d # cs) =
     (if c = quote_ch then
        (if d = quote_ch then map_option (\<lambda>(v, r). (quote_ch # v, r)) (string_token cs)
         else Some ([], d # cs))
      else map_option (\<lambda>(v, r). (c # v, r)) (string_token (d # cs)))"

definition digits_of :: "string \<Rightarrow> string" where
  "digits_of s = takeWhile is_digit s"

definition after_digits :: "string \<Rightarrow> string" where
  "after_digits s = dropWhile is_digit s"

text \<open>\<^verbatim>\<open>scanNumber(s, i)\<close> returns the end of the number; here its text and the rest.\<close>

definition scanNumber :: "string \<Rightarrow> (pred_error, string \<times> string) result" where
  "scanNumber s =
     (let sign = (if take 1 s = ''-'' then ''-'' else []);
          s1 = drop (length sign) s;
          whole = digits_of s1; s2 = after_digits s1
      in if whole = [] then Inl (InvalidNumber s)
         else if take 1 s2 = ''.'' then
           (let frac = digits_of (drop 1 s2); s3 = after_digits (drop 1 s2)
            in if frac = [] then Inl (InvalidNumber (sign @ whole @ ''.''))
               else if take 1 s3 = ''.'' then Inl (InvalidNumber s)
               else Inr (sign @ whole @ ''.'' @ frac, s3))
         else Inr (sign @ whole, s2))"

lemma string_token_shorter: "string_token s = Some (v, r) \<Longrightarrow> length r < length s"
  by (induction s arbitrary: v rule: string_token.induct) (fastforce split: if_splits)+

lemma digits_split: "digits_of s @ after_digits s = s"
  by (simp add: digits_of_def after_digits_def)

lemma take1_drop1: "take 1 s = [c] \<Longrightarrow> c # drop 1 s = s"
  by (cases s) auto

lemma fraction_split:
  "take 1 (after_digits s) = ''.'' \<Longrightarrow> digits_of s @ CHR ''.'' # drop 1 (after_digits s) = s"
  using take1_drop1[of "after_digits s" "CHR ''.''"] digits_split[of s] by simp

lemma scanNumber_split: "scanNumber s = Inr (n, r) \<Longrightarrow> n @ r = s \<and> n \<noteq> []"
  using take1_drop1[of s "CHR ''-''"]
  by (auto simp: scanNumber_def Let_def digits_split fraction_split[simplified] split: if_splits)

lemma scanNumber_shorter: "scanNumber s = Inr (n, r) \<Longrightarrow> length r < length s"
  using scanNumber_split[of s n r] by auto

definition blank :: "char \<Rightarrow> bool" where
  "blank c \<longleftrightarrow> byte c \<in> {32, 9, 10, 13}"

definition next_is :: "string \<Rightarrow> char \<Rightarrow> bool" where
  "next_is cs c \<longleftrightarrow> take 1 cs = [c]"

definition next_digit :: "string \<Rightarrow> bool" where
  "next_digit cs \<longleftrightarrow> (case cs of d # _ \<Rightarrow> is_digit d | [] \<Rightarrow> False)"

text \<open>One turn of the loop: the switch on the byte at the position, with the token it appends, if
  any, and the text from the new position on.\<close>

definition token_at :: "char \<Rightarrow> string \<Rightarrow> (pred_error, ptok option \<times> string) result" where
  "token_at c cs =
     (if blank c then Inr (None, cs)
      else if c = CHR '';'' then Inl SemicolonNotAllowed
      else if c = CHR ''-'' \<and> next_is cs CHR ''-'' then Inl (CommentNotAllowed ''--'')
      else if c = CHR ''/'' \<and> next_is cs CHR ''*'' then Inl (CommentNotAllowed ''/*'')
      else if c = CHR ''('' then Inr (Some (tok TOpen ''(''), cs)
      else if c = CHR '')'' then Inr (Some (tok TClose '')''), cs)
      else if c = CHR '','' then Inr (Some (tok TComma '',''), cs)
      else if c = quote_ch then
        (case string_token cs of
           None \<Rightarrow> Inl UnterminatedString
         | Some (v, r) \<Rightarrow> Inr (Some (tok TString v), r))
      else if c = CHR ''='' then Inr (Some (tok TOp ''=''), cs)
      else if c = CHR ''!'' then
        (if next_is cs CHR ''='' then Inr (Some (tok TOp ''!=''), drop 1 cs) else Inl UnexpectedBang)
      else if c = CHR ''<'' then
        (if next_is cs CHR ''='' then Inr (Some (tok TOp ''<=''), drop 1 cs)
         else if next_is cs CHR ''>'' then Inr (Some (tok TOp ''<>''), drop 1 cs)
         else Inr (Some (tok TOp ''<''), cs))
      else if c = CHR ''>'' then
        (if next_is cs CHR ''='' then Inr (Some (tok TOp ''>=''), drop 1 cs)
         else Inr (Some (tok TOp ''>''), cs))
      else if is_digit c \<or> c = CHR ''-'' \<and> next_digit cs then
        ebind (scanNumber (c # cs)) (\<lambda>(n, r). Inr (Some (tok TNumber n), r))
      else if isIdentStart c then
        Inr (Some (tok TIdent (ident_word (c # cs))), ident_rest (c # cs))
      else Inl (UnexpectedCharacter c))"

lemma token_at_returns: "returns (token_at c cs) (\<lambda>(t, r). length r \<le> length cs)"
  unfolding token_at_def
  by (intro returns_intros, simp_all, (drule string_token_shorter, simp),
      (drule scanNumber_shorter, simp), (rule ident_rest_less[unfolded less_Suc_eq_le], simp))

lemma token_at_shorter: "token_at c cs = Inr (t, r) \<Longrightarrow> length r < Suc (length cs)"
  using returnsD[OF token_at_returns, of c cs "(t, r)"] by simp

function tokenizePredicate :: "string \<Rightarrow> (pred_error, ptok list) result" where
  "tokenizePredicate [] = Inr [tok TEof []]"
| "tokenizePredicate (c # cs) =
     (case token_at c cs of
        Inl e \<Rightarrow> Inl e
      | Inr (t, r) \<Rightarrow> ebind (tokenizePredicate r) (\<lambda>ts. Inr (case t of None \<Rightarrow> ts | Some x \<Rightarrow> x # ts)))"
  by pat_completeness auto
termination
  by (relation "measure length") (auto dest: token_at_shorter)

declare tokenizePredicate.simps(2) [simp del]

section \<open>Parser\<close>

text \<open>The parser's state: the tokens from \<^verbatim>\<open>p.pos\<close> on, and the columns met so far.\<close>

type_synonym pstate = "ptok list \<times> string list"

definition peek :: "ptok list \<Rightarrow> (pred_error, ptok) result" where
  "peek ts = (case ts of [] \<Rightarrow> Inl IndexOutOfRange | t # _ \<Rightarrow> Inr t)"

definition isKw :: "ptok \<Rightarrow> string \<Rightarrow> bool" where
  "isKw t kw \<longleftrightarrow> tk_kind t = TIdent \<and> equal_fold (tk_val t) kw"

definition parseLiteral :: "ptok list \<Rightarrow> (pred_error, ptok list) result" where
  "parseLiteral ts = ebind (peek ts) (\<lambda>t.
     if tk_kind t = TString \<or> tk_kind t = TNumber then Inr (tl ts)
     else if isKw t ''TRUE'' \<or> isKw t ''FALSE'' \<or> isKw t ''NULL'' then Inr (tl ts)
     else Inl (ExpectedLiteral (tk_val t)))"

definition parseStringLiteral :: "ptok list \<Rightarrow> (pred_error, ptok list) result" where
  "parseStringLiteral ts = ebind (peek ts) (\<lambda>t.
     if tk_kind t \<noteq> TString then Inl ExpectedStringLiteral else Inr (tl ts))"

lemma parseLiteral_shorter: "parseLiteral ts = Inr r \<Longrightarrow> length r < length ts"
  by (auto simp: parseLiteral_def peek_def split: list.splits if_splits)

text \<open>The \<^verbatim>\<open>for p.peek().kind == ","\<close> loop of \<^verbatim>\<open>parseInList\<close>.\<close>

function inList_loop :: "ptok list \<Rightarrow> (pred_error, ptok list) result" where
  "inList_loop ts =
     (case ts of
        [] \<Rightarrow> Inl IndexOutOfRange
      | t # r \<Rightarrow>
          if tk_kind t = TComma then
            (case parseLiteral r of Inl e \<Rightarrow> Inl e | Inr r' \<Rightarrow> inList_loop r')
          else if tk_kind t \<noteq> TClose then Inl ExpectedCloseIn
          else Inr r)"
  by pat_completeness auto
termination
  by (relation "measure length") (auto dest: parseLiteral_shorter)

declare inList_loop.simps [simp del]

definition parseInList :: "ptok list \<Rightarrow> (pred_error, ptok list) result" where
  "parseInList ts = ebind (peek ts) (\<lambda>t.
     if tk_kind t \<noteq> TOpen then Inl ExpectedOpenIn
     else ebind (parseLiteral (tl ts)) inList_loop)"

text \<open>What may follow the column of a comparison.\<close>

definition comparison_rest :: "string \<Rightarrow> ptok list \<Rightarrow> (pred_error, ptok list) result" where
  "comparison_rest col ts = ebind (peek ts) (\<lambda>nt.
     if tk_kind nt = TOp then parseLiteral (tl ts)
     else if isKw nt ''IN'' then parseInList (tl ts)
     else if isKw nt ''LIKE'' then parseStringLiteral (tl ts)
     else if isKw nt ''IS'' then
       ebind (peek (tl ts)) (\<lambda>t2.
         let ts2 = (if isKw t2 ''NOT'' then tl (tl ts) else tl ts)
         in ebind (peek ts2) (\<lambda>t3.
              if \<not> isKw t3 ''NULL'' then Inl ExpectedNull else Inr (tl ts2)))
     else if isKw nt ''NOT'' then
       ebind (peek (tl ts)) (\<lambda>t2.
         if isKw t2 ''IN'' then parseInList (tl (tl ts))
         else if isKw t2 ''LIKE'' then parseStringLiteral (tl (tl ts))
         else Inl ExpectedInOrLike)
     else Inl (ExpectedComparison col))"

definition parseComparison :: "pstate \<Rightarrow> (pred_error, pstate) result" where
  "parseComparison st = (case st of (ts, cols) \<Rightarrow>
     ebind (peek ts) (\<lambda>t.
       if tk_kind t \<noteq> TIdent \<or> to_upper (tk_val t) \<in> set sqlKeywords then Inl (ExpectedColumn (tk_val t))
       else ebind (peek (tl ts)) (\<lambda>t2.
         if tk_kind t2 = TOpen then Inl (FunctionCall (tk_val t))
         else ebind (comparison_rest (tk_val t) (tl ts)) (\<lambda>r.
           Inr (r, List.insert (tk_val t) cols)))))"

function parseOr :: "pstate \<Rightarrow> (pred_error, pstate) result"
  and or_loop :: "pstate \<Rightarrow> (pred_error, pstate) result"
  and parseAnd :: "pstate \<Rightarrow> (pred_error, pstate) result"
  and and_loop :: "pstate \<Rightarrow> (pred_error, pstate) result"
  and parseNot :: "pstate \<Rightarrow> (pred_error, pstate) result"
  and parsePrimary :: "pstate \<Rightarrow> (pred_error, pstate) result" where
  "parseOr st =
     (case parseAnd st of Inl e \<Rightarrow> Inl e
      | Inr st' \<Rightarrow> if length (fst st') < length (fst st) then or_loop st' else Inl IndexOutOfRange)"
| "or_loop st =
     (case fst st of [] \<Rightarrow> Inl IndexOutOfRange
      | t # r \<Rightarrow>
          if isKw t ''OR'' then
            (case parseAnd (r, snd st) of Inl e \<Rightarrow> Inl e
             | Inr st' \<Rightarrow> if length (fst st') < length r then or_loop st' else Inl IndexOutOfRange)
          else Inr st)"
| "parseAnd st =
     (case parseNot st of Inl e \<Rightarrow> Inl e
      | Inr st' \<Rightarrow> if length (fst st') < length (fst st) then and_loop st' else Inl IndexOutOfRange)"
| "and_loop st =
     (case fst st of [] \<Rightarrow> Inl IndexOutOfRange
      | t # r \<Rightarrow>
          if isKw t ''AND'' then
            (case parseNot (r, snd st) of Inl e \<Rightarrow> Inl e
             | Inr st' \<Rightarrow> if length (fst st') < length r then and_loop st' else Inl IndexOutOfRange)
          else Inr st)"
| "parseNot st =
     (case fst st of [] \<Rightarrow> Inl IndexOutOfRange
      | t # r \<Rightarrow> if isKw t ''NOT'' then parsePrimary (r, snd st) else parsePrimary st)"
| "parsePrimary st =
     (case fst st of [] \<Rightarrow> Inl IndexOutOfRange
      | t # r \<Rightarrow>
          if tk_kind t = TOpen then
            (case parseOr (r, snd st) of Inl e \<Rightarrow> Inl e
             | Inr st' \<Rightarrow> ebind (peek (fst st')) (\<lambda>t'.
                 if tk_kind t' \<noteq> TClose then Inl ExpectedClose else Inr (tl (fst st'), snd st')))
          else parseComparison st)"
  by pat_completeness auto
termination
  by (relation "measure (\<lambda>x. case x of
        Inl (Inl st) \<Rightarrow> 4 * length (fst st) + 3
      | Inl (Inr (Inl st)) \<Rightarrow> 4 * length (fst st) + 3
      | Inl (Inr (Inr st)) \<Rightarrow> 4 * length (fst st) + 2
      | Inr (Inl st) \<Rightarrow> 4 * length (fst st) + 2
      | Inr (Inr (Inl st)) \<Rightarrow> 4 * length (fst st) + 1
      | Inr (Inr (Inr st)) \<Rightarrow> 4 * length (fst st))") auto

declare parseOr.simps [simp del] or_loop.simps [simp del] parseAnd.simps [simp del]
  and_loop.simps [simp del] parseNot.simps [simp del] parsePrimary.simps [simp del]

definition ParsePredicate :: "string \<Rightarrow> (pred_error, string list) result" where
  "ParsePredicate s =
     ebind (tokenizePredicate s) (\<lambda>toks.
     ebind (parseOr (toks, [])) (\<lambda>(rest, cols).
     ebind (peek rest) (\<lambda>t.
       if tk_kind t \<noteq> TEof then Inl (TrailingTokens (tk_val t))
       else if cols = [] then Inl NoColumn
       else Inr (sort cols))))"

section \<open>The grammar\<close>

text \<open>
  The grammar of the comment on \<^verbatim>\<open>ParsePredicate\<close>, over tokens. \<open>g_or ts C\<close>: the tokens \<open>ts\<close> are a
  \<^verbatim>\<open>pred\<close> and \<open>C\<close> are its columns. Keywords match in any case; a column is an identifier
  that is no keyword.
\<close>

definition g_column :: "ptok \<Rightarrow> bool" where
  "g_column t \<longleftrightarrow> tk_kind t = TIdent \<and> to_upper (tk_val t) \<notin> set sqlKeywords"

definition g_literal :: "ptok \<Rightarrow> bool" where
  "g_literal t \<longleftrightarrow> tk_kind t \<in> {TString, TNumber} \<or> isKw t ''TRUE'' \<or> isKw t ''FALSE'' \<or> isKw t ''NULL''"

inductive g_literals :: "ptok list \<Rightarrow> bool" where
  one: "g_literal l \<Longrightarrow> g_literals [l]"
| more: "g_literal l \<Longrightarrow> tk_kind c = TComma \<Longrightarrow> g_literals ls \<Longrightarrow> g_literals (l # c # ls)"

inductive g_tail :: "ptok list \<Rightarrow> bool" where
  cmp: "tk_kind o1 = TOp \<Longrightarrow> g_literal l \<Longrightarrow> g_tail [o1, l]"
| in_list: "isKw i ''IN'' \<Longrightarrow> tk_kind p = TOpen \<Longrightarrow> g_literals ls \<Longrightarrow> tk_kind q = TClose
     \<Longrightarrow> g_tail (i # p # ls @ [q])"
| not_in: "isKw n ''NOT'' \<Longrightarrow> isKw i ''IN'' \<Longrightarrow> tk_kind p = TOpen \<Longrightarrow> g_literals ls \<Longrightarrow> tk_kind q = TClose
     \<Longrightarrow> g_tail (n # i # p # ls @ [q])"
| is_null: "isKw i ''IS'' \<Longrightarrow> isKw u ''NULL'' \<Longrightarrow> g_tail [i, u]"
| is_not_null: "isKw i ''IS'' \<Longrightarrow> isKw n ''NOT'' \<Longrightarrow> isKw u ''NULL'' \<Longrightarrow> g_tail [i, n, u]"
| like: "isKw l ''LIKE'' \<Longrightarrow> tk_kind v = TString \<Longrightarrow> g_tail [l, v]"
| not_like: "isKw n ''NOT'' \<Longrightarrow> isKw l ''LIKE'' \<Longrightarrow> tk_kind v = TString \<Longrightarrow> g_tail [n, l, v]"

inductive g_or :: "ptok list \<Rightarrow> string set \<Rightarrow> bool"
  and g_and :: "ptok list \<Rightarrow> string set \<Rightarrow> bool"
  and g_not :: "ptok list \<Rightarrow> string set \<Rightarrow> bool"
  and g_primary :: "ptok list \<Rightarrow> string set \<Rightarrow> bool" where
  or_one: "g_and ts C \<Longrightarrow> g_or ts C"
| or_more: "g_and ts C \<Longrightarrow> isKw k ''OR'' \<Longrightarrow> g_or us D \<Longrightarrow> g_or (ts @ k # us) (C \<union> D)"
| and_one: "g_not ts C \<Longrightarrow> g_and ts C"
| and_more: "g_not ts C \<Longrightarrow> isKw k ''AND'' \<Longrightarrow> g_and us D \<Longrightarrow> g_and (ts @ k # us) (C \<union> D)"
| not_plain: "g_primary ts C \<Longrightarrow> g_not ts C"
| not_not: "isKw k ''NOT'' \<Longrightarrow> g_primary ts C \<Longrightarrow> g_not (k # ts) C"
| nested: "tk_kind p = TOpen \<Longrightarrow> g_or ts C \<Longrightarrow> tk_kind q = TClose \<Longrightarrow> g_primary (p # ts @ [q]) C"
| comparison: "g_column t \<Longrightarrow> g_tail ts \<Longrightarrow> g_primary (t # ts) {tk_val t}"

text \<open>The loops of the parser, as right-recursive tails of the same grammar.\<close>

definition or_tail :: "ptok list \<Rightarrow> string set \<Rightarrow> bool" where
  "or_tail ts C \<longleftrightarrow> ts = [] \<and> C = {} \<or> (\<exists>k us. ts = k # us \<and> isKw k ''OR'' \<and> g_or us C)"

definition and_tail :: "ptok list \<Rightarrow> string set \<Rightarrow> bool" where
  "and_tail ts C \<longleftrightarrow> ts = [] \<and> C = {} \<or> (\<exists>k us. ts = k # us \<and> isKw k ''AND'' \<and> g_and us C)"

lemma g_or_tail: "g_and ts C \<Longrightarrow> or_tail us D \<Longrightarrow> g_or (ts @ us) (C \<union> D)"
  by (auto simp: or_tail_def intro: or_one or_more)

lemma g_and_tail: "g_not ts C \<Longrightarrow> and_tail us D \<Longrightarrow> g_and (ts @ us) (C \<union> D)"
  by (auto simp: and_tail_def intro: and_one and_more)

section \<open>The parser recognises the grammar\<close>

lemma g_nonempty:
  "g_or ts C \<Longrightarrow> ts \<noteq> []" "g_and ts C \<Longrightarrow> ts \<noteq> []" "g_not ts C \<Longrightarrow> ts \<noteq> []" "g_primary ts C \<Longrightarrow> ts \<noteq> []"
  by (induction rule: g_or_g_and_g_not_g_primary.inducts) auto

lemma peek_simps [simp]: "peek [] = Inl IndexOutOfRange" "peek (t # ts) = Inr t"
  by (simp_all add: peek_def)

lemma peek_Inr [result_simps]: "peek ts = Inr t \<longleftrightarrow> (\<exists>r. ts = t # r)"
  by (cases ts) auto

lemma isKw_exclusive:
  "isKw t a \<Longrightarrow> isKw t b \<Longrightarrow> to_upper a = to_upper b"
  "isKw t a \<Longrightarrow> tk_kind t = TIdent"
  by (auto simp: isKw_def equal_fold_def)

lemma upper_keywords:
  "to_upper ''OR'' = ''OR''" "to_upper ''AND'' = ''AND''" "to_upper ''NOT'' = ''NOT''"
  "to_upper ''IN'' = ''IN''" "to_upper ''IS'' = ''IS''" "to_upper ''LIKE'' = ''LIKE''"
  "to_upper ''NULL'' = ''NULL''" "to_upper ''TRUE'' = ''TRUE''" "to_upper ''FALSE'' = ''FALSE''"
  by (simp_all add: to_upper_def upper_byte_def byte_defs)

lemma isKw_upper:
  "isKw t ''OR'' \<longleftrightarrow> tk_kind t = TIdent \<and> to_upper (tk_val t) = ''OR''"
  "isKw t ''AND'' \<longleftrightarrow> tk_kind t = TIdent \<and> to_upper (tk_val t) = ''AND''"
  "isKw t ''NOT'' \<longleftrightarrow> tk_kind t = TIdent \<and> to_upper (tk_val t) = ''NOT''"
  "isKw t ''IN'' \<longleftrightarrow> tk_kind t = TIdent \<and> to_upper (tk_val t) = ''IN''"
  "isKw t ''IS'' \<longleftrightarrow> tk_kind t = TIdent \<and> to_upper (tk_val t) = ''IS''"
  "isKw t ''LIKE'' \<longleftrightarrow> tk_kind t = TIdent \<and> to_upper (tk_val t) = ''LIKE''"
  "isKw t ''NULL'' \<longleftrightarrow> tk_kind t = TIdent \<and> to_upper (tk_val t) = ''NULL''"
  "isKw t ''TRUE'' \<longleftrightarrow> tk_kind t = TIdent \<and> to_upper (tk_val t) = ''TRUE''"
  "isKw t ''FALSE'' \<longleftrightarrow> tk_kind t = TIdent \<and> to_upper (tk_val t) = ''FALSE''"
  by (auto simp: isKw_def equal_fold_def upper_keywords)

lemma parseLiteral_Inr: "parseLiteral ts = Inr r \<longleftrightarrow> (\<exists>l. ts = l # r \<and> g_literal l)"
  by (cases ts) (auto simp: parseLiteral_def g_literal_def)

lemma parseLiteral_ok: "g_literal l \<Longrightarrow> parseLiteral (l # r) = Inr r"
  by (simp add: parseLiteral_Inr)

lemma parseStringLiteral_Inr: "parseStringLiteral ts = Inr r \<longleftrightarrow> (\<exists>l. ts = l # r \<and> tk_kind l = TString)"
  by (cases ts) (auto simp: parseStringLiteral_def)

lemma inList_loop_sound:
  "inList_loop ts = Inr r \<Longrightarrow> g_literal l \<Longrightarrow> \<exists>ls q. l # ts = ls @ q # r \<and> g_literals ls \<and> tk_kind q = TClose"
proof (induction ts arbitrary: l rule: inList_loop.induct)
  case (1 ts)
  obtain t u where ts: "ts = t # u" using "1.prems" by (cases ts) (auto simp: inList_loop.simps)
  show ?case
  proof (cases "tk_kind t = TComma")
    case True
    then obtain u' where lit: "parseLiteral u = Inr u'" and loop: "inList_loop u' = Inr r"
      using "1.prems"(1) by (auto simp: ts inList_loop.simps[of "t # u"] split: sum.splits)
    then obtain l' where u: "u = l' # u'" and l': "g_literal l'" by (auto simp: parseLiteral_Inr)
    from "1.IH"[OF ts True lit loop l'] obtain ls q where
      "l' # u' = ls @ q # r" "g_literals ls" "tk_kind q = TClose" by blast
    then have "l # ts = (l # t # ls) @ q # r \<and> g_literals (l # t # ls) \<and> tk_kind q = TClose"
      using True "1.prems"(2) by (auto simp: ts u intro: g_literals.more)
    then show ?thesis by blast
  next
    case False
    then have "l # ts = [l] @ t # r \<and> g_literals [l] \<and> tk_kind t = TClose"
      using 1 by (auto simp: ts inList_loop.simps[of "t # u"] intro: g_literals.one split: if_splits)
    then show ?thesis by blast
  qed
qed

lemma inList_loop_complete:
  "g_literals ls \<Longrightarrow> tk_kind q = TClose \<Longrightarrow>
   \<exists>l us. ls = l # us \<and> g_literal l \<and> inList_loop (us @ q # rest) = Inr rest"
  by (induction ls rule: g_literals.induct)
    (auto simp: inList_loop.simps[of "_ # _"] parseLiteral_ok)

lemma parseInList_Inr:
  "parseInList ts = Inr r \<longleftrightarrow>
     (\<exists>p ls q. ts = p # ls @ q # r \<and> tk_kind p = TOpen \<and> g_literals ls \<and> tk_kind q = TClose)"
  (is "?l \<longleftrightarrow> ?r")
proof
  assume ?l
  then obtain p l u where "ts = p # l # u" "tk_kind p = TOpen" "g_literal l" "inList_loop u = Inr r"
    by (cases ts) (auto simp: parseInList_def result_simps parseLiteral_Inr split: if_splits)
  then show ?r using inList_loop_sound[of u r l] by auto
next
  assume ?r
  then obtain p ls q where 1: "ts = p # ls @ q # r" "tk_kind p = TOpen" "g_literals ls" "tk_kind q = TClose"
    by blast
  with inList_loop_complete[of ls q r] show ?l by (auto simp: parseInList_def parseLiteral_ok)
qed

lemma g_tail_prefix:
  "tk_kind o1 = TOp \<Longrightarrow> g_literal l \<Longrightarrow> \<exists>us. o1 # l # r = us @ r \<and> g_tail us"
  "isKw i ''IN'' \<Longrightarrow> tk_kind p = TOpen \<Longrightarrow> g_literals ls \<Longrightarrow> tk_kind q = TClose
     \<Longrightarrow> \<exists>us. i # p # ls @ q # r = us @ r \<and> g_tail us"
  "isKw n ''NOT'' \<Longrightarrow> isKw i ''IN'' \<Longrightarrow> tk_kind p = TOpen \<Longrightarrow> g_literals ls \<Longrightarrow> tk_kind q = TClose
     \<Longrightarrow> \<exists>us. n # i # p # ls @ q # r = us @ r \<and> g_tail us"
  "isKw i ''IS'' \<Longrightarrow> isKw u ''NULL'' \<Longrightarrow> \<exists>us. i # u # r = us @ r \<and> g_tail us"
  "isKw i ''IS'' \<Longrightarrow> isKw n ''NOT'' \<Longrightarrow> isKw u ''NULL'' \<Longrightarrow> \<exists>us. i # n # u # r = us @ r \<and> g_tail us"
  "isKw l ''LIKE'' \<Longrightarrow> tk_kind v = TString \<Longrightarrow> \<exists>us. l # v # r = us @ r \<and> g_tail us"
  "isKw n ''NOT'' \<Longrightarrow> isKw l ''LIKE'' \<Longrightarrow> tk_kind v = TString \<Longrightarrow> \<exists>us. n # l # v # r = us @ r \<and> g_tail us"
  by (force dest: g_tail.intros)+

lemma comparison_rest_returns:
  "returns (comparison_rest col ts) (\<lambda>r. \<exists>us. ts = us @ r \<and> g_tail us)"
  unfolding comparison_rest_def
  by (intro returns_intros;
      simp add: returns_def peek_Inr parseLiteral_Inr parseStringLiteral_Inr parseInList_Inr Let_def;
      (elim exE conjE)?; (intro allI impI)?; (elim exE conjE)?; (hypsubst)?;
      auto simp: g_tail_prefix[simplified] split: if_splits)

lemma comparison_rest_complete:
  "g_tail us \<Longrightarrow> comparison_rest col (us @ r) = Inr r \<and> (\<exists>t vs. us = t # vs \<and> tk_kind t \<noteq> TOpen)"
  by (induction us rule: g_tail.induct)
    (auto simp: comparison_rest_def isKw_upper parseLiteral_Inr parseStringLiteral_Inr parseInList_Inr)

definition parsed :: "(ptok list \<Rightarrow> string set \<Rightarrow> bool) \<Rightarrow> pstate \<Rightarrow> pstate \<Rightarrow> bool" where
  "parsed g st st' \<longleftrightarrow> (\<exists>us C. fst st = us @ fst st' \<and> g us C \<and> set (snd st') = set (snd st) \<union> C)
     \<and> (distinct (snd st) \<longrightarrow> distinct (snd st'))"

lemma parseComparison_sound: "parseComparison st = Inr st' \<Longrightarrow> parsed g_primary st st'"
proof -
  assume "parseComparison st = Inr st'"
  then obtain t ts cols r where st: "st = (t # ts, cols)" "g_column t" "comparison_rest (tk_val t) ts = Inr r"
    "st' = (r, List.insert (tk_val t) cols)"
    by (cases st) (auto simp: parseComparison_def result_simps g_column_def split: if_splits)
  then obtain us where "ts = us @ r" "g_tail us" using returnsD[OF comparison_rest_returns] by blast
  with st show ?thesis
    by (auto simp: parsed_def distinct_insert intro!: exI[of _ "t # us"] exI[of _ "{tk_val t}"]
        g_or_g_and_g_not_g_primary.intros)
qed

lemma parse_sound:
  "parseOr st = Inr st' \<Longrightarrow> parsed g_or st st'"
  "or_loop st1 = Inr st' \<Longrightarrow> parsed or_tail st1 st'"
  "parseAnd st2 = Inr st' \<Longrightarrow> parsed g_and st2 st'"
  "and_loop st3 = Inr st' \<Longrightarrow> parsed and_tail st3 st'"
  "parseNot st4 = Inr st' \<Longrightarrow> parsed g_not st4 st'"
  "parsePrimary st5 = Inr st' \<Longrightarrow> parsed g_primary st5 st'"
proof (induction st and st1 and st2 and st3 and st4 and st5 arbitrary: st' and st' and st' and st' and st' and st'
    rule: parseOr_or_loop_parseAnd_and_loop_parseNot_parsePrimary.induct)
  case (1 st)
  then obtain s1 where "parseAnd st = Inr s1" "length (fst s1) < length (fst st)" "or_loop s1 = Inr st'"
    by (subst (asm) parseOr.simps) (auto split: sum.splits if_splits)
  with 1 have "parsed g_and st s1" "parsed or_tail s1 st'" by auto
  then show ?case unfolding parsed_def by (metis g_or_tail append_assoc Un_assoc)
next
  case (2 st)
  obtain t r where st: "fst st = t # r" using 2(3) by (cases "fst st") (auto simp: or_loop.simps)
  show ?case
  proof (cases "isKw t ''OR''")
    case True
    with 2(3) st obtain s1 where "parseAnd (r, snd st) = Inr s1" "length (fst s1) < length r" "or_loop s1 = Inr st'"
      by (subst (asm) or_loop.simps) (auto split: sum.splits if_splits)
    with 2 st True have "parsed g_and (r, snd st) s1" "parsed or_tail s1 st'" by auto
    then have "parsed g_or (r, snd st) st'" unfolding parsed_def by (metis g_or_tail append_assoc Un_assoc fst_conv snd_conv)
    with st True show ?thesis unfolding parsed_def or_tail_def by (metis fst_conv snd_conv append_Cons)
  next
    case False
    with 2(3) st have "st' = st" by (subst (asm) or_loop.simps) auto
    then show ?thesis by (auto simp: parsed_def or_tail_def)
  qed
next
  case (3 st)
  then obtain s1 where "parseNot st = Inr s1" "length (fst s1) < length (fst st)" "and_loop s1 = Inr st'"
    by (subst (asm) parseAnd.simps) (auto split: sum.splits if_splits)
  with 3 have "parsed g_not st s1" "parsed and_tail s1 st'" by auto
  then show ?case unfolding parsed_def by (metis g_and_tail append_assoc Un_assoc)
next
  case (4 st)
  obtain t r where st: "fst st = t # r" using 4(3) by (cases "fst st") (auto simp: and_loop.simps)
  show ?case
  proof (cases "isKw t ''AND''")
    case True
    with 4(3) st obtain s1 where "parseNot (r, snd st) = Inr s1" "length (fst s1) < length r" "and_loop s1 = Inr st'"
      by (subst (asm) and_loop.simps) (auto split: sum.splits if_splits)
    with 4 st True have "parsed g_not (r, snd st) s1" "parsed and_tail s1 st'" by auto
    then have "parsed g_and (r, snd st) st'" unfolding parsed_def by (metis g_and_tail append_assoc Un_assoc fst_conv snd_conv)
    with st True show ?thesis unfolding parsed_def and_tail_def by (metis fst_conv snd_conv append_Cons)
  next
    case False
    with 4(3) st have "st' = st" by (subst (asm) and_loop.simps) auto
    then show ?thesis by (auto simp: parsed_def and_tail_def)
  qed
next
  case (5 st)
  obtain t r where st: "fst st = t # r" using 5(3) by (cases "fst st") (auto simp: parseNot.simps)
  show ?case
  proof (cases "isKw t ''NOT''")
    case True
    with 5(3) st have "parsePrimary (r, snd st) = Inr st'" by (subst (asm) parseNot.simps) auto
    with 5(1)[OF st True] have "parsed g_primary (r, snd st) st'" .
    with st True show ?thesis unfolding parsed_def by (metis not_not fst_conv snd_conv append_Cons)
  next
    case False
    with 5(3) st have "parsePrimary st = Inr st'" by (subst (asm) parseNot.simps) auto
    with 5(2)[OF st False] have "parsed g_primary st st'" .
    then show ?thesis unfolding parsed_def by (metis not_plain)
  qed
next
  case (6 st)
  obtain t r where st: "fst st = t # r" using 6(2) by (cases "fst st") (auto simp: parsePrimary.simps)
  show ?case
  proof (cases "tk_kind t = TOpen")
    case True
    with 6(2) st obtain s1 q r' where s1: "parseOr (r, snd st) = Inr s1" "fst s1 = q # r'" "tk_kind q = TClose"
      "st' = (r', snd s1)"
      by (subst (asm) parsePrimary.simps) (auto simp: result_simps split: sum.splits if_splits)
    with 6(1)[OF st True] have "parsed g_or (r, snd st) s1" by auto
    then obtain us C where "r = us @ q # r'" "g_or us C" "set (snd s1) = set (snd st) \<union> C"
      "distinct (snd st) \<longrightarrow> distinct (snd s1)"
      using s1 by (auto simp: parsed_def)
    with st s1 True show ?thesis
      by (auto simp: parsed_def intro!: exI[of _ "t # us @ [q]"] exI[of _ C] nested)
  next
    case False
    with 6(2) st have "parseComparison st = Inr st'" by (subst (asm) parsePrimary.simps) auto
    then show ?thesis by (rule parseComparison_sound)
  qed
qed

text \<open>Completeness: a derivation is parsed whatever follows it, if that does not continue it.\<close>

definition stops_at :: "string list \<Rightarrow> ptok list \<Rightarrow> bool" where
  "stops_at kws rest \<longleftrightarrow> rest \<noteq> [] \<and> (\<forall>k\<in>set kws. \<not> isKw (hd rest) k)"

definition parses :: "(pstate \<Rightarrow> (pred_error, pstate) result) \<Rightarrow> string list \<Rightarrow> ptok list \<Rightarrow> string set \<Rightarrow> bool" where
  "parses p kws ts C \<longleftrightarrow> (\<forall>rest cols. stops_at kws rest \<longrightarrow>
     (\<exists>cols'. p (ts @ rest, cols) = Inr (rest, cols') \<and> set cols' = set cols \<union> C))"

lemma or_loop_step: "isKw t ''OR'' \<Longrightarrow> or_loop (t # r, c) = parseOr (r, c)"
  by (subst or_loop.simps, subst parseOr.simps) (simp split: sum.split)

lemma and_loop_step: "isKw t ''AND'' \<Longrightarrow> and_loop (t # r, c) = parseAnd (r, c)"
  by (subst and_loop.simps, subst parseAnd.simps) (simp split: sum.split)

lemma or_loop_stop: "stops_at [''OR''] rest \<Longrightarrow> or_loop (rest, c) = Inr (rest, c)"
  by (cases rest) (subst or_loop.simps, simp_all add: stops_at_def)+

lemma and_loop_stop: "stops_at [''AND''] rest \<Longrightarrow> and_loop (rest, c) = Inr (rest, c)"
  by (cases rest) (subst and_loop.simps, simp_all add: stops_at_def)+

lemma stops_at_Cons [simp]: "stops_at kws (t # r) \<longleftrightarrow> (\<forall>k\<in>set kws. \<not> isKw t k)"
  by (simp add: stops_at_def)

lemma stops_at_mono: "stops_at kws rest \<Longrightarrow> set kws' \<subseteq> set kws \<Longrightarrow> stops_at kws' rest"
  by (auto simp: stops_at_def)

lemma not_TIdent_isKw: "tk_kind t \<noteq> TIdent \<Longrightarrow> \<not> isKw t k"
  by (simp add: isKw_def)

lemma column_not_kw: "g_column t \<Longrightarrow> \<not> isKw t ''NOT''"
  by (auto simp: g_column_def isKw_upper sqlKeywords_def)

lemma primary_head: "g_primary ts C \<Longrightarrow> \<exists>t us. ts = t # us \<and> \<not> isKw t ''NOT''"
  by (cases rule: g_primary.cases) (auto simp: not_TIdent_isKw column_not_kw)

lemma parse_complete:
  "g_or ts C \<Longrightarrow> parses parseOr [''OR'', ''AND''] ts C"
  "g_and ts C \<Longrightarrow> parses parseAnd [''AND''] ts C"
  "g_not ts C \<Longrightarrow> parses parseNot [] ts C"
  "g_primary ts C \<Longrightarrow> parses parsePrimary [] ts C"
proof (induction rule: g_or_g_and_g_not_g_primary.inducts)
  case (or_one ts C)
  show ?case unfolding parses_def
  proof (intro allI impI)
    fix rest cols assume r: "stops_at [''OR'', ''AND''] rest"
    then have "stops_at [''AND''] rest" "stops_at [''OR''] rest" by (auto intro: stops_at_mono)
    with or_one obtain cols' where "parseAnd (ts @ rest, cols) = Inr (rest, cols')" "set cols' = set cols \<union> C"
      unfolding parses_def by blast
    with or_loop_stop[OF \<open>stops_at [''OR''] rest\<close>] g_nonempty(2)[OF or_one(1)]
    show "\<exists>cols'. parseOr (ts @ rest, cols) = Inr (rest, cols') \<and> set cols' = set cols \<union> C"
      by (subst parseOr.simps) simp
  qed
next
  case (or_more ts C k us D)
  show ?case unfolding parses_def
  proof (intro allI impI)
    fix rest cols assume r: "stops_at [''OR'', ''AND''] rest"
    from or_more(2) have "stops_at [''AND''] (k # us @ rest)" by (auto simp: isKw_upper)
    with or_more obtain c1 where c1: "parseAnd (ts @ k # us @ rest, cols) = Inr (k # us @ rest, c1)" "set c1 = set cols \<union> C"
      unfolding parses_def by blast
    from or_more r obtain c2 where "parseOr (us @ rest, c1) = Inr (rest, c2)" "set c2 = set c1 \<union> D"
      unfolding parses_def by blast
    with c1 or_more(2) g_nonempty(2)[OF or_more(1)]
    show "\<exists>cols'. parseOr ((ts @ k # us) @ rest, cols) = Inr (rest, cols') \<and> set cols' = set cols \<union> (C \<union> D)"
      by (subst parseOr.simps) (auto simp: or_loop_step)
  qed
next
  case (and_one ts C)
  show ?case unfolding parses_def
  proof (intro allI impI)
    fix rest cols assume r: "stops_at [''AND''] rest"
    then have "stops_at [] rest" by (auto intro: stops_at_mono)
    with and_one obtain cols' where "parseNot (ts @ rest, cols) = Inr (rest, cols')" "set cols' = set cols \<union> C"
      unfolding parses_def by blast
    with and_loop_stop[OF r] g_nonempty(3)[OF and_one(1)]
    show "\<exists>cols'. parseAnd (ts @ rest, cols) = Inr (rest, cols') \<and> set cols' = set cols \<union> C"
      by (subst parseAnd.simps) simp
  qed
next
  case (and_more ts C k us D)
  show ?case unfolding parses_def
  proof (intro allI impI)
    fix rest cols assume r: "stops_at [''AND''] rest"
    have "stops_at [] (k # us @ rest)" by simp
    with and_more obtain c1 where c1: "parseNot (ts @ k # us @ rest, cols) = Inr (k # us @ rest, c1)" "set c1 = set cols \<union> C"
      unfolding parses_def by blast
    from and_more r obtain c2 where "parseAnd (us @ rest, c1) = Inr (rest, c2)" "set c2 = set c1 \<union> D"
      unfolding parses_def by blast
    with c1 and_more(2) g_nonempty(3)[OF and_more(1)]
    show "\<exists>cols'. parseAnd ((ts @ k # us) @ rest, cols) = Inr (rest, cols') \<and> set cols' = set cols \<union> (C \<union> D)"
      by (subst parseAnd.simps) (auto simp: and_loop_step)
  qed
next
  case (not_plain ts C)
  then show ?case using primary_head[of ts C] by (auto simp: parses_def parseNot.simps)
next
  case (not_not k ts C)
  then show ?case by (auto simp: parses_def parseNot.simps)
next
  case (nested p ts C q)
  show ?case unfolding parses_def
  proof (intro allI impI)
    fix rest cols
    from nested(3) have "stops_at [''OR'', ''AND''] (q # rest)" by (simp add: not_TIdent_isKw)
    with nested obtain c1 where "parseOr (ts @ q # rest, cols) = Inr (q # rest, c1)" "set c1 = set cols \<union> C"
      unfolding parses_def by blast
    with nested show "\<exists>cols'. parsePrimary ((p # ts @ [q]) @ rest, cols) = Inr (rest, cols') \<and> set cols' = set cols \<union> C"
      by (subst parsePrimary.simps) auto
  qed
next
  case (comparison t ts)
  show ?case unfolding parses_def
  proof (intro allI impI)
    fix rest cols
    obtain u us where "ts = u # us" "tk_kind u \<noteq> TOpen" "comparison_rest (tk_val t) (ts @ rest) = Inr rest"
      using comparison_rest_complete[OF comparison(2)] by blast
    with comparison(1) show "\<exists>cols'. parsePrimary ((t # ts) @ rest, cols) = Inr (rest, cols') \<and> set cols' = set cols \<union> {tk_val t}"
      by (subst parsePrimary.simps) (auto simp: g_column_def parseComparison_def)
  qed
qed

section \<open>Properties\<close>

lemma token_not_eof: "returns (token_at c cs) (\<lambda>(t, r). \<forall>x. t = Some x \<longrightarrow> tk_kind x \<noteq> TEof)"
  unfolding token_at_def by (intro returns_intros) simp_all

lemma tokenize_shape:
  "tokenizePredicate s = Inr toks \<Longrightarrow> \<exists>ts. toks = ts @ [tok TEof []] \<and> (\<forall>t\<in>set ts. tk_kind t \<noteq> TEof)"
proof (induction s arbitrary: toks rule: tokenizePredicate.induct)
  case (2 c cs)
  then obtain t r ts where t: "token_at c cs = Inr (t, r)" "tokenizePredicate r = Inr ts"
    "toks = (case t of None \<Rightarrow> ts | Some x \<Rightarrow> x # ts)"
    by (auto simp: tokenizePredicate.simps(2) result_simps split: sum.splits)
  then obtain us where "ts = us @ [tok TEof []]" "\<forall>x\<in>set us. tk_kind x \<noteq> TEof" using 2(1) by blast
  with t returnsD[OF token_not_eof t(1)] show ?case
    by (cases t) (auto intro: exI[of _ "the t # us"])
qed simp

lemma g_literals_no_eof: "g_literals ls \<Longrightarrow> t \<in> set ls \<Longrightarrow> tk_kind t \<noteq> TEof"
  by (induction rule: g_literals.induct) (auto simp: g_literal_def isKw_def)

lemma g_tail_no_eof: "g_tail us \<Longrightarrow> t \<in> set us \<Longrightarrow> tk_kind t \<noteq> TEof"
  by (induction rule: g_tail.induct) (auto simp: g_literal_def isKw_def dest: g_literals_no_eof)

lemma g_no_eof:
  "g_or ts C \<Longrightarrow> t \<in> set ts \<longrightarrow> tk_kind t \<noteq> TEof" "g_and ts C \<Longrightarrow> t \<in> set ts \<longrightarrow> tk_kind t \<noteq> TEof"
  "g_not ts C \<Longrightarrow> t \<in> set ts \<longrightarrow> tk_kind t \<noteq> TEof" "g_primary ts C \<Longrightarrow> t \<in> set ts \<longrightarrow> tk_kind t \<noteq> TEof"
  by (induction rule: g_or_g_and_g_not_g_primary.inducts)
    (auto simp: g_column_def isKw_def dest: g_tail_no_eof)

text \<open>While an end marker is left, no parser reads past the tokens.\<close>

definition has_eof :: "ptok list \<Rightarrow> bool" where
  "has_eof ts \<longleftrightarrow> (\<exists>t\<in>set ts. tk_kind t = TEof)"

lemma has_eof_simps [simp]:
  "\<not> has_eof []" "has_eof (t # ts) \<longleftrightarrow> tk_kind t = TEof \<or> has_eof ts"
  by (auto simp: has_eof_def)

lemma parsed_rest:
  "parsed g_or st st' \<Longrightarrow> has_eof (fst st) \<Longrightarrow> has_eof (fst st') \<and> length (fst st') < length (fst st)"
  "parsed g_and st st' \<Longrightarrow> has_eof (fst st) \<Longrightarrow> has_eof (fst st') \<and> length (fst st') < length (fst st)"
  "parsed g_not st st' \<Longrightarrow> has_eof (fst st) \<Longrightarrow> has_eof (fst st') \<and> length (fst st') < length (fst st)"
  unfolding parsed_def has_eof_def by (auto dest: g_nonempty g_no_eof)

lemma literal_no_panic: "has_eof ts \<Longrightarrow> parseLiteral ts \<noteq> Inl IndexOutOfRange"
  by (cases ts) (auto simp: parseLiteral_def)

lemma string_no_panic: "has_eof ts \<Longrightarrow> parseStringLiteral ts \<noteq> Inl IndexOutOfRange"
  by (cases ts) (auto simp: parseStringLiteral_def)

lemma parseLiteral_eof: "parseLiteral ts = Inr r \<Longrightarrow> has_eof ts \<Longrightarrow> has_eof r"
  by (auto simp: parseLiteral_Inr g_literal_def isKw_def)

lemma inList_loop_no_panic: "has_eof ts \<Longrightarrow> inList_loop ts \<noteq> Inl IndexOutOfRange"
proof (induction ts rule: inList_loop.induct)
  case (1 ts)
  then obtain t r where ts: "ts = t # r" by (cases ts) auto
  show ?case
  proof (cases "parseLiteral r")
    case (Inl e)
    then show ?thesis using 1 literal_no_panic[of r] by (auto simp: ts inList_loop.simps[of "t # r"])
  next
    case (Inr r')
    then show ?thesis using 1 parseLiteral_eof[OF Inr] by (auto simp: ts inList_loop.simps[of "t # r"])
  qed
qed

lemma parseInList_no_panic: "has_eof ts \<Longrightarrow> parseInList ts \<noteq> Inl IndexOutOfRange"
  by (cases ts)
    (auto simp: parseInList_def result_simps literal_no_panic inList_loop_no_panic
      dest: parseLiteral_eof split: if_splits)

lemma comparison_rest_no_panic: "has_eof ts \<Longrightarrow> comparison_rest c ts \<noteq> Inl IndexOutOfRange"
proof (cases ts)
  case (Cons t r)
  assume e: "has_eof ts"
  show ?thesis
  proof (cases "has_eof r")
    case True
    moreover obtain u r2 where r: "r = u # r2" using True by (cases r) auto
    moreover have "isKw u k \<Longrightarrow> has_eof r2" for k using True r by (auto simp: isKw_def)
    moreover have "has_eof r2 \<Longrightarrow> r2 \<noteq> []" by auto
    ultimately show ?thesis
      using literal_no_panic[of r] string_no_panic[of r] string_no_panic[of r2]
        parseInList_no_panic[of r] parseInList_no_panic[of r2]
      by (cases r2) (auto simp: Cons comparison_rest_def)
  next
    case False
    with e Cons have "tk_kind t = TEof" by simp
    with Cons show ?thesis by (simp add: comparison_rest_def isKw_def)
  qed
qed simp

lemma parseComparison_no_panic: "has_eof (fst st) \<Longrightarrow> parseComparison st \<noteq> Inl IndexOutOfRange"
proof (cases "fst st")
  case (Cons t r)
  assume e: "has_eof (fst st)"
  show ?thesis
  proof (cases "has_eof r")
    case True
    then obtain u r2 where "r = u # r2" by (cases r) auto
    with True Cons comparison_rest_no_panic[of r "tk_val t"] show ?thesis
      by (auto simp: parseComparison_def result_simps split: prod.splits)
  qed (use e Cons in \<open>auto simp: parseComparison_def split: prod.splits\<close>)
qed simp

lemma parse_no_panic:
  "has_eof (fst st) \<Longrightarrow> parseOr st \<noteq> Inl IndexOutOfRange"
  "has_eof (fst st1) \<Longrightarrow> or_loop st1 \<noteq> Inl IndexOutOfRange"
  "has_eof (fst st2) \<Longrightarrow> parseAnd st2 \<noteq> Inl IndexOutOfRange"
  "has_eof (fst st3) \<Longrightarrow> and_loop st3 \<noteq> Inl IndexOutOfRange"
  "has_eof (fst st4) \<Longrightarrow> parseNot st4 \<noteq> Inl IndexOutOfRange"
  "has_eof (fst st5) \<Longrightarrow> parsePrimary st5 \<noteq> Inl IndexOutOfRange"
proof (induction st and st1 and st2 and st3 and st4 and st5
    rule: parseOr_or_loop_parseAnd_and_loop_parseNot_parsePrimary.induct)
  case (1 st)
  show ?case
  proof (cases "parseAnd st")
    case (Inr s1)
    from parsed_rest(2)[OF parse_sound(3)[OF Inr] 1(3)] 1(2)[OF Inr] Inr show ?thesis
      by (subst parseOr.simps) auto
  qed (use 1 in \<open>subst parseOr.simps, auto\<close>)
next
  case (2 st)
  then obtain t r where st: "fst st = t # r" by (cases "fst st") auto
  show ?case
  proof (cases "isKw t ''OR''")
    case True
    with 2(3) st have e: "has_eof (fst (r, snd st))" by (auto simp: isKw_def)
    show ?thesis
    proof (cases "parseAnd (r, snd st)")
      case (Inr s1)
      from parsed_rest(2)[OF parse_sound(3)[OF Inr] e] 2(2)[OF st True Inr] Inr True st show ?thesis
        by (subst or_loop.simps) auto
    qed (use 2(1)[OF st True e] st True in \<open>subst or_loop.simps, auto\<close>)
  qed (subst or_loop.simps, auto simp: st)
next
  case (3 st)
  show ?case
  proof (cases "parseNot st")
    case (Inr s1)
    from parsed_rest(3)[OF parse_sound(5)[OF Inr] 3(3)] 3(2)[OF Inr] Inr show ?thesis
      by (subst parseAnd.simps) auto
  qed (use 3 in \<open>subst parseAnd.simps, auto\<close>)
next
  case (4 st)
  then obtain t r where st: "fst st = t # r" by (cases "fst st") auto
  show ?case
  proof (cases "isKw t ''AND''")
    case True
    with 4(3) st have e: "has_eof (fst (r, snd st))" by (auto simp: isKw_def)
    show ?thesis
    proof (cases "parseNot (r, snd st)")
      case (Inr s1)
      from parsed_rest(3)[OF parse_sound(5)[OF Inr] e] 4(2)[OF st True Inr] Inr True st show ?thesis
        by (subst and_loop.simps) auto
    qed (use 4(1)[OF st True e] st True in \<open>subst and_loop.simps, auto\<close>)
  qed (subst and_loop.simps, auto simp: st)
next
  case (5 st)
  then obtain t r where st: "fst st = t # r" by (cases "fst st") auto
  then show ?case
    by (subst parseNot.simps) (use 5 in \<open>auto simp: isKw_def\<close>)
next
  case (6 st)
  then obtain t r where st: "fst st = t # r" by (cases "fst st") auto
  show ?case
  proof (cases "tk_kind t = TOpen")
    case True
    with 6(2) st have e: "has_eof (fst (r, snd st))" by auto
    show ?thesis
    proof (cases "parseOr (r, snd st)")
      case (Inr s1)
      from parsed_rest(1)[OF parse_sound(1)[OF Inr] e] Inr True st show ?thesis
        by (subst parsePrimary.simps) (auto simp: result_simps, cases "fst s1", auto)
    qed (use 6(1)[OF st True e] st True in \<open>subst parsePrimary.simps, auto\<close>)
  next
    case False
    with st parseComparison_no_panic[OF 6(2)] show ?thesis by (subst parsePrimary.simps) auto
  qed
qed

lemma token_at_no_panic: "token_at c cs \<noteq> Inl IndexOutOfRange"
  by (simp add: token_at_def scanNumber_def Let_def result_simps split: option.split)

text \<open>
  No row-filter text makes the predicate parser index past its tokens: whatever the input,
  \<open>ParsePredicate\<close> returns columns or one of its own errors, never a Go panic.
\<close>

theorem ParsePredicate_no_panic: "ParsePredicate s \<noteq> Inl IndexOutOfRange"
proof (cases "tokenizePredicate s")
  case (Inl e)
  have "tokenizePredicate s \<noteq> Inl IndexOutOfRange"
    by (induction s rule: tokenizePredicate.induct)
      (auto simp: tokenizePredicate.simps(2) result_simps token_at_no_panic split: sum.splits)
  with Inl show ?thesis by (simp add: ParsePredicate_def)
next
  case (Inr toks)
  then have e: "has_eof (fst (toks, []))" using tokenize_shape[OF Inr] by (auto simp: has_eof_def)
  show ?thesis
  proof (cases "parseOr (toks, [])")
    case (Inr st)
    from parsed_rest(1)[OF parse_sound(1)[OF this] e] obtain t r where "fst st = t # r" by (cases "fst st") auto
    with Inr \<open>tokenizePredicate s = Inr toks\<close> show ?thesis by (cases st) (simp add: ParsePredicate_def)
  qed (use Inr parse_no_panic(1)[OF e] in \<open>auto simp: ParsePredicate_def\<close>)
qed

lemma parse_result_cols:
  assumes "parsed g_or (toks, []) st'" "fst st' = [tok TEof []]" "toks = ts @ [tok TEof []]"
  shows "\<exists>C. g_or ts C \<and> set (snd st') = C \<and> distinct (snd st')"
  using assms by (auto simp: parsed_def)

lemma g_columns_nonempty:
  "g_or ts C \<Longrightarrow> C \<noteq> {}" "g_and ts C \<Longrightarrow> C \<noteq> {}" "g_not ts C \<Longrightarrow> C \<noteq> {}" "g_primary ts C \<Longrightarrow> C \<noteq> {}"
  by (induction rule: g_or_g_and_g_not_g_primary.inducts) auto

lemma sort_set: "distinct xs \<Longrightarrow> set xs = C \<Longrightarrow> sort xs = sorted_list_of_set C"
  by (metis sorted_list_of_set_sort_remdups distinct_remdups_id)

text \<open>
  C22. \<open>ParsePredicate\<close> accepts exactly the grammar of its comment, and returns exactly the columns
  of the derivation, sorted and without repetition: the recursive-descent parser and the grammar
  define the same language.
\<close>

theorem ParsePredicate_iff_grammar:
  "ParsePredicate s = Inr cols \<longleftrightarrow>
     (\<exists>ts C. tokenizePredicate s = Inr (ts @ [tok TEof []]) \<and> g_or ts C \<and> cols = sorted_list_of_set C)"
  (is "?l \<longleftrightarrow> ?r")
proof
  assume ?l
  then obtain toks st t r where toks: "tokenizePredicate s = Inr toks" and st: "parseOr (toks, []) = Inr st"
    and t: "fst st = t # r" "tk_kind t = TEof" and cols: "cols = sort (snd st)"
    by (auto simp: ParsePredicate_def result_simps split: if_splits)
  obtain ts where ts: "toks = ts @ [tok TEof []]" "\<forall>x\<in>set ts. tk_kind x \<noteq> TEof"
    using tokenize_shape[OF toks] by blast
  from parse_sound(1)[OF st] obtain us C where us: "toks = us @ t # r" "g_or us C" "set (snd st) = C" "distinct (snd st)"
    by (auto simp: parsed_def t)
  have "us = ts \<and> r = []"
    using us(1) ts t(2) by (auto simp: append_eq_append_conv2 Cons_eq_append_conv append_eq_Cons_conv)
  with us ts toks cols show ?r by (auto simp: sort_set)
next
  assume ?r
  then obtain ts C where ts: "tokenizePredicate s = Inr (ts @ [tok TEof []])" "g_or ts C" "cols = sorted_list_of_set C"
    by blast
  from parse_complete(1)[OF ts(2)] obtain cols' where
    p: "parseOr (ts @ [tok TEof []], []) = Inr ([tok TEof []], cols')" "set cols' = C"
    unfolding parses_def by (force simp: isKw_def)
  moreover from parse_sound(1)[OF p(1)] have "distinct cols'" by (auto simp: parsed_def)
  moreover have "cols' \<noteq> []" using g_columns_nonempty(1)[OF ts(2)] p(2) by auto
  ultimately show ?l using ts by (simp add: ParsePredicate_def sort_set)
qed

text \<open>The text outside string literals, the quotes kept.\<close>

fun outside_literals :: "bool \<Rightarrow> string \<Rightarrow> string" where
  "outside_literals inside [] = []"
| "outside_literals inside (c # cs) =
     (if c = quote_ch then c # outside_literals (\<not> inside) cs
      else if inside then outside_literals inside cs
      else c # outside_literals inside cs)"

fun plain_text :: "string \<Rightarrow> bool" where
  "plain_text [] = True"
| "plain_text (c # cs) =
     ((c = CHR ''-'' \<longrightarrow> next_digit cs) \<and> c \<noteq> CHR '';'' \<and> c \<noteq> CHR ''/'' \<and> plain_text cs)"

definition harmless :: "string \<Rightarrow> bool" where
  "harmless w \<longleftrightarrow> CHR ''-'' \<notin> set w \<and> CHR '';'' \<notin> set w \<and> CHR ''/'' \<notin> set w"

lemma plain_text_append: "harmless w \<Longrightarrow> plain_text (w @ r) \<longleftrightarrow> plain_text r"
  by (induction w) (auto simp: harmless_def)

lemma outside_append: "quote_ch \<notin> set w \<Longrightarrow> outside_literals False (w @ r) = w @ outside_literals False r"
  by (induction w) auto

lemma string_token_outside:
  "string_token cs = Some (v, r) \<Longrightarrow>
     \<exists>w. set w \<subseteq> {quote_ch} \<and> outside_literals True cs = w @ outside_literals False r"
proof (induction cs arbitrary: v rule: string_token.induct)
  case (3 c d cs)
  show ?case
  proof (cases "c = quote_ch \<and> d = quote_ch")
    case True
    with 3 obtain w where "set w \<subseteq> {quote_ch}" "outside_literals True cs = w @ outside_literals False r"
      by (auto split: if_splits)
    with True have "set (quote_ch # quote_ch # w) \<subseteq> {quote_ch}"
      "outside_literals True (c # d # cs) = (quote_ch # quote_ch # w) @ outside_literals False r" by auto
    then show ?thesis by blast
  next
    case False
    with 3 show ?thesis by (auto split: if_splits intro: exI[of _ "[quote_ch]"])
  qed
qed (auto split: if_splits intro: exI[of _ "[quote_ch]"])

lemma ident_word_chars: "c \<in> set (ident_word s) \<Longrightarrow> isIdentChar c"
  unfolding ident_word_def by (auto dest: set_takeWhileD)

lemma digits_of_chars: "c \<in> set (digits_of s) \<Longrightarrow> is_digit c"
  unfolding digits_of_def by (auto dest: set_takeWhileD)

lemma digit_specials:
  "is_digit c \<Longrightarrow> c \<noteq> CHR ''-'' \<and> c \<noteq> CHR '';'' \<and> c \<noteq> CHR ''/'' \<and> c \<noteq> quote_ch"
  "isIdentChar c \<Longrightarrow> c \<noteq> CHR ''-'' \<and> c \<noteq> CHR '';'' \<and> c \<noteq> CHR ''/'' \<and> c \<noteq> quote_ch"
  by (auto simp: byte_defs isIdentChar_def special_chars)

lemma harmless_words:
  "harmless (digits_of s)" "harmless (ident_word s)" "harmless (a @ b) \<longleftrightarrow> harmless a \<and> harmless b"
  "quote_ch \<notin> set (digits_of s)" "quote_ch \<notin> set (ident_word s)"
  by (auto simp: harmless_def dest: digits_of_chars ident_word_chars digit_specials)

lemma next_digit_digits: "digits_of s \<noteq> [] \<Longrightarrow> next_digit (digits_of s @ x)"
  by (cases s) (auto simp: digits_of_def next_digit_def split: if_splits)

lemma scanNumber_text:
  "scanNumber s = Inr (n, r) \<Longrightarrow>
     \<exists>w. harmless w \<and> quote_ch \<notin> set w \<and> (n = w \<or> n = CHR ''-'' # w \<and> (\<forall>x. next_digit (w @ x)))"
proof -
  have dot: "harmless ''.''" by (simp add: harmless_def)
  have q: "quote_ch \<noteq> CHR ''.''" by (simp add: special_chars)
  assume "scanNumber s = Inr (n, r)"
  then obtain d w where "n = (if take 1 s = ''-'' then ''-'' else []) @ digits_of d @ w" "digits_of d \<noteq> []"
    "harmless w" "quote_ch \<notin> set w"
    by (auto simp: scanNumber_def Let_def harmless_words dot q split: if_splits)
      (metis harmless_words append_Cons append_Nil dot q append.right_neutral list.set_intros set_ConsD
        empty_iff list.set(1) harmless_def)+
  then show ?thesis
    by (intro exI[of _ "digits_of d @ w"]) (auto simp: harmless_words next_digit_digits split: if_splits)
qed

lemma next_is_outside:
  "next_is cs d \<Longrightarrow> d \<noteq> quote_ch \<Longrightarrow> outside_literals False cs = d # outside_literals False (drop 1 cs)"
  by (cases cs) (auto simp: next_is_def)

lemma special_neq [simp]:
  "quote_ch \<noteq> CHR ''-''" "quote_ch \<noteq> CHR '';''" "quote_ch \<noteq> CHR ''/''" "quote_ch \<noteq> CHR ''=''"
  "CHR ''='' \<noteq> quote_ch" "CHR ''>'' \<noteq> quote_ch" "CHR ''<'' \<noteq> quote_ch" "CHR ''!'' \<noteq> quote_ch"
  "CHR ''('' \<noteq> quote_ch" "CHR '')'' \<noteq> quote_ch" "CHR '','' \<noteq> quote_ch" "CHR ''-'' \<noteq> quote_ch"
  "blank c \<Longrightarrow> c \<noteq> quote_ch \<and> c \<noteq> CHR ''-'' \<and> c \<noteq> CHR '';'' \<and> c \<noteq> CHR ''/''"
  by (auto simp: special_chars blank_def byte_defs)

lemma plain_text_string:
  "string_token cs = Some (v, r) \<Longrightarrow> plain_text (outside_literals False r) \<Longrightarrow>
   plain_text (outside_literals True cs)"
proof -
  assume "string_token cs = Some (v, r)" and r: "plain_text (outside_literals False r)"
  then obtain w where w: "set w \<subseteq> {quote_ch}" "outside_literals True cs = w @ outside_literals False r"
    using string_token_outside by blast
  from w(1) have "harmless w" by (auto simp: harmless_def special_chars dest: subsetD)
  with r w(2) show ?thesis by (simp add: plain_text_append)
qed

lemma plain_text_number:
  "scanNumber s = Inr (n, r) \<Longrightarrow> plain_text (outside_literals False r) \<Longrightarrow> plain_text (outside_literals False s)"
proof -
  assume n: "scanNumber s = Inr (n, r)" and r: "plain_text (outside_literals False r)"
  obtain w where w: "harmless w" "quote_ch \<notin> set w" "n = w \<or> n = CHR ''-'' # w \<and> (\<forall>x. next_digit (w @ x))"
    using scanNumber_text[OF n] by blast
  have "s = n @ r" using scanNumber_split[OF n] by simp
  with w r show ?thesis by (auto simp: outside_append plain_text_append)
qed

lemma plain_text_ident:
  "plain_text (outside_literals False (ident_rest s)) \<Longrightarrow> plain_text (outside_literals False s)"
  using ident_split[of s] by (metis harmless_words(2,5) outside_append plain_text_append)

lemma token_at_plain:
  "returns (token_at c cs)
     (\<lambda>(t, r). plain_text (outside_literals False r) \<longrightarrow> plain_text (outside_literals False (c # cs)))"
  unfolding token_at_def
  by (intro returns_intros) (simp_all add: next_is_outside plain_text_string plain_text_number plain_text_ident
      del: outside_literals.simps, simp_all add: next_is_outside plain_text_string)

lemma plain_text_no_terminator:
  "plain_text s \<Longrightarrow> CHR '';'' \<notin> set s \<and> \<not> sublist ''--'' s \<and> \<not> sublist ''/*'' s"
proof (induction s)
  case (Cons c s)
  have "\<not> prefix ''--'' (c # s)" "\<not> prefix ''/*'' (c # s)"
    using Cons.prems by (auto simp: next_digit_def prefix_def byte_defs)
  with Cons show ?case by (auto simp: sublist_Cons_right)
qed simp

text \<open>
  An accepted row filter has no statement terminator and no comment outside its string
  literals, in the reading of standard SQL where only a doubled quote is an escape.
\<close>

theorem ParsePredicate_no_smuggling:
  "ParsePredicate s = Inr cols \<Longrightarrow>
     CHR '';'' \<notin> set (outside_literals False s) \<and> \<not> sublist ''--'' (outside_literals False s)
       \<and> \<not> sublist ''/*'' (outside_literals False s)"
proof -
  assume "ParsePredicate s = Inr cols"
  then obtain toks where "tokenizePredicate s = Inr toks" by (auto simp: ParsePredicate_def result_simps)
  then have "plain_text (outside_literals False s)"
  proof (induction s arbitrary: toks rule: tokenizePredicate.induct)
    case (2 c cs)
    then obtain t r ts where t: "token_at c cs = Inr (t, r)" "tokenizePredicate r = Inr ts"
      by (auto simp: tokenizePredicate.simps(2) result_simps split: sum.splits)
    from 2(1)[OF t(1) refl t(2)] returnsD[OF token_at_plain t(1)] show ?case by simp
  qed simp
  then show ?thesis by (rule plain_text_no_terminator)
qed

theorem ParsePredicate_no_smuggling_witness:
  "ParsePredicate (''a='' @ quote_ch # '';--'' @ [quote_ch]) = Inr [''a'']
   \<and> \<not> sublist ''--'' (outside_literals False (''a='' @ quote_ch # '';--'' @ [quote_ch]))"
  (is "?eq \<and> _")
proof -
  have eq: ?eq by code_simp
  show ?thesis using eq ParsePredicate_no_smuggling[OF eq] by blast
qed

definition smuggling_filter :: string where
  "smuggling_filter =
     ''a='' @ quote_ch # backslash_ch # quote_ch # '' OR b='' @ quote_ch # '' OR sleep(1) -- '' @ [quote_ch]"

text \<open>
  The tokenizer does not know the backslash escape of a StarRocks string. Here is an accepted
  row filter whose first literal, read the way StarRocks reads it, runs past the literal that was
  checked: the rest of the filter is then SQL text the grammar never saw, ending in a comment.
\<close>

theorem ParsePredicate_backslash_escape:
  "ParsePredicate smuggling_filter = Inr [''a'', ''b'']
   \<and> read_mysql (drop 3 smuggling_filter)
      = Some (quote_ch # '' OR b='', '' OR sleep(1) -- '' @ [quote_ch])"
  by code_simp

end
