(* ===== verification/Governance.thy ===== *)
theory Governance
  imports ApiTypes RowPredicate GoValues
begin

text \<open>
  \<^verbatim>\<open>internal/governance/governance.go\<close>: which roles of a caller authorize a request, the row
  filters that follow, claim placeholders, and the digest of an identity. Glob patterns are
  compiled by \<^verbatim>\<open>github.com/gobwas/glob\<close>, which is not part of the repository: \<open>compile\<close> is a
  parameter that maps a pattern to an error text or to its matcher. A \<^verbatim>\<open>map[string]string\<close>
  of claims is an association list, read with \<^const>\<open>map_of\<close>.
\<close>

type_synonym matcher = "string \<Rightarrow> bool"
type_synonym glob_compiler = "string \<Rightarrow> (string, matcher) result"

section \<open>Identities\<close>

record Identity =
  id_Principal :: string
  id_Groups :: "string list"
  id_Roles :: "string list"
  id_Claims :: "(string \<times> string) list"

definition no_identity :: Identity where
  "no_identity = \<lparr>id_Principal = [], id_Groups = [], id_Roles = [], id_Claims = []\<rparr>"

definition Single :: "string \<Rightarrow> Identity" where
  "Single role = (if role = [] then no_identity else no_identity\<lparr>id_Roles := [role]\<rparr>)"

fun collect_roles :: "string list \<Rightarrow> string list \<Rightarrow> string list" where
  "collect_roles seen [] = []"
| "collect_roles seen (v # vs) =
     (if v = [] \<or> v \<in> set seen then collect_roles seen vs else v # collect_roles (v # seen) vs)"

definition PolicyRoles :: "Identity \<Rightarrow> string list" where
  "PolicyRoles idn = collect_roles [] (id_Groups idn @ id_Roles idn)"

section \<open>Decisions and errors\<close>

record Decision =
  dec_Roles :: "string list"
  dec_RoleKey :: string
  dec_RowFilterGroups :: "RowFilter list list"

datatype blocker_reason = MayNotQueryMetric string | MayNotReadField string | DoesNotPermit

text \<open>\<open>ErrUnauthorized\<close> is the sentinel every refusal wraps.\<close>

datatype refusal_reason =
    NoPolicyGrants "string list"
  | RoleRefused string blocker_reason
  | NoSingleRole "(string \<times> blocker_reason) list"
  | MissingClaim string

datatype 'l gov_error =
    ErrUnauthorized refusal_reason
  | BadPattern string string string
  | BadClaimLiteral string 'l
  | MalformedTemplate string

section \<open>Visibility\<close>

record Visibility =
  vis_roles :: "string list"
  vis_unrestricted :: bool
  vis_policies :: "RolePolicy list"
  vis_globs :: "matcher list list"

definition empty_Visibility :: Visibility where
  "empty_Visibility = \<lparr>vis_roles = [], vis_unrestricted = False, vis_policies = [], vis_globs = []\<rparr>"

definition compile_patterns ::
  "glob_compiler \<Rightarrow> string \<Rightarrow> string list \<Rightarrow> ('l gov_error, matcher list) result" where
  "compile_patterns compile name =
     emap (\<lambda>pat. emap_err (BadPattern name pat) (compile pat))"

fun visible_loop ::
  "glob_compiler \<Rightarrow> GovernanceSpec \<Rightarrow> string list \<Rightarrow> string list \<Rightarrow> Visibility \<Rightarrow> ('l gov_error, Visibility) result" where
  "visible_loop compile g [] seen v = Inr v"
| "visible_loop compile g (name # names) seen v =
     (if name = [] \<or> name \<in> set seen then visible_loop compile g names seen v
      else case Role (Some g) name of
        None \<Rightarrow> visible_loop compile g names seen v
      | Some policy \<Rightarrow>
          if rp_AllowMetrics policy = [] then visible_loop compile g names seen v
          else ebind (compile_patterns compile name (rp_AllowMetrics policy)) (\<lambda>globs.
            visible_loop compile g names (name # seen)
              (v\<lparr>vis_roles := vis_roles v @ [name],
                 vis_policies := vis_policies v @ [policy],
                 vis_globs := vis_globs v @ [globs]\<rparr>)))"

definition sortPolicies :: "Visibility \<Rightarrow> Visibility" where
  "sortPolicies v =
     (let idx = sort_key (\<lambda>i. vis_roles v ! i) [0..<length (vis_roles v)]
      in v\<lparr>vis_roles := map (nth (vis_roles v)) idx,
           vis_policies := map (nth (vis_policies v)) idx,
           vis_globs := map (nth (vis_globs v)) idx\<rparr>)"

text \<open>The roles looked up: those of the identity, or the default role when it names none.\<close>

definition wanted_roles :: "GovernanceSpec \<Rightarrow> Identity \<Rightarrow> string list" where
  "wanted_roles g idn =
     (if PolicyRoles idn = [] \<and> g_DefaultRole g \<noteq> [] then [g_DefaultRole g] else PolicyRoles idn)"

definition Visible :: "glob_compiler \<Rightarrow> GovernanceSpec option \<Rightarrow> Identity \<Rightarrow> ('l gov_error, Visibility) result" where
  "Visible compile gov idn =
     (case gov of
        None \<Rightarrow> Inr (empty_Visibility\<lparr>vis_roles := PolicyRoles idn, vis_unrestricted := True\<rparr>)
      | Some g \<Rightarrow>
          ebind (visible_loop compile g (wanted_roles g idn) [] empty_Visibility) (\<lambda>v.
            if vis_policies v = [] then Inl (ErrUnauthorized (NoPolicyGrants (wanted_roles g idn)))
            else Inr (sortPolicies v)))"

definition RoleKey :: "Visibility \<Rightarrow> string" where
  "RoleKey v = join '','' (vis_roles v)"

definition permitsMetric :: "Visibility \<Rightarrow> nat \<Rightarrow> string \<Rightarrow> bool" where
  "permitsMetric v i name \<longleftrightarrow> (\<exists>gl\<in>set (vis_globs v ! i). gl name)"

definition permitsField :: "Visibility \<Rightarrow> nat \<Rightarrow> string \<Rightarrow> bool" where
  "permitsField v i ref \<longleftrightarrow> ref \<notin> set (rp_DenyFields (vis_policies v ! i))"

text \<open>\<^verbatim>\<open>Visibility.Metric\<close> and \<^verbatim>\<open>Visibility.Field\<close>, which discovery filters through.\<close>

definition Visibility_Metric :: "Visibility \<Rightarrow> string \<Rightarrow> bool" where
  "Visibility_Metric v name \<longleftrightarrow>
     vis_unrestricted v \<or> (\<exists>i\<in>set [0..<length (vis_policies v)]. permitsMetric v i name)"

definition Visibility_Field :: "Visibility \<Rightarrow> string \<Rightarrow> bool" where
  "Visibility_Field v ref \<longleftrightarrow>
     vis_unrestricted v \<or> (\<exists>i\<in>set [0..<length (vis_policies v)]. permitsField v i ref)"

section \<open>Authorization\<close>

definition authorizing :: "Visibility \<Rightarrow> string list \<Rightarrow> FieldRef list \<Rightarrow> nat list" where
  "authorizing v metrics refs =
     filter (\<lambda>i. (\<forall>m\<in>set metrics. permitsMetric v i m) \<and>
                 (\<forall>r\<in>set refs. permitsField v i (FieldRef_String r)))
       [0..<length (vis_policies v)]"

definition blocker :: "Visibility \<Rightarrow> nat \<Rightarrow> string list \<Rightarrow> FieldRef list \<Rightarrow> blocker_reason" where
  "blocker v i metrics refs =
     (case find (\<lambda>m. \<not> permitsMetric v i m) metrics of
        Some m \<Rightarrow> MayNotQueryMetric m
      | None \<Rightarrow>
          (case find (\<lambda>r. \<not> permitsField v i (FieldRef_String r)) refs of
             Some r \<Rightarrow> MayNotReadField (FieldRef_String r)
           | None \<Rightarrow> DoesNotPermit))"

definition refusal :: "Visibility \<Rightarrow> string list \<Rightarrow> FieldRef list \<Rightarrow> refusal_reason" where
  "refusal v metrics refs =
     (if length (vis_policies v) = 1 then RoleRefused (vis_roles v ! 0) (blocker v 0 metrics refs)
      else NoSingleRole (map (\<lambda>i. (vis_roles v ! i, blocker v i metrics refs))
             [0..<length (vis_policies v)]))"

text \<open>The loop over the authorizing roles: a role without row filters lifts every restriction.\<close>

fun filter_groups :: "Visibility \<Rightarrow> nat list \<Rightarrow> RowFilter list list \<Rightarrow> RowFilter list list" where
  "filter_groups v [] groups = groups"
| "filter_groups v (i # is) groups =
     (if rp_RowFilters (vis_policies v ! i) = [] then []
      else filter_groups v is (groups @ [rp_RowFilters (vis_policies v ! i)]))"

definition Authorize ::
  "glob_compiler \<Rightarrow> GovernanceSpec option \<Rightarrow> Identity \<Rightarrow> string list \<Rightarrow> FieldRef list \<Rightarrow> ('l gov_error, Decision) result" where
  "Authorize compile gov idn metrics refs =
     ebind (Visible compile gov idn) (\<lambda>v.
       if vis_unrestricted v then
         Inr \<lparr>dec_Roles = vis_roles v, dec_RoleKey = RoleKey v, dec_RowFilterGroups = []\<rparr>
       else
         let granted = authorizing v metrics refs; names = map (nth (vis_roles v)) granted
         in if granted = [] then Inl (ErrUnauthorized (refusal v metrics refs))
            else Inr \<lparr>dec_Roles = names, dec_RoleKey = join '','' names,
                      dec_RowFilterGroups = filter_groups v granted []\<rparr>)"

section \<open>Claim placeholders\<close>

text \<open>
  The regular expression \<^verbatim>\<open>claimRef\<close>, anchored at a position. Its parts are over disjoint
  character sets, so the greedy match needs no backtracking.
\<close>

definition re_space :: "char \<Rightarrow> bool" where
  "re_space c \<longleftrightarrow> byte c \<in> {9, 10, 12, 13, 32}"

definition claim_char :: "char \<Rightarrow> bool" where
  "claim_char c \<longleftrightarrow> is_lower c \<or> is_upper c \<or> is_digit c \<or> c \<in> {CHR ''_'', CHR ''.'', CHR ''-''}"

definition strip_prefix :: "string \<Rightarrow> string \<Rightarrow> string option" where
  "strip_prefix p s = (if take (length p) s = p then Some (drop (length p) s) else None)"

definition claimRef :: "string \<Rightarrow> (string \<times> string) option" where
  "claimRef s =
     (case strip_prefix ''{{'' s of
        None \<Rightarrow> None
      | Some s1 \<Rightarrow>
        (case strip_prefix ''claim.'' (dropWhile re_space s1) of
           None \<Rightarrow> None
         | Some s2 \<Rightarrow>
             let name = takeWhile claim_char s2
             in if name = [] then None
                else map_option (\<lambda>r. (name, r))
                       (strip_prefix ''}}'' (dropWhile re_space (dropWhile claim_char s2)))))"

lemma strip_prefix_Some: "strip_prefix p s = Some r \<longleftrightarrow> s = p @ r"
  by (auto simp: strip_prefix_def) (metis append_take_drop_id)

lemma claimRef_shorter: "claimRef s = Some (n, r) \<Longrightarrow> length r < length s"
proof -
  assume "claimRef s = Some (n, r)"
  then obtain s1 s2 where s1: "s = ''{{'' @ s1" and s2: "dropWhile re_space s1 = ''claim.'' @ s2"
    and r: "dropWhile re_space (dropWhile claim_char s2) = ''}}'' @ r"
    by (auto simp: claimRef_def strip_prefix_Some Let_def split: option.splits if_splits)
  have "length s2 \<le> length s1" using length_dropWhile_le[of re_space s1] s2 by simp
  moreover have "length r \<le> length s2"
    using length_dropWhile_le[of re_space "dropWhile claim_char s2"] length_dropWhile_le[of claim_char s2] r
    by simp
  ultimately show ?thesis using s1 by simp
qed

text \<open>\<^verbatim>\<open>ReplaceAllStringFunc\<close> over that expression, left to right. The callback gets the claim
  name and the matched text and threads the variables its closure captures.\<close>

function replace_claims :: "(string \<Rightarrow> string \<Rightarrow> 's \<Rightarrow> string \<times> 's) \<Rightarrow> string \<Rightarrow> 's \<Rightarrow> string \<times> 's" where
  "replace_claims f [] st = ([], st)"
| "replace_claims f (c # cs) st =
     (case claimRef (c # cs) of
        Some (name, r) \<Rightarrow>
          (let (t, st1) = f name (take (length (c # cs) - length r) (c # cs)) st;
               (out, st2) = replace_claims f r st1
           in (t @ out, st2))
      | None \<Rightarrow> (let (out, st1) = replace_claims f cs st in (c # out, st1)))"
  by pat_completeness auto
termination
  by (relation "measure (\<lambda>(_, s, _). length s)") (auto dest: claimRef_shorter)

declare replace_claims.simps(2) [simp del]

definition expand_claim ::
  "(string \<times> string) list \<Rightarrow> (go_value \<Rightarrow> ('l, string) result) \<Rightarrow> string \<Rightarrow> string
     \<Rightarrow> 'l gov_error option \<Rightarrow> string \<times> 'l gov_error option" where
  "expand_claim claims literal name m bad =
     (case map_of claims name of
        None \<Rightarrow> (m, if bad = None then Some (ErrUnauthorized (MissingClaim name)) else bad)
      | Some v \<Rightarrow>
          (case literal (VString v) of
             Inl e \<Rightarrow> (m, if bad = None then Some (BadClaimLiteral name e) else bad)
           | Inr lit \<Rightarrow> (lit, bad)))"

definition ExpandClaims ::
  "string \<Rightarrow> (string \<times> string) list \<Rightarrow> (go_value \<Rightarrow> ('l, string) result) \<Rightarrow> ('l gov_error, string) result" where
  "ExpandClaims predicate claims literal =
     (case replace_claims (expand_claim claims literal) predicate None of
        (out, Some bad) \<Rightarrow> Inl bad
      | (out, None) \<Rightarrow> Inr out)"

definition placeholderLiteral :: string where
  "placeholderLiteral = quote_ch # ''x'' @ [quote_ch]"

definition ValidatablePredicate :: "string \<Rightarrow> ('l gov_error, string) result" where
  "ValidatablePredicate pred =
     (let out = fst (replace_claims (\<lambda>name m u. (placeholderLiteral, u)) pred ())
      in if sublist ''{{'' out \<or> sublist ''}}'' out then Inl (MalformedTemplate pred) else Inr out)"

section \<open>Identity digest\<close>

definition sortedCopy :: "string list \<Rightarrow> string list" where
  "sortedCopy xs = sort xs"

definition sortedUniqueCopy :: "string list \<Rightarrow> string list" where
  "sortedUniqueCopy xs = remdups_adj (sortedCopy xs)"

definition identity_value :: "string \<Rightarrow> string \<Rightarrow> string" where
  "identity_value kind val =
     nat_str (length kind) @ '':'' @ kind @ ''='' @ nat_str (length val) @ '':'' @ val @ '';''"

definition identity_pairs :: "Identity \<Rightarrow> (string \<times> string) list" where
  "identity_pairs idn =
     (''principal'', id_Principal idn)
     # map (Pair ''group'') (sortedUniqueCopy (id_Groups idn))
     @ map (Pair ''role'') (sortedUniqueCopy (id_Roles idn))
     @ concat (map (\<lambda>name. [(''claim-name'', name), (''claim-value'', the (map_of (id_Claims idn) name))])
         (sort (remdups (map fst (id_Claims idn)))))"

definition identity_text :: "Identity \<Rightarrow> string" where
  "identity_text idn = concat (map (\<lambda>(k, v). identity_value k v) (identity_pairs idn))"

definition IdentityDigest :: "Identity \<Rightarrow> string" where
  "IdentityDigest idn = sha256_hex (identity_text idn)"

definition IdentityKey :: "glob_compiler \<Rightarrow> GovernanceSpec option \<Rightarrow> Identity \<Rightarrow> string" where
  "IdentityKey compile gov idn =
     (case (Visible compile gov idn :: (unit gov_error, Visibility) result) of
        Inr v \<Rightarrow> RoleKey v
      | Inl _ \<Rightarrow> join '','' (sortedUniqueCopy (PolicyRoles idn)))
     @ ''|'' @ IdentityDigest idn"

section \<open>Visible policies\<close>

lemma set_collect_roles: "set (collect_roles seen vs) = set vs - {[]} - set seen"
  by (induction seen vs rule: collect_roles.induct) auto

lemma set_PolicyRoles: "set (PolicyRoles idn) = (set (id_Groups idn) \<union> set (id_Roles idn)) - {[]}"
  by (auto simp: PolicyRoles_def set_collect_roles)

lemma PolicyRoles_Single: "r \<noteq> [] \<Longrightarrow> PolicyRoles (Single r) = [r]"
  by (simp add: PolicyRoles_def Single_def no_identity_def)

definition pattern_matches :: "glob_compiler \<Rightarrow> string \<Rightarrow> string \<Rightarrow> bool" where
  "pattern_matches compile pat name = (case compile pat of Inl e \<Rightarrow> False | Inr gl \<Rightarrow> gl name)"

text \<open>The policy a role name stands for, when it grants something.\<close>

definition granting :: "GovernanceSpec \<Rightarrow> string \<Rightarrow> RolePolicy option" where
  "granting g name =
     (case Role (Some g) name of
        None \<Rightarrow> None
      | Some p \<Rightarrow> if name = [] \<or> rp_AllowMetrics p = [] then None else Some p)"

text \<open>The invariant of the parallel slices: aligned, without repetition, each policy the granting
  policy of its role and each matcher list the compiled patterns of its policy.\<close>

definition wf_visibility :: "glob_compiler \<Rightarrow> GovernanceSpec \<Rightarrow> Visibility \<Rightarrow> bool" where
  "wf_visibility compile g v \<longleftrightarrow>
     \<not> vis_unrestricted v \<and> distinct (vis_roles v)
     \<and> length (vis_policies v) = length (vis_roles v) \<and> length (vis_globs v) = length (vis_roles v)
     \<and> (\<forall>i<length (vis_roles v).
          granting g (vis_roles v ! i) = Some (vis_policies v ! i)
          \<and> map Inr (vis_globs v ! i) = map compile (rp_AllowMetrics (vis_policies v ! i)))"

lemma compile_patterns_Inr: "compile_patterns compile n pats = Inr gls \<Longrightarrow> map Inr gls = map compile pats"
  unfolding compile_patterns_def
  by (induction pats arbitrary: gls) (auto simp: result_simps)

lemma wf_permitsMetric:
  assumes "wf_visibility compile g v" "i < length (vis_roles v)"
  shows "permitsMetric v i name \<longleftrightarrow>
    (\<exists>pat\<in>set (rp_AllowMetrics (vis_policies v ! i)). pattern_matches compile pat name)"
proof -
  have m: "map Inr (vis_globs v ! i) = map compile (rp_AllowMetrics (vis_policies v ! i))"
    using assms by (simp add: wf_visibility_def)
  have "permitsMetric v i name \<longleftrightarrow>
      (\<exists>x\<in>set (map Inr (vis_globs v ! i)). case x of Inl (e::string) \<Rightarrow> False | Inr gl \<Rightarrow> gl name)"
    by (simp add: permitsMetric_def)
  also have "\<dots> \<longleftrightarrow> (\<exists>pat\<in>set (rp_AllowMetrics (vis_policies v ! i)). pattern_matches compile pat name)"
    unfolding m by (simp add: pattern_matches_def)
  finally show ?thesis .
qed

lemma granting_name: "granting g n = Some p \<Longrightarrow> p \<in> set (g_Roles g) \<and> rp_Name p = n \<and> n \<noteq> []"
  by (auto simp: granting_def dest!: Role_Some split: option.splits if_splits)

lemma wf_empty_Visibility: "wf_visibility compile g empty_Visibility"
  by (simp add: wf_visibility_def empty_Visibility_def)

lemma wf_visibility_snoc:
  assumes "wf_visibility compile g v" "granting g n = Some p" "n \<notin> set (vis_roles v)"
    "map Inr gls = map compile (rp_AllowMetrics p)"
  shows "wf_visibility compile g
    (v\<lparr>vis_roles := vis_roles v @ [n], vis_policies := vis_policies v @ [p], vis_globs := vis_globs v @ [gls]\<rparr>)"
  using assms by (auto simp: wf_visibility_def nth_append less_Suc_eq)

lemma visible_loop_wf:
  assumes "visible_loop compile g names seen v = (Inr v' :: ('l gov_error, Visibility) result)" "wf_visibility compile g v" "set seen = set (vis_roles v)"
  shows "wf_visibility compile g v'
    \<and> set (vis_roles v') = set (vis_roles v) \<union> {n \<in> set names. granting g n \<noteq> None}"
  using assms
proof (induction compile g names seen v rule: visible_loop.induct)
  case (2 compile g name names seen v)
  note prems = "2.prems"
  show ?case
  proof (cases "name = [] \<or> name \<in> set seen")
    case True
    have "granting g [] = None" by (simp add: granting_def split: option.splits)
    moreover have "visible_loop compile g names seen v = (Inr v' :: ('l gov_error, Visibility) result)"
      using prems(1) True by simp
    ultimately show ?thesis using "2.IH"(1)[OF True] prems(2,3) True by auto
  next
    case nn: False
    show ?thesis
    proof (cases "Role (Some g) name")
      case None
      then have "granting g name = None" by (simp add: granting_def)
      moreover have "visible_loop compile g names seen v = (Inr v' :: ('l gov_error, Visibility) result)"
        using prems(1) nn None by simp
      ultimately show ?thesis using "2.IH"(2)[OF nn None] prems(2,3) by auto
    next
      case (Some p)
      show ?thesis
      proof (cases "rp_AllowMetrics p = []")
        case True
        with Some have "granting g name = None" by (simp add: granting_def)
        moreover have "visible_loop compile g names seen v = (Inr v' :: ('l gov_error, Visibility) result)"
          using prems(1) nn Some True by simp
        ultimately show ?thesis using "2.IH"(3)[OF nn Some True] prems(2,3) by auto
      next
        case False
        with Some nn have p: "granting g name = Some p" by (simp add: granting_def)
        obtain gls where gls: "compile_patterns compile name (rp_AllowMetrics p) = (Inr gls :: ('l gov_error, matcher list) result)"
          "visible_loop compile g names (name # seen)
             (v\<lparr>vis_roles := vis_roles v @ [name], vis_policies := vis_policies v @ [p],
                vis_globs := vis_globs v @ [gls]\<rparr>) = (Inr v' :: ('l gov_error, Visibility) result)"
          using prems(1) nn Some False by (auto simp: result_simps)
        have "name \<notin> set (vis_roles v)" using nn prems(3) by simp
        from "2.IH"(4)[OF nn Some False gls(2)]
          wf_visibility_snoc[OF prems(2) p this compile_patterns_Inr[OF gls(1)]] prems(3) p
        show ?thesis by auto
      qed
    qed
  qed
qed auto

lemma nth_sort_key_perm: "set (sort_key f [0..<n]) = {..<n}" "distinct (sort_key f [0..<n])"
  by auto

lemma map_nth_sort_idx:
  "map (nth xs) (sort_key (\<lambda>i. xs ! i) [0..<length xs]) = sort xs"
proof (rule sym, rule properties_for_sort)
  have "mset (map (nth xs) (sort_key (\<lambda>i. xs ! i) [0..<length xs])) = mset (map (nth xs) [0..<length xs])"
    unfolding mset_map by simp
  then show "mset (map (nth xs) (sort_key (\<lambda>i. xs ! i) [0..<length xs])) = mset xs" by (simp add: map_nth)
qed simp

lemma sortPolicies_wf:
  assumes "wf_visibility compile g v"
  shows "wf_visibility compile g (sortPolicies v) \<and> vis_roles (sortPolicies v) = sort (vis_roles v)"
proof -
  let ?idx = "sort_key (\<lambda>i. vis_roles v ! i) [0..<length (vis_roles v)]"
  have roles: "vis_roles (sortPolicies v) = sort (vis_roles v)"
    by (simp add: sortPolicies_def Let_def map_nth_sort_idx)
  have "distinct (vis_roles (sortPolicies v))"
    using assms unfolding roles by (simp add: wf_visibility_def)
  moreover have "i < length (vis_roles v) \<Longrightarrow> ?idx ! i < length (vis_roles v)" for i
    using nth_mem[of i ?idx] by (auto simp del: nth_mem)
  ultimately show ?thesis unfolding roles[symmetric]
    using assms by (simp add: wf_visibility_def sortPolicies_def Let_def)
qed

lemma Visible_Some:
  assumes "Visible compile (Some g) idn = (Inr v :: ('l gov_error, Visibility) result)"
  shows "wf_visibility compile g v" "vis_roles v = sorted_list_of_set {n \<in> set (wanted_roles g idn). granting g n \<noteq> None}"
    "vis_roles v \<noteq> []"
proof -
  let ?names = "{n \<in> set (wanted_roles g idn). granting g n \<noteq> None}"
  from assms obtain w where
    w: "visible_loop compile g (wanted_roles g idn) [] empty_Visibility = (Inr w :: ('l gov_error, Visibility) result)"
    "vis_policies w \<noteq> []" "v = sortPolicies w"
    by (auto simp: Visible_def result_simps split: if_splits)
  have wf: "wf_visibility compile g w" and set: "set (vis_roles w) = ?names"
    using visible_loop_wf[OF w(1)] by (auto simp: wf_empty_Visibility[unfolded empty_Visibility_def] empty_Visibility_def)
  show "wf_visibility compile g v" using sortPolicies_wf[OF wf] w by simp
  have "distinct (vis_roles w)" using wf by (simp add: wf_visibility_def)
  then show "vis_roles v = sorted_list_of_set ?names"
    using sortPolicies_wf[OF wf] w(3) by (simp add: sort_set set)
  have "length (vis_roles v) = length (vis_roles w)" using sortPolicies_wf[OF wf] w(3) by simp
  then show "vis_roles v \<noteq> []" using w(2) wf by (auto simp: wf_visibility_def)
qed

section \<open>Who is authorized, and what rows they see\<close>

text \<open>
  The specification: a policy permits a request when it allows every metric and denies no
  reference, each policy on its own; the authorizing roles of an identity are the roles it
  names whose granting policy permits the request.
\<close>

definition policy_permits :: "glob_compiler \<Rightarrow> RolePolicy \<Rightarrow> string list \<Rightarrow> FieldRef list \<Rightarrow> bool" where
  "policy_permits compile p metrics refs \<longleftrightarrow>
     (\<forall>m\<in>set metrics. \<exists>pat\<in>set (rp_AllowMetrics p). pattern_matches compile pat m)
     \<and> (\<forall>r\<in>set refs. FieldRef_String r \<notin> set (rp_DenyFields p))"

definition authorizing_roles ::
  "glob_compiler \<Rightarrow> GovernanceSpec \<Rightarrow> Identity \<Rightarrow> string list \<Rightarrow> FieldRef list \<Rightarrow> string set" where
  "authorizing_roles compile g idn metrics refs =
     {r \<in> set (wanted_roles g idn). \<exists>p. granting g r = Some p \<and> policy_permits compile p metrics refs}"

definition role_filters :: "GovernanceSpec \<Rightarrow> string \<Rightarrow> RowFilter list" where
  "role_filters g r = (case granting g r of None \<Rightarrow> [] | Some p \<Rightarrow> rp_RowFilters p)"

definition spec_decision :: "GovernanceSpec \<Rightarrow> string set \<Rightarrow> Decision" where
  "spec_decision g R =
     (let rs = sorted_list_of_set R
      in \<lparr>dec_Roles = rs, dec_RoleKey = join '','' rs,
          dec_RowFilterGroups = (if \<exists>r\<in>R. role_filters g r = [] then [] else map (role_filters g) rs)\<rparr>)"

lemma filter_groups_eq:
  "filter_groups v is groups =
     (if \<exists>i\<in>set is. rp_RowFilters (vis_policies v ! i) = [] then []
      else groups @ map (\<lambda>i. rp_RowFilters (vis_policies v ! i)) is)"
  by (induction v "is" groups rule: filter_groups.induct) auto

lemma authorizing_permits:
  assumes "wf_visibility compile g v"
  shows "i \<in> set (authorizing v metrics refs) \<longleftrightarrow>
    i < length (vis_roles v) \<and> policy_permits compile (vis_policies v ! i) metrics refs"
  using assms wf_permitsMetric[OF assms]
  by (auto simp: authorizing_def policy_permits_def permitsField_def wf_visibility_def)

lemma map_nth_filter_sorted:
  "sorted xs \<Longrightarrow> distinct xs \<Longrightarrow>
   map (nth xs) (filter P [0..<length xs]) = sorted_list_of_set {xs ! i |i. i < length xs \<and> P i}"
proof -
  assume s: "sorted xs" "distinct xs"
  let ?l = "map (nth xs) (filter P [0..<length xs])"
  have "sorted_wrt (\<lambda>i j. xs ! i \<le> xs ! j) [0..<length xs]"
    using s(1) by (metis map_nth sorted_map)
  then have "sorted ?l" unfolding sorted_map by (rule sorted_wrt_filter)
  moreover have "distinct ?l" using s(2) by (auto simp: distinct_map inj_on_def nth_eq_iff_index_eq)
  moreover have "set ?l = {xs ! i |i. i < length xs \<and> P i}" by auto
  ultimately show ?thesis by (metis sorted_list_of_set_unique sorted_sort_id sort_set)
qed

lemma authorizing_names:
  assumes v: "Visible compile (Some g) idn = (Inr v :: ('l gov_error, Visibility) result)"
  shows "map (nth (vis_roles v)) (authorizing v metrics refs)
      = sorted_list_of_set (authorizing_roles compile g idn metrics refs)"
    "i \<in> set (authorizing v metrics refs) \<Longrightarrow> role_filters g (vis_roles v ! i) = rp_RowFilters (vis_policies v ! i)"
    "set (map (nth (vis_roles v)) (authorizing v metrics refs)) = authorizing_roles compile g idn metrics refs"
proof -
  note wf = Visible_Some(1)[OF v] and roles = Visible_Some(2)[OF v]
  let ?P = "\<lambda>i. i \<in> set (authorizing v metrics refs)"
  have len: "length (vis_policies v) = length (vis_roles v)" using wf by (simp add: wf_visibility_def)
  have fin: "finite {n \<in> set (wanted_roles g idn). granting g n \<noteq> None}" by simp
  have sv: "set (vis_roles v) = {n \<in> set (wanted_roles g idn). granting g n \<noteq> None}" using roles by simp
  have gr: "i < length (vis_roles v) \<Longrightarrow> granting g (vis_roles v ! i) = Some (vis_policies v ! i)" for i
    using wf by (simp add: wf_visibility_def)
  have eq: "{vis_roles v ! i |i. i < length (vis_roles v) \<and> ?P i} = authorizing_roles compile g idn metrics refs"
    (is "?L = ?R")
  proof
    show "?L \<subseteq> ?R" using gr sv nth_mem[of _ "vis_roles v"]
      by (fastforce simp: authorizing_roles_def authorizing_permits[OF wf])
    show "?R \<subseteq> ?L"
    proof
      fix r assume r: "r \<in> ?R"
      then have "r \<in> set (vis_roles v)" using sv by (auto simp: authorizing_roles_def)
      then obtain i where i: "i < length (vis_roles v)" "r = vis_roles v ! i" by (metis in_set_conv_nth)
      with r gr[OF i(1)] show "r \<in> ?L" by (auto simp: authorizing_roles_def authorizing_permits[OF wf])
    qed
  qed
  have "sorted (vis_roles v)" "distinct (vis_roles v)" unfolding roles by auto
  note * = map_nth_filter_sorted[OF this, of "\<lambda>i. (\<forall>m\<in>set metrics. permitsMetric v i m) \<and>
                 (\<forall>r\<in>set refs. permitsField v i (FieldRef_String r))"]
  show names: "map (nth (vis_roles v)) (authorizing v metrics refs)
      = sorted_list_of_set (authorizing_roles compile g idn metrics refs)"
    unfolding eq[symmetric] using * by (simp add: authorizing_def len cong: conj_cong)
  show "i \<in> set (authorizing v metrics refs) \<Longrightarrow> role_filters g (vis_roles v ! i) = rp_RowFilters (vis_policies v ! i)"
    using gr by (auto simp: role_filters_def authorizing_permits[OF wf])
  have "finite (authorizing_roles compile g idn metrics refs)" by (simp add: authorizing_roles_def)
  then show "set (map (nth (vis_roles v)) (authorizing v metrics refs)) = authorizing_roles compile g idn metrics refs"
    unfolding names by simp
qed

lemma Authorize_soundness_facts:
  "Authorize compile (Some g) idn metrics refs = (Inr d :: ('l gov_error, Decision) result) \<Longrightarrow>
     authorizing_roles compile g idn metrics refs \<noteq> {}
     \<and> d = spec_decision g (authorizing_roles compile g idn metrics refs)"
proof -
  assume a: "Authorize compile (Some g) idn metrics refs = (Inr d :: ('l gov_error, Decision) result)"
  then obtain v where v: "Visible compile (Some g) idn = (Inr v :: ('l gov_error, Visibility) result)"
    by (auto simp: Authorize_def result_simps)
  let ?G = "authorizing v metrics refs" and ?R = "authorizing_roles compile g idn metrics refs"
  note names = authorizing_names[OF v, where metrics = metrics and refs = refs]
  have "\<not> vis_unrestricted v" using Visible_Some(1)[OF v] by (simp add: wf_visibility_def)
  with a v have ne: "?G \<noteq> []" and d: "d = \<lparr>dec_Roles = map (nth (vis_roles v)) ?G,
      dec_RoleKey = join '','' (map (nth (vis_roles v)) ?G), dec_RowFilterGroups = filter_groups v ?G []\<rparr>"
    by (auto simp: Authorize_def Let_def split: if_splits)
  have R: "?R \<noteq> {}" using ne names(3) by (metis list.map_disc_iff set_empty)
  have any: "(\<exists>i\<in>set ?G. rp_RowFilters (vis_policies v ! i) = []) \<longleftrightarrow> (\<exists>r\<in>?R. role_filters g r = [])"
    unfolding names(3)[symmetric] by (auto simp: names(2))
  have "map (\<lambda>i. rp_RowFilters (vis_policies v ! i)) ?G = map (role_filters g) (map (nth (vis_roles v)) ?G)"
    by (simp add: names(2))
  with R d any show ?thesis by (simp add: spec_decision_def Let_def filter_groups_eq names(1))
qed

text \<open>
  C2. A request under a governance spec is authorized only by roles that each permit the whole
  request on their own: permissions are never pooled. The decision names exactly those roles, and
  its row-filter groups are theirs, or none when one of them is unrestricted.
\<close>

theorem Authorize_sound:
  "Authorize compile (Some g) idn metrics refs = (Inr d :: ('l gov_error, Decision) result) \<Longrightarrow>
     authorizing_roles compile g idn metrics refs \<noteq> {}
     \<and> d = spec_decision g (authorizing_roles compile g idn metrics refs)"
  by (rule Authorize_soundness_facts)

definition star_glob :: glob_compiler where
  "star_glob pat = Inr (\<lambda>name. pat = ''*'' \<or> pat = name)"

definition two_roles :: GovernanceSpec where
  "two_roles = \<lparr>g_DefaultRole = [], g_Roles =
     [\<lparr>rp_Name = ''b'', rp_AllowMetrics = [''*''], rp_DenyFields = [''c.ssn''],
       rp_RowFilters = [\<lparr>rf_Dataset = ''s'', rf_Predicate = ''region = 1''\<rparr>]\<rparr>,
      \<lparr>rp_Name = ''a'', rp_AllowMetrics = [''rev''], rp_DenyFields = [], rp_RowFilters = []\<rparr>], g_External = None\<rparr>"

lemmas governance_eval =
  two_roles_def star_glob_def PolicyRoles_def wanted_roles_def no_identity_def Visible_def
  empty_Visibility_def Role_def compile_patterns_def sortPolicies_def authorizing_def permitsMetric_def
  permitsField_def filter_groups.simps Authorize_def granting_def policy_permits_def pattern_matches_def
  FieldRef_String_def

theorem Authorize_sound_witness:
  "authorizing_roles star_glob two_roles (no_identity\<lparr>id_Roles := [''b'', ''a'']\<rparr>) [''units''] [] = {''b''}
   \<and> Authorize star_glob (Some two_roles) (no_identity\<lparr>id_Roles := [''b'', ''a'']\<rparr>) [''units''] []
     = (Inr (spec_decision two_roles {''b''}) :: (unit gov_error, Decision) result)"
proof -
  let ?id = "no_identity\<lparr>id_Roles := [''b'', ''a'']\<rparr>"
  have a: "Authorize star_glob (Some two_roles) ?id [''units''] []
     = (Inr \<lparr>dec_Roles = [''b''], dec_RoleKey = ''b'',
         dec_RowFilterGroups = [[\<lparr>rf_Dataset = ''s'', rf_Predicate = ''region = 1''\<rparr>]]\<rparr>
       :: (unit gov_error, Decision) result)"
    by code_simp
  have r: "authorizing_roles star_glob two_roles ?id [''units''] [] = {''b''}"
    by (auto simp: authorizing_roles_def governance_eval)
  show ?thesis using Authorize_sound[OF a] a r by simp
qed

lemma visible_loop_total:
  assumes "\<forall>n\<in>set names. \<forall>p pat. granting g n = Some p \<longrightarrow> pat \<in> set (rp_AllowMetrics p)
     \<longrightarrow> (\<exists>gl. compile pat = Inr gl)"
  shows "\<exists>v'. visible_loop compile g names seen v = (Inr v' :: ('l gov_error, Visibility) result)"
  using assms
proof (induction compile g names seen v rule: visible_loop.induct)
  case (2 compile g name names seen v)
  have ok: "\<exists>gls. compile_patterns compile name (rp_AllowMetrics p) = (Inr gls :: ('l gov_error, matcher list) result)"
    if "granting g name = Some p" for p
    unfolding compile_patterns_def by (rule emap_total) (use 2(5) that in \<open>fastforce\<close>)
  show ?case
  proof (cases "name = [] \<or> name \<in> set seen")
    case nn: False
    show ?thesis
    proof (cases "Role (Some g) name")
      case (Some p)
      show ?thesis
      proof (cases "rp_AllowMetrics p = []")
        case False
        with Some nn have p: "granting g name = Some p" by (simp add: granting_def)
        from ok[OF p] obtain gls where gls:
          "compile_patterns compile name (rp_AllowMetrics p) = (Inr gls :: ('l gov_error, matcher list) result)"
          by blast
        have "\<exists>v'. visible_loop compile g names (name # seen)
             (v\<lparr>vis_roles := vis_roles v @ [name], vis_policies := vis_policies v @ [p],
                vis_globs := vis_globs v @ [gls]\<rparr>) = (Inr v' :: ('l gov_error, Visibility) result)"
          by (rule 2(4)[OF nn Some False]) (use 2(5) in auto)
        with gls nn Some False show ?thesis by simp
      qed (use 2(3)[OF nn Some] 2(5) nn Some in auto)
    qed (use 2(2)[OF nn] 2(5) nn in auto)
  qed (use 2(1,5) in auto)
qed auto

lemma Authorize_completeness_facts:
  "(\<forall>n\<in>set (wanted_roles g idn). \<forall>p pat. granting g n = Some p \<longrightarrow> pat \<in> set (rp_AllowMetrics p)
      \<longrightarrow> (\<exists>gl. compile pat = Inr gl)) \<Longrightarrow>
   authorizing_roles compile g idn metrics refs \<noteq> {} \<Longrightarrow>
   Authorize compile (Some g) idn metrics refs
     = (Inr (spec_decision g (authorizing_roles compile g idn metrics refs)) :: ('l gov_error, Decision) result)"
proof -
  assume pats: "\<forall>n\<in>set (wanted_roles g idn). \<forall>p pat. granting g n = Some p \<longrightarrow> pat \<in> set (rp_AllowMetrics p)
      \<longrightarrow> (\<exists>gl. compile pat = Inr gl)"
    and R: "authorizing_roles compile g idn metrics refs \<noteq> {}"
  obtain w where w: "visible_loop compile g (wanted_roles g idn) [] empty_Visibility
      = (Inr w :: ('l gov_error, Visibility) result)"
    using visible_loop_total[of "wanted_roles g idn" g compile] pats by blast
  have wf: "wf_visibility compile g w"
    "set (vis_roles w) = {n \<in> set (wanted_roles g idn). granting g n \<noteq> None}"
    using visible_loop_wf[OF w wf_empty_Visibility] by (auto simp: empty_Visibility_def)
  with R have "vis_roles w \<noteq> []" by (auto simp: authorizing_roles_def)
  with wf(1) have "vis_policies w \<noteq> []" by (auto simp: wf_visibility_def)
  with w have v: "Visible compile (Some g) idn = (Inr (sortPolicies w) :: ('l gov_error, Visibility) result)"
    by (simp add: Visible_def)
  have "authorizing (sortPolicies w) metrics refs \<noteq> []"
    using authorizing_names(3)[OF v, where metrics = metrics and refs = refs] R by auto
  moreover have "\<not> vis_unrestricted (sortPolicies w)"
    using Visible_Some(1)[OF v] by (simp add: wf_visibility_def)
  ultimately obtain d where "Authorize compile (Some g) idn metrics refs = (Inr d :: ('l gov_error, Decision) result)"
    by (simp add: Authorize_def v Let_def)
  with Authorize_soundness_facts[OF this] show ?thesis by simp
qed

text \<open>
  C3. And every such request is authorized: when the patterns of the caller's granting policies
  compile, one role that permits the whole request is enough, whatever the other roles deny.
\<close>

theorem Authorize_complete:
  "(\<forall>n\<in>set (wanted_roles g idn). \<forall>p pat. granting g n = Some p \<longrightarrow> pat \<in> set (rp_AllowMetrics p)
      \<longrightarrow> (\<exists>gl. compile pat = Inr gl)) \<Longrightarrow>
   authorizing_roles compile g idn metrics refs \<noteq> {} \<Longrightarrow>
   Authorize compile (Some g) idn metrics refs
     = (Inr (spec_decision g (authorizing_roles compile g idn metrics refs)) :: ('l gov_error, Decision) result)"
  by (rule Authorize_completeness_facts)

theorem Authorize_complete_witness:
  "Authorize star_glob (Some two_roles) (no_identity\<lparr>id_Groups := [''a'', ''b'']\<rparr>) [''rev''] []
     = (Inr (spec_decision two_roles {''a'', ''b''}) :: (unit gov_error, Decision) result)"
proof -
  let ?id = "no_identity\<lparr>id_Groups := [''a'', ''b'']\<rparr>"
  have r: "authorizing_roles star_glob two_roles ?id [''rev''] [] = {''a'', ''b''}"
    by (auto simp: authorizing_roles_def governance_eval)
  have "\<forall>n\<in>set (wanted_roles two_roles ?id). \<forall>p pat. granting two_roles n = Some p \<longrightarrow>
      pat \<in> set (rp_AllowMetrics p) \<longrightarrow> (\<exists>gl. star_glob pat = Inr gl)"
    by (simp add: star_glob_def)
  from Authorize_complete[OF this, where metrics = "[''rev'']" and refs = "[]"] show ?thesis by (simp add: r)
qed

definition row_passes :: "Decision \<Rightarrow> (RowFilter \<Rightarrow> bool) \<Rightarrow> bool" where
  "row_passes d holds \<longleftrightarrow>
     dec_RowFilterGroups d = [] \<or> (\<exists>grp\<in>set (dec_RowFilterGroups d). \<forall>f\<in>set grp. holds f)"

text \<open>
  The row filters of a decision mean what the policies say: a row passes them if and only if some
  single authorizing role has all its row filters satisfied by the row.
\<close>

theorem row_filters_union:
  "Authorize compile (Some g) idn metrics refs = (Inr d :: ('l gov_error, Decision) result) \<Longrightarrow>
     row_passes d holds \<longleftrightarrow>
     (\<exists>r\<in>authorizing_roles compile g idn metrics refs. \<forall>f\<in>set (role_filters g r). holds f)"
proof -
  assume a: "Authorize compile (Some g) idn metrics refs = (Inr d :: ('l gov_error, Decision) result)"
  let ?R = "authorizing_roles compile g idn metrics refs"
  have R: "?R \<noteq> {}" "d = spec_decision g ?R" and fin: "finite ?R"
    using Authorize_soundness_facts[OF a] by (auto simp: authorizing_roles_def)
  show ?thesis
  proof (cases "\<exists>r\<in>?R. role_filters g r = []")
    case True
    then show ?thesis unfolding R(2) row_passes_def spec_decision_def Let_def by force
  next
    case False
    have "sorted_list_of_set ?R \<noteq> []" using R(1) fin by simp
    with False show ?thesis unfolding R(2) row_passes_def spec_decision_def Let_def using fin by simp
  qed
qed

theorem row_filters_union_witness:
  "row_passes (spec_decision two_roles {''b''}) (\<lambda>f. rf_Dataset f = ''s'')
   \<and> \<not> row_passes (spec_decision two_roles {''b''}) (\<lambda>f. rf_Dataset f = ''c'')"
proof -
  let ?id = "no_identity\<lparr>id_Roles := [''b'', ''a'']\<rparr>"
  have a: "Authorize star_glob (Some two_roles) ?id [''units''] []
     = (Inr (spec_decision two_roles {''b''}) :: (unit gov_error, Decision) result)"
    by code_simp
  have r: "authorizing_roles star_glob two_roles ?id [''units''] [] = {''b''}"
    by (auto simp: authorizing_roles_def governance_eval)
  have f: "role_filters two_roles ''b'' = [\<lparr>rf_Dataset = ''s'', rf_Predicate = ''region = 1''\<rparr>]"
    by (simp add: role_filters_def governance_eval)
  show ?thesis using row_filters_union[OF a] by (simp add: r f)
qed

lemma Authorize_ok_iff:
  assumes v: "Visible compile (Some g) idn = (Inr v :: ('l gov_error, Visibility) result)"
  shows "(\<exists>d. Authorize compile (Some g) idn metrics refs = (Inr d :: ('l gov_error, Decision) result))
     \<longleftrightarrow> authorizing v metrics refs \<noteq> []"
  using Visible_Some(1)[OF v] by (auto simp: Authorize_def v Let_def wf_visibility_def)



lemma wanted_roles_set:
  "set (PolicyRoles a) = set (PolicyRoles b) \<Longrightarrow> set (wanted_roles g a) = set (wanted_roles g b)"
  by (metis wanted_roles_def set_empty)

lemma Visible_patterns:
  assumes v: "Visible compile (Some g) idn = (Inr v :: ('l gov_error, Visibility) result)"
    and "n \<in> set (wanted_roles g idn)" "granting g n = Some p" "pat \<in> set (rp_AllowMetrics p)"
  shows "\<exists>gl. compile pat = Inr gl"
proof -
  have "n \<in> set (vis_roles v)" using assms(2,3) unfolding Visible_Some(2)[OF v] by simp
  then obtain i where i: "i < length (vis_roles v)" "n = vis_roles v ! i" by (metis in_set_conv_nth)
  then have "map Inr (vis_globs v ! i) = map compile (rp_AllowMetrics p)"
    using Visible_Some(1)[OF v] assms(3) by (auto simp: wf_visibility_def)
  then have "compile pat \<in> set (map Inr (vis_globs v ! i))" using assms(4) by (metis image_eqI set_map)
  then show ?thesis by auto
qed

lemma Authorize_same_roles:
  assumes "set (PolicyRoles a) = set (PolicyRoles b)"
    and d: "Authorize compile (Some g) a metrics refs = (Inr d :: ('l gov_error, Decision) result)"
  shows "Authorize compile (Some g) b metrics refs = (Inr d :: ('l gov_error, Decision) result)"
proof -
  note set = wanted_roles_set[OF assms(1), of g]
  have R: "authorizing_roles compile g b metrics refs = authorizing_roles compile g a metrics refs"
    by (simp add: authorizing_roles_def set)
  from d obtain v where v: "Visible compile (Some g) a = (Inr v :: ('l gov_error, Visibility) result)"
    by (auto simp: Authorize_def result_simps)
  have "\<forall>n\<in>set (wanted_roles g b). \<forall>p pat. granting g n = Some p \<longrightarrow> pat \<in> set (rp_AllowMetrics p)
      \<longrightarrow> (\<exists>gl. compile pat = Inr gl)"
    using Visible_patterns[OF v] set by blast
  from Authorize_completeness_facts[OF this, where metrics = metrics and refs = refs]
  show ?thesis using Authorize_soundness_facts[OF d] by (simp add: R)
qed

text \<open>
  Under a governance spec the decision does not depend on the order, the repetition or the split
  into groups and roles in which a token names the roles.
\<close>

theorem role_order_independent:
  "set (id_Groups a) \<union> set (id_Roles a) = set (id_Groups b) \<union> set (id_Roles b) \<Longrightarrow>
   (Authorize compile (Some g) a metrics refs = (Inr d :: ('l gov_error, Decision) result)) \<longleftrightarrow>
   (Authorize compile (Some g) b metrics refs = (Inr d :: ('l gov_error, Decision) result))"
  using Authorize_same_roles[of a b compile g metrics refs d] Authorize_same_roles[of b a compile g metrics refs d]
  by (metis set_PolicyRoles)

theorem role_order_independent_witness:
  "Authorize star_glob (Some two_roles) (no_identity\<lparr>id_Groups := [''a''], id_Roles := [''b'', ''a'']\<rparr>) [''rev''] []
    = (Inr (spec_decision two_roles {''a'', ''b''}) :: (unit gov_error, Decision) result)"
proof -
  have a: "Authorize star_glob (Some two_roles) (no_identity\<lparr>id_Roles := [''a'', ''b'']\<rparr>) [''rev''] []
     = (Inr (spec_decision two_roles {''a'', ''b''}) :: (unit gov_error, Decision) result)"
    by code_simp
  have "set (id_Groups (no_identity\<lparr>id_Roles := [''a'', ''b'']\<rparr>)) \<union> set (id_Roles (no_identity\<lparr>id_Roles := [''a'', ''b'']\<rparr>))
     = set (id_Groups (no_identity\<lparr>id_Groups := [''a''], id_Roles := [''b'', ''a'']\<rparr>))
       \<union> set (id_Roles (no_identity\<lparr>id_Groups := [''a''], id_Roles := [''b'', ''a'']\<rparr>))"
    by (auto simp: no_identity_def)
  from role_order_independent[OF this] a show ?thesis by blast
qed

text \<open>
  Without a governance spec the roles of the decision are in the order of the token: the cache key
  of one identity changes with the order of its roles, against the comment that the key is
  independent of claim ordering. (Only cache hits are lost.)
\<close>

theorem ungoverned_key_depends_on_order:
  "IdentityDigest (no_identity\<lparr>id_Roles := [''a'', ''b'']\<rparr>) = IdentityDigest (no_identity\<lparr>id_Roles := [''b'', ''a'']\<rparr>)
   \<and> IdentityKey compile None (no_identity\<lparr>id_Roles := [''a'', ''b'']\<rparr>)
      \<noteq> IdentityKey compile None (no_identity\<lparr>id_Roles := [''b'', ''a'']\<rparr>)"
  by (simp add: IdentityKey_def Visible_def PolicyRoles_def RoleKey_def no_identity_def IdentityDigest_def
      identity_text_def identity_pairs_def sortedUniqueCopy_def sortedCopy_def)

section \<open>Claim expansion\<close>

text \<open>A predicate cut into plain bytes and placeholders, and the rendering of each.\<close>

function claim_segments :: "string \<Rightarrow> (char + string) list" where
  "claim_segments [] = []"
| "claim_segments (c # cs) =
     (case claimRef (c # cs) of
        Some (name, r) \<Rightarrow> Inr name # claim_segments r
      | None \<Rightarrow> Inl c # claim_segments cs)"
  by pat_completeness auto
termination
  by (relation "measure length") (auto dest: claimRef_shorter)

declare claim_segments.simps(2) [simp del]

definition render_segment ::
  "(string \<times> string) list \<Rightarrow> (go_value \<Rightarrow> ('l, string) result) \<Rightarrow> char + string \<Rightarrow> ('l gov_error, string) result" where
  "render_segment claims literal seg =
     (case seg of
        Inl c \<Rightarrow> Inr [c]
      | Inr name \<Rightarrow>
          (case map_of claims name of
             None \<Rightarrow> Inl (ErrUnauthorized (MissingClaim name))
           | Some v \<Rightarrow> emap_err (BadClaimLiteral name) (literal (VString v))))"

lemma expand_claim_render:
  "render_segment claims literal (Inr name) = Inr t \<Longrightarrow> expand_claim claims literal name m bad = (t, bad)"
  "render_segment claims literal (Inr name) = Inl e \<Longrightarrow>
     snd (expand_claim claims literal name m bad) = (if bad = None then Some e else bad)"
  by (auto simp: render_segment_def expand_claim_def result_simps split: option.splits sum.splits)

lemma replace_claims_keeps_bad:
  "snd (replace_claims (expand_claim claims literal) s (Some b)) = Some b"
  by (induction s rule: claim_segments.induct)
    (auto simp: replace_claims.simps(2) expand_claim_def Let_def split: option.splits prod.splits sum.splits)

lemma replace_claims_expand:
  "emap (render_segment claims literal) (claim_segments s) = Inr ts \<Longrightarrow>
      replace_claims (expand_claim claims literal) s None = (concat ts, None)"
  "emap (render_segment claims literal) (claim_segments s) = Inl e \<Longrightarrow>
      snd (replace_claims (expand_claim claims literal) s None) = Some e"
proof (induction s arbitrary: ts e rule: claim_segments.induct)
  case (2 c cs)
  note IH = "2.IH"
  {
    case 1
    show ?case
    proof (cases "claimRef (c # cs)")
      case None
      with 1 IH(1)[OF None] show ?thesis
        by (auto simp: claim_segments.simps(2) replace_claims.simps(2) result_simps render_segment_def)
    next
      case (Some p)
      then obtain name r where p: "claimRef (c # cs) = Some (name, r)" by (cases p) auto
      with 1 IH(3)[OF p refl] show ?thesis
        by (auto simp: claim_segments.simps(2) replace_claims.simps(2) result_simps expand_claim_render(1))
    qed
  next
    case 2
    show ?case
    proof (cases "claimRef (c # cs)")
      case None
      with 2 IH(2)[OF None] show ?thesis
        by (auto simp: claim_segments.simps(2) replace_claims.simps(2) result_simps render_segment_def
            split: prod.splits)
    next
      case (Some p)
      then obtain name r where p: "claimRef (c # cs) = Some (name, r)" by (cases p) auto
      show ?thesis
      proof (cases "render_segment claims literal (Inr name)")
        case (Inl e')
        with p 2 have "e' = e" by (simp add: claim_segments.simps(2))
        with p expand_claim_render(2)[OF Inl, of _ None] show ?thesis
          by (auto simp: replace_claims.simps(2) replace_claims_keeps_bad split: prod.splits)
            (metis replace_claims_keeps_bad snd_conv)
      next
        case (Inr t)
        with p 2 IH(4)[OF p refl] show ?thesis
          by (auto simp: claim_segments.simps(2) replace_claims.simps(2) result_simps expand_claim_render(1)
              split: prod.splits)
      qed
    qed
  }
qed simp_all

text \<open>
  Expanding claims is rendering the predicate piece by piece: every placeholder becomes the literal
  of its claim and nothing else changes; a claim the caller does not carry, or one that has no
  literal, is an error, the first one from the left.
\<close>

theorem ExpandClaims_spec:
  "ExpandClaims p claims literal =
     ebind (emap (render_segment claims literal) (claim_segments p)) (\<lambda>ts. Inr (concat ts))"
  using replace_claims_expand[of claims literal p]
  by (cases "emap (render_segment claims literal) (claim_segments p)")
    (auto simp: ExpandClaims_def split: prod.splits option.splits)

lemma replace_claims_const:
  "\<forall>n. Inr n \<in> set (claim_segments s) \<longrightarrow> map_of claims n = Some v \<Longrightarrow> literal (VString v) = Inr lit \<Longrightarrow>
   emap (render_segment claims literal) (claim_segments s)
     = Inr (map (\<lambda>seg. case seg of Inl c \<Rightarrow> [c] | Inr n \<Rightarrow> lit) (claim_segments s))"
  by (subst emap_Inr_map[symmetric], rule emap_cong)
    (auto simp: render_segment_def split: sum.splits)

lemma replace_claims_placeholder:
  "fst (replace_claims (\<lambda>name m u. (lit, u)) s ()) =
     concat (map (\<lambda>seg. case seg of Inl c \<Rightarrow> [c] | Inr n \<Rightarrow> lit) (claim_segments s))"
proof (induction s rule: claim_segments.induct)
  case (2 c cs)
  then show ?case
    by (cases "claimRef (c # cs)") (auto simp: claim_segments.simps(2) replace_claims.simps(2) split: prod.splits)
qed simp

text \<open>
  The text the validator checks is the text a caller whose claims are all \<open>x\<close> would send to
  the engine: validation and expansion agree on what a placeholder is, and neither leaves one
  behind in a predicate that validates.
\<close>

theorem validated_predicate_expands:
  "ValidatablePredicate p = (Inr out :: ('l gov_error, string) result) \<Longrightarrow>
   (\<forall>n. Inr n \<in> set (claim_segments p) \<longrightarrow> map_of claims n = Some ''x'') \<Longrightarrow>
   literal (VString ''x'') = Inr placeholderLiteral \<Longrightarrow>
     ExpandClaims p claims literal = (Inr out :: ('l gov_error, string) result)
     \<and> \<not> sublist ''{{'' out \<and> \<not> sublist ''}}'' out"
  using replace_claims_const[of p claims "''x''" literal placeholderLiteral]
    replace_claims_expand(1)[of claims literal p]
  by (auto simp: ValidatablePredicate_def Let_def replace_claims_placeholder ExpandClaims_def split: if_splits)

theorem validated_predicate_expands_witness:
  "ExpandClaims ''t = {{ claim.org }}'' [(''org'', ''x'')] trino_Literal
     = (Inr (''t = '' @ placeholderLiteral) :: (literal_error gov_error, string) result)"
proof -
  have v: "ValidatablePredicate ''t = {{ claim.org }}''
      = (Inr (''t = '' @ placeholderLiteral) :: (literal_error gov_error, string) result)"
    by code_simp
  have s: "\<forall>n. Inr n \<in> set (claim_segments ''t = {{ claim.org }}'') \<longrightarrow> map_of [(''org'', ''x'')] n = Some ''x''"
    by (simp add: claim_segments.simps(2) claimRef_def strip_prefix_def re_space_def claim_char_def byte_defs)
  have l: "trino_Literal (VString ''x'') = Inr placeholderLiteral"
    by (simp add: quote_with_def placeholderLiteral_def special_chars)
  show ?thesis using validated_predicate_expands[where literal = trino_Literal, OF v s l] by blast
qed

section \<open>The identity digest is unambiguous\<close>

lemma nat_str_colon:
  "nat_str m @ CHR '':'' # r = nat_str n @ CHR '':'' # s \<longleftrightarrow> m = n \<and> r = s"
proof
  assume e: "nat_str m @ CHR '':'' # r = nat_str n @ CHR '':'' # s"
  have t: "takeWhile is_digit (nat_str k @ CHR '':'' # x) = nat_str k" for k x
  proof -
    have "\<not> is_digit CHR '':''" by (simp add: byte_defs)
    then show ?thesis using nat_str_digits[of _ k] by (subst takeWhile_append2) auto
  qed
  from arg_cong[OF e, of "takeWhile is_digit"] have "nat_str m = nat_str n" by (simp only: t)
  with e show "m = n \<and> r = s" by (simp add: nat_str_inject)
qed simp

lemma append_same_length: "length a = length b \<Longrightarrow> a @ x = b @ y \<longleftrightarrow> a = b \<and> x = y"
  by simp

lemma identity_value_inject:
  "identity_value k v @ r = identity_value k' v' @ r' \<longleftrightarrow> k = k' \<and> v = v' \<and> r = r'"
proof
  assume "identity_value k v @ r = identity_value k' v' @ r'"
  then have 1: "nat_str (length k) @ CHR '':'' # k @ CHR ''='' # nat_str (length v) @ CHR '':'' # v @ CHR '';'' # r
      = nat_str (length k') @ CHR '':'' # k' @ CHR ''='' # nat_str (length v') @ CHR '':'' # v' @ CHR '';'' # r'"
    by (simp add: identity_value_def)
  then have "k = k'" and 2: "nat_str (length v) @ CHR '':'' # v @ CHR '';'' # r
      = nat_str (length v') @ CHR '':'' # v' @ CHR '';'' # r'"
    by (auto simp: nat_str_colon append_same_length)
  then show "k = k' \<and> v = v' \<and> r = r'" by (auto simp: nat_str_colon append_same_length)
qed simp

lemma identity_value_not_Nil: "identity_value k v \<noteq> []"
  by (simp add: identity_value_def)

lemma identity_values_inject:
  "concat (map (\<lambda>(k, v). identity_value k v) ps) = concat (map (\<lambda>(k, v). identity_value k v) qs) \<longleftrightarrow> ps = qs"
proof (induction ps arbitrary: qs)
  case Nil
  then show ?case by (cases qs) (auto simp: identity_value_not_Nil)
next
  case (Cons p ps)
  then show ?case
    by (cases qs) (auto simp: identity_value_inject identity_value_not_Nil split: prod.splits)
qed

definition values_of :: "string \<Rightarrow> (string \<times> string) list \<Rightarrow> string list" where
  "values_of k ps = map snd (filter (\<lambda>p. fst p = k) ps)"

definition claim_names :: "Identity \<Rightarrow> string list" where
  "claim_names idn = sort (remdups (map fst (id_Claims idn)))"

lemma values_of_append: "values_of k (a @ b) = values_of k a @ values_of k b"
  by (simp add: values_of_def)

lemma values_of_Cons: "values_of k (p # ps) = (if fst p = k then [snd p] else []) @ values_of k ps"
  by (simp add: values_of_def)

lemma values_of_Pair: "values_of k (map (Pair k') xs) = (if k = k' then xs else [])"
  by (induction xs) (auto simp: values_of_def)

lemma values_of_claims:
  "values_of ''claim-name'' (concat (map (\<lambda>n. [(''claim-name'', n), (''claim-value'', f n)]) ns)) = ns"
  "values_of ''claim-value'' (concat (map (\<lambda>n. [(''claim-name'', n), (''claim-value'', f n)]) ns)) = map f ns"
  "k \<noteq> ''claim-name'' \<Longrightarrow> k \<noteq> ''claim-value'' \<Longrightarrow>
     values_of k (concat (map (\<lambda>n. [(''claim-name'', n), (''claim-value'', f n)]) ns)) = []"
  by (induction ns) (auto simp: values_of_def)

lemma identity_pairs_values:
  "values_of ''principal'' (identity_pairs idn) = [id_Principal idn]"
  "values_of ''group'' (identity_pairs idn) = sortedUniqueCopy (id_Groups idn)"
  "values_of ''role'' (identity_pairs idn) = sortedUniqueCopy (id_Roles idn)"
  "values_of ''claim-name'' (identity_pairs idn) = claim_names idn"
  "values_of ''claim-value'' (identity_pairs idn) = map (\<lambda>n. the (map_of (id_Claims idn) n)) (claim_names idn)"
  by (simp_all add: identity_pairs_def claim_names_def values_of_append values_of_Pair values_of_Cons
      values_of_claims)

lemma sorted_distinct_remdups_adj: "sorted xs \<Longrightarrow> distinct (remdups_adj xs)"
  by (induction xs rule: remdups_adj.induct) (auto simp: antisym)

lemma sortedUniqueCopy_eq: "sortedUniqueCopy xs = sorted_list_of_set (set xs)"
proof -
  have "distinct (sortedUniqueCopy xs)" "set (sortedUniqueCopy xs) = set xs" "sorted (sortedUniqueCopy xs)"
    by (auto simp: sortedUniqueCopy_def sortedCopy_def sorted_distinct_remdups_adj sorted_remdups_adj)
  then show ?thesis using sort_set[of "sortedUniqueCopy xs" "set xs"] by (simp add: sorted_sort_id)
qed

lemma map_of_eq_names:
  "map_of a = map_of b \<longleftrightarrow>
     sort (remdups (map fst a)) = sort (remdups (map fst b)) \<and>
     map (\<lambda>n. the (map_of a n)) (sort (remdups (map fst a))) = map (\<lambda>n. the (map_of b n)) (sort (remdups (map fst b)))"
  (is "?l \<longleftrightarrow> ?r")
proof
  assume ?l
  then have "fst ` set a = fst ` set b" by (metis dom_map_of_conv_image_fst)
  then have "sort (remdups (map fst a)) = sort (remdups (map fst b))"
    by (metis distinct_remdups set_map set_remdups sort_set)
  with \<open>?l\<close> show ?r by simp
next
  assume r: ?r
  then have names: "fst ` set a = fst ` set b" by (metis set_map set_remdups set_sort)
  show ?l
  proof
    fix n
    show "map_of a n = map_of b n"
    proof (cases "n \<in> fst ` set a")
      case True
      then have "n \<in> set (sort (remdups (map fst a)))" by simp
      with r have "the (map_of a n) = the (map_of b n)" by (metis map_eq_conv)
      moreover have "n \<in> dom (map_of a)" "n \<in> dom (map_of b)" using True names by (simp_all add: dom_map_of_conv_image_fst)
      ultimately show ?thesis by (auto simp: dom_def)
    qed (use names in \<open>simp add: map_of_eq_None_iff[THEN iffD2]\<close>)
  qed
qed

text \<open>
  The text that is hashed into an identity digest determines the identity: the principal, the set
  of groups, the set of roles and the claims. So no two callers that differ share a digest
  unless SHA-256 collides, and the order of token claims does not matter.
\<close>

theorem identity_text_unambiguous:
  "identity_text a = identity_text b \<longleftrightarrow>
     id_Principal a = id_Principal b \<and> set (id_Groups a) = set (id_Groups b)
     \<and> set (id_Roles a) = set (id_Roles b) \<and> map_of (id_Claims a) = map_of (id_Claims b)"
  (is "?l \<longleftrightarrow> ?r")
proof
  assume ?l
  then have "identity_pairs a = identity_pairs b" by (simp add: identity_text_def identity_values_inject)
  then have "values_of k (identity_pairs a) = values_of k (identity_pairs b)" for k by simp
  note this[of "''principal''"] this[of "''group''"] this[of "''role''"] this[of "''claim-name''"] this[of "''claim-value''"]
  then show ?r
    unfolding identity_pairs_values map_of_eq_names claim_names_def sortedUniqueCopy_eq
    by (simp add: sorted_list_of_set_inject)
next
  assume ?r
  moreover from this have "sort (remdups (map fst (id_Claims a))) = sort (remdups (map fst (id_Claims b)))"
    by (simp add: map_of_eq_names)
  ultimately have "identity_pairs a = identity_pairs b"
    by (simp add: identity_pairs_def sortedUniqueCopy_eq)
  then show ?l by (simp add: identity_text_def)
qed

end
