(* ===== verification/PlanModel.thy ===== *)
theory PlanModel
  imports Governance
begin

text \<open>
  \<^verbatim>\<open>internal/planner/model.go\<close>: the compiled model the server plans against, and its
  construction from a spec. A Go map keyed by name is a partial function. The JSON encoding of
  a spec, which contains raw values marshalled by Kubernetes code, is the parameter \<open>marshal\<close>.
\<close>

section \<open>Types\<close>

record CompiledField =
  cf_Name :: string
  cf_Expr :: string
  cf_IsDimension :: bool
  cf_IsTime :: bool
  cf_Type :: string
  cf_Description :: string
  cf_AIContext :: AIContext

record CompiledDataset =
  cd_Name :: string
  cd_Catalog :: string
  cd_Database :: string
  cd_Table :: string
  cd_PrimaryKey :: "string list"
  cd_Description :: string
  cd_AIContext :: AIContext
  cd_Fields :: "string \<rightharpoonup> CompiledField"
  cd_FieldOrder :: "string list"

record CompiledRelationship =
  cr_Name :: string
  cr_From :: string
  cr_To :: string
  cr_FromColumns :: "string list"
  cr_ToColumns :: "string list"
  cr_JoinType :: string

record CompiledMetric =
  cmt_Name :: string
  cmt_Raw :: string
  cmt_Expr :: MetricExpr
  cmt_Description :: string
  cmt_AIContext :: AIContext

record CompiledModel =
  cm_Name :: string
  cm_Version :: string
  cm_Namespace :: string
  cm_Resource :: string
  cm_Connection :: ConnectionSpec
  cm_Datasets :: "string \<rightharpoonup> CompiledDataset"
  cm_DatasetOrder :: "string list"
  cm_Relationships :: "CompiledRelationship list"
  cm_Metrics :: "string \<rightharpoonup> CompiledMetric"
  cm_MetricOrder :: "string list"
  cm_Governance :: "GovernanceSpec option"
  cm_Description :: string
  cm_AIContext :: AIContext

datatype compile_error =
    BadSource string string
  | NoFieldExpression string string
  | NoMetricExpression string
  | BadMetric string expr_error

section \<open>Compilation\<close>

definition SpecVersion :: "(SemanticModelSpec \<Rightarrow> string) \<Rightarrow> SemanticModelSpec \<Rightarrow> string" where
  "SpecVersion marshal spec = take 12 (sha256_hex (marshal spec))"

definition ResolveSource :: "string \<Rightarrow> ConnectionSpec \<Rightarrow> (string \<times> string \<times> string) option" where
  "ResolveSource source conn =
     (case split_at CHR ''.'' source of
        [t] \<Rightarrow> Some (conn_Catalog conn, conn_Database conn, t)
      | [d, t] \<Rightarrow> Some (conn_Catalog conn, d, t)
      | [c, d, t] \<Rightarrow> Some (c, d, t)
      | _ \<Rightarrow> None)"

definition compile_field :: "string \<Rightarrow> Field \<Rightarrow> (compile_error, CompiledField) result" where
  "compile_field dataset f =
     (case Select (f_Expression f) of
        None \<Rightarrow> Inl (NoFieldExpression dataset (f_Name f))
      | Some body \<Rightarrow> Inr
          \<lparr>cf_Name = f_Name f, cf_Expr = body, cf_IsDimension = (f_Dimension f \<noteq> None),
           cf_IsTime = (case f_Dimension f of None \<Rightarrow> False | Some dm \<Rightarrow> dim_IsTime dm),
           cf_Type = [], cf_Description = f_Description f,
           cf_AIContext = DecodeAIContext (f_AIContext f)\<rparr>)"

text \<open>A map filled in list order, where a later entry replaces an earlier one.\<close>

definition map_by :: "('a \<Rightarrow> 'k) \<Rightarrow> 'a list \<Rightarrow> 'k \<rightharpoonup> 'a" where
  "map_by key xs = map_of (rev (map (\<lambda>x. (key x, x)) xs))"

definition compile_dataset :: "ConnectionSpec \<Rightarrow> Dataset \<Rightarrow> (compile_error, CompiledDataset) result" where
  "compile_dataset conn d =
     (case ResolveSource (d_Source d) conn of
        None \<Rightarrow> Inl (BadSource (d_Name d) (d_Source d))
      | Some (cat, db, tbl) \<Rightarrow>
          ebind (emap (compile_field (d_Name d)) (d_Fields d)) (\<lambda>fs. Inr
            \<lparr>cd_Name = d_Name d, cd_Catalog = cat, cd_Database = db, cd_Table = tbl,
             cd_PrimaryKey = d_PrimaryKey d, cd_Description = d_Description d,
             cd_AIContext = DecodeAIContext (d_AIContext d),
             cd_Fields = map_by cf_Name fs, cd_FieldOrder = map f_Name (d_Fields d)\<rparr>))"

definition join_type :: "RelationshipJoin list \<Rightarrow> string \<Rightarrow> string" where
  "join_type joins name =
     (case map_by rj_Relationship joins name of
        None \<Rightarrow> ''INNER''
      | Some j \<Rightarrow> if rj_Type j = [] then ''INNER'' else rj_Type j)"

definition compile_relationship :: "RelationshipJoin list \<Rightarrow> Relationship \<Rightarrow> CompiledRelationship" where
  "compile_relationship joins r =
     \<lparr>cr_Name = r_Name r, cr_From = r_From r, cr_To = r_To r, cr_FromColumns = r_FromColumns r,
      cr_ToColumns = r_ToColumns r, cr_JoinType = join_type joins (r_Name r)\<rparr>"

definition compile_metric :: "Metric \<Rightarrow> (compile_error, CompiledMetric) result" where
  "compile_metric m =
     (case Select (mt_Expression m) of
        None \<Rightarrow> Inl (NoMetricExpression (mt_Name m))
      | Some body \<Rightarrow>
          ebind (emap_err (BadMetric (mt_Name m)) (Parse body)) (\<lambda>parsed. Inr
            \<lparr>cmt_Name = mt_Name m, cmt_Raw = body, cmt_Expr = parsed,
             cmt_Description = mt_Description m, cmt_AIContext = DecodeAIContext (mt_AIContext m)\<rparr>))"

definition Compile ::
  "(SemanticModelSpec \<Rightarrow> string) \<Rightarrow> SemanticModelSpec \<Rightarrow> string \<Rightarrow> string \<Rightarrow> (compile_error, CompiledModel) result" where
  "Compile marshal spec namespace resource =
     (let m = s_Ossie spec in
      ebind (emap (compile_dataset (s_Connection spec)) (om_Datasets m)) (\<lambda>ds.
      ebind (emap compile_metric (om_Metrics m)) (\<lambda>ms. Inr
        \<lparr>cm_Name = om_Name m, cm_Version = SpecVersion marshal spec, cm_Namespace = namespace,
         cm_Resource = resource, cm_Connection = s_Connection spec,
         cm_Datasets = map_by cd_Name ds, cm_DatasetOrder = map d_Name (om_Datasets m),
         cm_Relationships = map (compile_relationship (s_Joins spec)) (om_Relationships m),
         cm_Metrics = map_by cmt_Name ms, cm_MetricOrder = map mt_Name (om_Metrics m),
         cm_Governance = s_Governance spec, cm_Description = om_Description m,
         cm_AIContext = DecodeAIContext (om_AIContext m)\<rparr>)))"

section \<open>What compilation guarantees\<close>

lemma map_by_Some: "map_by key xs k = Some x \<Longrightarrow> x \<in> set xs \<and> key x = k"
  by (auto simp: map_by_def dest!: map_of_SomeD)

lemma dom_map_by: "dom (map_by key xs) = key ` set xs"
  by (force simp: map_by_def dom_map_of_conv_image_fst)

lemma map_by_None: "map_by key xs k = None \<longleftrightarrow> k \<notin> key ` set xs"
  by (metis dom_map_by domIff)

lemma map_by_distinct: "distinct (map key xs) \<Longrightarrow> x \<in> set xs \<Longrightarrow> map_by key xs (key x) = Some x"
  by (auto simp: map_by_def map_of_eq_Some_iff o_def rev_map[symmetric])

lemma compile_field_name: "compile_field n f = Inr cf \<Longrightarrow> cf_Name cf = f_Name f"
  by (auto simp: compile_field_def split: option.splits)

lemma compile_dataset_Inr:
  assumes "compile_dataset conn d = Inr cd"
  shows "cd_Name cd = d_Name d" "cd_FieldOrder cd = map f_Name (d_Fields d)"
    "dom (cd_Fields cd) = f_Name ` set (d_Fields d)" "cd_PrimaryKey cd = d_PrimaryKey d"
    "cd_Fields cd n = Some cf \<Longrightarrow> cf_Name cf = n \<and> (\<exists>f\<in>set (d_Fields d). compile_field (d_Name d) f = Inr cf)"
proof -
  from assms obtain fs cat db tbl where fs: "emap (compile_field (d_Name d)) (d_Fields d) = Inr fs"
    and cd: "cd = \<lparr>cd_Name = d_Name d, cd_Catalog = cat, cd_Database = db, cd_Table = tbl,
             cd_PrimaryKey = d_PrimaryKey d, cd_Description = d_Description d,
             cd_AIContext = DecodeAIContext (d_AIContext d),
             cd_Fields = map_by cf_Name fs, cd_FieldOrder = map f_Name (d_Fields d)\<rparr>"
    by (auto simp: compile_dataset_def result_simps split: option.splits)
  then show "cd_Name cd = d_Name d" "cd_FieldOrder cd = map f_Name (d_Fields d)" "cd_PrimaryKey cd = d_PrimaryKey d"
    by simp_all
  have "map cf_Name fs = map f_Name (d_Fields d)" by (rule emap_map_keys[OF fs compile_field_name])
  then have "cf_Name ` set fs = f_Name ` set (d_Fields d)" by (metis set_map)
  then show "dom (cd_Fields cd) = f_Name ` set (d_Fields d)" by (simp add: cd dom_map_by)
  show "cd_Fields cd n = Some cf \<Longrightarrow> cf_Name cf = n \<and> (\<exists>f\<in>set (d_Fields d). compile_field (d_Name d) f = Inr cf)"
    using emap_Inr_ex2[OF fs] by (auto simp: cd dest!: map_by_Some)
qed

lemma compile_metric_Inr:
  "compile_metric m = Inr c \<Longrightarrow> cmt_Name c = mt_Name m \<and>
     (\<exists>body. Select (mt_Expression m) = Some body \<and> Parse body = Inr (cmt_Expr c))"
  by (auto simp: compile_metric_def result_simps split: option.splits)

text \<open>
  A well-formed model: every map is keyed by the names in its order slice, and every metric
  expression is one the parser returned.
\<close>

definition wf_model :: "CompiledModel \<Rightarrow> bool" where
  "wf_model cm \<longleftrightarrow>
     dom (cm_Datasets cm) = set (cm_DatasetOrder cm) \<and> dom (cm_Metrics cm) = set (cm_MetricOrder cm)
     \<and> (\<forall>n cd. cm_Datasets cm n = Some cd \<longrightarrow> cd_Name cd = n \<and> dom (cd_Fields cd) = set (cd_FieldOrder cd)
          \<and> (\<forall>k cf. cd_Fields cd k = Some cf \<longrightarrow> cf_Name cf = k))
     \<and> (\<forall>n m. cm_Metrics cm n = Some m \<longrightarrow> cmt_Name m = n \<and> Parse (cmt_Raw m) = Inr (cmt_Expr m))"

lemma Compile_wf_model: "Compile marshal spec ns res = Inr cm \<Longrightarrow> wf_model cm"
proof -
  assume "Compile marshal spec ns res = Inr cm"
  then obtain ds ms where ds: "emap (compile_dataset (s_Connection spec)) (om_Datasets (s_Ossie spec)) = Inr ds"
    and ms: "emap compile_metric (om_Metrics (s_Ossie spec)) = Inr ms"
    and cm: "cm_Datasets cm = map_by cd_Name ds" "cm_DatasetOrder cm = map d_Name (om_Datasets (s_Ossie spec))"
      "cm_Metrics cm = map_by cmt_Name ms" "cm_MetricOrder cm = map mt_Name (om_Metrics (s_Ossie spec))"
    by (auto simp: Compile_def result_simps Let_def)
  have "map cd_Name ds = map d_Name (om_Datasets (s_Ossie spec))"
    by (rule emap_map_keys[OF ds compile_dataset_Inr(1)])
  then have "cd_Name ` set ds = d_Name ` set (om_Datasets (s_Ossie spec))" by (metis set_map)
  moreover have "map cmt_Name ms = map mt_Name (om_Metrics (s_Ossie spec))"
    by (rule emap_map_keys[OF ms]) (simp add: compile_metric_Inr)
  then have "cmt_Name ` set ms = mt_Name ` set (om_Metrics (s_Ossie spec))" by (metis set_map)
  moreover have "cd_Name cd = n \<and> dom (cd_Fields cd) = set (cd_FieldOrder cd)
      \<and> (\<forall>k cf. cd_Fields cd k = Some cf \<longrightarrow> cf_Name cf = k)" if "map_by cd_Name ds n = Some cd" for n cd
  proof -
    from map_by_Some[OF that] obtain d where "compile_dataset (s_Connection spec) d = Inr cd" "cd_Name cd = n"
      using emap_Inr_ex2[OF ds] by blast
    with compile_dataset_Inr[OF this(1)] show ?thesis by simp
  qed
  moreover have "cmt_Name m = n \<and> Parse (cmt_Raw m) = Inr (cmt_Expr m)" if "map_by cmt_Name ms n = Some m" for n m
    using map_by_Some[OF that] emap_Inr_ex2[OF ms, of m]
    by (auto simp: compile_metric_def result_simps split: option.splits)
  ultimately show ?thesis by (simp add: wf_model_def cm dom_map_by)
qed

text \<open>
  Compilation produces a well-formed model: the dataset, field and metric maps have exactly the
  names of their order slices as keys, each entry carries its own key as its name, and each
  metric carries the expression its body parses to.
\<close>

theorem Compile_wf: "Compile marshal spec ns res = Inr cm \<Longrightarrow> wf_model cm"
  by (rule Compile_wf_model)

definition sample_field :: "string \<Rightarrow> string \<Rightarrow> bool \<Rightarrow> Field" where
  "sample_field n e isdim =
     \<lparr>f_Name = n, f_Expression = [\<lparr>de_Dialect = ''ANSI_SQL'', de_Expression = e\<rparr>],
      f_Dimension = (if isdim then Some \<lparr>dim_IsTime = False\<rparr> else None), f_Label = [], f_Description = [],
      f_AIContext = None, f_CustomExtensions = []\<rparr>"

definition sample_dataset :: "string \<Rightarrow> string \<Rightarrow> string list \<Rightarrow> Field list \<Rightarrow> Dataset" where
  "sample_dataset n src pk fs =
     \<lparr>d_Name = n, d_Source = src, d_PrimaryKey = pk, d_UniqueKeys = [], d_Description = [],
      d_AIContext = None, d_Fields = fs, d_CustomExtensions = []\<rparr>"

definition sample_metric :: "string \<Rightarrow> string \<Rightarrow> Metric" where
  "sample_metric n e =
     \<lparr>mt_Name = n, mt_Expression = [\<lparr>de_Dialect = ''ANSI_SQL'', de_Expression = e\<rparr>],
      mt_Description = [], mt_AIContext = None, mt_CustomExtensions = []\<rparr>"

definition sample_spec :: SemanticModelSpec where
  "sample_spec =
     \<lparr>s_Connection = \<lparr>conn_Catalog = ''lake'', conn_Database = ''db'', conn_ViewDatabase = []\<rparr>,
      s_Ossie = \<lparr>om_Name = ''m'', om_Description = [], om_AIContext = None,
        om_Datasets = [sample_dataset ''s'' ''t'' [] [sample_field ''a'' ''a'' True]],
        om_Relationships = [], om_Metrics = [sample_metric ''x'' ''SUM(s.a)''], om_CustomExtensions = []\<rparr>,
      s_Governance = None, s_Views = [], s_Joins = []\<rparr>"

theorem Compile_wf_witness:
  "\<exists>cm. Compile (\<lambda>_. []) sample_spec [] [] = Inr cm \<and> wf_model cm"
proof -
  have p: "\<exists>e. Parse ''SUM(s.a)'' = Inr e"
  proof -
    have "case Parse ''SUM(s.a)'' of Inl e \<Rightarrow> False | Inr e \<Rightarrow> True" by code_simp
    then show ?thesis by (auto split: sum.splits)
  qed
  then have "\<exists>cm. Compile (\<lambda>_. []) sample_spec [] [] = Inr cm"
    by (auto simp: Compile_def sample_spec_def sample_dataset_def sample_field_def sample_metric_def
        compile_dataset_def compile_field_def compile_metric_def ResolveSource_def Select_def
        DialectPreference_def first_dialect_def)
  then show ?thesis using Compile_wf by blast
qed

text \<open>
  The qualified name of a dataset is resolved from the right: the last dotted part is the table, a
  second one is the database, a third one the catalog, and the connection supplies the rest.
  Four or more parts are refused.
\<close>

theorem ResolveSource_spec:
  "ResolveSource source conn =
     (case rev (split_at CHR ''.'' source) of
        [t] \<Rightarrow> Some (conn_Catalog conn, conn_Database conn, t)
      | [t, d] \<Rightarrow> Some (conn_Catalog conn, d, t)
      | [t, d, c] \<Rightarrow> Some (c, d, t)
      | _ \<Rightarrow> None)
   \<and> (ResolveSource source conn = None \<longleftrightarrow> 3 < length (split_at CHR ''.'' source))"
proof -
  have small: "xs \<noteq> [] \<Longrightarrow> length xs \<le> 3 \<Longrightarrow> \<exists>a b c. xs = [a] \<or> xs = [a, b] \<or> xs = [a, b, c]" for xs :: "string list"
    by (cases xs; cases "tl xs"; cases "tl (tl xs)") auto
  have big: "3 < length ys \<Longrightarrow> (case ys of [t] \<Rightarrow> f t | [d, t] \<Rightarrow> g d t | [c, d, t] \<Rightarrow> h c d t | _ \<Rightarrow> None) = None"
    for ys :: "string list" and f :: "string \<Rightarrow> (string \<times> string \<times> string) option" and g h
    by (auto split: list.splits)
  show ?thesis
  proof (cases "length (split_at CHR ''.'' source) \<le> 3")
    case True
    then show ?thesis using small[OF split_at_not_Nil True] by (auto simp: ResolveSource_def)
  next
    case False
    then show ?thesis by (simp add: ResolveSource_def big)
  qed
qed

end
