(* ===== verification/JoinTree.thy ===== *)
theory JoinTree
  imports PlanModel
begin

text \<open>
  The join planner of \<^verbatim>\<open>internal/planner/plan_sql.go\<close>: \<^verbatim>\<open>reach\<close> searches breadth first from a root
  over the relationships and keeps the edges on a path to a required dataset; \<^verbatim>\<open>joinTree\<close> tries the
  roots in a fixed order. Go identifies an edge by its pointer into the slice of
  relationships, here by its index. A set of dataset names is a list; that the answer does not
  depend on the order Go iterates it in is \<open>joinTree_order_independent\<close>. Following a missing
  parent would be a nil dereference, \<open>ClimbFailed\<close>; \<open>reach_total\<close> excludes it.
\<close>

section \<open>Breadth-first search\<close>

record bfs_state =
  b_visited :: "string list"
  b_parent :: "string \<rightharpoonup> nat"
  b_discovery :: "nat list"
  b_queue :: "string list"

fun scan_edges :: "string \<Rightarrow> (nat \<times> CompiledRelationship) list \<Rightarrow> bfs_state \<Rightarrow> bfs_state" where
  "scan_edges cur [] st = st"
| "scan_edges cur ((i, rel) # es) st =
     (if cr_From rel \<noteq> cur \<or> cr_To rel \<in> set (b_visited st) then scan_edges cur es st
      else scan_edges cur es
        (st\<lparr>b_visited := cr_To rel # b_visited st,
            b_parent := (b_parent st)(cr_To rel \<mapsto> i),
            b_discovery := b_discovery st @ [i],
            b_queue := b_queue st @ [cr_To rel]\<rparr>))"

definition unvisited :: "CompiledRelationship list \<Rightarrow> bfs_state \<Rightarrow> nat" where
  "unvisited rels st = card (cr_To ` set rels - set (b_visited st))"

lemma scan_edges_measure:
  "snd ` set es \<subseteq> set rels \<Longrightarrow>
   unvisited rels (scan_edges cur es st) + length (b_queue (scan_edges cur es st))
     = unvisited rels st + length (b_queue st)"
proof (induction cur es st rule: scan_edges.induct)
  case (2 cur i rel es st)
  show ?case
  proof (cases "cr_From rel \<noteq> cur \<or> cr_To rel \<in> set (b_visited st)")
    case True
    with 2 show ?thesis by simp
  next
    case False
    have "cr_To rel \<in> cr_To ` set rels - set (b_visited st)" using 2(3) False by auto
    then have "card (cr_To ` set rels - set (b_visited st) - {cr_To rel}) + 1 = card (cr_To ` set rels - set (b_visited st))"
      by (metis Suc_eq_plus1 card_Suc_Diff1 finite_Diff finite_imageI List.finite_set)
    moreover have "cr_To ` set rels - insert (cr_To rel) (set (b_visited st))
        = cr_To ` set rels - set (b_visited st) - {cr_To rel}" by auto
    ultimately show ?thesis using 2 False by (simp add: unvisited_def)
  qed
qed simp

function bfs :: "CompiledRelationship list \<Rightarrow> bfs_state \<Rightarrow> bfs_state" where
  "bfs rels st =
     (case b_queue st of
        [] \<Rightarrow> st
      | cur # q \<Rightarrow> bfs rels (scan_edges cur (List.enumerate 0 rels) (st\<lparr>b_queue := q\<rparr>)))"
  by pat_completeness auto
termination
proof (relation "measure (\<lambda>(rels, st). unvisited rels st + length (b_queue st))", goal_cases)
  case (2 rels st cur q)
  have "snd ` set (List.enumerate 0 rels) \<subseteq> set rels" by (auto simp: in_set_enumerate_eq)
  from scan_edges_measure[OF this, of cur "st\<lparr>b_queue := q\<rparr>"] 2 show ?case
    by (simp add: unvisited_def)
qed simp

declare bfs.simps [simp del]

definition bfs_start :: "string \<Rightarrow> bfs_state" where
  "bfs_start root = \<lparr>b_visited = [root], b_parent = Map.empty, b_discovery = [], b_queue = [root]\<rparr>"

section \<open>Pruning and the choice of a root\<close>

datatype join_error = EmptyRequirement | NoJoinPath "string list" | ClimbFailed

text \<open>The \<^verbatim>\<open>for cur := ds; cur != root\<close> loop: the edges it marks. The fuel bounds its length.\<close>

fun climb :: "nat \<Rightarrow> CompiledRelationship list \<Rightarrow> string \<Rightarrow> (string \<rightharpoonup> nat) \<Rightarrow> string \<Rightarrow> nat list option" where
  "climb fuel rels root parent cur =
     (if cur = root then Some []
      else case parent cur of
        None \<Rightarrow> None
      | Some i \<Rightarrow>
          (case fuel of
             0 \<Rightarrow> None
           | Suc k \<Rightarrow> map_option (\<lambda>is. i # is) (climb k rels root parent (cr_From (rels ! i)))))"

declare climb.simps [simp del]

fun needed_edges :: "CompiledRelationship list \<Rightarrow> string \<Rightarrow> bfs_state \<Rightarrow> string list \<Rightarrow> nat list
    \<Rightarrow> (join_error, nat list option) result" where
  "needed_edges rels root st [] acc = Inr (Some acc)"
| "needed_edges rels root st (ds # rest) acc =
     (if ds \<notin> set (b_visited st) then Inr None
      else case climb (length (b_discovery st)) rels root (b_parent st) ds of
        None \<Rightarrow> Inl ClimbFailed
      | Some is \<Rightarrow> needed_edges rels root st rest (is @ acc))"

definition reach :: "CompiledRelationship list \<Rightarrow> string \<Rightarrow> string list
    \<Rightarrow> (join_error, CompiledRelationship list option) result" where
  "reach rels root required =
     (let st = bfs rels (bfs_start root)
      in ebind (needed_edges rels root st required []) (\<lambda>needed. Inr
           (case needed of
              None \<Rightarrow> None
            | Some is \<Rightarrow> Some (map (nth rels) (filter (\<lambda>i. i \<in> set is) (b_discovery st))))))"

fun try_roots :: "CompiledRelationship list \<Rightarrow> string list \<Rightarrow> string list
    \<Rightarrow> (join_error, (string \<times> CompiledRelationship list) option) result" where
  "try_roots rels required [] = Inr None"
| "try_roots rels required (root # roots) =
     ebind (reach rels root required) (\<lambda>r. case r of
         Some joins \<Rightarrow> Inr (Some (root, joins))
       | None \<Rightarrow> try_roots rels required roots)"

definition joinTree :: "CompiledModel \<Rightarrow> string list \<Rightarrow> (join_error, string \<times> CompiledRelationship list) result" where
  "joinTree cm required =
     (if required = [] then Inl EmptyRequirement
      else
        let named = filter (\<lambda>ds. ds \<in> set required) (cm_DatasetOrder cm)
        in ebind (try_roots (cm_Relationships cm) required (named @ cm_DatasetOrder cm)) (\<lambda>r. case r of
             Some t \<Rightarrow> Inr t
           | None \<Rightarrow> Inl (NoJoinPath named)))"

section \<open>The search reaches exactly what is reachable\<close>

definition edge_rel :: "CompiledRelationship list \<Rightarrow> (string \<times> string) set" where
  "edge_rel rels = (\<lambda>r. (cr_From r, cr_To r)) ` set rels"

definition reachable :: "CompiledRelationship list \<Rightarrow> string \<Rightarrow> string set" where
  "reachable rels root = {n. (root, n) \<in> (edge_rel rels)\<^sup>*}"

text \<open>
  A list of joins is well scoped from a root when each join starts at the root or at a dataset
  joined before, and joins a dataset that is not there yet: it can be rendered as a FROM clause.
\<close>

fun well_scoped :: "string set \<Rightarrow> CompiledRelationship list \<Rightarrow> bool" where
  "well_scoped S [] = True"
| "well_scoped S (r # rs) = (cr_From r \<in> S \<and> cr_To r \<notin> S \<and> well_scoped (insert (cr_To r) S) rs)"

lemma well_scoped_snoc:
  "well_scoped S (rs @ [r]) \<longleftrightarrow>
     well_scoped S rs \<and> cr_From r \<in> S \<union> cr_To ` set rs \<and> cr_To r \<notin> S \<union> cr_To ` set rs"
  by (induction S rs rule: well_scoped.induct) auto

text \<open>The loop invariant. \<open>js\<close> are the discovered edges.\<close>

definition bfs_inv :: "CompiledRelationship list \<Rightarrow> string \<Rightarrow> bfs_state \<Rightarrow> bool" where
  "bfs_inv rels root st \<longleftrightarrow>
     (let js = map (nth rels) (b_discovery st)
      in (\<forall>i\<in>set (b_discovery st). i < length rels)
         \<and> well_scoped {root} js
         \<and> set (b_visited st) = insert root (cr_To ` set js)
         \<and> set (b_queue st) \<subseteq> set (b_visited st)
         \<and> (\<forall>n i. b_parent st n = Some i \<longleftrightarrow> i \<in> set (b_discovery st) \<and> cr_To (rels ! i) = n))"

text \<open>Every edge out of a visited dataset that is no longer queued (nor the one being scanned) leads
  to a visited dataset.\<close>

definition bfs_closed :: "CompiledRelationship list \<Rightarrow> string set \<Rightarrow> bfs_state \<Rightarrow> bool" where
  "bfs_closed rels open_nodes st \<longleftrightarrow>
     (\<forall>r\<in>set rels. cr_From r \<in> set (b_visited st) - set (b_queue st) - open_nodes \<longrightarrow> cr_To r \<in> set (b_visited st))"

lemma bfs_inv_step:
  assumes "bfs_inv rels root st" "i < length rels" "cr_From (rels ! i) \<in> set (b_visited st)"
    "cr_To (rels ! i) \<notin> set (b_visited st)"
  shows "bfs_inv rels root (st\<lparr>b_visited := cr_To (rels ! i) # b_visited st,
            b_parent := (b_parent st)(cr_To (rels ! i) \<mapsto> i),
            b_discovery := b_discovery st @ [i],
            b_queue := b_queue st @ [cr_To (rels ! i)]\<rparr>)"
proof -
  have "cr_To (rels ! j) \<noteq> cr_To (rels ! i)" if "j \<in> set (b_discovery st)" for j
  proof
    assume "cr_To (rels ! j) = cr_To (rels ! i)"
    with that have "cr_To (rels ! i) \<in> set (b_visited st)"
      using assms(1) by (auto simp: bfs_inv_def Let_def intro!: image_eqI[of _ cr_To "rels ! j"])
    with assms(4) show False by contradiction
  qed
  then show ?thesis using assms by (auto simp: bfs_inv_def Let_def well_scoped_snoc)
qed

lemma scan_edges_inv:
  assumes "bfs_inv rels root st" "cur \<in> set (b_visited st)"
    "\<forall>(i, r)\<in>set es. i < length rels \<and> rels ! i = r"
  shows "bfs_inv rels root (scan_edges cur es st)
    \<and> set (b_visited st) \<subseteq> set (b_visited (scan_edges cur es st))
    \<and> (\<forall>(i, r)\<in>set es. cr_From r = cur \<longrightarrow> cr_To r \<in> set (b_visited (scan_edges cur es st)))
    \<and> set (b_visited (scan_edges cur es st)) - set (b_queue (scan_edges cur es st)) \<subseteq> set (b_visited st) - set (b_queue st)"
  using assms
proof (induction cur es st rule: scan_edges.induct)
  case (2 cur i rel es st)
  have i: "i < length rels" "rels ! i = rel" using "2.prems"(3) by auto
  have es: "\<forall>(i, r)\<in>set es. i < length rels \<and> rels ! i = r" using "2.prems"(3) by simp
  show ?case
  proof (cases "cr_From rel \<noteq> cur \<or> cr_To rel \<in> set (b_visited st)")
    case True
    from "2.IH"(1)[OF True "2.prems"(1,2) es] True show ?thesis by auto
  next
    case False
    let ?st = "st\<lparr>b_visited := cr_To rel # b_visited st, b_parent := (b_parent st)(cr_To rel \<mapsto> i),
            b_discovery := b_discovery st @ [i], b_queue := b_queue st @ [cr_To rel]\<rparr>"
    have "bfs_inv rels root ?st" using bfs_inv_step[OF "2.prems"(1) i(1)] i False "2.prems"(2) by simp
    from "2.IH"(2)[OF False this _ es] "2.prems"(2) False show ?thesis by auto
  qed
qed auto

lemma bfs_inv_start: "bfs_inv rels root (bfs_start root)"
  by (simp add: bfs_inv_def bfs_start_def)

lemma bfs_result:
  assumes "bfs_inv rels root st" "bfs_closed rels {} st"
  shows "bfs_inv rels root (bfs rels st) \<and> bfs_closed rels {} (bfs rels st) \<and> b_queue (bfs rels st) = []"
  using assms
proof (induction rels st rule: bfs.induct)
  case (1 rels st)
  show ?case
  proof (cases "b_queue st")
    case Nil
    with 1 show ?thesis by (simp add: bfs.simps[of rels st])
  next
    case (Cons cur q)
    let ?s0 = "st\<lparr>b_queue := q\<rparr>" and ?es = "List.enumerate 0 rels"
    let ?s1 = "scan_edges cur ?es ?s0"
    have inv0: "bfs_inv rels root ?s0" using "1.prems"(1) Cons by (auto simp: bfs_inv_def Let_def)
    have cur: "cur \<in> set (b_visited ?s0)" using "1.prems"(1) Cons by (auto simp: bfs_inv_def Let_def)
    have es: "\<forall>(i, r)\<in>set ?es. i < length rels \<and> rels ! i = r" by (auto simp: in_set_enumerate_eq)
    note s = scan_edges_inv[OF inv0 cur es]
    have "bfs_closed rels {} ?s1"
      unfolding bfs_closed_def
    proof (intro ballI impI)
      fix r assume r: "r \<in> set rels" "cr_From r \<in> set (b_visited ?s1) - set (b_queue ?s1) - {}"
      show "cr_To r \<in> set (b_visited ?s1)"
      proof (cases "cr_From r = cur")
        case True
        from r(1) obtain i where "i < length rels" "rels ! i = r" by (auto simp: in_set_conv_nth)
        then have "(i, r) \<in> set ?es" by (simp add: in_set_enumerate_eq)
        with s True show ?thesis by blast
      next
        case False
        with r s have "cr_From r \<in> set (b_visited st) - set q" by auto
        with False Cons "1.prems"(2) r(1) have "cr_To r \<in> set (b_visited st)" by (auto simp: bfs_closed_def)
        with s show ?thesis by auto
      qed
    qed
    from "1.IH"[OF Cons] s this show ?thesis by (simp add: bfs.simps[of rels st] Cons)
  qed
qed

lemma well_scoped_reachable:
  "well_scoped S js \<Longrightarrow> set js \<subseteq> set rels \<Longrightarrow> S \<subseteq> reachable rels root \<Longrightarrow>
   cr_To ` set js \<subseteq> reachable rels root"
proof (induction S js rule: well_scoped.induct)
  case (2 S r rs)
  have "(cr_From r, cr_To r) \<in> edge_rel rels" using 2(3) by (auto simp: edge_rel_def)
  then have "cr_To r \<in> reachable rels root"
    using 2(2,4) by (auto simp: reachable_def intro: rtrancl_into_rtrancl)
  with 2 show ?case by auto
qed simp

lemma bfs_visited:
  "set (b_visited (bfs rels (bfs_start root))) = reachable rels root"
proof -
  let ?st = "bfs rels (bfs_start root)"
  have "bfs_closed rels {} (bfs_start root)" by (simp add: bfs_closed_def bfs_start_def)
  then have inv: "bfs_inv rels root ?st" "bfs_closed rels {} ?st" "b_queue ?st = []"
    using bfs_result[OF bfs_inv_start] by auto
  have "n \<in> set (b_visited ?st)" if "(root, n) \<in> (edge_rel rels)\<^sup>*" for n
    using that
  proof (induction rule: rtrancl_induct)
    case base
    then show ?case using inv(1) by (simp add: bfs_inv_def Let_def)
  next
    case (step x y)
    then show ?case using inv(2,3) by (auto simp: bfs_closed_def edge_rel_def)
  qed
  moreover have "set (map (nth rels) (b_discovery ?st)) \<subseteq> set rels"
    using inv(1) by (auto simp: bfs_inv_def Let_def)
  with inv(1) well_scoped_reachable[of "{root}" "map (nth rels) (b_discovery ?st)" rels root]
  have "set (b_visited ?st) \<subseteq> reachable rels root"
    by (simp add: bfs_inv_def Let_def reachable_def)
  ultimately show ?thesis by (auto simp: reachable_def)
qed

section \<open>Climbing back to the root\<close>

lemma bfs_final:
  "bfs_inv rels root (bfs rels (bfs_start root))"
  using bfs_result[OF bfs_inv_start] by (auto simp: bfs_closed_def bfs_start_def)

lemma well_scoped_append:
  "well_scoped S (xs @ ys) \<longleftrightarrow> well_scoped S xs \<and> well_scoped (S \<union> cr_To ` set xs) ys"
  by (induction S xs rule: well_scoped.induct) auto

lemma climb_root [simp]: "climb f rels root parent root = Some []"
  by (simp add: climb.simps)

lemma climb_mono: "climb k rels root parent cur = Some es \<Longrightarrow> climb (Suc k) rels root parent cur = Some es"
proof (induction k arbitrary: cur es)
  case 0
  then show ?case by (auto simp: climb.simps[of _ rels root parent cur] split: if_splits option.splits)
next
  case (Suc k)
  then show ?case
    by (subst climb.simps) (auto simp: climb.simps[of "Suc k" rels root parent cur] split: if_splits option.splits)
qed

definition up_closed :: "CompiledRelationship list \<Rightarrow> string \<Rightarrow> nat set \<Rightarrow> bool" where
  "up_closed rels root E \<longleftrightarrow> (\<forall>i\<in>E. cr_From (rels ! i) = root \<or> (\<exists>j\<in>E. cr_To (rels ! j) = cr_From (rels ! i)))"

definition chain_ok :: "CompiledRelationship list \<Rightarrow> string \<Rightarrow> string \<Rightarrow> nat list \<Rightarrow> bool" where
  "chain_ok rels root cur es \<longleftrightarrow>
     up_closed rels root (set es) \<and> (cur = root \<or> (\<exists>i\<in>set es. cr_To (rels ! i) = cur))
     \<and> (\<forall>i\<in>set es. cr_To (rels ! i) = cur \<or> (\<exists>j\<in>set es. cr_From (rels ! j) = cr_To (rels ! i)))"

lemma climb_succeeds:
  assumes scoped: "well_scoped {root} (map (nth rels) disc)"
    and parent: "\<forall>n i. parent n = Some i \<longleftrightarrow> i \<in> set disc \<and> cr_To (rels ! i) = n"
  shows "k \<le> length disc \<Longrightarrow> cur \<in> insert root (cr_To ` (nth rels) ` set (take k disc)) \<Longrightarrow>
    \<exists>es. climb k rels root parent cur = Some es \<and> set es \<subseteq> set disc \<and> chain_ok rels root cur es"
proof (induction k arbitrary: cur)
  case 0
  then show ?case by (simp add: chain_ok_def up_closed_def)
next
  case (Suc k)
  show ?case
  proof (cases "cur \<in> insert root (cr_To ` (nth rels) ` set (take k disc))")
    case True
    then show ?thesis using Suc.IH[of cur] Suc.prems(1) climb_mono by fastforce
  next
    case False
    let ?i = "disc ! k"
    have take: "take (Suc k) disc = take k disc @ [?i]" using Suc.prems(1) by (simp add: take_Suc_conv_app_nth)
    with False Suc.prems(2) have cur: "cur = cr_To (rels ! ?i)" by auto
    have i: "?i \<in> set disc" using Suc.prems(1) by simp
    have "map (nth rels) disc = map (nth rels) (take k disc) @ rels ! ?i # map (nth rels) (drop (Suc k) disc)"
      by (metis Suc.prems(1) Suc_le_lessD id_take_nth_drop list.simps(9) map_append)
    with scoped have fromi: "cr_From (rels ! ?i) \<in> insert root (cr_To ` (nth rels) ` set (take k disc))"
      by (simp add: well_scoped_append)
    from Suc.IH[OF _ fromi] Suc.prems(1) obtain es where
      es: "climb k rels root parent (cr_From (rels ! ?i)) = Some es" "set es \<subseteq> set disc"
        "chain_ok rels root (cr_From (rels ! ?i)) es" by auto
    have "parent cur = Some ?i" using parent i cur by blast
    with es(1) False have "climb (Suc k) rels root parent cur = Some (?i # es)" by (simp add: climb.simps)
    moreover have "chain_ok rels root cur (?i # es)"
      using es(3) cur by (auto simp: chain_ok_def up_closed_def)
    ultimately show ?thesis using i es(2) by auto
  qed
qed

text \<open>The chain of edges of one dataset, and the union of the chains of several.\<close>

definition chain :: "CompiledRelationship list \<Rightarrow> string \<Rightarrow> bfs_state \<Rightarrow> string \<Rightarrow> nat list" where
  "chain rels root st ds = the (climb (length (b_discovery st)) rels root (b_parent st) ds)"

lemma chain_climb:
  assumes "bfs_inv rels root st" "ds \<in> set (b_visited st)"
  shows "climb (length (b_discovery st)) rels root (b_parent st) ds = Some (chain rels root st ds)"
    "set (chain rels root st ds) \<subseteq> set (b_discovery st)" "chain_ok rels root ds (chain rels root st ds)"
proof -
  let ?d = "b_discovery st"
  have inv: "well_scoped {root} (map (nth rels) ?d)"
    "\<forall>n i. b_parent st n = Some i \<longleftrightarrow> i \<in> set ?d \<and> cr_To (rels ! i) = n"
    and ds: "ds \<in> insert root (cr_To ` (nth rels) ` set (take (length ?d) ?d))"
    using assms by (auto simp: bfs_inv_def Let_def)
  from climb_succeeds[OF inv le_refl ds]
  show "climb (length ?d) rels root (b_parent st) ds = Some (chain rels root st ds)"
    "set (chain rels root st ds) \<subseteq> set ?d" "chain_ok rels root ds (chain rels root st ds)"
    by (auto simp: chain_def)
qed

lemma needed_edges_eq:
  assumes "bfs_inv rels root st"
  shows "\<exists>es. needed_edges rels root st required acc
      = Inr (if set required \<subseteq> set (b_visited st) then Some es else None)
    \<and> set es = set acc \<union> (\<Union>ds\<in>set required. set (chain rels root st ds))"
proof (induction required arbitrary: acc)
  case (Cons ds rest)
  show ?case
  proof (cases "ds \<in> set (b_visited st)")
    case True
    from Cons.IH[of "chain rels root st ds @ acc"] True show ?thesis
      by (auto simp: chain_climb(1)[OF assms True] Un_ac)
  next
    case False
    obtain xs where "set xs = set acc \<union> (\<Union>d\<in>set (ds # rest). set (chain rels root st d))"
      by (metis finite_list finite_UN finite_UnI List.finite_set)
    with False show ?thesis by (intro exI[of _ xs]) simp
  qed
qed simp

lemma prune_scoped:
  assumes scoped: "well_scoped {root} (map (nth rels) disc)"
    and uniq: "\<forall>i\<in>set disc. \<forall>j\<in>set disc. cr_To (rels ! i) = cr_To (rels ! j) \<longrightarrow> i = j"
    and closed: "up_closed rels root E" "E \<subseteq> set disc"
  shows "well_scoped {root} (map (nth rels) (filter (\<lambda>i. i \<in> E) disc))"
proof -
  have "well_scoped {root} (map (nth rels) (filter (\<lambda>i. i \<in> E) xs))" if "prefix xs disc" for xs
    using that
  proof (induction xs rule: rev_induct)
    case (snoc i xs)
    from snoc.prems obtain ys where d: "disc = xs @ i # ys" by (auto simp: prefix_def)
    have IH: "well_scoped {root} (map (nth rels) (filter (\<lambda>i. i \<in> E) xs))"
      using snoc by (auto simp: prefix_def)
    have i: "cr_From (rels ! i) \<in> insert root (cr_To ` (nth rels) ` set xs)"
      "cr_To (rels ! i) \<notin> insert root (cr_To ` (nth rels) ` set xs)"
      using scoped by (auto simp: d well_scoped_append)
    show ?case
    proof (cases "i \<in> E")
      case True
      have "cr_From (rels ! i) \<in> insert root (cr_To ` (nth rels) ` set (filter (\<lambda>i. i \<in> E) xs))"
      proof (cases "cr_From (rels ! i) = root")
        case False
        with True closed(1) obtain j where j: "j \<in> E" "cr_To (rels ! j) = cr_From (rels ! i)"
          by (auto simp: up_closed_def)
        from False i(1) obtain k where k: "k \<in> set xs" "cr_To (rels ! k) = cr_From (rels ! i)" by auto
        then have "j = k" using uniq j closed(2) d by (metis Un_iff set_append subsetD)
        with j k show ?thesis by (auto intro!: image_eqI[of _ cr_To "rels ! k"])
      qed simp
      with IH i True show ?thesis by (auto simp: well_scoped_snoc)
    qed (use IH in simp)
  qed simp
  then show ?thesis by simp
qed

section \<open>What the join planner returns\<close>

text \<open>
  The specification of a join list for a root and a set of required datasets: relationships of the
  model, in an order in which each joins a new dataset to one already there, that reach every
  required dataset, and without a leaf that is not required.
\<close>

definition connects :: "CompiledRelationship list \<Rightarrow> string \<Rightarrow> string set \<Rightarrow> CompiledRelationship list \<Rightarrow> bool" where
  "connects rels root required js \<longleftrightarrow>
     set js \<subseteq> set rels \<and> well_scoped {root} js \<and> required \<subseteq> insert root (cr_To ` set js)
     \<and> (\<forall>r\<in>set js. cr_To r \<in> required \<or> (\<exists>r'\<in>set js. cr_From r' = cr_To r))"

lemma reach_eq:
  "reach rels root required =
     Inr (if set required \<subseteq> reachable rels root
          then Some (map (nth rels) (filter (\<lambda>i. i \<in> (\<Union>ds\<in>set required.
                 set (chain rels root (bfs rels (bfs_start root)) ds))) (b_discovery (bfs rels (bfs_start root)))))
          else None)"
proof -
  obtain es where "needed_edges rels root (bfs rels (bfs_start root)) required []
      = Inr (if set required \<subseteq> reachable rels root then Some es else None)"
    "set es = (\<Union>ds\<in>set required. set (chain rels root (bfs rels (bfs_start root)) ds))"
    using needed_edges_eq[OF bfs_final, of rels root required "[]"] by (auto simp: bfs_visited)
  then show ?thesis by (cases "set required \<subseteq> reachable rels root") (simp_all add: reach_def Let_def)
qed

lemma reach_connects:
  assumes "set required \<subseteq> reachable rels root"
  shows "\<exists>js. reach rels root required = Inr (Some js) \<and> connects rels root (set required) js"
proof -
  let ?st = "bfs rels (bfs_start root)"
  let ?E = "\<Union>ds\<in>set required. set (chain rels root ?st ds)"
  let ?js = "map (nth rels) (filter (\<lambda>i. i \<in> ?E) (b_discovery ?st))"
  have inv: "bfs_inv rels root ?st" by (rule bfs_final)
  have vis: "ds \<in> set required \<Longrightarrow> ds \<in> set (b_visited ?st)" for ds using assms bfs_visited by blast
  note ch = chain_climb[OF inv vis]
  have E: "?E \<subseteq> set (b_discovery ?st)" using ch(2) by blast
  then have setjs: "set ?js = (nth rels) ` ?E" by auto
  have "up_closed rels root ?E" using ch(3) unfolding chain_ok_def up_closed_def by blast
  moreover have "well_scoped {root} (map (nth rels) (b_discovery ?st))"
    using inv by (simp add: bfs_inv_def Let_def)
  moreover have "\<forall>n i. b_parent ?st n = Some i \<longleftrightarrow> i \<in> set (b_discovery ?st) \<and> cr_To (rels ! i) = n"
    using inv by (simp add: bfs_inv_def Let_def)
  then have "\<forall>i\<in>set (b_discovery ?st). \<forall>j\<in>set (b_discovery ?st). cr_To (rels ! i) = cr_To (rels ! j) \<longrightarrow> i = j"
    by (metis option.inject)
  ultimately have "well_scoped {root} ?js" using E by (intro prune_scoped)
  moreover have "set ?js \<subseteq> set rels" using E inv unfolding setjs by (auto simp: bfs_inv_def Let_def)
  moreover have "set required \<subseteq> insert root (cr_To ` set ?js)"
    unfolding setjs using ch(3) by (fastforce simp: chain_ok_def)
  moreover have "\<forall>r\<in>set ?js. cr_To r \<in> set required \<or> (\<exists>r'\<in>set ?js. cr_From r' = cr_To r)"
    unfolding setjs using ch(3) by (fastforce simp: chain_ok_def)
  ultimately have "connects rels root (set required) ?js" by (simp add: connects_def)
  then show ?thesis using assms by (simp add: reach_eq)
qed

text \<open>
  \<open>reach\<close> is total and exact: it never follows a missing parent, it finds a join list exactly when
  every required dataset is reachable from the root, and the list it returns connects them.
\<close>

theorem reach_correct:
  "case reach rels root required of
     Inl e \<Rightarrow> False
   | Inr None \<Rightarrow> \<not> set required \<subseteq> reachable rels root
   | Inr (Some js) \<Rightarrow> set required \<subseteq> reachable rels root \<and> connects rels root (set required) js"
proof (cases "set required \<subseteq> reachable rels root")
  case True
  with reach_connects[OF True] show ?thesis by auto
next
  case False
  then show ?thesis by (simp add: reach_eq)
qed

lemma try_roots_eq:
  "try_roots rels required roots = Inr
     (map_option (\<lambda>root. (root, case reach rels root required of Inr (Some js) \<Rightarrow> js | _ \<Rightarrow> []))
        (find (\<lambda>root. set required \<subseteq> reachable rels root) roots))"
proof (induction roots)
  case (Cons root roots)
  show ?case
  proof (cases "set required \<subseteq> reachable rels root")
    case True
    then obtain js where "reach rels root required = Inr (Some js)" using reach_connects by blast
    with True show ?thesis by simp
  next
    case False
    then have "reach rels root required = Inr None" by (simp add: reach_eq)
    with False Cons show ?thesis by simp
  qed
qed simp

lemma find_SomeD: "find P xs = Some x \<Longrightarrow> x \<in> set xs \<and> P x"
  by (auto simp: find_Some_iff)

lemma find_append: "find P (xs @ ys) = (case find P xs of None \<Rightarrow> find P ys | Some x \<Rightarrow> Some x)"
  by (induction xs) auto

definition good_root :: "CompiledModel \<Rightarrow> string set \<Rightarrow> string \<Rightarrow> bool" where
  "good_root cm required root \<longleftrightarrow>
     root \<in> set (cm_DatasetOrder cm) \<and> required \<subseteq> reachable (cm_Relationships cm) root"

lemma joinTree_connects:
  "required \<noteq> [] \<Longrightarrow>
   (case joinTree cm required of
      Inr (root, js) \<Rightarrow>
        good_root cm (set required) root \<and> connects (cm_Relationships cm) root (set required) js
        \<and> ((\<exists>r\<in>set required. good_root cm (set required) r) \<longrightarrow> root \<in> set required)
    | Inl e \<Rightarrow> e = NoJoinPath (filter (\<lambda>ds. ds \<in> set required) (cm_DatasetOrder cm))
        \<and> (\<forall>root. \<not> good_root cm (set required) root))"
proof -
  assume ne: "required \<noteq> []"
  let ?rels = "cm_Relationships cm" and ?named = "filter (\<lambda>ds. ds \<in> set required) (cm_DatasetOrder cm)"
  let ?P = "\<lambda>root. set required \<subseteq> reachable ?rels root"
  show ?thesis
  proof (cases "find ?P (?named @ cm_DatasetOrder cm)")
    case None
    then have "\<forall>root\<in>set (cm_DatasetOrder cm). \<not> ?P root" by (auto simp: find_None_iff)
    with None ne show ?thesis by (simp add: joinTree_def try_roots_eq good_root_def)
  next
    case (Some root)
    from find_SomeD[OF Some] have root: "root \<in> set (cm_DatasetOrder cm)" "?P root" by auto
    obtain js where js: "reach ?rels root required = Inr (Some js)" "connects ?rels root (set required) js"
      using reach_connects[OF root(2)] by blast
    have pref: "root \<in> set required" if "r \<in> set required" "good_root cm (set required) r" for r
    proof -
      have "r \<in> set ?named" "?P r" using that by (auto simp: good_root_def)
      then have "find ?P ?named \<noteq> None" by (auto simp: find_None_iff)
      with Some have "find ?P ?named = Some root" by (auto simp: find_append split: option.splits)
      with find_SomeD[OF this] show ?thesis by simp
    qed
    with js root Some ne show ?thesis by (auto simp: joinTree_def try_roots_eq good_root_def)
  qed
qed

text \<open>
  C23. The join tree of a non-empty requirement: when some dataset of the model reaches every required
  one, \<open>joinTree\<close> returns such a root with joins that connect the requirement, and the root is a
  required dataset whenever one of those would do; otherwise it fails with \<open>NoJoinPath\<close>.
\<close>

theorem joinTree_correct:
  "required \<noteq> [] \<Longrightarrow>
   (case joinTree cm required of
      Inr (root, js) \<Rightarrow>
        good_root cm (set required) root \<and> connects (cm_Relationships cm) root (set required) js
        \<and> ((\<exists>r\<in>set required. good_root cm (set required) r) \<longrightarrow> root \<in> set required)
    | Inl e \<Rightarrow> e = NoJoinPath (filter (\<lambda>ds. ds \<in> set required) (cm_DatasetOrder cm))
        \<and> (\<forall>root. \<not> good_root cm (set required) root))"
  by (rule joinTree_connects)

definition star_rels :: "CompiledRelationship list" where
  "star_rels =
     [\<lparr>cr_Name = ''r1'', cr_From = ''f'', cr_To = ''d'', cr_FromColumns = [''k''], cr_ToColumns = [''k''], cr_JoinType = ''INNER''\<rparr>,
      \<lparr>cr_Name = ''r2'', cr_From = ''d'', cr_To = ''e'', cr_FromColumns = [''k''], cr_ToColumns = [''k''], cr_JoinType = ''INNER''\<rparr>,
      \<lparr>cr_Name = ''r3'', cr_From = ''f'', cr_To = ''g'', cr_FromColumns = [''k''], cr_ToColumns = [''k''], cr_JoinType = ''LEFT''\<rparr>]"

definition star_model :: CompiledModel where
  "star_model =
     \<lparr>cm_Name = ''m'', cm_Version = ''v'', cm_Namespace = [], cm_Resource = [],
      cm_Connection = \<lparr>conn_Catalog = ''c'', conn_Database = ''b'', conn_ViewDatabase = []\<rparr>,
      cm_Datasets = Map.empty, cm_DatasetOrder = [''e'', ''d'', ''g'', ''f''], cm_Relationships = star_rels,
      cm_Metrics = Map.empty, cm_MetricOrder = [], cm_Governance = None, cm_Description = [],
      cm_AIContext = empty_AIContext\<rparr>"

theorem joinTree_correct_witness:
  "joinTree star_model [''e'', ''g''] = Inr (''f'', [star_rels ! 0, star_rels ! 2, star_rels ! 1])
   \<and> joinTree star_model [''d'', ''e''] = Inr (''d'', [star_rels ! 1])
   \<and> good_root star_model {''e'', ''g''} ''f'' \<and> connects star_rels ''f'' {''e'', ''g''} [star_rels ! 0, star_rels ! 2, star_rels ! 1]"
proof -
  have j: "joinTree star_model [''e'', ''g''] = Inr (''f'', [star_rels ! 0, star_rels ! 2, star_rels ! 1])" by code_simp
  have k: "joinTree star_model [''d'', ''e''] = Inr (''d'', [star_rels ! 1])" by code_simp
  have r: "cm_Relationships star_model = star_rels" by (simp add: star_model_def)
  show ?thesis using joinTree_correct[of "[''e'', ''g'']" star_model] j k by (simp add: r)
qed

lemma reach_set: "set required = set required' \<Longrightarrow> reach rels root required = reach rels root required'"
  by (simp only: reach_eq)

lemma try_roots_set:
  "set required = set required' \<Longrightarrow> try_roots rels required roots = try_roots rels required' roots"
  by (induction roots) (simp_all add: reach_set[of required required'])

text \<open>
  The join tree depends on the set of required datasets only, not on the order in which Go's map
  iteration hands them to \<open>reach\<close>: plans are deterministic.
\<close>

theorem joinTree_order_independent:
  "set required = set required' \<Longrightarrow> joinTree cm required = joinTree cm required'"
  by (cases "required = []") (auto simp: joinTree_def try_roots_set[of required required'])

theorem joinTree_order_independent_witness:
  "joinTree star_model [''g'', ''e'', ''g''] = Inr (''f'', [star_rels ! 0, star_rels ! 2, star_rels ! 1])"
proof -
  have "set [''g'', ''e'', ''g''] = set [''e'', ''g'']" by auto
  from joinTree_order_independent[OF this, of star_model]
  have "joinTree star_model [''g'', ''e'', ''g''] = joinTree star_model [''e'', ''g'']" .
  also have "\<dots> = Inr (''f'', [star_rels ! 0, star_rels ! 2, star_rels ! 1])" by code_simp
  finally show ?thesis .
qed

end
