(* ===== verification/PlanRequest.thy ===== *)
theory PlanRequest
  imports JoinTree
begin

text \<open>
  The request side of \<^verbatim>\<open>internal/planner/plan.go\<close>: what a caller asks for, how references, metric
  filters and orderings are resolved against the compiled model, the end of the statement and
  the request hash. A dynamic value (\<^verbatim>\<open>any\<close>) is a \<^typ>\<open>go_value\<close>, \<open>VNil\<close> for nil; a slice that
  may be nil where nil matters is an option.
\<close>

section \<open>Requests\<close>

record Filter =
  flt_Field :: string
  flt_Op :: string
  flt_Value :: go_value
  flt_Values :: "go_value list"

record MetricFilter =
  mf_Metric :: string
  mf_Op :: string
  mf_Value :: go_value
  mf_Values :: "go_value list option"
  mf_valueSet :: bool
  mf_valuesSet :: bool

record OrderByClause =
  ob_Field :: string
  ob_Direction :: string

record Request =
  req_Model :: string
  req_Metrics :: "string list"
  req_Dimensions :: "string list"
  req_Filters :: "Filter list"
  req_MetricFilters :: "MetricFilter list"
  req_TimeGrain :: string
  req_OrderBy :: "OrderByClause list"
  req_Limit :: int

record dimSpec =
  ds_Ref :: FieldRef
  ds_Field :: CompiledField
  ds_Grained :: bool

record orderSpec =
  os_Ordinal :: nat
  os_Direction :: string

record metricFilterSpec =
  mfs_Filter :: MetricFilter
  mfs_Metric :: CompiledMetric

definition hasValue :: "MetricFilter \<Rightarrow> bool" where
  "hasValue f \<longleftrightarrow> mf_valueSet f \<or> mf_Value f \<noteq> VNil"

definition hasValues :: "MetricFilter \<Rightarrow> bool" where
  "hasValues f \<longleftrightarrow> mf_valuesSet f \<or> mf_Values f \<noteq> None"

definition slice :: "'a list option \<Rightarrow> 'a list" where
  "slice xs = (case xs of None \<Rightarrow> [] | Some ys \<Rightarrow> ys)"

section \<open>Errors\<close>

datatype ref_error = MustBeDatasetField | UnknownDataset string | UnknownField string string

datatype value_error = MustBeFinite | MustNotBeNull | UnsupportedType

datatype filter_problem =
    NotRequested
  | RequiresValue string
  | AcceptsNoValues string
  | BadValue value_error
  | BetweenAcceptsNoValue
  | BetweenNeedsTwo
  | UnsupportedOp string

text \<open>
  The errors of the planner, one constructor per \<^verbatim>\<open>return ..., err\<close>; the last two stand for the Go
  panics of a nil dereference and of an index out of range.
\<close>

datatype plan_error =
    NoMetrics
  | ModelMismatch string string
  | UnknownMetric string "string list"
  | MetricFilterError nat string filter_problem
  | DimensionError string ref_error
  | NotADimension string
  | InvalidGrain string
  | GrainNeedsTimeDimension string
  | OrderByUnknown nat string
  | OrderByAmbiguous nat string
  | OrderByRepeated nat string
  | OrderByDirection nat string
  | FilterRef string ref_error
  | FilterNeedsValues string string
  | FilterBetweenNeedsTwo string
  | FilterOp string string
  | FilterLiteral string literal_error
  | BareLiteral literal_error
  | MetricFilterLiteral string literal_error
  | UnvalidatedOperator string
  | RenderRef ref_error
  | GovernanceError "literal_error gov_error"
  | RowFilterUnknownDataset string
  | RowFilterNotInTree string
  | Join join_error
  | RatioSideManyDatasets string string
  | RatioSideNoPrimaryKey string
  | RatioSide string bool plan_error
  | NilDereference
  | IndexPanic

section \<open>Resolution\<close>

definition resolveFieldRef :: "CompiledModel \<Rightarrow> string \<Rightarrow> (ref_error, FieldRef \<times> CompiledField) result" where
  "resolveFieldRef cm s =
     (case cut_dot s of
        None \<Rightarrow> Inl MustBeDatasetField
      | Some (ds, f) \<Rightarrow>
          (case cm_Datasets cm ds of
             None \<Rightarrow> Inl (UnknownDataset ds)
           | Some cd \<Rightarrow>
               (case cd_Fields cd f of
                  None \<Rightarrow> Inl (UnknownField f ds)
                | Some cf \<Rightarrow> Inr (\<lparr>fr_Dataset = ds, fr_Field = f\<rparr>, cf))))"

fun validateMetricFilterValue :: "go_value \<Rightarrow> (value_error, unit) result" where
  "validateMetricFilterValue (VString _) = Inr ()"
| "validateMetricFilterValue (VBool _) = Inr ()"
| "validateMetricFilterValue (VInt _) = Inr ()"
| "validateMetricFilterValue (VInt32 _) = Inr ()"
| "validateMetricFilterValue (VInt64 _) = Inr ()"
| "validateMetricFilterValue (VTime _) = Inr ()"
| "validateMetricFilterValue (VFloat32 w) = (if is_finite (float32 w) then Inr () else Inl MustBeFinite)"
| "validateMetricFilterValue (VFloat64 w) = (if is_finite (float64 w) then Inr () else Inl MustBeFinite)"
| "validateMetricFilterValue VNil = Inl MustNotBeNull"
| "validateMetricFilterValue (VArray _) = Inl UnsupportedType"
| "validateMetricFilterValue (VObject _) = Inl UnsupportedType"

definition scalar_ops :: "string list" where
  "scalar_ops = [''='', ''!='', ''<'', ''<='', ''>'', ''>='']"

definition check_metric_filter :: "MetricFilter \<Rightarrow> (filter_problem, unit) result" where
  "check_metric_filter f =
     (if mf_Op f \<in> set scalar_ops then
        (if \<not> hasValue f \<or> mf_Value f = VNil then Inl (RequiresValue (mf_Op f))
         else if hasValues f then Inl (AcceptsNoValues (mf_Op f))
         else emap_err BadValue (validateMetricFilterValue (mf_Value f)))
      else if mf_Op f = ''BETWEEN'' then
        (if hasValue f then Inl BetweenAcceptsNoValue
         else if length (slice (mf_Values f)) \<noteq> 2 then Inl BetweenNeedsTwo
         else emap_err BadValue (ebind (emap validateMetricFilterValue (slice (mf_Values f))) (\<lambda>_. Inr ())))
      else Inl (UnsupportedOp (mf_Op f)))"

definition resolve_metric_filter ::
  "(string \<rightharpoonup> CompiledMetric) \<Rightarrow> nat \<times> MetricFilter \<Rightarrow> (plan_error, metricFilterSpec) result" where
  "resolve_metric_filter requested ixf =
     (let (i, f) = ixf in
      case requested (mf_Metric f) of
        None \<Rightarrow> Inl (MetricFilterError i (mf_Metric f) NotRequested)
      | Some m \<Rightarrow>
          ebind (emap_err (MetricFilterError i (mf_Metric f)) (check_metric_filter f)) (\<lambda>_.
            Inr \<lparr>mfs_Filter = f, mfs_Metric = m\<rparr>))"

definition resolveMetricFilters ::
  "MetricFilter list \<Rightarrow> CompiledMetric list \<Rightarrow> (plan_error, metricFilterSpec list) result" where
  "resolveMetricFilters filters metrics =
     emap (resolve_metric_filter (map_by cmt_Name metrics)) (List.enumerate 0 filters)"

text \<open>\<^verbatim>\<open>positions[name]\<close>: the output ordinals, from one, at which a name is requested.\<close>

definition positions :: "Request \<Rightarrow> string \<Rightarrow> nat list" where
  "positions req name =
     map (\<lambda>(i, n). i + 1)
       (filter (\<lambda>(i, n). n = name) (List.enumerate 0 (req_Dimensions req @ req_Metrics req)))"

fun resolve_order :: "Request \<Rightarrow> nat \<Rightarrow> string list \<Rightarrow> OrderByClause list \<Rightarrow> (plan_error, orderSpec list) result" where
  "resolve_order req i seen [] = Inr []"
| "resolve_order req i seen (c # cs) =
     (case positions req (ob_Field c) of
        [] \<Rightarrow> Inl (OrderByUnknown i (ob_Field c))
      | p # ps \<Rightarrow>
          if ps \<noteq> [] then Inl (OrderByAmbiguous i (ob_Field c))
          else if ob_Field c \<in> set seen then Inl (OrderByRepeated i (ob_Field c))
          else if ob_Direction c = ''asc'' then
            ebind (resolve_order req (Suc i) (ob_Field c # seen) cs) (\<lambda>os.
              Inr (\<lparr>os_Ordinal = p, os_Direction = ''ASC''\<rparr> # os))
          else if ob_Direction c = ''desc'' then
            ebind (resolve_order req (Suc i) (ob_Field c # seen) cs) (\<lambda>os.
              Inr (\<lparr>os_Ordinal = p, os_Direction = ''DESC''\<rparr> # os))
          else Inl (OrderByDirection i (ob_Direction c)))"

definition resolveOrderBy :: "Request \<Rightarrow> (plan_error, orderSpec list) result" where
  "resolveOrderBy req = resolve_order req 0 [] (req_OrderBy req)"

definition validGrains :: "string list" where
  "validGrains = [''day'', ''week'', ''month'', ''quarter'', ''year'']"

text \<open>The loop that marks the first time dimension; None where there is none.\<close>

fun apply_grain :: "dimSpec list \<Rightarrow> dimSpec list option" where
  "apply_grain [] = None"
| "apply_grain (d # ds) =
     (if cf_IsTime (ds_Field d) then Some (d\<lparr>ds_Grained := True\<rparr> # ds)
      else map_option (\<lambda>r. d # r) (apply_grain ds))"

definition resolve_dimension :: "CompiledModel \<Rightarrow> string \<Rightarrow> (plan_error, dimSpec) result" where
  "resolve_dimension cm name =
     ebind (emap_err (DimensionError name) (resolveFieldRef cm name)) (\<lambda>(ref, cf).
       if \<not> cf_IsDimension cf then Inl (NotADimension name)
       else Inr \<lparr>ds_Ref = ref, ds_Field = cf, ds_Grained = False\<rparr>)"

definition resolve_grain :: "Request \<Rightarrow> dimSpec list \<Rightarrow> (plan_error, dimSpec list) result" where
  "resolve_grain req dims =
     (if req_TimeGrain req = [] then Inr dims
      else if req_TimeGrain req \<notin> set validGrains then Inl (InvalidGrain (req_TimeGrain req))
      else case apply_grain dims of
        None \<Rightarrow> Inl (GrainNeedsTimeDimension (req_TimeGrain req))
      | Some ds \<Rightarrow> Inr ds)"

section \<open>The end of the statement\<close>

definition ordinals :: "nat \<Rightarrow> string" where
  "ordinals n = join '', '' (map (\<lambda>i. nat_str (i + 1)) [0..<n])"

definition finishQuery :: "string \<Rightarrow> nat \<Rightarrow> orderSpec list \<Rightarrow> int \<Rightarrow> string" where
  "finishQuery sql ndims order limit =
     sql
     @ (if order \<noteq> [] then
          NL @ ''ORDER BY '' @ join '', '' (map (\<lambda>s. nat_str (os_Ordinal s) @ '' '' @ os_Direction s) order)
        else if 0 < ndims then NL @ ''ORDER BY '' @ ordinals ndims
        else [])
     @ (if 0 < limit then NL @ ''LIMIT '' @ int_str limit else [])"

section \<open>The request hash\<close>

text \<open>\<^verbatim>\<open>omitempty\<close>: a member is left out when its value is empty.\<close>

definition member_if :: "bool \<Rightarrow> string \<Rightarrow> string option \<Rightarrow> (string \<times> string) list option" where
  "member_if present k v = (if present then map_option (\<lambda>t. [(k, t)]) v else Some [])"

definition json_struct :: "(string \<times> string) list option list \<Rightarrow> string option" where
  "json_struct ms = map_option (\<lambda>kvs. json_members (concat kvs)) (option_list ms)"

definition json_strings :: "string list \<Rightarrow> string option" where
  "json_strings xs = Some (json_list (map json_string xs))"

definition json_array :: "('a \<Rightarrow> string option) \<Rightarrow> 'a list \<Rightarrow> string option" where
  "json_array f xs = map_option json_list (option_list (map f xs))"

definition filter_json :: "Filter \<Rightarrow> string option" where
  "filter_json f = json_struct
     [member_if True ''field'' (Some (json_string (flt_Field f))),
      member_if True ''op'' (Some (json_string (flt_Op f))),
      member_if (flt_Value f \<noteq> VNil) ''value'' (json_value (flt_Value f)),
      member_if (flt_Values f \<noteq> []) ''values'' (json_array json_value (flt_Values f))]"

text \<open>\<^verbatim>\<open>MetricFilter.MarshalJSON\<close>: a map, so its keys are in order; a nil slice is null.\<close>

definition metric_filter_json :: "MetricFilter \<Rightarrow> string option" where
  "metric_filter_json f = json_struct
     [member_if True ''metric'' (Some (json_string (mf_Metric f))),
      member_if True ''op'' (Some (json_string (mf_Op f))),
      member_if (hasValue f) ''value'' (json_value (mf_Value f)),
      member_if (hasValues f) ''values''
        (case mf_Values f of None \<Rightarrow> Some ''null'' | Some vs \<Rightarrow> json_array json_value vs)]"

definition order_json :: "OrderByClause \<Rightarrow> string option" where
  "order_json c = json_struct
     [member_if True ''field'' (Some (json_string (ob_Field c))),
      member_if True ''direction'' (Some (json_string (ob_Direction c)))]"

definition request_json :: "Request \<Rightarrow> string \<Rightarrow> string option" where
  "request_json r identity = json_struct
     [member_if True ''model'' (Some (json_string (req_Model r))),
      member_if True ''metrics'' (json_strings (req_Metrics r)),
      member_if (req_Dimensions r \<noteq> []) ''dimensions'' (json_strings (req_Dimensions r)),
      member_if (req_Filters r \<noteq> []) ''filters'' (json_array filter_json (req_Filters r)),
      member_if (req_MetricFilters r \<noteq> []) ''metricFilters'' (json_array metric_filter_json (req_MetricFilters r)),
      member_if (req_TimeGrain r \<noteq> []) ''timeGrain'' (Some (json_string (req_TimeGrain r))),
      member_if (req_OrderBy r \<noteq> []) ''orderBy'' (json_array order_json (req_OrderBy r)),
      member_if (req_Limit r \<noteq> 0) ''limit'' (Some (int_str (req_Limit r))),
      member_if True ''identity'' (Some (json_string identity))]"

definition RequestHashLen :: nat where
  "RequestHashLen = 32"

text \<open>A marshalling error is dropped and the hash is that of no bytes.\<close>

definition RequestHash :: "Request \<Rightarrow> string \<Rightarrow> string" where
  "RequestHash req identityKey =
     take RequestHashLen (sha256_hex (case request_json req identityKey of None \<Rightarrow> [] | Some b \<Rightarrow> b))"

section \<open>Lemmas on resolution\<close>

lemma resolveFieldRef_Inr:
  "resolveFieldRef cm s = Inr (ref, cf) \<longleftrightarrow>
     cut_dot s = Some (fr_Dataset ref, fr_Field ref)
     \<and> (\<exists>cd. cm_Datasets cm (fr_Dataset ref) = Some cd \<and> cd_Fields cd (fr_Field ref) = Some cf)"
  by (cases ref) (auto simp: resolveFieldRef_def split: option.splits prod.splits)

lemma resolveFieldRef_String: "resolveFieldRef cm s = Inr (ref, cf) \<Longrightarrow> FieldRef_String ref = s"
  by (auto simp: resolveFieldRef_Inr FieldRef_String_def dest!: cut_dot_Some)

lemma resolve_dimension_Inr:
  "resolve_dimension cm name = Inr d \<longleftrightarrow>
     resolveFieldRef cm name = Inr (ds_Ref d, ds_Field d) \<and> cf_IsDimension (ds_Field d) \<and> \<not> ds_Grained d"
  by (cases d) (auto simp: resolve_dimension_def result_simps)

lemma apply_grain_refs: "apply_grain ds = Some ds' \<Longrightarrow> map ds_Ref ds' = map ds_Ref ds \<and> map ds_Field ds' = map ds_Field ds"
  by (induction ds arbitrary: ds') (auto split: if_splits)

lemma resolve_grain_refs:
  "resolve_grain req ds = Inr ds' \<Longrightarrow> map ds_Ref ds' = map ds_Ref ds \<and> map ds_Field ds' = map ds_Field ds"
  by (auto simp: resolve_grain_def dest: apply_grain_refs split: if_splits option.splits)

text \<open>
  The time grain truncates exactly one dimension, the first that is a time dimension.
\<close>

theorem grain_applies_once:
  "resolve_grain req ds = Inr ds' \<Longrightarrow> req_TimeGrain req \<noteq> [] \<Longrightarrow>
   (\<exists>i<length ds. cf_IsTime (ds_Field (ds ! i)) \<and> (\<forall>j<i. \<not> cf_IsTime (ds_Field (ds ! j)))
      \<and> ds' = ds[i := (ds ! i)\<lparr>ds_Grained := True\<rparr>])"
proof -
  assume r: "resolve_grain req ds = Inr ds'" "req_TimeGrain req \<noteq> []"
  have "apply_grain ds = Some ds' \<Longrightarrow> \<exists>i<length ds. cf_IsTime (ds_Field (ds ! i))
      \<and> (\<forall>j<i. \<not> cf_IsTime (ds_Field (ds ! j))) \<and> ds' = ds[i := (ds ! i)\<lparr>ds_Grained := True\<rparr>]"
  proof (induction ds arbitrary: ds')
    case (Cons d ds)
    show ?case
    proof (cases "cf_IsTime (ds_Field d)")
      case True
      with Cons show ?thesis by (intro exI[of _ 0]) auto
    next
      case False
      with Cons obtain ds1 where ds1: "apply_grain ds = Some ds1" "ds' = d # ds1" by auto
      from Cons.IH[OF ds1(1)] obtain i where i: "i < length ds" "cf_IsTime (ds_Field (ds ! i))"
        "\<forall>j<i. \<not> cf_IsTime (ds_Field (ds ! j))" "ds1 = ds[i := (ds ! i)\<lparr>ds_Grained := True\<rparr>]" by blast
      with False ds1(2) show ?thesis
        by (intro exI[of _ "Suc i"]) (auto simp: less_Suc_eq_0_disj)
    qed
  qed simp
  with r show ?thesis by (auto simp: resolve_grain_def split: if_splits option.splits)
qed

definition sample_dim :: "string \<Rightarrow> bool \<Rightarrow> dimSpec" where
  "sample_dim n t =
     \<lparr>ds_Ref = \<lparr>fr_Dataset = ''d'', fr_Field = n\<rparr>,
      ds_Field = \<lparr>cf_Name = n, cf_Expr = n, cf_IsDimension = True, cf_IsTime = t, cf_Type = [],
        cf_Description = [], cf_AIContext = empty_AIContext\<rparr>, ds_Grained = False\<rparr>"

definition empty_Request :: Request where
  "empty_Request = \<lparr>req_Model = [], req_Metrics = [], req_Dimensions = [], req_Filters = [],
     req_MetricFilters = [], req_TimeGrain = [], req_OrderBy = [], req_Limit = 0\<rparr>"

theorem grain_applies_once_witness:
  "resolve_grain (empty_Request\<lparr>req_TimeGrain := ''month''\<rparr>) [sample_dim ''a'' False, sample_dim ''b'' True, sample_dim ''c'' True]
     = Inr [sample_dim ''a'' False, (sample_dim ''b'' True)\<lparr>ds_Grained := True\<rparr>, sample_dim ''c'' True]
   \<and> (\<exists>i<3. cf_IsTime (ds_Field ([sample_dim ''a'' False, sample_dim ''b'' True, sample_dim ''c'' True] ! i)))"
proof -
  let ?ds = "[sample_dim ''a'' False, sample_dim ''b'' True, sample_dim ''c'' True]"
  have r: "resolve_grain (empty_Request\<lparr>req_TimeGrain := ''month''\<rparr>) ?ds
     = Inr [sample_dim ''a'' False, (sample_dim ''b'' True)\<lparr>ds_Grained := True\<rparr>, sample_dim ''c'' True]"
    by (simp add: resolve_grain_def validGrains_def sample_dim_def empty_Request_def)
  have "\<exists>i<length ?ds. cf_IsTime (ds_Field (?ds ! i))"
    using grain_applies_once[OF r] by (auto simp: sample_dim_def empty_Request_def)
  then show ?thesis using r by (simp add: numeral_3_eq_3)
qed

section \<open>Orderings and metric filters\<close>

lemma positions_iff:
  "p \<in> set (positions req name) \<longleftrightarrow>
     1 \<le> p \<and> p \<le> length (req_Dimensions req @ req_Metrics req) \<and> (req_Dimensions req @ req_Metrics req) ! (p - 1) = name"
  by (cases p) (auto simp: positions_def image_iff in_set_enumerate_eq Bex_def)

definition order_entry_ok :: "Request \<Rightarrow> OrderByClause \<Rightarrow> orderSpec \<Rightarrow> bool" where
  "order_entry_ok req c s \<longleftrightarrow>
     1 \<le> os_Ordinal s \<and> os_Ordinal s \<le> length (req_Dimensions req @ req_Metrics req)
     \<and> (\<forall>i<length (req_Dimensions req @ req_Metrics req).
          (req_Dimensions req @ req_Metrics req) ! i = ob_Field c \<longleftrightarrow> i + 1 = os_Ordinal s)
     \<and> os_Direction s = (if ob_Direction c = ''asc'' then ''ASC'' else ''DESC'')
     \<and> ob_Direction c \<in> {''asc'', ''desc''}"

lemma positions_single:
  assumes "positions req name = [p]"
  shows "1 \<le> p \<and> p \<le> length (req_Dimensions req @ req_Metrics req)
    \<and> (\<forall>i<length (req_Dimensions req @ req_Metrics req).
         (req_Dimensions req @ req_Metrics req) ! i = name \<longleftrightarrow> i + 1 = p)"
proof -
  have *: "q = p \<longleftrightarrow> 1 \<le> q \<and> q \<le> length (req_Dimensions req @ req_Metrics req)
      \<and> (req_Dimensions req @ req_Metrics req) ! (q - 1) = name" for q
    using positions_iff[of q req name] by (simp add: assms)
  show ?thesis using *[of p] *[of "_ + 1"] by auto
qed

lemma resolve_order_ok:
  "resolve_order req i seen cs = Inr os \<Longrightarrow>
     list_all2 (order_entry_ok req) cs os \<and> distinct (map ob_Field cs) \<and> (\<forall>c\<in>set cs. ob_Field c \<notin> set seen)"
proof (induction req i seen cs arbitrary: os rule: resolve_order.induct)
  case (2 req i seen c cs)
  from 2(3) obtain p where p: "positions req (ob_Field c) = [p]" and s: "ob_Field c \<notin> set seen"
    by (auto split: list.splits if_splits)
  from 2(3) p s obtain d os' where
    d: "ob_Direction c \<in> {''asc'', ''desc''}" "d = (if ob_Direction c = ''asc'' then ''ASC'' else ''DESC'')"
      "resolve_order req (Suc i) (ob_Field c # seen) cs = Inr os'"
      "os = \<lparr>os_Ordinal = p, os_Direction = d\<rparr> # os'"
    by (auto simp: result_simps split: if_splits)
  have "list_all2 (order_entry_ok req) cs os' \<and> distinct (map ob_Field cs)
      \<and> (\<forall>c'\<in>set cs. ob_Field c' \<notin> set (ob_Field c # seen))"
    using 2(1,2)[OF p] d s by auto
  moreover have "order_entry_ok req c \<lparr>os_Ordinal = p, os_Direction = d\<rparr>"
    using positions_single[OF p] d(1,2) by (simp add: order_entry_ok_def)
  ultimately show ?case using d(4) s by auto
qed simp

text \<open>
  Every ORDER BY ordinal is the position of an output column that carries the requested name, no
  other output column carries it, no ordinal repeats, and the direction is \<open>ASC\<close> or \<open>DESC\<close>.
\<close>

theorem orderBy_ordinals:
  "resolveOrderBy req = Inr os \<Longrightarrow>
     list_all2 (order_entry_ok req) (req_OrderBy req) os \<and> distinct (map os_Ordinal os)"
proof -
  assume "resolveOrderBy req = Inr os"
  then have ok: "list_all2 (order_entry_ok req) (req_OrderBy req) os" and d: "distinct (map ob_Field (req_OrderBy req))"
    using resolve_order_ok by (auto simp: resolveOrderBy_def)
  have "os_Ordinal (os ! i) \<noteq> os_Ordinal (os ! j)" if ij: "i < length os" "j < length os" "i \<noteq> j" for i j
  proof
    assume eq: "os_Ordinal (os ! i) = os_Ordinal (os ! j)"
    have len: "length (req_OrderBy req) = length os" using ok by (simp add: list_all2_lengthD)
    have "order_entry_ok req (req_OrderBy req ! k) (os ! k)" if "k < length os" for k
      using ok that len by (simp add: list_all2_conv_all_nth)
    from this[OF ij(1)] this[OF ij(2)] eq
    have "ob_Field (req_OrderBy req ! i) = ob_Field (req_OrderBy req ! j)"
      unfolding order_entry_ok_def by (metis Suc_eq_plus1 Suc_le_D Suc_le_lessD One_nat_def)
    with d ij len show False by (simp add: distinct_conv_nth)
  qed
  then have "distinct (map os_Ordinal os)" by (simp add: distinct_conv_nth)
  with ok show ?thesis by blast
qed

theorem orderBy_ordinals_witness:
  "resolveOrderBy (empty_Request\<lparr>req_Dimensions := [''d.a''], req_Metrics := [''x'', ''y''],
      req_OrderBy := [\<lparr>ob_Field = ''y'', ob_Direction = ''desc''\<rparr>, \<lparr>ob_Field = ''d.a'', ob_Direction = ''asc''\<rparr>]\<rparr>)
     = Inr [\<lparr>os_Ordinal = 3, os_Direction = ''DESC''\<rparr>, \<lparr>os_Ordinal = 1, os_Direction = ''ASC''\<rparr>]
   \<and> distinct [3, 1 :: nat]"
  (is "?eq \<and> _")
proof -
  have eq: ?eq by code_simp
  show ?thesis using eq orderBy_ordinals[OF eq] by simp
qed

definition checked_filter :: "CompiledMetric list \<Rightarrow> MetricFilter \<Rightarrow> metricFilterSpec \<Rightarrow> bool" where
  "checked_filter metrics f s \<longleftrightarrow>
     mfs_Filter s = f \<and> mfs_Metric s \<in> set metrics \<and> cmt_Name (mfs_Metric s) = mf_Metric f
     \<and> (mf_Op f \<in> set scalar_ops \<and> mf_Values f = None \<and> validateMetricFilterValue (mf_Value f) = Inr ()
        \<or> mf_Op f = ''BETWEEN'' \<and> mf_Value f = VNil
          \<and> (\<exists>a b. mf_Values f = Some [a, b] \<and> validateMetricFilterValue a = Inr ()
               \<and> validateMetricFilterValue b = Inr ()))"

lemma check_metric_filter_Inr:
  "check_metric_filter f = Inr u \<Longrightarrow>
     mf_Op f \<in> set scalar_ops \<and> mf_Values f = None \<and> validateMetricFilterValue (mf_Value f) = Inr ()
     \<or> mf_Op f = ''BETWEEN'' \<and> mf_Value f = VNil
       \<and> (\<exists>a b. mf_Values f = Some [a, b] \<and> validateMetricFilterValue a = Inr () \<and> validateMetricFilterValue b = Inr ())"
proof -
  assume c: "check_metric_filter f = Inr u"
  show ?thesis
  proof (cases "mf_Op f \<in> set scalar_ops")
    case True
    with c show ?thesis by (auto simp: check_metric_filter_def hasValues_def result_simps split: if_splits)
  next
    case False
    with c have op: "mf_Op f = ''BETWEEN''" "mf_Value f = VNil" "length (slice (mf_Values f)) = 2"
      "\<exists>us. emap validateMetricFilterValue (slice (mf_Values f)) = Inr us"
      by (auto simp: check_metric_filter_def hasValue_def result_simps split: if_splits)
    then obtain a b where "slice (mf_Values f) = [a, b]" by (metis (no_types) Suc_1 length_0_conv length_Suc_conv numeral_2_eq_2)
    with op show ?thesis by (auto simp: slice_def result_simps split: option.splits)
  qed
qed

lemma filters_are_checked:
  "resolveMetricFilters filters metrics = Inr specs \<Longrightarrow> list_all2 (checked_filter metrics) filters specs"
proof -
  have step: "resolve_metric_filter (map_by cmt_Name metrics) (i, f) = Inr s \<Longrightarrow> checked_filter metrics f s" for i f s
    by (auto simp: resolve_metric_filter_def checked_filter_def result_simps
        dest!: check_metric_filter_Inr map_by_Some split: option.splits)
  assume "resolveMetricFilters filters metrics = Inr specs"
  then have "list_all2 (\<lambda>x y. resolve_metric_filter (map_by cmt_Name metrics) x = Inr y) (List.enumerate 0 filters) specs"
    by (simp add: resolveMetricFilters_def emap_Inr_iff)
  then have "length filters = length specs \<and>
      (\<forall>i<length filters. resolve_metric_filter (map_by cmt_Name metrics) (i, filters ! i) = Inr (specs ! i))"
    by (auto simp: list_all2_conv_all_nth nth_enumerate_eq)
  then show ?thesis using step by (auto simp: list_all2_conv_all_nth)
qed

text \<open>
  A metric filter reaches the builder only in one of its two shapes: a comparison with one finite
  scalar, or a BETWEEN of exactly two, always on a requested metric. So the builder never meets an
  operator it does not know and never indexes past the values.
\<close>

theorem metric_filters_checked:
  "resolveMetricFilters filters metrics = Inr specs \<Longrightarrow> list_all2 (checked_filter metrics) filters specs"
  by (rule filters_are_checked)

theorem metric_filters_checked_witness:
  "\<exists>m. cmt_Name m = ''x'' \<and> list_all2 (checked_filter [m])
     [\<lparr>mf_Metric = ''x'', mf_Op = ''BETWEEN'', mf_Value = VNil, mf_Values = Some [VInt 1, VInt 9],
       mf_valueSet = False, mf_valuesSet = True\<rparr>]
     [\<lparr>mfs_Filter = \<lparr>mf_Metric = ''x'', mf_Op = ''BETWEEN'', mf_Value = VNil, mf_Values = Some [VInt 1, VInt 9],
         mf_valueSet = False, mf_valuesSet = True\<rparr>, mfs_Metric = m\<rparr>]"
proof -
  define m where "m = \<lparr>cmt_Name = ''x'', cmt_Raw = [],
    cmt_Expr = \<lparr>me_Numerator = \<lparr>t_Func = ''SUM'', t_Distinct = False, t_Scalar = [], t_Refs = []\<rparr>, me_Denominator = None\<rparr>,
    cmt_Description = [], cmt_AIContext = empty_AIContext\<rparr>"
  have "resolveMetricFilters [\<lparr>mf_Metric = ''x'', mf_Op = ''BETWEEN'', mf_Value = VNil, mf_Values = Some [VInt 1, VInt 9],
       mf_valueSet = False, mf_valuesSet = True\<rparr>] [m]
     = Inr [\<lparr>mfs_Filter = \<lparr>mf_Metric = ''x'', mf_Op = ''BETWEEN'', mf_Value = VNil, mf_Values = Some [VInt 1, VInt 9],
         mf_valueSet = False, mf_valuesSet = True\<rparr>, mfs_Metric = m\<rparr>]"
    by (simp add: resolveMetricFilters_def resolve_metric_filter_def map_by_def m_def check_metric_filter_def
        scalar_ops_def hasValue_def slice_def)
  from metric_filters_checked[OF this] show ?thesis by (intro exI[of _ m]) (simp add: m_def)
qed

end
