(* ===== verification/PlanSql.thy ===== *)
theory PlanSql
  imports PlanRequest
begin

text \<open>
  \<^verbatim>\<open>internal/planner/plan_sql.go\<close>: the builder that renders one SQL statement. A strings.Builder is
  the text written so far; a method with an error result returns a \<open>plan_error\<close> or its value.
  A set of dataset names is a list. Each dereference of a map entry that Go does not check is
  a branch to \<open>NilDereference\<close>, each unchecked index one to \<open>IndexPanic\<close>.
\<close>

record builder =
  bld_cm :: CompiledModel
  bld_d :: dialect
  bld_req :: Request
  bld_dims :: "dimSpec list"
  bld_rowFilterGroups :: "RowFilter list list"

record selectItem =
  si_Expr :: string
  si_Alias :: string

type_synonym 'a plan = "(plan_error, 'a) result"

definition at :: "'a list \<Rightarrow> nat \<Rightarrow> 'a plan" where
  "at xs i = (if i < length xs then Inr (xs ! i) else Inl IndexPanic)"

definition deref :: "'a option \<Rightarrow> 'a plan" where
  "deref p = (case p of None \<Rightarrow> Inl NilDereference | Some x \<Rightarrow> Inr x)"

section \<open>References, terms and filters\<close>

definition alias_of :: "builder \<Rightarrow> string \<Rightarrow> string" where
  "alias_of b dataset = QuoteIdent (bld_d b) dataset"

definition renderFieldRef :: "builder \<Rightarrow> FieldRef \<Rightarrow> string plan" where
  "renderFieldRef b ref =
     (case cm_Datasets (bld_cm b) (fr_Dataset ref) of
        None \<Rightarrow> Inl (RenderRef (UnknownDataset (fr_Dataset ref)))
      | Some ds \<Rightarrow>
          (case cd_Fields ds (fr_Field ref) of
             None \<Rightarrow> Inl (RenderRef (UnknownField (fr_Field ref) (fr_Dataset ref)))
           | Some cf \<Rightarrow>
               let out = QualifyBareColumns (cf_Expr cf) (alias_of b (fr_Dataset ref)) (QuoteIdent (bld_d b))
               in Inr (if \<exists>c\<in>set out. c = CHR '' '' \<or> c = CHR ''('' then ''('' @ out @ '')'' else out)))"

definition renderDim :: "builder \<Rightarrow> dimSpec \<Rightarrow> string plan" where
  "renderDim b dm =
     ebind (renderFieldRef b (ds_Ref dm)) (\<lambda>s.
       Inr (if ds_Grained dm then DateTrunc (bld_d b) (req_TimeGrain (bld_req b)) s else s))"

text \<open>The closure passed to \<^verbatim>\<open>RewriteRefs\<close> captures \<^verbatim>\<open>rerr\<close>, the first error.\<close>

definition rewrite_ref :: "builder \<Rightarrow> FieldRef \<Rightarrow> plan_error option \<Rightarrow> string \<times> plan_error option" where
  "rewrite_ref b r rerr =
     (case renderFieldRef b r of
        Inl e \<Rightarrow> ([], if rerr = None then Some e else rerr)
      | Inr s \<Rightarrow> (s, rerr))"

definition rewrite_scalar :: "builder \<Rightarrow> string \<Rightarrow> string plan" where
  "rewrite_scalar b scalar =
     (case RewriteRefs (rewrite_ref b) scalar None of
        (s, None) \<Rightarrow> Inr s
      | (s, Some e) \<Rightarrow> Inl e)"

definition renderTerm :: "builder \<Rightarrow> AggTerm \<Rightarrow> string plan" where
  "renderTerm b t =
     ebind (rewrite_scalar b (t_Scalar t)) (\<lambda>scalar. Inr
       (if t_Distinct t then t_Func t @ ''(DISTINCT '' @ scalar @ '')''
        else t_Func t @ ''('' @ scalar @ '')''))"

definition renderInlineMetric :: "builder \<Rightarrow> CompiledMetric \<Rightarrow> string plan" where
  "renderInlineMetric b m =
     ebind (renderTerm b (me_Numerator (cmt_Expr m))) (\<lambda>num.
       case me_Denominator (cmt_Expr m) of
         None \<Rightarrow> Inr num
       | Some d \<Rightarrow> ebind (renderTerm b d) (\<lambda>den. Inr (num @ '' / NULLIF('' @ den @ '', 0)'')))"

definition renderMetricFilter :: "builder \<Rightarrow> metricFilterSpec \<Rightarrow> string \<Rightarrow> string plan" where
  "renderMetricFilter b spec lhs =
     (let filter = mfs_Filter spec;
          lit = (\<lambda>v. emap_err (MetricFilterLiteral (mf_Metric filter)) (Literal (bld_d b) v))
      in if mf_Op filter \<in> set scalar_ops then
           ebind (lit (mf_Value filter)) (\<lambda>v. Inr (''('' @ lhs @ '' '' @ mf_Op filter @ '' '' @ v @ '')''))
         else if mf_Op filter = ''BETWEEN'' then
           ebind (at (slice (mf_Values filter)) 0) (\<lambda>v0. ebind (lit v0) (\<lambda>low.
           ebind (at (slice (mf_Values filter)) 1) (\<lambda>v1. ebind (lit v1) (\<lambda>high.
             Inr (''('' @ lhs @ '' BETWEEN '' @ low @ '' AND '' @ high @ '')'')))))
         else Inl (UnvalidatedOperator (mf_Op filter)))"

definition renderFilter :: "builder \<Rightarrow> Filter \<Rightarrow> string plan" where
  "renderFilter b f =
     ebind (emap_err (FilterRef (flt_Field f)) (resolveFieldRef (bld_cm b) (flt_Field f))) (\<lambda>(ref, cf).
     ebind (renderFieldRef b ref) (\<lambda>lhs.
       let lit = (\<lambda>v. emap_err (FilterLiteral (flt_Field f)) (Literal (bld_d b) v))
       in if flt_Op f \<in> set (scalar_ops @ [''LIKE'']) then
            ebind (lit (flt_Value f)) (\<lambda>v. Inr (lhs @ '' '' @ flt_Op f @ '' '' @ v))
          else if flt_Op f \<in> {''IN'', ''NOT IN''} then
            (if flt_Values f = [] then Inl (FilterNeedsValues (flt_Field f) (flt_Op f))
             else ebind (emap lit (flt_Values f)) (\<lambda>parts.
               Inr (lhs @ '' '' @ flt_Op f @ '' ('' @ join '', '' parts @ '')'')))
          else if flt_Op f = ''BETWEEN'' then
            (case flt_Values f of
               [a, z] \<Rightarrow> ebind (emap_err BareLiteral (Literal (bld_d b) a)) (\<lambda>lo.
                 ebind (emap_err BareLiteral (Literal (bld_d b) z)) (\<lambda>hi.
                 Inr (lhs @ '' BETWEEN '' @ lo @ '' AND '' @ hi)))
             | _ \<Rightarrow> Inl (FilterBetweenNeedsTwo (flt_Field f)))
          else Inl (FilterOp (flt_Field f) (flt_Op f))))"

definition row_filter_sql :: "builder \<Rightarrow> string list \<Rightarrow> RowFilter \<Rightarrow> string plan" where
  "row_filter_sql b inTree rf =
     (if rf_Dataset rf \<notin> set inTree then Inl (RowFilterNotInTree (rf_Dataset rf))
      else Inr (''('' @ QualifyBareColumns (rf_Predicate rf) (alias_of b (rf_Dataset rf)) (QuoteIdent (bld_d b)) @ '')''))"

text \<open>One term per role: its filters conjoined, none for a role without filters.\<close>

definition role_term :: "builder \<Rightarrow> string list \<Rightarrow> RowFilter list \<Rightarrow> string list plan" where
  "role_term b inTree g =
     ebind (emap (row_filter_sql b inTree) g) (\<lambda>conj.
       Inr (if conj = [] then [] else [''('' @ join '' AND '' conj @ '')'']))"

definition whereClauses :: "builder \<Rightarrow> Filter list \<Rightarrow> string list \<Rightarrow> string list plan" where
  "whereClauses b filters inTree =
     ebind (emap (\<lambda>f. ebind (renderFilter b f) (\<lambda>s. Inr (''('' @ s @ '')''))) filters) (\<lambda>out.
     ebind (emap (role_term b inTree) (bld_rowFilterGroups b)) (\<lambda>terms.
       Inr (out @ (if concat terms = [] then [] else [''('' @ join '' OR '' (concat terms) @ '')'']))))"

section \<open>FROM and SELECT\<close>

definition join_condition :: "builder \<Rightarrow> CompiledRelationship \<Rightarrow> nat \<Rightarrow> string plan" where
  "join_condition b j i =
     ebind (at (cr_ToColumns j) i) (\<lambda>to_col. Inr
       (alias_of b (cr_From j) @ ''.'' @ QuoteIdent (bld_d b) (cr_FromColumns j ! i) @ '' = ''
        @ alias_of b (cr_To j) @ ''.'' @ QuoteIdent (bld_d b) to_col))"

definition qualified_table :: "builder \<Rightarrow> CompiledDataset \<Rightarrow> string" where
  "qualified_table b cd = QualifyTable (bld_d b) (cd_Catalog cd) (cd_Database cd) (cd_Table cd)"

definition join_sql :: "builder \<Rightarrow> CompiledRelationship \<Rightarrow> string plan" where
  "join_sql b j =
     ebind (emap (join_condition b j) [0..<length (cr_FromColumns j)]) (\<lambda>conds.
     ebind (deref (cm_Datasets (bld_cm b) (cr_To j))) (\<lambda>to_ds.
       Inr (NL @ cr_JoinType j @ '' JOIN '' @ qualified_table b to_ds @ '' AS '' @ alias_of b (cr_To j)
            @ '' ON '' @ join '' AND '' conds)))"

definition fromClause :: "builder \<Rightarrow> string \<Rightarrow> CompiledRelationship list \<Rightarrow> (string \<times> string list) plan" where
  "fromClause b root joins =
     ebind (deref (cm_Datasets (bld_cm b) root)) (\<lambda>root_ds.
     ebind (emap (join_sql b) joins) (\<lambda>js.
       Inr (''FROM '' @ qualified_table b root_ds @ '' AS '' @ alias_of b root @ concat js, root # map cr_To joins)))"

definition select_parts :: "dialect \<Rightarrow> selectItem list \<Rightarrow> string" where
  "select_parts d items =
     join ('','' @ NL @ ''       '') (map (\<lambda>it. si_Expr it @ '' AS '' @ QuoteIdent d (si_Alias it)) items)"

definition where_sql :: "string list \<Rightarrow> string" where
  "where_sql clauses = (if clauses = [] then [] else NL @ ''WHERE '' @ join (NL @ ''  AND '') clauses)"

definition renderSelect :: "dialect \<Rightarrow> selectItem list \<Rightarrow> string \<Rightarrow> string list \<Rightarrow> nat \<Rightarrow> string" where
  "renderSelect d items from_text clauses groupDims =
     ''SELECT '' @ select_parts d items @ NL @ from_text @ where_sql clauses
     @ (if 0 < groupDims \<and> groupDims < length items then NL @ ''GROUP BY '' @ ordinals groupDims else [])"

definition renderSelectDistinct :: "dialect \<Rightarrow> selectItem list \<Rightarrow> string \<Rightarrow> string list \<Rightarrow> string" where
  "renderSelectDistinct d items from_text clauses =
     ''SELECT DISTINCT '' @ select_parts d items @ NL @ from_text @ where_sql clauses"

definition indent :: "string \<Rightarrow> string" where
  "indent s = ''  '' @ replace_char (hd NL) (NL @ ''  '') s"

definition dcol :: "nat \<Rightarrow> string" where
  "dcol i = ''d'' @ nat_str i"

section \<open>The three query shapes\<close>

definition dim_items :: "builder \<Rightarrow> bool \<Rightarrow> selectItem list plan" where
  "dim_items b publicAliases =
     emap (\<lambda>(i, dm). ebind (renderDim b dm) (\<lambda>e. Inr
         \<lparr>si_Expr = e, si_Alias = (if publicAliases then FieldRef_String (ds_Ref dm) else dcol i)\<rparr>))
       (List.enumerate 0 (bld_dims b))"

definition flatQuery :: "builder \<Rightarrow> string list \<Rightarrow> CompiledMetric list \<Rightarrow> Filter list \<Rightarrow> metricFilterSpec list
    \<Rightarrow> bool \<Rightarrow> string plan" where
  "flatQuery b required metrics filters metricFilters publicAliases =
     ebind (dim_items b publicAliases) (\<lambda>ditems.
     ebind (emap (\<lambda>m. ebind (renderInlineMetric b m) (\<lambda>e. Inr
         \<lparr>si_Expr = e, si_Alias = (if publicAliases then cmt_Name m else ''m_'' @ cmt_Name m)\<rparr>)) metrics) (\<lambda>mitems.
     ebind (emap_err Join (joinTree (bld_cm b) required)) (\<lambda>(root, joins).
     ebind (fromClause b root joins) (\<lambda>(from_text, inTree).
     ebind (whereClauses b filters inTree) (\<lambda>clauses.
       let sql = renderSelect (bld_d b) (ditems @ mitems) from_text clauses (length (bld_dims b))
       in if metricFilters = [] then Inr sql
          else ebind (emap (\<lambda>spec. ebind (renderInlineMetric b (mfs_Metric spec)) (renderMetricFilter b spec)) metricFilters)
            (\<lambda>having. Inr (sql @ NL @ ''HAVING '' @ join (NL @ ''   AND '') having)))))))"

definition termDatasetsOf :: "AggTerm \<Rightarrow> string list" where
  "termDatasetsOf t = rev (remdups (rev (map fr_Dataset (t_Refs t))))"

text \<open>The requirement of one side of a split ratio: the datasets of the dimensions, the filters, the
  row filters and the term.\<close>

definition side_required :: "builder \<Rightarrow> AggTerm \<Rightarrow> Filter list \<Rightarrow> string list plan" where
  "side_required b t filters =
     ebind (emap (\<lambda>f. emap_err RenderRef (resolveFieldRef (bld_cm b) (flt_Field f))) filters) (\<lambda>refs. Inr
       (remdups (map (\<lambda>dm. fr_Dataset (ds_Ref dm)) (bld_dims b) @ map (\<lambda>(ref, cf). fr_Dataset ref) refs
         @ map rf_Dataset (concat (bld_rowFilterGroups b)) @ map fr_Dataset (t_Refs t))))"

definition single_pass_side :: "builder \<Rightarrow> AggTerm \<Rightarrow> string \<Rightarrow> string list \<Rightarrow> string plan" where
  "single_pass_side b t from_text clauses =
     ebind (dim_items b False) (\<lambda>items.
     ebind (renderTerm b t) (\<lambda>agg.
       Inr (renderSelect (bld_d b) (items @ [\<lparr>si_Expr = agg, si_Alias = ''val''\<rparr>]) from_text clauses
              (length (bld_dims b)))))"

definition dedup_side :: "builder \<Rightarrow> AggTerm \<Rightarrow> CompiledDataset \<Rightarrow> string \<Rightarrow> string list \<Rightarrow> string plan" where
  "dedup_side b t mds from_text clauses =
     (let d = bld_d b; q = QuoteIdent d;
          pks = map (\<lambda>(i, pk). \<lparr>si_Expr = alias_of b (cd_Name mds) @ ''.'' @ q pk, si_Alias = ''pk'' @ nat_str i\<rparr>)
                  (List.enumerate 0 (cd_PrimaryKey mds))
      in ebind (dim_items b False) (\<lambda>ditems.
         ebind (rewrite_scalar b (t_Scalar t)) (\<lambda>scalar.
           let innerSQL = renderSelectDistinct d (pks @ ditems @ [\<lparr>si_Expr = scalar, si_Alias = ''mval''\<rparr>]) from_text clauses;
               dedup = q ''t'';
               outer = map (\<lambda>i. \<lparr>si_Expr = dedup @ ''.'' @ q (dcol i), si_Alias = dcol i\<rparr>) [0..<length (bld_dims b)]
                 @ [\<lparr>si_Expr = t_Func t @ ''('' @ dedup @ ''.'' @ q ''mval'' @ '')'', si_Alias = ''val''\<rparr>]
           in Inr (renderSelect d outer (''FROM ('' @ NL @ indent innerSQL @ NL @ '') AS '' @ dedup) []
                     (length (bld_dims b))))))"

definition sideQuery :: "builder \<Rightarrow> AggTerm \<Rightarrow> Filter list \<Rightarrow> string plan" where
  "sideQuery b t filters =
     ebind (side_required b t filters) (\<lambda>required.
     ebind (emap_err Join (joinTree (bld_cm b) required)) (\<lambda>(root, joins).
     ebind (fromClause b root joins) (\<lambda>(from_text, inTree).
     ebind (whereClauses b filters inTree) (\<lambda>clauses.
       let ms = termDatasetsOf t
       in if t_Func t = ''COUNT'' \<and> t_Distinct t \<or> ms = [root] then single_pass_side b t from_text clauses
          else if length ms \<noteq> 1 then Inl (RatioSideManyDatasets (t_Func t) (t_Scalar t))
          else ebind (deref (cm_Datasets (bld_cm b) (ms ! 0))) (\<lambda>mds.
            if cd_PrimaryKey mds = [] then Inl (RatioSideNoPrimaryKey (cd_Name mds))
            else dedup_side b t mds from_text clauses)))))"

definition containsMetric :: "CompiledMetric list \<Rightarrow> string \<Rightarrow> bool" where
  "containsMetric ms name \<longleftrightarrow> (\<exists>m\<in>set ms. cmt_Name m = name)"

text \<open>The CTEs: the base query when some metric is inline, then two per split metric.\<close>

definition split_ctes :: "builder \<Rightarrow> Filter list \<Rightarrow> CompiledMetric \<Rightarrow> (string \<times> string) list plan" where
  "split_ctes b filters m =
     ebind (emap_err (RatioSide (cmt_Name m) True) (sideQuery b (me_Numerator (cmt_Expr m)) filters)) (\<lambda>num.
     ebind (deref (me_Denominator (cmt_Expr m))) (\<lambda>dterm.
     ebind (emap_err (RatioSide (cmt_Name m) False) (sideQuery b dterm filters)) (\<lambda>den.
       Inr [(''m_'' @ cmt_Name m @ ''_num'', num), (''m_'' @ cmt_Name m @ ''_den'', den)])))"

definition composite_ctes :: "builder \<Rightarrow> string list \<Rightarrow> CompiledMetric list \<Rightarrow> CompiledMetric list
    \<Rightarrow> Filter list \<Rightarrow> (string \<times> string) list plan" where
  "composite_ctes b baseRequired inline splits filters =
     ebind (if inline \<noteq> []
            then ebind (flatQuery b baseRequired inline filters [] False) (\<lambda>sql. Inr [(''base'', sql)])
            else Inr []) (\<lambda>base.
     ebind (emap (split_ctes b filters) splits) (\<lambda>sides. Inr (base @ concat sides)))"

definition ratio_of :: "dialect \<Rightarrow> string \<Rightarrow> string" where
  "ratio_of d name =
     QuoteIdent d (''m_'' @ name @ ''_num'') @ ''.'' @ QuoteIdent d ''val'' @ '' / NULLIF(''
     @ QuoteIdent d (''m_'' @ name @ ''_den'') @ ''.'' @ QuoteIdent d ''val'' @ '', 0)''"

definition base_column :: "dialect \<Rightarrow> string \<Rightarrow> string" where
  "base_column d name = QuoteIdent d ''base'' @ ''.'' @ QuoteIdent d (''m_'' @ name)"

definition composite_select :: "builder \<Rightarrow> CompiledMetric list \<Rightarrow> string \<Rightarrow> string list" where
  "composite_select b inline anchor =
     (let d = bld_d b; q = QuoteIdent d
      in map (\<lambda>(i, dm). q anchor @ ''.'' @ q (dcol i) @ '' AS '' @ q (FieldRef_String (ds_Ref dm)))
           (List.enumerate 0 (bld_dims b))
         @ map (\<lambda>name. (if inline \<noteq> [] \<and> containsMetric inline name then base_column d name else ratio_of d name)
                @ '' AS '' @ q name)
             (req_Metrics (bld_req b)))"

definition cte_join :: "builder \<Rightarrow> string \<Rightarrow> string \<Rightarrow> string" where
  "cte_join b anchor name =
     (let d = bld_d b; q = QuoteIdent d
      in if bld_dims b = [] then NL @ ''CROSS JOIN '' @ q name
         else NL @ ''INNER JOIN '' @ q name @ '' ON ''
           @ join '' AND '' (map (\<lambda>i. NullSafeEq d (q anchor @ ''.'' @ q (dcol i)) (q name @ ''.'' @ q (dcol i)))
               [0..<length (bld_dims b)]))"

definition composite_filter :: "builder \<Rightarrow> CompiledMetric list \<Rightarrow> metricFilterSpec \<Rightarrow> string plan" where
  "composite_filter b inline spec =
     (let d = bld_d b; name = cmt_Name (mfs_Metric spec)
      in renderMetricFilter b spec
           (if inline \<noteq> [] \<and> containsMetric inline name then base_column d name
            else ''('' @ ratio_of d name @ '')''))"

definition compositeQuery :: "builder \<Rightarrow> string list \<Rightarrow> CompiledMetric list \<Rightarrow> CompiledMetric \<Rightarrow> CompiledMetric list
    \<Rightarrow> Filter list \<Rightarrow> metricFilterSpec list \<Rightarrow> string plan" where
  "compositeQuery b baseRequired inline firstSplit restSplit filters metricFilters =
     ebind (composite_ctes b baseRequired inline (firstSplit # restSplit) filters) (\<lambda>ctes.
     ebind (at ctes 0) (\<lambda>(anchor, anchor_sql).
     ebind (emap (composite_filter b inline) metricFilters) (\<lambda>predicates.
       let q = QuoteIdent (bld_d b)
       in Inr (''WITH ''
            @ join ('','' @ NL) (map (\<lambda>(name, sql). q name @ '' AS ('' @ NL @ indent sql @ NL @ '')'') ctes)
            @ NL @ ''SELECT '' @ join ('','' @ NL @ ''       '') (composite_select b inline anchor)
            @ NL @ ''FROM '' @ q anchor
            @ concat (map (\<lambda>(name, sql). cte_join b anchor name) (tl ctes))
            @ (if predicates = [] then [] else NL @ ''WHERE '' @ join (NL @ ''  AND '') predicates)))))"

section \<open>Row filters are in every SELECT\<close>

definition filter_sql :: "builder \<Rightarrow> RowFilter \<Rightarrow> string" where
  "filter_sql b rf =
     ''('' @ QualifyBareColumns (rf_Predicate rf) (alias_of b (rf_Dataset rf)) (QuoteIdent (bld_d b)) @ '')''"

definition role_sql :: "builder \<Rightarrow> RowFilter list \<Rightarrow> string" where
  "role_sql b g = ''('' @ join '' AND '' (map (filter_sql b) g) @ '')''"

text \<open>The restriction as the policies mean it: filters of one role conjoined, roles disjoined.\<close>

definition row_predicate :: "builder \<Rightarrow> string" where
  "row_predicate b = ''('' @ join '' OR '' (map (role_sql b) (bld_rowFilterGroups b)) @ '')''"

lemma role_term_Inr: "role_term b tree g = Inr ts \<Longrightarrow> g \<noteq> [] \<Longrightarrow> ts = [role_sql b g]"
proof -
  assume r: "role_term b tree g = Inr ts" "g \<noteq> []"
  then obtain conj where c: "emap (row_filter_sql b tree) g = Inr conj"
    and ts: "ts = (if conj = [] then [] else [''('' @ join '' AND '' conj @ '')''])"
    by (auto simp: role_term_def result_simps)
  have "map id conj = map (filter_sql b) g"
    by (rule emap_map_keys[OF c]) (auto simp: row_filter_sql_def filter_sql_def split: if_splits)
  with r(2) ts show ?thesis by (auto simp: role_sql_def)
qed

lemma whereClauses_last:
  assumes "whereClauses b filters tree = Inr cl" "bld_rowFilterGroups b \<noteq> []" "[] \<notin> set (bld_rowFilterGroups b)"
  shows "row_predicate b \<in> set cl"
proof -
  from assms(1) obtain out ts where ts: "emap (role_term b tree) (bld_rowFilterGroups b) = Inr ts"
    and cl: "cl = out @ (if concat ts = [] then [] else [''('' @ join '' OR '' (concat ts) @ '')''])"
    by (auto simp: whereClauses_def result_simps)
  have all: "list_all2 (\<lambda>g t. role_term b tree g = Inr t) (bld_rowFilterGroups b) ts"
    using ts by (simp add: emap_Inr_iff)
  have "ts = map (\<lambda>g. [role_sql b g]) (bld_rowFilterGroups b)"
  proof (rule nth_equalityI)
    fix i assume "i < length ts"
    with all assms(3) show "ts ! i = map (\<lambda>g. [role_sql b g]) (bld_rowFilterGroups b) ! i"
      by (auto simp: list_all2_conv_all_nth in_set_conv_nth intro!: role_term_Inr)
  qed (use all in \<open>simp add: list_all2_lengthD\<close>)
  then have "concat ts = map (role_sql b) (bld_rowFilterGroups b)" by (simp add: concat_map_singleton)
  with cl assms(2) show ?thesis by (simp add: row_predicate_def)
qed

lemma sublist_around: "sublist x y \<Longrightarrow> sublist x (a @ y @ b)"
  by (metis append.assoc sublist_def)

lemma sublist_join: "x \<in> set xs \<Longrightarrow> sublist x (join sep xs)"
proof (induction sep xs rule: join.induct)
  case (3 sep x1 y ys)
  show ?case
  proof (cases "x = x1")
    case False
    with 3 have "sublist x (join sep (y # ys))" by auto
    from sublist_around [OF this, of "x1 @ sep" "[]"] show ?thesis by simp
  qed simp
qed auto

lemma sublist_where_sql: "x \<in> set cl \<Longrightarrow> sublist x (where_sql cl)"
  using sublist_around [OF sublist_join, of x cl "NL @ ''WHERE ''" "NL @ ''  AND ''" "[]"]
  by (auto simp: where_sql_def)

lemma sublist_select:
  assumes "x \<in> set cl"
  shows "sublist x (renderSelect d items f cl n)" "sublist x (renderSelectDistinct d items f cl)"
  using sublist_around [OF sublist_where_sql [OF assms], of "''SELECT DISTINCT '' @ select_parts d items @ NL @ f" "[]"]
    sublist_around [OF sublist_where_sql [OF assms], of "''SELECT '' @ select_parts d items @ NL @ f"
        "if 0 < n \<and> n < length items then NL @ ''GROUP BY '' @ ordinals n else []"]
  by (simp_all only: renderSelectDistinct_def renderSelect_def append_assoc append_Nil2)

lemma replace_char_append: "replace_char c r (a @ b) = replace_char c r a @ replace_char c r b"
  by (simp add: replace_char_def)

lemma replace_char_id: "c \<notin> set s \<Longrightarrow> replace_char c r s = s"
  by (induction s) (auto simp: replace_char_def)

lemma sublist_indent:
  assumes "sublist x s" "hd NL \<notin> set x"
  shows "sublist x (indent s)"
proof -
  obtain a c where s: "s = a @ x @ c" using assms(1) by (auto simp: sublist_def)
  have "indent s = (''  '' @ replace_char (hd NL) (NL @ ''  '') a) @ x @ replace_char (hd NL) (NL @ ''  '') c"
    using assms(2) by (simp add: s indent_def replace_char_append replace_char_id [of _ x])
  then show ?thesis by (auto simp only: sublist_def)
qed

end
