(* ===== verification/Plan.thy ===== *)
theory Plan
  imports PlanSql
begin

text \<open>
  \<^verbatim>\<open>planner.Build\<close> of \<^verbatim>\<open>internal/planner/plan.go\<close>: resolve the request, pass the governance gate,
  expand the row filters, partition the metrics into one pass and split ratios, render. The
  theorems show what a returned plan guarantees and that no input reaches a Go panic or one of
  the branches the source labels internal.
\<close>

record QueryPlan =
  p_SQL :: string
  p_Model :: string
  p_ModelVersion :: string
  p_RequestHash :: string
  p_Role :: string
  p_AuthorizationFingerprint :: string
  p_Columns :: "string list"

definition resolve_metrics :: "CompiledModel \<Rightarrow> Request \<Rightarrow> CompiledMetric list plan" where
  "resolve_metrics cm req =
     emap (\<lambda>name. case cm_Metrics cm name of
              None \<Rightarrow> Inl (UnknownMetric name (cm_MetricOrder cm))
            | Some m \<Rightarrow> Inr m) (req_Metrics req)"

definition resolve_dims :: "CompiledModel \<Rightarrow> Request \<Rightarrow> dimSpec list plan" where
  "resolve_dims cm req = ebind (emap (resolve_dimension cm) (req_Dimensions req)) (resolve_grain req)"

definition resolve_filters :: "CompiledModel \<Rightarrow> Request \<Rightarrow> FieldRef list plan" where
  "resolve_filters cm req =
     emap (\<lambda>f. ebind (emap_err (FilterRef (flt_Field f)) (resolveFieldRef cm (flt_Field f))) (\<lambda>(ref, cf). Inr ref))
       (req_Filters req)"

definition metric_refs :: "CompiledMetric \<Rightarrow> FieldRef list" where
  "metric_refs m =
     t_Refs (me_Numerator (cmt_Expr m))
     @ (case me_Denominator (cmt_Expr m) of None \<Rightarrow> [] | Some d \<Rightarrow> t_Refs d)"

definition expand_filter :: "CompiledModel \<Rightarrow> dialect \<Rightarrow> (string \<times> string) list \<Rightarrow> RowFilter \<Rightarrow> RowFilter plan" where
  "expand_filter cm d claims rf =
     (if cm_Datasets cm (rf_Dataset rf) = None then Inl (RowFilterUnknownDataset (rf_Dataset rf))
      else ebind (emap_err GovernanceError (ExpandClaims (rf_Predicate rf) claims (Literal d))) (\<lambda>pred.
        Inr \<lparr>rf_Dataset = rf_Dataset rf, rf_Predicate = pred\<rparr>))"

definition termSafe :: "AggTerm \<Rightarrow> string \<Rightarrow> bool" where
  "termSafe t root \<longleftrightarrow> t_Func t = ''COUNT'' \<and> t_Distinct t \<or> (\<forall>r\<in>set (t_Refs t). fr_Dataset r = root)"

definition cloneSet :: "string list \<Rightarrow> string list" where
  "cloneSet m = m"

text \<open>The partition loop: \<open>baseRequired\<close>, \<open>inline\<close> and \<open>split\<close>.\<close>

fun partition_metrics :: "CompiledModel \<Rightarrow> CompiledMetric list \<Rightarrow> string list \<times> CompiledMetric list \<times> CompiledMetric list
    \<Rightarrow> string list \<times> CompiledMetric list \<times> CompiledMetric list" where
  "partition_metrics cm [] st = st"
| "partition_metrics cm (m # ms) (base, inline, split) =
     (case me_Denominator (cmt_Expr m) of
        None \<Rightarrow>
          partition_metrics cm ms
            (base @ map fr_Dataset (t_Refs (me_Numerator (cmt_Expr m))), inline @ [m], split)
      | Some den \<Rightarrow>
          (let tentative = cloneSet base @ Datasets (cmt_Expr m)
           in case joinTree cm tentative of
                Inr (root, joins) \<Rightarrow>
                  if termSafe (me_Numerator (cmt_Expr m)) root \<and> termSafe den root
                  then partition_metrics cm ms (tentative, inline @ [m], split)
                  else partition_metrics cm ms (base, inline, split @ [m])
              | Inl e \<Rightarrow> partition_metrics cm ms (base, inline, split @ [m])))"

definition plan_comment :: "CompiledModel \<Rightarrow> string \<Rightarrow> string" where
  "plan_comment cm hash =
     ''/* semantic-layer model='' @ cm_Name cm @ '' version='' @ cm_Version cm @ '' request='' @ hash @ '' */''"

text \<open>The stages of \<^verbatim>\<open>Build\<close>. First everything a request names is resolved.\<close>

record Resolved =
  rs_metrics :: "CompiledMetric list"
  rs_metricFilters :: "metricFilterSpec list"
  rs_dims :: "dimSpec list"
  rs_order :: "orderSpec list"
  rs_filterRefs :: "FieldRef list"

definition resolve_request :: "CompiledModel \<Rightarrow> Request \<Rightarrow> Resolved plan" where
  "resolve_request cm req =
     (if req_Metrics req = [] then Inl NoMetrics
      else if req_Model req \<noteq> [] \<and> req_Model req \<noteq> cm_Name cm then Inl (ModelMismatch (req_Model req) (cm_Name cm))
      else
        ebind (resolve_metrics cm req) (\<lambda>metrics.
        ebind (resolveMetricFilters (req_MetricFilters req) metrics) (\<lambda>metricFilters.
        ebind (resolve_dims cm req) (\<lambda>dims.
        ebind (resolveOrderBy req) (\<lambda>order.
        ebind (resolve_filters cm req) (\<lambda>refs. Inr
          \<lparr>rs_metrics = metrics, rs_metricFilters = metricFilters, rs_dims = dims, rs_order = order,
           rs_filterRefs = refs\<rparr>))))))"

text \<open>The governance gate over every reference, before any SQL exists.\<close>

definition all_refs :: "Resolved \<Rightarrow> FieldRef list" where
  "all_refs rs = map ds_Ref (rs_dims rs) @ rs_filterRefs rs @ concat (map metric_refs (rs_metrics rs))"

definition govern :: "glob_compiler \<Rightarrow> CompiledModel \<Rightarrow> dialect \<Rightarrow> Request \<Rightarrow> Identity \<Rightarrow> Resolved
    \<Rightarrow> (Decision \<times> RowFilter list list) plan" where
  "govern compile cm d req idn rs =
     ebind (emap_err GovernanceError (Authorize compile (cm_Governance cm) idn (req_Metrics req) (all_refs rs))) (\<lambda>dec.
     ebind (emap (emap (expand_filter cm d (id_Claims idn))) (dec_RowFilterGroups dec)) (\<lambda>groups.
       Inr (dec, groups)))"

definition base_required :: "Resolved \<Rightarrow> RowFilter list list \<Rightarrow> string list" where
  "base_required rs groups =
     map (\<lambda>dm. fr_Dataset (ds_Ref dm)) (rs_dims rs) @ map fr_Dataset (rs_filterRefs rs)
     @ map rf_Dataset (concat groups)"

definition plan_builder :: "CompiledModel \<Rightarrow> dialect \<Rightarrow> Request \<Rightarrow> Resolved \<Rightarrow> RowFilter list list \<Rightarrow> builder" where
  "plan_builder cm d req rs groups =
     \<lparr>bld_cm = cm, bld_d = d, bld_req = req, bld_dims = rs_dims rs, bld_rowFilterGroups = groups\<rparr>"

definition plan_query :: "CompiledModel \<Rightarrow> dialect \<Rightarrow> Request \<Rightarrow> Resolved \<Rightarrow> RowFilter list list \<Rightarrow> string plan" where
  "plan_query cm d req rs groups =
     (let b = plan_builder cm d req rs groups;
          (base, inline, split) = partition_metrics cm (rs_metrics rs) (base_required rs groups, [], [])
      in case split of
           [] \<Rightarrow> flatQuery b base inline (req_Filters req) (rs_metricFilters rs) True
         | s # ss \<Rightarrow> compositeQuery b base inline s ss (req_Filters req) (rs_metricFilters rs))"

definition Build ::
  "glob_compiler \<Rightarrow> CompiledModel \<Rightarrow> dialect \<Rightarrow> Request \<Rightarrow> Identity \<Rightarrow> QueryPlan plan" where
  "Build compile cm d req idn =
     ebind (resolve_request cm req) (\<lambda>rs.
     ebind (govern compile cm d req idn rs) (\<lambda>(dec, groups).
       let hash = RequestHash req (IdentityKey compile (cm_Governance cm) idn)
       in ebind (plan_query cm d req rs groups) (\<lambda>sql. Inr
            \<lparr>p_SQL = plan_comment cm hash @ NL @ finishQuery sql (length (rs_dims rs)) (rs_order rs) (req_Limit req),
             p_Model = cm_Name cm, p_ModelVersion = cm_Version cm, p_RequestHash = hash,
             p_Role = dec_RoleKey dec, p_AuthorizationFingerprint = [],
             p_Columns = map (\<lambda>dm. FieldRef_String (ds_Ref dm)) (rs_dims rs) @ req_Metrics req\<rparr>)))"

section \<open>What a returned plan guarantees\<close>

text \<open>The field references of a request: its dimensions, its filters and every field in the
  expression of a requested metric.\<close>

definition request_refs :: "CompiledModel \<Rightarrow> Request \<Rightarrow> FieldRef set" where
  "request_refs cm req =
     {r. (\<exists>s\<in>set (req_Dimensions req) \<union> flt_Field ` set (req_Filters req). \<exists>cf. resolveFieldRef cm s = Inr (r, cf))
         \<or> (\<exists>n\<in>set (req_Metrics req). \<exists>m. cm_Metrics cm n = Some m \<and> r \<in> set (metric_refs m))}"

lemma resolve_metrics_Inr:
  "resolve_metrics cm req = Inr ms \<longleftrightarrow> list_all2 (\<lambda>n m. cm_Metrics cm n = Some m) (req_Metrics req) ms"
  by (auto simp: resolve_metrics_def emap_Inr_iff elim!: list_all2_mono split: option.splits)

lemma resolve_dims_Inr:
  assumes "resolve_dims cm req = Inr dims"
  shows "list_all2 (\<lambda>s d. resolveFieldRef cm s = Inr (ds_Ref d, ds_Field d) \<and> cf_IsDimension (ds_Field d))
    (req_Dimensions req) dims"
proof -
  from assms obtain ds where ds: "emap (resolve_dimension cm) (req_Dimensions req) = Inr ds"
    and g: "resolve_grain req ds = Inr dims" by (auto simp: resolve_dims_def result_simps)
  from ds have "list_all2 (\<lambda>s d. resolveFieldRef cm s = Inr (ds_Ref d, ds_Field d) \<and> cf_IsDimension (ds_Field d))
    (req_Dimensions req) ds"
    by (auto simp: emap_Inr_iff resolve_dimension_Inr elim!: list_all2_mono)
  with resolve_grain_refs[OF g] show ?thesis
    by (auto simp: list_all2_conv_all_nth) (metis length_map nth_map)+
qed

lemma resolve_filters_Inr:
  "resolve_filters cm req = Inr refs \<longleftrightarrow>
     list_all2 (\<lambda>f r. \<exists>cf. resolveFieldRef cm (flt_Field f) = Inr (r, cf)) (req_Filters req) refs"
  by (auto simp: resolve_filters_def emap_Inr_iff result_simps elim!: list_all2_mono)

text \<open>The steps of a successful \<open>Build\<close>, for the theorems below.\<close>

lemma resolve_request_Inr:
  assumes "resolve_request cm req = Inr rs"
  shows "req_Metrics req \<noteq> []" "resolve_metrics cm req = Inr (rs_metrics rs)"
    "resolveMetricFilters (req_MetricFilters req) (rs_metrics rs) = Inr (rs_metricFilters rs)"
    "resolve_dims cm req = Inr (rs_dims rs)" "resolveOrderBy req = Inr (rs_order rs)"
    "resolve_filters cm req = Inr (rs_filterRefs rs)"
  using assms by (auto simp: resolve_request_def result_simps split: if_splits)

lemma Build_steps:
  assumes "Build compile cm d req idn = Inr p"
  obtains rs dec groups sql where
    "resolve_request cm req = Inr rs" "govern compile cm d req idn rs = Inr (dec, groups)"
    "plan_query cm d req rs groups = Inr sql" "p_Role p = dec_RoleKey dec"
    "p_SQL p = plan_comment cm (p_RequestHash p) @ NL
       @ finishQuery sql (length (rs_dims rs)) (rs_order rs) (req_Limit req)"
    "p_Columns p = map (\<lambda>dm. FieldRef_String (ds_Ref dm)) (rs_dims rs) @ req_Metrics req"
  using assms by (auto simp: Build_def result_simps Let_def)

lemma list_all2_image:
  "list_all2 P xs ys \<Longrightarrow> (\<And>x y r. P x y \<Longrightarrow> r \<in> R x \<longleftrightarrow> r \<in> F y) \<Longrightarrow> \<Union> (F ` set ys) = \<Union> (R ` set xs)"
  by (induction rule: list_all2_induct) auto

lemma set_all_refs:
  assumes "resolve_request cm req = Inr rs"
  shows "set (all_refs rs) = request_refs cm req"
proof -
  note r = resolve_request_Inr[OF assms]
  have "(\<Union>d\<in>set (rs_dims rs). {ds_Ref d}) = (\<Union>s\<in>set (req_Dimensions req). {r. \<exists>cf. resolveFieldRef cm s = Inr (r, cf)})"
    by (rule list_all2_image[OF resolve_dims_Inr[OF r(4)]]) auto
  moreover have "(\<Union>r\<in>set (rs_filterRefs rs). {r})
      = (\<Union>f\<in>set (req_Filters req). {r. \<exists>cf. resolveFieldRef cm (flt_Field f) = Inr (r, cf)})"
    by (rule list_all2_image[OF r(6)[unfolded resolve_filters_Inr]]) auto
  moreover have "(\<Union>m\<in>set (rs_metrics rs). set (metric_refs m))
      = (\<Union>n\<in>set (req_Metrics req). {r. \<exists>m. cm_Metrics cm n = Some m \<and> r \<in> set (metric_refs m)})"
    by (rule list_all2_image[OF r(2)[unfolded resolve_metrics_Inr]]) auto
  moreover have "set (all_refs rs) = (\<Union>d\<in>set (rs_dims rs). {ds_Ref d}) \<union> (\<Union>r\<in>set (rs_filterRefs rs). {r})
      \<union> (\<Union>m\<in>set (rs_metrics rs). set (metric_refs m))"
    by (auto simp: all_refs_def)
  moreover have "request_refs cm req = (\<Union>s\<in>set (req_Dimensions req). {r. \<exists>cf. resolveFieldRef cm s = Inr (r, cf)})
      \<union> (\<Union>f\<in>set (req_Filters req). {r. \<exists>cf. resolveFieldRef cm (flt_Field f) = Inr (r, cf)})
      \<union> (\<Union>n\<in>set (req_Metrics req). {r. \<exists>m. cm_Metrics cm n = Some m \<and> r \<in> set (metric_refs m)})"
    unfolding request_refs_def by blast
  ultimately show ?thesis by (simp only:)
qed

lemma Build_authorization:
  "Build compile cm d req idn = Inr p \<Longrightarrow>
     \<exists>refs dec. set refs = request_refs cm req
       \<and> Authorize compile (cm_Governance cm) idn (req_Metrics req) refs
           = (Inr dec :: (literal_error gov_error, Decision) result)
       \<and> p_Role p = dec_RoleKey dec"
proof -
  assume "Build compile cm d req idn = Inr p"
  then obtain rs dec groups sql where rs: "resolve_request cm req = Inr rs"
    and g: "govern compile cm d req idn rs = Inr (dec, groups)" and p: "p_Role p = dec_RoleKey dec"
    by (rule Build_steps)
  from g have "Authorize compile (cm_Governance cm) idn (req_Metrics req) (all_refs rs)
      = (Inr dec :: (literal_error gov_error, Decision) result)"
    by (auto simp: govern_def result_simps)
  with set_all_refs[OF rs] p show ?thesis by blast
qed

text \<open>
  C1. No SQL without authorization: whenever \<open>Build\<close> returns a plan, the governance check succeeded
  for all requested metrics and for a list of references that holds every dimension, every
  filter field and every field of every requested metric, and the plan carries its role key.
\<close>

theorem Build_authorized:
  "Build compile cm d req idn = Inr p \<Longrightarrow>
     \<exists>refs dec. set refs = request_refs cm req
       \<and> Authorize compile (cm_Governance cm) idn (req_Metrics req) refs
           = (Inr dec :: (literal_error gov_error, Decision) result)
       \<and> p_Role p = dec_RoleKey dec"
  by (rule Build_authorization)

text \<open>
  The columns of a plan are the requested dimensions followed by the requested metrics, by the
  names the caller used.
\<close>

theorem Build_columns:
  "Build compile cm d req idn = Inr p \<Longrightarrow> p_Columns p = req_Dimensions req @ req_Metrics req"
proof -
  assume "Build compile cm d req idn = Inr p"
  then obtain rs where rs: "resolve_request cm req = Inr rs"
    and c: "p_Columns p = map (\<lambda>dm. FieldRef_String (ds_Ref dm)) (rs_dims rs) @ req_Metrics req"
    by (rule Build_steps)
  have "list_all2 (\<lambda>s d. s = FieldRef_String (ds_Ref d)) (req_Dimensions req) (rs_dims rs)"
    using resolve_dims_Inr[OF resolve_request_Inr(4)[OF rs]]
    by (auto dest: resolveFieldRef_String elim!: list_all2_mono)
  then have "map (\<lambda>dm. FieldRef_String (ds_Ref dm)) (rs_dims rs) = req_Dimensions req"
    by (auto simp: list_all2_conv_all_nth intro: nth_equalityI)
  with c show ?thesis by simp
qed

section \<open>Joins cover what is required\<close>

text \<open>
  The contract the builder has with the join planner: a successful plan for a non-empty requirement
  starts at a dataset of the model and joins along its relationships until every required
  dataset is in scope.
\<close>

locale join_planner =
  fixes plan_joins :: "string list \<Rightarrow> (join_error, string \<times> CompiledRelationship list) result"
    and known :: "string set"
    and rels :: "CompiledRelationship list"
  assumes root_known: "plan_joins required = Inr (root, js) \<Longrightarrow> root \<in> known"
    and joins_known: "plan_joins required = Inr (root, js) \<Longrightarrow> set js \<subseteq> set rels"
    and covers: "plan_joins required = Inr (root, js) \<Longrightarrow> set required \<subseteq> set (root # map cr_To js)"
    and no_climb_failure: "plan_joins required \<noteq> Inl ClimbFailed"
begin

lemma all_known:
  assumes "plan_joins required = Inr (root, js)" "\<And>r. r \<in> set rels \<Longrightarrow> cr_To r \<in> known"
  shows "set (root # map cr_To js) \<subseteq> known"
  using root_known[OF assms(1)] joins_known[OF assms(1)] assms(2) by auto

end

lemma joinTree_Inr:
  assumes "joinTree cm required = Inr (root, js)"
  shows "root \<in> set (cm_DatasetOrder cm)" "set js \<subseteq> set (cm_Relationships cm)"
    "set required \<subseteq> set (root # map cr_To js)" "well_scoped {root} js"
proof -
  have "required \<noteq> []" using assms by (auto simp: joinTree_def)
  from joinTree_connects[OF this, of cm] assms
  show "root \<in> set (cm_DatasetOrder cm)" "set js \<subseteq> set (cm_Relationships cm)"
    "set required \<subseteq> set (root # map cr_To js)" "well_scoped {root} js"
    by (auto simp: connects_def good_root_def)
qed

lemma joinTree_no_climb_failure: "joinTree cm required \<noteq> Inl ClimbFailed"
  using joinTree_connects[of required cm] by (cases "required = []") (auto simp: joinTree_def)

interpretation joins: join_planner "joinTree cm" "set (cm_DatasetOrder cm)" "cm_Relationships cm" for cm
  by unfold_locales (rule joinTree_Inr joinTree_no_climb_failure, assumption?)+

section \<open>No panic and no internal error\<close>

text \<open>The errors that would be a Go panic or one of the messages the source marks internal.\<close>

fun internal :: "plan_error \<Rightarrow> bool" where
  "internal NilDereference = True"
| "internal IndexPanic = True"
| "internal (RowFilterNotInTree _) = True"
| "internal (UnvalidatedOperator _) = True"
| "internal (Join e) = (e = ClimbFailed)"
| "internal (RatioSide _ _ e) = internal e"
| "internal _ = False"

definition safe :: "'a plan \<Rightarrow> bool" where
  "safe m \<longleftrightarrow> (\<forall>e. m = Inl e \<longrightarrow> \<not> internal e)"

named_theorems safe_intros \<open>a computation that reaches no internal error\<close>

lemma safe_basic [safe_intros]:
  "safe (Inr x)" "\<not> internal e \<Longrightarrow> safe (Inl e)"
  by (simp_all add: safe_def)

lemma safe_ebind [safe_intros]: "safe m \<Longrightarrow> (\<And>x. m = Inr x \<Longrightarrow> safe (f x)) \<Longrightarrow> safe (ebind m f)"
  by (cases m) (auto simp: safe_def)

lemma safe_if [safe_intros]: "(b \<Longrightarrow> safe m) \<Longrightarrow> (\<not> b \<Longrightarrow> safe n) \<Longrightarrow> safe (if b then m else n)"
  by simp

lemma safe_let [safe_intros]: "(\<And>x. x = a \<Longrightarrow> safe (f x)) \<Longrightarrow> safe (let x = a in f x)"
  by simp

lemma safe_option [safe_intros]:
  "(x = None \<Longrightarrow> safe m) \<Longrightarrow> (\<And>y. x = Some y \<Longrightarrow> safe (f y)) \<Longrightarrow>
   safe (case x of None \<Rightarrow> m | Some y \<Rightarrow> f y)"
  by (cases x) auto

lemma safe_list [safe_intros]:
  "(xs = [] \<Longrightarrow> safe m) \<Longrightarrow> (\<And>y ys. xs = y # ys \<Longrightarrow> safe (f y ys)) \<Longrightarrow>
   safe (case xs of [] \<Rightarrow> m | y # ys \<Rightarrow> f y ys)"
  by (cases xs) auto

lemma safe_prod [safe_intros]: "(\<And>x y. p = (x, y) \<Longrightarrow> safe (f x y)) \<Longrightarrow> safe (case p of (x, y) \<Rightarrow> f x y)"
  by (cases p) auto

lemma safe_emap [safe_intros]: "(\<And>x. x \<in> set xs \<Longrightarrow> safe (f x)) \<Longrightarrow> safe (emap f xs)"
  by (auto simp: safe_def dest!: emap_Inl_ex)

lemma safe_emap_err [safe_intros]: "(\<And>e. m = Inl e \<Longrightarrow> \<not> internal (w e)) \<Longrightarrow> safe (emap_err w m)"
  by (cases m) (auto simp: safe_def)

lemma safe_literal [safe_intros, simp]:
  "safe (emap_err (FilterLiteral f) m)" "safe (emap_err (MetricFilterLiteral f) m)" "safe (emap_err BareLiteral m)"
  by (cases m; simp add: safe_def)+

lemma safe_resolve [safe_intros, simp]:
  "safe (emap_err (FilterRef f) m)" "safe (emap_err RenderRef m)" "safe (emap_err (DimensionError f) m)"
  by (cases m; simp add: safe_def)+

lemma safe_governance [safe_intros, simp]: "safe (emap_err GovernanceError m)"
  by (cases m; simp add: safe_def)

text \<open>A model whose relationships join known datasets on as many columns on each side. Validated
  specs compile to such a model.\<close>

definition sound_model :: "CompiledModel \<Rightarrow> bool" where
  "sound_model cm \<longleftrightarrow> wf_model cm \<and>
     (\<forall>r\<in>set (cm_Relationships cm).
        cr_To r \<in> set (cm_DatasetOrder cm) \<and> length (cr_FromColumns r) = length (cr_ToColumns r))"

lemma renderFieldRef_safe [safe_intros]: "safe (renderFieldRef b r)"
  unfolding renderFieldRef_def by (intro safe_intros) simp_all

lemma renderDim_safe [safe_intros]: "safe (renderDim b dm)"
  unfolding renderDim_def by (intro safe_intros)

lemma rewrite_ref_safe:
  "\<forall>e. st = Some e \<longrightarrow> \<not> internal e \<Longrightarrow> \<forall>e. snd (rewrite_ref b r st) = Some e \<longrightarrow> \<not> internal e"
  using renderFieldRef_safe[of b r] by (auto simp: rewrite_ref_def safe_def split: sum.splits if_splits)

lemma RewriteRefs_state:
  "(\<And>r st. P st \<Longrightarrow> P (snd (f r st))) \<Longrightarrow> P st \<Longrightarrow> P (snd (RewriteRefs f s st))"
proof (induction f s st rule: RewriteRefs.induct)
  case (2 f c cs st)
  show ?case
  proof (cases "c = quote_ch \<or> \<not> isIdentStart c \<or> \<not> has_field (ident_rest (c # cs))")
    case True
    with 2 show ?thesis by (auto simp: RewriteRefs.simps(2) Let_def split: prod.splits)
  next
    case False
    obtain t st1 where f: "f \<lparr>fr_Dataset = ident_word (c # cs), fr_Field = ident_word (tl (ident_rest (c # cs)))\<rparr> st = (t, st1)"
      by fastforce
    with 2(5)[of st] 2(6) have "P st1" by (metis snd_conv)
    with 2(3)[OF _ _ refl refl _ f[symmetric] refl] False f 2(5)
    show ?thesis by (auto simp: RewriteRefs.simps(2) Let_def split: prod.splits)
  qed
qed simp

lemma rewrite_scalar_safe [safe_intros]: "safe (rewrite_scalar b scalar)"
proof -
  have "\<forall>e. snd (RewriteRefs (rewrite_ref b) scalar None) = Some e \<longrightarrow> \<not> internal e"
    by (rule RewriteRefs_state[where P = "\<lambda>st. \<forall>e. st = Some e \<longrightarrow> \<not> internal e"])
      (use rewrite_ref_safe in auto)
  then show ?thesis by (auto simp: rewrite_scalar_def safe_def split: prod.splits option.splits)
qed

lemma renderTerm_safe [safe_intros]: "safe (renderTerm b t)"
  unfolding renderTerm_def by (intro safe_intros)

lemma renderInlineMetric_safe [safe_intros]: "safe (renderInlineMetric b m)"
  unfolding renderInlineMetric_def by (intro safe_intros)

lemma renderFilter_safe [safe_intros]: "safe (renderFilter b f)"
  unfolding renderFilter_def Let_def by (intro safe_intros) simp_all

lemma renderMetricFilter_safe: "checked_filter ms f spec \<Longrightarrow> safe (renderMetricFilter b spec lhs)"
  unfolding renderMetricFilter_def Let_def
  by (intro safe_intros) (auto simp: checked_filter_def at_def slice_def safe_basic(1) scalar_ops_def)

lemma whereClauses_safe:
  assumes "\<And>rf. rf \<in> set (concat (bld_rowFilterGroups b)) \<Longrightarrow> rf_Dataset rf \<in> set inTree"
  shows "safe (whereClauses b filters inTree)"
  unfolding whereClauses_def role_term_def row_filter_sql_def
  by (intro safe_intros) (use assms in auto)

lemma sound_dataset: "sound_model cm \<Longrightarrow> n \<in> set (cm_DatasetOrder cm) \<Longrightarrow> \<exists>cd. cm_Datasets cm n = Some cd"
  by (metis sound_model_def wf_model_def domIff not_None_eq)

lemma sound_joins_known:
  "sound_model cm \<Longrightarrow> joinTree cm required = Inr (root, js) \<Longrightarrow>
     set (root # map cr_To js) \<subseteq> set (cm_DatasetOrder cm)"
  by (rule joins.all_known) (auto simp: sound_model_def)

lemma fromClause_Inr: "fromClause b root js = Inr (t, tree) \<Longrightarrow> tree = root # map cr_To js"
  by (auto simp: fromClause_def result_simps)

lemma fromClause_safe:
  assumes "sound_model (bld_cm b)" "joinTree (bld_cm b) required = Inr (root, js)"
  shows "safe (fromClause b root js)"
proof -
  have known: "n \<in> set (root # map cr_To js) \<Longrightarrow> \<exists>cd. cm_Datasets (bld_cm b) n = Some cd" for n
    using sound_joins_known[OF assms] sound_dataset[OF assms(1)] by blast
  have cols: "j \<in> set js \<Longrightarrow> length (cr_ToColumns j) = length (cr_FromColumns j)" for j
    using joinTree_Inr(2)[OF assms(2)] assms(1) by (force simp: sound_model_def)
  have "safe (join_sql b j)" if j: "j \<in> set js" for j
  proof -
    obtain cd where "cm_Datasets (bld_cm b) (cr_To j) = Some cd" using known[of "cr_To j"] j by auto
    then show ?thesis unfolding join_sql_def join_condition_def deref_def at_def
      by (intro safe_intros) (auto simp: cols[OF j])
  qed
  moreover obtain cd where "cm_Datasets (bld_cm b) root = Some cd" using known[of root] by auto
  ultimately show ?thesis unfolding fromClause_def deref_def by (intro safe_intros) simp_all
qed

lemma join_error_safe: "safe (emap_err Join (joinTree cm required))"
  using joins.no_climb_failure[of cm required] by (cases "joinTree cm required") (auto simp: safe_def)

definition filters_required :: "builder \<Rightarrow> string list \<Rightarrow> bool" where
  "filters_required b required \<longleftrightarrow> rf_Dataset ` set (concat (bld_rowFilterGroups b)) \<subseteq> set required"

lemma where_safe:
  assumes "joinTree (bld_cm b) required = Inr (root, js)" "fromClause b root js = Inr (t, tree)"
    "filters_required b required"
  shows "safe (whereClauses b filters tree)"
  by (rule whereClauses_safe)
    (use joins.covers[OF assms(1)] assms(3) fromClause_Inr[OF assms(2)] in \<open>auto simp: filters_required_def\<close>)

lemma dim_items_safe [safe_intros]: "safe (dim_items b a)"
  unfolding dim_items_def by (intro safe_intros)

lemma checked_safe: "\<exists>ms f. checked_filter ms f s \<Longrightarrow> safe (renderMetricFilter b s lhs)"
  using renderMetricFilter_safe by blast

lemma flatQuery_safe:
  assumes "sound_model (bld_cm b)" "filters_required b required"
    "\<And>s. s \<in> set mfs \<Longrightarrow> \<exists>ms f. checked_filter ms f s"
  shows "safe (flatQuery b required metrics filters mfs pub)"
  unfolding flatQuery_def Let_def
  by (intro join_error_safe safe_intros)
    (use assms in \<open>auto simp: result_simps intro: fromClause_safe where_safe checked_safe\<close>)

lemma sideQuery_safe:
  assumes "sound_model (bld_cm b)"
  shows "safe (sideQuery b t filters)"
proof -
  have req: "filters_required b required \<and> fr_Dataset ` set (t_Refs t) \<subseteq> set required"
    if "side_required b t filters = Inr required" for required
  proof -
    from that obtain refs :: "(FieldRef \<times> CompiledField) list" where r: "required = remdups (map (\<lambda>dm. fr_Dataset (ds_Ref dm)) (bld_dims b)
        @ map (\<lambda>(ref, cf). fr_Dataset ref) refs @ map rf_Dataset (concat (bld_rowFilterGroups b))
        @ map fr_Dataset (t_Refs t))"
      by (auto simp: side_required_def result_simps)
    show ?thesis unfolding r filters_required_def by (simp only: set_remdups set_append set_map) blast
  qed
  have ds: "set (termDatasetsOf t) = fr_Dataset ` set (t_Refs t)" by (simp add: termDatasetsOf_def)
  have "safe (deref (cm_Datasets (bld_cm b) (termDatasetsOf t ! 0)))"
    if "side_required b t filters = Inr required" "joinTree (bld_cm b) required = Inr (root, js)"
      "length (termDatasetsOf t) = 1" for required root js
  proof -
    have "termDatasetsOf t ! 0 \<in> set required" using that(3) req[OF that(1)] ds nth_mem[of 0 "termDatasetsOf t"] by auto
    then have "termDatasetsOf t ! 0 \<in> set (cm_DatasetOrder (bld_cm b))"
      using joins.covers[OF that(2)] sound_joins_known[OF assms that(2)] by blast
    then obtain cd where "cm_Datasets (bld_cm b) (termDatasetsOf t ! 0) = Some cd"
      using sound_dataset[OF assms] by blast
    then show ?thesis by (simp add: deref_def safe_basic)
  qed
  moreover have "safe (side_required b t filters)" unfolding side_required_def by (intro safe_intros)
  moreover have "safe (single_pass_side b t f w)" "safe (dedup_side b t m f w)" for f w m
    unfolding single_pass_side_def dedup_side_def Let_def by (intro safe_intros)+
  ultimately show ?thesis
    unfolding sideQuery_def Let_def
    by (intro join_error_safe safe_intros)
      (use assms req in \<open>auto simp: result_simps intro: fromClause_safe where_safe\<close>)
qed

lemma partition_invariant:
  assumes "partition_metrics cm ms (base, inline, split) = (base', inline', split')"
  shows "set base \<subseteq> set base' \<and> (\<forall>m\<in>set split'. m \<in> set split \<or> m \<in> set ms \<and> me_Denominator (cmt_Expr m) \<noteq> None)
    \<and> set inline' \<union> set split' = set inline \<union> set split \<union> set ms"
  using assms
proof (induction cm ms "(base, inline, split)" arbitrary: base inline split rule: partition_metrics.induct)
  case (2 cm m ms base inline split)
  show ?case
  proof (cases "me_Denominator (cmt_Expr m)")
    case None
    from 2(1)[OF None] 2(5) None show ?thesis by auto
  next
    case (Some den)
    show ?thesis
    proof (cases "joinTree cm (cloneSet base @ Datasets (cmt_Expr m))")
      case (Inl e)
      from 2(2)[OF Some refl Inl] 2(5) Some Inl show ?thesis by (auto simp: Let_def)
    next
      case (Inr r)
      obtain root js where r: "r = (root, js)" by (cases r)
      show ?thesis
      proof (cases "termSafe (me_Numerator (cmt_Expr m)) root \<and> termSafe den root")
        case True
        from 2(3)[OF Some refl Inr r[symmetric] True] 2(5) Some Inr r True show ?thesis by (auto simp: Let_def cloneSet_def)
      next
        case False
        from 2(4)[OF Some refl Inr r[symmetric] False] 2(5) Some Inr r False show ?thesis by (auto simp: Let_def)
      qed
    qed
  qed
qed auto

lemma compositeQuery_safe:
  assumes "sound_model (bld_cm b)" "filters_required b required"
    "\<And>s. s \<in> set mfs \<Longrightarrow> \<exists>ms f. checked_filter ms f s"
    "\<And>m. m \<in> set (s # ss) \<Longrightarrow> me_Denominator (cmt_Expr m) \<noteq> None"
  shows "safe (compositeQuery b required inline s ss filters mfs)"
proof -
  have side: "safe (emap_err (RatioSide n k) (sideQuery b t filters))" for n k t
    using sideQuery_safe[OF assms(1), of t filters] by (cases "sideQuery b t filters") (auto simp: safe_def)
  have den: "safe (deref (me_Denominator (cmt_Expr m)))" if "m \<in> set (s # ss)" for m
    using assms(4)[OF that] by (auto simp: deref_def intro: safe_intros)
  have ctes: "safe (composite_ctes b required inline (s # ss) filters)"
    unfolding composite_ctes_def split_ctes_def
    by (intro side safe_intros flatQuery_safe[OF assms(1,2)]) (use den in auto)
  have ne: "safe (at cs 0)" if "composite_ctes b required inline (s # ss) filters = Inr cs" for cs
    using that by (auto simp: composite_ctes_def split_ctes_def result_simps at_def intro: safe_intros)
  show ?thesis unfolding compositeQuery_def composite_filter_def Let_def
    by (intro safe_intros ctes ne checked_safe assms(3))
qed

lemma resolve_request_safe: "safe (resolve_request cm req)"
proof -
  have "safe (resolve_metric_filter rq x)" for rq x
    unfolding resolve_metric_filter_def Let_def by (intro safe_intros) auto
  moreover have "safe (resolve_order req i seen cs)" for i seen cs
  proof (induction req i seen cs rule: resolve_order.induct)
    case (2 req i seen c cs)
    show ?case unfolding resolve_order.simps by (intro safe_intros) (use 2 in auto)
  qed (simp add: safe_basic)
  ultimately show ?thesis
    unfolding resolve_request_def resolve_metrics_def resolveMetricFilters_def resolve_dims_def
      resolve_dimension_def resolve_grain_def resolveOrderBy_def resolve_filters_def
    by (intro safe_intros) simp_all
qed

lemma govern_safe: "safe (govern compile cm d req idn rs)"
  unfolding govern_def expand_filter_def by (intro safe_intros; simp)

lemma Build_not_internal:
  "sound_model cm \<Longrightarrow> Build compile cm d req idn = Inl e \<Longrightarrow> \<not> internal e"
proof -
  assume cm: "sound_model cm" and e: "Build compile cm d req idn = Inl e"
  have "safe (plan_query cm d req rs groups)" if rs: "resolve_request cm req = Inr rs" for rs groups
  proof -
    let ?b = "plan_builder cm d req rs groups"
    obtain base inline split where p:
      "partition_metrics cm (rs_metrics rs) (base_required rs groups, [], []) = (base, inline, split)"
      by (metis prod_cases3)
    note inv = partition_invariant[OF p]
    have b: "sound_model (bld_cm ?b)" using cm by (simp add: plan_builder_def)
    have "set (base_required rs groups) \<subseteq> set base" using inv by blast
    then have fr: "filters_required ?b base"
      unfolding filters_required_def base_required_def by (simp add: plan_builder_def)
    have mf: "\<exists>ms f. checked_filter ms f s" if "s \<in> set (rs_metricFilters rs)" for s
      using filters_are_checked[OF resolve_request_Inr(3)[OF rs]] that
      by (metis in_set_conv_nth list_all2_conv_all_nth)
    have "safe (case split of [] \<Rightarrow> flatQuery ?b base inline (req_Filters req) (rs_metricFilters rs) True
         | s # ss \<Rightarrow> compositeQuery ?b base inline s ss (req_Filters req) (rs_metricFilters rs))"
      by (intro safe_intros flatQuery_safe[OF b fr mf] compositeQuery_safe[OF b fr mf]) (use inv in auto)
    then show ?thesis by (simp add: plan_query_def Let_def p)
  qed
  then have "safe (Build compile cm d req idn)"
    unfolding Build_def Let_def by (intro safe_intros resolve_request_safe govern_safe)
  with e show ?thesis by (simp add: safe_def)
qed


section \<open>A model to evaluate on\<close>

definition shop_field :: "string \<Rightarrow> CompiledField" where
  "shop_field n = \<lparr>cf_Name = n, cf_Expr = n, cf_IsDimension = True, cf_IsTime = False, cf_Type = [],
     cf_Description = [], cf_AIContext = empty_AIContext\<rparr>"

definition shop_dataset :: "string \<Rightarrow> string list \<Rightarrow> string list \<Rightarrow> CompiledDataset" where
  "shop_dataset n pk fs = \<lparr>cd_Name = n, cd_Catalog = ''k'', cd_Database = ''b'', cd_Table = n, cd_PrimaryKey = pk,
     cd_Description = [], cd_AIContext = empty_AIContext, cd_Fields = map_by cf_Name (map shop_field fs),
     cd_FieldOrder = fs\<rparr>"

definition shop_term :: "string \<Rightarrow> bool \<Rightarrow> string \<Rightarrow> FieldRef list \<Rightarrow> AggTerm" where
  "shop_term f dis s rs = \<lparr>t_Func = f, t_Distinct = dis, t_Scalar = s, t_Refs = rs\<rparr>"

definition shop_metric :: "string \<Rightarrow> string \<Rightarrow> AggTerm \<Rightarrow> AggTerm option \<Rightarrow> CompiledMetric" where
  "shop_metric n raw num den = \<lparr>cmt_Name = n, cmt_Raw = raw, cmt_Expr = \<lparr>me_Numerator = num, me_Denominator = den\<rparr>,
     cmt_Description = [], cmt_AIContext = empty_AIContext\<rparr>"

definition revenue :: CompiledMetric where
  "revenue = shop_metric ''rev'' ''SUM(s.amt)'' (shop_term ''SUM'' False ''s.amt'' [\<lparr>fr_Dataset = ''s'', fr_Field = ''amt''\<rparr>]) None"

definition avg_credit :: CompiledMetric where
  "avg_credit = shop_metric ''cred'' ''SUM(c.lim)/COUNT(c.id)''
     (shop_term ''SUM'' False ''c.lim'' [\<lparr>fr_Dataset = ''c'', fr_Field = ''lim''\<rparr>])
     (Some (shop_term ''COUNT'' False ''c.id'' [\<lparr>fr_Dataset = ''c'', fr_Field = ''id''\<rparr>]))"

definition row_count :: CompiledMetric where
  "row_count = shop_metric ''n'' ''COUNT(*)'' (shop_term ''COUNT'' False ''*'' []) None"

definition shop :: CompiledModel where
  "shop =
     \<lparr>cm_Name = ''shop'', cm_Version = ''v'', cm_Namespace = [], cm_Resource = [],
      cm_Connection = \<lparr>conn_Catalog = ''k'', conn_Database = ''b'', conn_ViewDatabase = []\<rparr>,
      cm_Datasets = map_by cd_Name [shop_dataset ''s'' [] [''amt'', ''cid'', ''day''], shop_dataset ''c'' [''id''] [''id'', ''lim'', ''city'']],
      cm_DatasetOrder = [''s'', ''c''],
      cm_Relationships = [\<lparr>cr_Name = ''s_c'', cr_From = ''s'', cr_To = ''c'', cr_FromColumns = [''cid''],
         cr_ToColumns = [''id''], cr_JoinType = ''INNER''\<rparr>],
      cm_Metrics = map_by cmt_Name [revenue, avg_credit, row_count], cm_MetricOrder = [''rev'', ''cred'', ''n''],
      cm_Governance = Some two_roles, cm_Description = [], cm_AIContext = empty_AIContext\<rparr>"

lemma shop_dataset_sel [simp]:
  "cd_Name (shop_dataset n pk fs) = n" "cd_FieldOrder (shop_dataset n pk fs) = fs"
  by (simp_all add: shop_dataset_def)

lemma shop_dataset_Fields: "cd_Fields (shop_dataset n pk fs) = map_by cf_Name (map shop_field fs)"
  by (simp add: shop_dataset_def)

lemma shop_field_Name [simp]: "cf_Name (shop_field n) = n"
  by (simp add: shop_field_def)

lemma shop_dataset_dom: "dom (cd_Fields (shop_dataset n pk fs)) = set fs"
  by (simp add: shop_dataset_Fields dom_map_by image_image)

lemma shop_dataset_key: "cd_Fields (shop_dataset n pk fs) k = Some cf \<Longrightarrow> cf_Name cf = k"
  by (auto simp: shop_dataset_Fields dest: map_by_Some)

lemma shop_sound: "sound_model shop"
proof -
  have p: "Parse ''SUM(s.amt)'' = Inr (cmt_Expr revenue)" "Parse ''SUM(c.lim)/COUNT(c.id)'' = Inr (cmt_Expr avg_credit)"
    "Parse ''COUNT(*)'' = Inr (cmt_Expr row_count)"
    by code_simp+
  have names: "cmt_Name revenue = ''rev''" "cmt_Name avg_credit = ''cred''" "cmt_Name row_count = ''n''"
    "cmt_Raw revenue = ''SUM(s.amt)''" "cmt_Raw avg_credit = ''SUM(c.lim)/COUNT(c.id)''" "cmt_Raw row_count = ''COUNT(*)''"
    by (simp_all add: revenue_def avg_credit_def row_count_def shop_metric_def)
  have sel: "cm_DatasetOrder shop = [''s'', ''c'']" "cm_MetricOrder shop = [''rev'', ''cred'', ''n'']"
    "cm_Datasets shop = map_by cd_Name [shop_dataset ''s'' [] [''amt'', ''cid'', ''day''], shop_dataset ''c'' [''id''] [''id'', ''lim'', ''city'']]"
    "cm_Metrics shop = map_by cmt_Name [revenue, avg_credit, row_count]"
    by (simp_all add: shop_def)
  have rel: "\<forall>r\<in>set (cm_Relationships shop). cr_To r \<in> {''s'', ''c''} \<and> length (cr_FromColumns r) = length (cr_ToColumns r)"
    by (simp add: shop_def)
  show ?thesis unfolding sound_model_def wf_model_def
  proof (intro conjI allI impI)
    show "dom (cm_Datasets shop) = set (cm_DatasetOrder shop)" by (simp add: sel dom_map_by)
    show "dom (cm_Metrics shop) = set (cm_MetricOrder shop)" by (simp add: sel dom_map_by names)
    show "\<forall>r\<in>set (cm_Relationships shop). cr_To r \<in> set (cm_DatasetOrder shop) \<and> length (cr_FromColumns r) = length (cr_ToColumns r)"
      using rel by (simp add: sel)
  next
    fix n cd assume "cm_Datasets shop n = Some cd"
    then have cd: "cd \<in> {shop_dataset ''s'' [] [''amt'', ''cid'', ''day''], shop_dataset ''c'' [''id''] [''id'', ''lim'', ''city'']}"
      "cd_Name cd = n" unfolding sel by (auto dest!: map_by_Some)
    show "cd_Name cd = n" by (rule cd(2))
    show "dom (cd_Fields cd) = set (cd_FieldOrder cd)" using cd(1) by (elim insertE emptyE) (simp_all add: shop_dataset_dom)
    fix k cf assume "cd_Fields cd k = Some cf"
    then show "cf_Name cf = k" using cd(1) shop_dataset_key by blast
  next
    fix n m assume "cm_Metrics shop n = Some m"
    then have m: "m \<in> {revenue, avg_credit, row_count}" "cmt_Name m = n" unfolding sel by (auto dest!: map_by_Some)
    then show "cmt_Name m = n" "Parse (cmt_Raw m) = Inr (cmt_Expr m)" using p names by auto
  qed
qed

definition by_city :: Request where
  "by_city = empty_Request\<lparr>req_Metrics := [''rev''], req_Dimensions := [''c.city'']\<rparr>"

lemma Build_isOK:
  assumes "isOK (ebind (resolve_request cm req) (\<lambda>rs. ebind (govern compile cm d req idn rs)
      (\<lambda>(dec, groups). plan_query cm d req rs groups)))"
  shows "\<exists>p. Build compile cm d req idn = Inr p"
  using assms by (auto simp: isOK_iff Build_def result_simps Let_def)

lemma by_city_plan: "\<exists>p. Build star_glob shop trino by_city (Single ''b'') = Inr p"
  by (rule Build_isOK) code_simp

theorem Build_authorized_witness:
  "\<exists>p dec refs. Build star_glob shop trino by_city (Single ''b'') = Inr p \<and> set refs = request_refs shop by_city
     \<and> Authorize star_glob (cm_Governance shop) (Single ''b'') [''rev''] refs
         = (Inr dec :: (literal_error gov_error, Decision) result)"
proof -
  have m: "req_Metrics by_city = [''rev'']" by (simp add: by_city_def)
  show ?thesis using by_city_plan Build_authorized[of star_glob shop trino by_city "Single ''b''"]
    unfolding m by blast
qed

theorem Build_columns_witness:
  "\<exists>p. Build star_glob shop trino by_city (Single ''b'') = Inr p \<and> p_Columns p = [''c.city'', ''rev'']"
proof -
  have "req_Dimensions by_city @ req_Metrics by_city = [''c.city'', ''rev'']" by (simp add: by_city_def)
  then show ?thesis using by_city_plan Build_columns by metis
qed

definition open_shop :: CompiledModel where
  "open_shop = shop\<lparr>cm_Governance := None\<rparr>"

lemma open_shop_sound: "sound_model open_shop"
  using shop_sound by (simp add: open_shop_def sound_model_def wf_model_def)

lemma Build_Inl:
  assumes "ebind (resolve_request cm req) (\<lambda>rs. ebind (govern compile cm d req idn rs)
      (\<lambda>(dec, groups). plan_query cm d req rs groups)) = Inl e"
  shows "Build compile cm d req idn = Inl e"
  using assms by (auto simp: Build_def result_simps Let_def split: prod.splits)

lemma count_star_error:
  "Build star_glob open_shop trino (empty_Request\<lparr>req_Metrics := [''n'']\<rparr>) no_identity = Inl (Join EmptyRequirement)"
  by (rule Build_Inl) code_simp


text \<open>
  The metric grammar accepts \<open>COUNT(*)\<close>, and compilation keeps it, but a request for it alone cannot
  be planned: without a reference there is no dataset to start from, and the caller gets the error
  the source words as internal.
\<close>

theorem count_star_alone_fails:
  "isOK (Parse ''COUNT(*)'')
   \<and> Build star_glob open_shop trino (empty_Request\<lparr>req_Metrics := [''n'']\<rparr>) no_identity = Inl (Join EmptyRequirement)"
proof -
  have "isOK (Parse ''COUNT(*)'')" by code_simp
  with count_star_error show ?thesis by simp
qed

text \<open>
  The partition depends on the order of the requested metrics. A ratio over the customer dataset that
  comes first is found safe for the root of its own join tree and put in the single pass; a later
  metric then moves the root of that pass to the sales dataset, over which the ratio is not
  safe. In the other order it is split.
\<close>

theorem partition_order_dependent:
  "partition_metrics open_shop [avg_credit, revenue] ([], [], []) = ([''c'', ''s''], [avg_credit, revenue], [])
   \<and> joinTree open_shop [''c'', ''s''] = Inr (''s'', cm_Relationships open_shop)
   \<and> \<not> termSafe (me_Numerator (cmt_Expr avg_credit)) ''s''
   \<and> partition_metrics open_shop [revenue, avg_credit] ([], [], []) = ([''s''], [revenue], [avg_credit])"
  by code_simp

section \<open>Row filters are in every SELECT over data\<close>

lemma flatQuery_restricted:
  assumes "flatQuery b required ms fs mfs pub = Inr sql" "bld_rowFilterGroups b \<noteq> []"
    "[] \<notin> set (bld_rowFilterGroups b)"
  shows "sublist (row_predicate b) sql"
proof -
  obtain cl d items f n z where w: "whereClauses b fs (fst f) = Inr cl" and sql: "sql = [] @ renderSelect d items (snd f) cl n @ z"
    using assms(1) by (auto simp: flatQuery_def result_simps Let_def split: if_splits) (metis append_Nil2 fst_conv snd_conv)+
  show ?thesis unfolding sql
    by (rule sublist_around[OF sublist_select(1)[OF whereClauses_last[OF w assms(2,3)]]])
qed

lemma single_pass_side_restricted:
  "single_pass_side b t f cl = Inr sql \<Longrightarrow> x \<in> set cl \<Longrightarrow> sublist x sql"
  by (auto simp: single_pass_side_def result_simps intro: sublist_select)

lemma dedup_side_restricted:
  assumes "dedup_side b t m f cl = Inr sql" "x \<in> set cl" "hd NL \<notin> set x"
  shows "sublist x sql"
proof -
  obtain dis items dn di ditems z where
    sql: "sql = ''SELECT '' @ z @ NL @ (''FROM ('' @ NL @ indent (renderSelectDistinct dn ditems f cl) @ NL @ '') AS '' @ dis) @ items"
    using assms(1) by (auto simp: dedup_side_def result_simps Let_def renderSelect_def[of _ _ _ "[]"] where_sql_def)
  have "sublist x (indent (renderSelectDistinct dn ditems f cl))"
    by (rule sublist_indent[OF sublist_select(2)[OF assms(2)] assms(3)])
  from sublist_around[OF this, of "''SELECT '' @ z @ NL @ ''FROM ('' @ NL" "NL @ '') AS '' @ dis @ items"]
  show ?thesis unfolding sql by simp
qed

lemma sideQuery_restricted:
  assumes "sideQuery b t fs = Inr sql" "bld_rowFilterGroups b \<noteq> []" "[] \<notin> set (bld_rowFilterGroups b)"
    "hd NL \<notin> set (row_predicate b)"
  shows "sublist (row_predicate b) sql"
proof -
  obtain tree cl f m where w: "whereClauses b fs tree = Inr cl"
    and sql: "single_pass_side b t f cl = Inr sql \<or> dedup_side b t m f cl = Inr sql"
    using assms(1) by (auto simp: sideQuery_def result_simps Let_def split: if_splits)
  show ?thesis using sql whereClauses_last[OF w assms(2,3)] assms(4)
    by (blast intro: single_pass_side_restricted dedup_side_restricted)
qed

lemma composite_ctes_restricted:
  assumes "composite_ctes b required inline splits fs = Inr ctes" "bld_rowFilterGroups b \<noteq> []"
    "[] \<notin> set (bld_rowFilterGroups b)" "hd NL \<notin> set (row_predicate b)" "(n, cte) \<in> set ctes"
  shows "sublist (row_predicate b) cte"
proof -
  note side = sideQuery_restricted[OF _ assms(2-4)]
  have "(n, c) \<in> set x \<Longrightarrow> split_ctes b fs m = Inr x \<Longrightarrow> sublist (row_predicate b) c" for n c m x
    by (auto simp: split_ctes_def result_simps deref_def split: option.splits intro: side)
  moreover from assms(1) obtain base sides where s: "emap (split_ctes b fs) splits = Inr sides"
    and base: "if inline \<noteq> [] then \<exists>sql. flatQuery b required inline fs [] False = Inr sql \<and> base = [(''base'', sql)] else base = []"
    and c: "ctes = base @ concat sides"
    by (auto simp: composite_ctes_def result_simps split: if_splits)
  moreover have "\<exists>m\<in>set splits. split_ctes b fs m = Inr x" if "x \<in> set sides" for x
    using s that by (auto simp: emap_Inr_iff list_all2_conv_all_nth in_set_conv_nth) (metis nth_mem)
  moreover have "(n, cte) \<in> set base \<or> (\<exists>x\<in>set sides. (n, cte) \<in> set x)" using assms(5) c by auto
  moreover have "sublist (row_predicate b) cte" if "(n, cte) \<in> set base"
    using that base flatQuery_restricted[OF _ assms(2,3)] by (auto split: if_splits)
  ultimately show ?thesis by blast
qed

lemma compositeQuery_ctes:
  assumes "compositeQuery b required inline s ss fs mfs = Inr sql"
  obtains ctes where "composite_ctes b required inline (s # ss) fs = Inr ctes" "ctes \<noteq> []"
    "\<And>n cte. (n, cte) \<in> set ctes \<Longrightarrow> sublist (indent cte) sql"
proof -
  from assms obtain ctes z where c: "composite_ctes b required inline (s # ss) fs = Inr ctes" "ctes \<noteq> []"
    and sql: "sql = ''WITH '' @ join ('','' @ NL)
      (map (\<lambda>(name, sql). QuoteIdent (bld_d b) name @ '' AS ('' @ NL @ indent sql @ NL @ '')'') ctes) @ z"
    by (auto simp: compositeQuery_def result_simps Let_def at_def split: if_splits)
  have "sublist (indent cte) sql" if "(n, cte) \<in> set ctes" for n cte
  proof -
    let ?t = "QuoteIdent (bld_d b) n @ '' AS ('' @ NL @ indent cte @ NL @ '')''"
    have "?t \<in> set (map (\<lambda>(name, sql). QuoteIdent (bld_d b) name @ '' AS ('' @ NL @ indent sql @ NL @ '')'') ctes)"
      using that by force
    from sublist_around[OF sublist_join[OF this]] have "sublist ?t sql" unfolding sql .
    moreover have "sublist (indent cte) ?t"
      using sublist_around[of "indent cte" "indent cte" "QuoteIdent (bld_d b) n @ '' AS ('' @ NL" "NL @ '')''"] by simp
    ultimately show ?thesis by (metis sublist_around sublist_def)
  qed
  with c that show ?thesis by blast
qed

lemma emap_nonempty_lists: "emap (emap f) xss = Inr yss \<Longrightarrow> [] \<notin> set xss \<Longrightarrow> [] \<notin> set yss"
  by (auto simp: emap_Inr_iff list_all2_conv_all_nth in_set_conv_nth)

lemma Authorize_groups:
  assumes "Authorize compile gov idn ms refs = (Inr dec :: ('l gov_error, Decision) result)"
  shows "[] \<notin> set (dec_RowFilterGroups dec)"
  using assms
  by (auto simp: Authorize_def result_simps Let_def filter_groups_eq split: if_splits) (metis (no_types))

lemma govern_groups:
  assumes "govern compile cm d req idn rs = Inr (dec, groups)"
  shows "[] \<notin> set groups" "groups = [] \<longleftrightarrow> dec_RowFilterGroups dec = []"
proof -
  from assms have a: "Authorize compile (cm_Governance cm) idn (req_Metrics req) (all_refs rs)
      = (Inr dec :: (literal_error gov_error, Decision) result)"
    and e: "emap (emap (expand_filter cm d (id_Claims idn))) (dec_RowFilterGroups dec) = Inr groups"
    by (auto simp: govern_def result_simps)
  show "[] \<notin> set groups" using emap_nonempty_lists[OF e Authorize_groups[OF a]] .
  show "groups = [] \<longleftrightarrow> dec_RowFilterGroups dec = []" using e by (auto simp: emap_Inr_iff)
qed


section \<open>Composite plans\<close>

definition two_metrics :: Request where
  "two_metrics = by_city\<lparr>req_Metrics := [''rev'', ''cred'']\<rparr>"

lemma two_metrics_plan:
  obtains rs dec groups base inline s ss sql where
    "govern star_glob shop trino two_metrics (Single ''b'') rs = Inr (dec, groups)" "dec_RowFilterGroups dec \<noteq> []"
    "row_predicate (plan_builder shop trino two_metrics rs groups) = ''(((\"s\".\"region\" = 1)))''"
    "partition_metrics shop (rs_metrics rs) (base_required rs groups, [], []) = (base, inline, s # ss)"
    "plan_query shop trino two_metrics rs groups = Inr sql"
proof -
  have "case resolve_request shop two_metrics of Inl _ \<Rightarrow> False | Inr rs \<Rightarrow>
     (case govern star_glob shop trino two_metrics (Single ''b'') rs of Inl _ \<Rightarrow> False | Inr (dec, groups) \<Rightarrow>
       dec_RowFilterGroups dec \<noteq> []
       \<and> row_predicate (plan_builder shop trino two_metrics rs groups) = ''(((\"s\".\"region\" = 1)))''
       \<and> (case partition_metrics shop (rs_metrics rs) (base_required rs groups, [], []) of (base, inline, split) \<Rightarrow> split \<noteq> [])
       \<and> isOK (plan_query shop trino two_metrics rs groups))"
    by code_simp
  then show thesis using that by (auto simp: isOK_iff neq_Nil_conv split: sum.splits prod.splits)
qed


definition credit_by_day :: builder where
  "credit_by_day = plan_builder open_shop trino (empty_Request\<lparr>req_Metrics := [''cred''], req_Dimensions := [''s.day'']\<rparr>)
     \<lparr>rs_metrics = [avg_credit], rs_metricFilters = [], rs_dims = [\<lparr>ds_Ref = \<lparr>fr_Dataset = ''s'', fr_Field = ''day''\<rparr>,
        ds_Field = shop_field ''day'', ds_Grained = False\<rparr>], rs_order = [], rs_filterRefs = []\<rparr> []"

definition lim_sum :: "bool \<Rightarrow> AggTerm" where
  "lim_sum dis = shop_term ''SUM'' dis ''c.lim'' [\<lparr>fr_Dataset = ''c'', fr_Field = ''lim''\<rparr>]"

text \<open>
  The deduplicating rendering of a ratio side forgets DISTINCT: the grammar accepts
  \<open>SUM(DISTINCT c.lim)\<close>, the single pass renders it, but grouped by a field of the sales dataset the
  side has the text it would have without DISTINCT.
\<close>

theorem distinct_lost_in_dedup:
  "Parse ''SUM(DISTINCT c.lim) / COUNT(c.id)'' = Inr \<lparr>me_Numerator = lim_sum True, me_Denominator = me_Denominator (cmt_Expr avg_credit)\<rparr>
   \<and> renderTerm credit_by_day (lim_sum True) \<noteq> renderTerm credit_by_day (lim_sum False)
   \<and> isOK (sideQuery credit_by_day (lim_sum True) [])
   \<and> sideQuery credit_by_day (lim_sum True) [] = sideQuery credit_by_day (lim_sum False) []"
  by code_simp

text \<open>
  \<open>indent\<close> shifts the lines inside string literals too: a filter value with a line break is rendered
  as a literal that reads back as the value, and reads back as another value once the statement it
  is in has become a common table expression or a deduplicated subquery.
\<close>

theorem indent_changes_literals:
  "\<exists>t. Literal trino (VString (''a'' @ NL @ ''b'')) = Inr (quote_ch # t)
     \<and> read_quoted quote_ch t = Some (''a'' @ NL @ ''b'', [])
     \<and> indent (quote_ch # t) = ''  '' @ quote_ch # tl (replace_char (hd NL) (NL @ ''  '') (quote_ch # t))
     \<and> read_quoted quote_ch (tl (replace_char (hd NL) (NL @ ''  '') (quote_ch # t))) = Some (''a'' @ NL @ ''  b'', [])"
  by (rule exI[of _ "''a'' @ NL @ ''b'' @ [quote_ch]"]) code_simp

end
