(* ===== verification/Ossie.thy ===== *)
theory Ossie
  imports Plan
begin

text \<open>
  \<^verbatim>\<open>internal/ossie/validate.go\<close>: the validation of a spec before it is compiled. The aggregate error
  is the list of its problems, in the order the code adds them; no error is the empty list. Go
  iterates over the \<^verbatim>\<open>edges\<close> map in an unspecified order, so the order of its keys is a parameter.
\<close>

datatype spec_error =
    ModelNameRequired
  | ConnectionRequired
  | NoDatasets
  | DatasetNameRequired nat
  | DuplicateDataset string
  | SourceRequired string
  | FieldNameRequired string nat
  | DuplicateField string string
  | FieldNoExpression string string
  | RelationshipNameRequired nat
  | DuplicateRelationship string
  | FromUnknown string string
  | ToUnknown string string
  | ColumnMismatch string
  | RelationshipCycle string
  | MetricNameRequired nat
  | DuplicateMetric string
  | MetricNoExpression string
  | MetricUnparsed string expr_error
  | MetricUnknownDataset string string
  | MetricUnknownField string string string
  | DenominatorNoKey string string
  | BadProviderRef string
  | RoleNameRequired nat
  | DuplicateRole string
  | BadDenyField string string
  | RowFilterNoDataset string string
  | EmptyPredicate string string
  | BadTemplate string string "unit gov_error"
  | BadPredicate string string pred_error
  | UndefinedDefaultRole string
  | ViewNameRequired nat
  | DuplicateView string
  | ViewNoMetrics string
  | ViewUnknownMetric string string
  | ViewBadDimension string string
  | ViewUnknownField string string string
  | ViewNotDimension string string
  | ViewUnknownRole string string
  | JoinUnknownRelationship nat string
  | JoinDuplicate nat string
  | JoinBadType nat string

section \<open>Helpers\<close>

definition collectRefs :: "MetricExpr \<Rightarrow> FieldRef list" where
  "collectRefs m = t_Refs (me_Numerator m) @ (case me_Denominator m of None \<Rightarrow> [] | Some d \<Rightarrow> t_Refs d)"

fun first_seen :: "string list \<Rightarrow> string list \<Rightarrow> string list" where
  "first_seen seen [] = []"
| "first_seen seen (x # xs) = (if x \<in> set seen then first_seen seen xs else x # first_seen (x # seen) xs)"

definition termDatasets :: "AggTerm \<Rightarrow> string list" where
  "termDatasets t = first_seen [] (map fr_Dataset (t_Refs t))"

definition splitRef :: "string \<Rightarrow> (string \<times> string) option" where
  "splitRef s = cut_dot s"

definition label_char :: "char \<Rightarrow> bool" where
  "label_char c \<longleftrightarrow> is_lower c \<or> is_digit c"

definition validProviderRef :: "string \<Rightarrow> bool" where
  "validProviderRef s =
     (if s = [] \<or> 63 < length s \<or> \<not> label_char (s ! 0) then False
      else if \<exists>i\<in>set [1..<length s]. \<not> label_char (s ! i) \<and> s ! i \<noteq> CHR ''-'' then False
      else s ! (length s - 1) \<noteq> CHR ''-'')"

section \<open>Cycles\<close>

text \<open>The depth first search of \<^verbatim>\<open>findCycle\<close>. A node not in the color map is white. The nesting of
  the recursive calls is bounded by fuel; \<open>None\<close> is running out of it.\<close>

datatype color = White | Gray | Black

type_synonym dfs_state = "(string \<Rightarrow> color) \<times> string list"

fun dfs :: "nat \<Rightarrow> (string \<Rightarrow> string list) \<Rightarrow> string \<Rightarrow> dfs_state \<Rightarrow> (string \<times> dfs_state) option"
  and dfs_edges :: "nat \<Rightarrow> (string \<Rightarrow> string list) \<Rightarrow> string list \<Rightarrow> string \<Rightarrow> dfs_state \<Rightarrow> (string \<times> dfs_state) option"
where
  "dfs 0 edges n st = None"
| "dfs (Suc fuel) edges n (color, path) = dfs_edges fuel edges (edges n) n (color(n := Gray), path @ [n])"
| "dfs_edges fuel edges [] n (color, path) = Some ([], (color(n := Black), butlast path))"
| "dfs_edges fuel edges (y # ys) n (color, path) =
     (case color y of
        Gray \<Rightarrow> Some (join '' -> '' (path @ [y]), (color, path))
      | White \<Rightarrow>
          (case dfs fuel edges y (color, path) of
             None \<Rightarrow> None
           | Some (c, st) \<Rightarrow> if c \<noteq> [] then Some (c, st) else dfs_edges fuel edges ys n st)
      | Black \<Rightarrow> dfs_edges fuel edges ys n (color, path))"

fun dfs_all :: "nat \<Rightarrow> (string \<Rightarrow> string list) \<Rightarrow> string list \<Rightarrow> dfs_state \<Rightarrow> string option" where
  "dfs_all fuel edges [] st = Some []"
| "dfs_all fuel edges (n # ns) (color, path) =
     (if color n = White then
        (case dfs fuel edges n (color, path) of
           None \<Rightarrow> None
         | Some (c, st) \<Rightarrow> if c \<noteq> [] then Some c else dfs_all fuel edges ns st)
      else dfs_all fuel edges ns (color, path))"

definition dfs_fuel :: "(string \<Rightarrow> string list) \<Rightarrow> string list \<Rightarrow> nat" where
  "dfs_fuel edges order = length (concat (map (\<lambda>n. n # edges n) order))"

text \<open>\<open>order\<close> is the order in which \<^verbatim>\<open>range edges\<close> delivers the keys.\<close>

definition findCycle :: "(string \<Rightarrow> string list) \<Rightarrow> string list \<Rightarrow> string option" where
  "findCycle edges order = dfs_all (dfs_fuel edges order) edges order (\<lambda>_. White, [])"

subsection \<open>The search is correct\<close>

abbreviation succ_rel :: "(string \<Rightarrow> string list) \<Rightarrow> (string \<times> string) set" where
  "succ_rel edges \<equiv> {(a, b). b \<in> set (edges a)}"

definition walk :: "(string \<Rightarrow> string list) \<Rightarrow> string list \<Rightarrow> bool" where
  "walk edges p \<longleftrightarrow> (\<forall>i. Suc i < length p \<longrightarrow> p ! Suc i \<in> set (edges (p ! i)))"

text \<open>A walk that ends in a node it has already visited.\<close>

definition closes_cycle :: "(string \<Rightarrow> string list) \<Rightarrow> string list \<Rightarrow> bool" where
  "closes_cycle edges p \<longleftrightarrow> walk edges p \<and> p \<noteq> [] \<and> last p \<in> set (butlast p)"

definition dfs_inv :: "(string \<Rightarrow> string list) \<Rightarrow> dfs_state \<Rightarrow> bool" where
  "dfs_inv edges st \<longleftrightarrow>
     (let (color, path) = st
      in (\<forall>x. color x = Gray \<longleftrightarrow> x \<in> set path) \<and> distinct path \<and> walk edges path
         \<and> (\<forall>x y. color x = Black \<longrightarrow> y \<in> set (edges x) \<longrightarrow> color y = Black)
         \<and> (\<forall>x. color x = Black \<longrightarrow> (x, x) \<notin> (succ_rel edges)\<^sup>+))"

lemma walk_snoc:
  assumes "walk edges p" "p = [] \<or> y \<in> set (edges (last p))"
  shows "walk edges (p @ [y])"
  unfolding walk_def
proof (intro allI impI)
  fix i assume i: "Suc i < length (p @ [y])"
  show "(p @ [y]) ! Suc i \<in> set (edges ((p @ [y]) ! i))"
  proof (cases "Suc i < length p")
    case True
    with assms(1) show ?thesis by (simp add: walk_def nth_append)
  next
    case False
    with i have "Suc i = length p" by simp
    then have "p \<noteq> []" "i = length p - 1" by auto
    with assms(2) show ?thesis by (simp add: nth_append last_conv_nth)
  qed
qed

lemma walk_trancl:
  assumes "walk edges p" "i < j" "j < length p"
  shows "(p ! i, p ! j) \<in> (succ_rel edges)\<^sup>+"
  using assms(2,3)
proof (induction j)
  case (Suc j)
  then have "(p ! j, p ! Suc j) \<in> succ_rel edges" using assms(1) by (simp add: walk_def)
  with Suc show ?case by (cases "i = j") (auto intro: trancl_into_trancl)
qed simp

lemma closes_cycle_not_acyclic:
  assumes "closes_cycle edges p" shows "\<not> acyclic (succ_rel edges)"
proof -
  from assms obtain i where i: "i < length p - 1" "p ! i = last p"
    by (auto simp: closes_cycle_def in_set_conv_nth nth_butlast)
  then have "last p = p ! (length p - 1)" using assms by (simp add: closes_cycle_def last_conv_nth)
  with walk_trancl[of edges p i "length p - 1"] assms i have "(last p, last p) \<in> (succ_rel edges)\<^sup>+"
    by (auto simp: closes_cycle_def)
  then show ?thesis by (auto simp: acyclic_def)
qed

lemma black_closed:
  assumes "(x, y) \<in> (succ_rel edges)\<^sup>+" "color x = Black"
    "\<forall>x y. color x = Black \<longrightarrow> y \<in> set (edges x) \<longrightarrow> color y = Black"
  shows "color y = Black"
  using assms(1,2) by induction (use assms(3) in auto)

lemma dfs_finish:
  assumes inv: "dfs_inv edges (color, path)" and p: "path \<noteq> []" "last path = n"
    and fin: "\<forall>y\<in>set (edges n). color y = Black"
  shows "dfs_inv edges (color(n := Black), butlast path)"
proof -
  have i: "\<And>x. color x = Gray \<longleftrightarrow> x \<in> set path" "distinct path" "walk edges path"
    "\<forall>x y. color x = Black \<longrightarrow> y \<in> set (edges x) \<longrightarrow> color y = Black"
    "\<forall>x. color x = Black \<longrightarrow> (x, x) \<notin> (succ_rel edges)\<^sup>+"
    using inv by (auto simp: dfs_inv_def)
  have split: "path = butlast path @ [n]" using p by (metis append_butlast_last_id)
  then have n: "n \<notin> set (butlast path)" using i(2) by (metis distinct_append distinct.simps(2) Int_insert_right IntI empty_iff list.set_intros(1))
  have "color n = Gray" using i(1) split by (metis in_set_conv_decomp)
  then have loop: "(n, n) \<notin> (succ_rel edges)\<^sup>+"
  proof -
    have False if "(n, n) \<in> (succ_rel edges)\<^sup>+"
    proof -
      from tranclD[OF that] obtain y where y: "y \<in> set (edges n)" "(y, n) \<in> (succ_rel edges)\<^sup>*" by auto
      then have "color y = Black" using fin by blast
      then have "color n = Black" using y(2) black_closed[OF _ _ i(4)] by (metis rtranclD)
      with \<open>color n = Gray\<close> show False by simp
    qed
    then show ?thesis by blast
  qed
  have "walk edges (butlast path)" using i(3) by (auto simp: walk_def nth_butlast)
  moreover have "(color(n := Black)) x = Gray \<longleftrightarrow> x \<in> set (butlast path)" for x
  proof -
    have "set path = insert n (set (butlast path))" by (subst split) simp
    with i(1)[of x] n show ?thesis by auto
  qed
  ultimately show ?thesis using i loop fin by (auto simp: dfs_inv_def distinct_butlast)
qed

lemma white_not_on_path: "dfs_inv edges st \<Longrightarrow> fst st n = White \<Longrightarrow> n \<notin> set (snd st)"
proof (cases st)
  case (Pair color path)
  assume "dfs_inv edges st" and w: "fst st n = White"
  then have "\<forall>x. color x = Gray \<longleftrightarrow> x \<in> set path" by (simp add: Pair dfs_inv_def)
  with w show ?thesis by (metis Pair color.distinct(1) fst_conv snd_conv)
qed

lemma dfs_enter:
  assumes "dfs_inv edges (color, path)" "color n = White" "path = [] \<or> n \<in> set (edges (last path))"
  shows "dfs_inv edges (color(n := Gray), path @ [n])"
proof -
  have "walk edges (path @ [n])" using assms by (intro walk_snoc) (auto simp: dfs_inv_def)
  with white_not_on_path[OF assms(1)] assms(1,2) show ?thesis by (auto simp: dfs_inv_def)
qed

definition dfs_post :: "(string \<Rightarrow> string list) \<Rightarrow> dfs_state \<Rightarrow> string list \<Rightarrow> string \<Rightarrow> string \<times> dfs_state \<Rightarrow> bool" where
  "dfs_post edges st path' n r \<longleftrightarrow>
     (let (c, st') = r
      in if c = [] then dfs_inv edges st' \<and> snd st' = path' \<and> fst st' n = Black
           \<and> (\<forall>x. fst st x = Black \<longrightarrow> fst st' x = Black)
         else \<exists>p. c = join '' -> '' p \<and> closes_cycle edges p)"

lemma dfs_correct:
  "\<lbrakk>dfs fuel edges n st = Some r; dfs_inv edges st; fst st n = White; snd st = [] \<or> n \<in> set (edges (last (snd st)))\<rbrakk>
     \<Longrightarrow> dfs_post edges st (snd st) n r"
  "\<lbrakk>dfs_edges fuel edges ys n st = Some r; dfs_inv edges st; snd st \<noteq> []; last (snd st) = n;
     set ys \<subseteq> set (edges n); \<forall>y\<in>set (edges n) - set ys. fst st y = Black\<rbrakk>
     \<Longrightarrow> dfs_post edges st (butlast (snd st)) n r"
proof (induction fuel edges n st and fuel edges ys n st arbitrary: r and r rule: dfs_dfs_edges.induct)
  case (2 fuel edges n color path)
  have inv: "dfs_inv edges (color(n := Gray), path @ [n])"
    by (rule dfs_enter) (use 2(3-5) in auto)
  from 2(1)[OF _ inv] 2(2) have "dfs_post edges (color(n := Gray), path @ [n]) path n r" by simp
  with 2(4) show ?case by (auto simp: dfs_post_def split: if_splits prod.splits)
next
  case (3 fuel edges n color path)
  with dfs_finish[OF 3(2)] show ?case by (auto simp: dfs_post_def)
next
  case (4 fuel edges y ys n color path)
  show ?case
  proof (cases "color y")
    case Gray
    have w: "walk edges (path @ [y])" using 4(5-8) by (auto simp: dfs_inv_def intro: walk_snoc)
    have "y \<in> set path" using 4(5) Gray by (auto simp: dfs_inv_def)
    with w have "closes_cycle edges (path @ [y])" by (simp add: closes_cycle_def)
    moreover have "join '' -> '' (path @ [y]) \<noteq> []" using 4(6) by (cases path; cases "tl path") auto
    ultimately show ?thesis using 4(4) Gray by (auto simp: dfs_post_def)
  next
    case Black
    then have "\<forall>y\<in>set (edges n) - set ys. color y = Black" using 4(9) by auto
    with 4(3)[OF Black] 4(4-8) Black show ?thesis by auto
  next
    case White
    from 4(4) White obtain c st1 where d: "dfs fuel edges y (color, path) = Some (c, st1)"
      and r: "if c \<noteq> [] then r = (c, st1) else dfs_edges fuel edges ys n st1 = Some r"
      by (auto split: option.splits if_splits)
    have p: "dfs_post edges (color, path) path y (c, st1)"
      using 4(1)[OF White d] 4(5-8) White by auto
    show ?thesis
    proof (cases "c = []")
      case False
      with p r show ?thesis by (auto simp: dfs_post_def)
    next
      case True
      with p have st1: "dfs_inv edges st1" "snd st1 = path" "fst st1 y = Black" "\<forall>x. color x = Black \<longrightarrow> fst st1 x = Black"
        by (auto simp: dfs_post_def split: prod.splits)
      then have "\<forall>y\<in>set (edges n) - set ys. fst st1 y = Black" using 4(9) by auto
      then have "dfs_post edges st1 (butlast (snd st1)) n r"
        using 4(2)[OF White d refl] True r st1 4(6-8) by auto
      with st1 show ?thesis by (auto simp: dfs_post_def split: if_splits prod.splits)
    qed
  qed
qed simp

lemma dfs_total:
  "\<lbrakk>finite V; \<And>x y. y \<in> set (edges x) \<Longrightarrow> y \<in> V; n \<in> V; dfs_inv edges st; fst st n = White;
     snd st = [] \<or> n \<in> set (edges (last (snd st))); card (V - set (snd st)) \<le> fuel\<rbrakk> \<Longrightarrow> dfs fuel edges n st \<noteq> None"
  "\<lbrakk>finite V; \<And>x y. y \<in> set (edges x) \<Longrightarrow> y \<in> V; dfs_inv edges st; snd st \<noteq> []; last (snd st) = n;
     set ys \<subseteq> set (edges n); \<forall>y\<in>set (edges n) - set ys. fst st y = Black; card (V - set (snd st)) \<le> fuel\<rbrakk>
     \<Longrightarrow> dfs_edges fuel edges ys n st \<noteq> None"
proof (induction fuel edges n st and fuel edges ys n st rule: dfs_dfs_edges.induct)
  case (1 edges n st)
  have "n \<notin> set (snd st)" using 1(4,5) by (rule white_not_on_path)
  with 1(1,3,7) show ?case by auto
next
  case (2 fuel edges n color path)
  have inv: "dfs_inv edges (color(n := Gray), path @ [n])"
    by (rule dfs_enter) (use 2(5-7) in auto)
  have "n \<notin> set path" using white_not_on_path[OF 2(5,6)] by simp
  then have "V - set (path @ [n]) = V - set path - {n}" "n \<in> V - set path" using 2(4) by auto
  then have "card (V - set (path @ [n])) \<le> fuel" using 2(2,8) by (simp add: card_Diff_singleton)
  with 2(1)[OF 2(2,3) inv] show ?case by simp
next
  case (4 fuel edges y ys n color path)
  show ?case
  proof (cases "color y")
    case White
    have yV: "y \<in> V" and e: "y \<in> set (edges (last path))" using 4(5,8,9) by auto
    have "dfs fuel edges y (color, path) \<noteq> None"
      using 4(1)[OF White 4(4,5) yV] 4(6,7,11) White e by simp
    then obtain c st1 where d: "dfs fuel edges y (color, path) = Some (c, st1)" by auto
    have p: "dfs_post edges (color, path) path y (c, st1)"
      using dfs_correct(1)[OF d 4(6)] White e by simp
    show ?thesis
    proof (cases "c = []")
      case True
      with p have st1: "dfs_inv edges st1" "snd st1 = path" "fst st1 y = Black" "\<forall>x. color x = Black \<longrightarrow> fst st1 x = Black"
        by (auto simp: dfs_post_def split: prod.splits)
      then have "\<forall>y\<in>set (edges n) - set ys. fst st1 y = Black" using 4(10) by auto
      then show ?thesis using 4(2)[OF White d refl] True d White st1 4(4-9,11) by auto
    qed (use White d in auto)
  next
    case Black
    then have "\<forall>y\<in>set (edges n) - set ys. color y = Black" using 4(10) by auto
    with 4(3)[OF Black] 4(4-9,11) Black show ?thesis by auto
  qed auto
qed auto

lemma dfs_all_correct:
  assumes fin: "finite V" "\<And>x y. y \<in> set (edges x) \<Longrightarrow> y \<in> V" and fuel: "card V \<le> fuel"
  shows "set ns \<subseteq> V \<Longrightarrow> dfs_inv edges (color, []) \<Longrightarrow> \<exists>c. dfs_all fuel edges ns (color, []) = Some c \<and>
     (if c = [] then \<exists>color'. dfs_inv edges (color', []) \<and> (\<forall>x. color x = Black \<or> x \<in> set ns \<longrightarrow> color' x = Black)
      else \<exists>p. c = join '' -> '' p \<and> closes_cycle edges p)"
proof (induction ns arbitrary: color)
  case (Cons n ns)
  show ?case
  proof (cases "color n = White")
    case False
    with Cons(3) have "color n = Black" by (cases "color n") (auto simp: dfs_inv_def)
    moreover obtain c where "dfs_all fuel edges ns (color, []) = Some c"
      "if c = [] then \<exists>color'. dfs_inv edges (color', []) \<and> (\<forall>x. color x = Black \<or> x \<in> set ns \<longrightarrow> color' x = Black)
       else \<exists>p. c = join '' -> '' p \<and> closes_cycle edges p"
      using Cons by auto
    ultimately show ?thesis by (auto split: if_splits)
  next
    case True
    obtain c st where d: "dfs fuel edges n (color, []) = Some (c, st)"
    proof -
      have "dfs fuel edges n (color, []) \<noteq> None"
        by (rule dfs_total(1)[OF fin]) (use fuel Cons(2,3) True in auto)
      then show thesis using that by auto
    qed
    have p: "dfs_post edges (color, []) [] n (c, st)"
      using dfs_correct(1)[OF d Cons(3)] True by simp
    show ?thesis
    proof (cases "c = []")
      case False
      with p d True show ?thesis by (auto simp: dfs_post_def)
    next
      case c: True
      obtain color1 where st: "st = (color1, [])" "dfs_inv edges (color1, [])" "color1 n = Black"
        "\<forall>x. color x = Black \<longrightarrow> color1 x = Black"
        using p c by (cases st) (auto simp: dfs_post_def)
      obtain e where e: "dfs_all fuel edges ns (color1, []) = Some e"
        "if e = [] then \<exists>color'. dfs_inv edges (color', []) \<and> (\<forall>x. color1 x = Black \<or> x \<in> set ns \<longrightarrow> color' x = Black)
         else \<exists>p. e = join '' -> '' p \<and> closes_cycle edges p"
        using Cons(1)[OF _ st(2)] Cons(2) by auto
      then have "dfs_all fuel edges (n # ns) (color, []) = Some e" using d c True st(1) by simp
      moreover have "if e = [] then \<exists>color'. dfs_inv edges (color', []) \<and> (\<forall>x. color x = Black \<or> x \<in> set (n # ns) \<longrightarrow> color' x = Black)
         else \<exists>p. e = join '' -> '' p \<and> closes_cycle edges p"
        using e(2) st(3,4) by (auto split: if_splits)
      ultimately show ?thesis by blast
    qed
  qed
qed auto

lemma findCycle_facts:
  assumes keys: "\<And>n. edges n \<noteq> [] \<Longrightarrow> n \<in> set order"
  shows "\<exists>c. findCycle edges order = Some c \<and> (c = [] \<longleftrightarrow> acyclic (succ_rel edges))
     \<and> (c \<noteq> [] \<longrightarrow> (\<exists>p. c = join '' -> '' p \<and> closes_cycle edges p))"
proof -
  let ?V = "set (concat (map (\<lambda>n. n # edges n) order))"
  have "x \<in> set order" if "y \<in> set (edges x)" for x y by (rule keys) (use that in auto)
  then have V: "y \<in> set (edges x) \<Longrightarrow> y \<in> ?V" "set order \<subseteq> ?V" for x y by auto
  have fuel: "card ?V \<le> dfs_fuel edges order" unfolding dfs_fuel_def by (rule card_length)
  have start: "dfs_inv edges (\<lambda>_. White, [])" by (simp add: dfs_inv_def walk_def)
  have "\<exists>c. dfs_all (dfs_fuel edges order) edges order (\<lambda>_. White, []) = Some c \<and>
     (if c = [] then \<exists>color'. dfs_inv edges (color', []) \<and> (\<forall>x. White = Black \<or> x \<in> set order \<longrightarrow> color' x = Black)
      else \<exists>p. c = join '' -> '' p \<and> closes_cycle edges p)"
    by (rule dfs_all_correct[OF finite_set _ fuel V(2) start]) (rule V(1))
  then obtain c where c: "findCycle edges order = Some c"
    "if c = [] then \<exists>color'. dfs_inv edges (color', []) \<and> (\<forall>x. White = Black \<or> x \<in> set order \<longrightarrow> color' x = Black)
     else \<exists>p. c = join '' -> '' p \<and> closes_cycle edges p"
    by (auto simp: findCycle_def)
  have "acyclic (succ_rel edges)" if "c = []"
  proof -
    from that c(2) obtain color where inv: "dfs_inv edges (color, [])" and black: "\<forall>x\<in>set order. color x = Black" by auto
    from inv have "\<forall>x. color x = Black \<longrightarrow> (x, x) \<notin> (succ_rel edges)\<^sup>+" unfolding dfs_inv_def by simp
    moreover have "x \<in> set order" if loop: "(x, x) \<in> (succ_rel edges)\<^sup>+" for x
    proof (rule keys)
      obtain y where "y \<in> set (edges x)" using tranclD[OF loop] by auto
      then show "edges x \<noteq> []" by auto
    qed
    ultimately show ?thesis using black unfolding acyclic_def by metis
  qed
  moreover have "\<not> acyclic (succ_rel edges) \<and> (\<exists>p. c = join '' -> '' p \<and> closes_cycle edges p)" if "c \<noteq> []"
    using that c(2) closes_cycle_not_acyclic by auto
  ultimately show ?thesis using c(1) by auto
qed

text \<open>
  C40. The cycle search always returns, whatever order Go iterates the edge map in. It returns no
  description exactly when the edges form no cycle, and otherwise the description is a walk along
  edges that ends in a node it has already visited.
\<close>

theorem findCycle_correct:
  "(\<And>n. edges n \<noteq> [] \<Longrightarrow> n \<in> set order) \<Longrightarrow>
   \<exists>c. findCycle edges order = Some c \<and> (c = [] \<longleftrightarrow> acyclic (succ_rel edges))
     \<and> (c \<noteq> [] \<longrightarrow> (\<exists>p. c = join '' -> '' p \<and> closes_cycle edges p))"
  by (rule findCycle_facts)

definition sample_edges :: "string \<Rightarrow> string list" where
  "sample_edges = (\<lambda>_. [])(''a'' := [''b'', ''c''], ''b'' := [''c''], ''c'' := [''a''])"

theorem findCycle_correct_witness:
  "findCycle sample_edges [''b'', ''a'', ''c''] = Some ''b -> c -> a -> b'' \<and> \<not> acyclic (succ_rel sample_edges)"
proof -
  have "n \<in> set [''b'', ''a'', ''c'']" if "sample_edges n \<noteq> []" for n
    using that by (auto simp: sample_edges_def split: if_splits)
  note findCycle_correct[of sample_edges, OF this]
  moreover have "findCycle sample_edges [''b'', ''a'', ''c''] = Some ''b -> c -> a -> b''" by code_simp
  ultimately show ?thesis by auto
qed

section \<open>ValidateSpec\<close>

text \<open>One function per section of \<^verbatim>\<open>ValidateSpec\<close>, each a loop with the maps it fills. \<open>check b e\<close> is
  \<^verbatim>\<open>if b { add(e) }\<close>.\<close>

abbreviation check :: "bool \<Rightarrow> spec_error \<Rightarrow> spec_error list" where
  "check b e \<equiv> (if b then [e] else [])"

fun validate_fields :: "string \<Rightarrow> nat \<Rightarrow> string set \<Rightarrow> Field list \<Rightarrow> spec_error list" where
  "validate_fields d j seen [] = []"
| "validate_fields d j seen (f # fs) =
     (if f_Name f = [] then FieldNameRequired d j # validate_fields d (Suc j) seen fs
      else check (f_Name f \<in> seen) (DuplicateField d (f_Name f))
        @ check (Select (f_Expression f) = None) (FieldNoExpression d (f_Name f))
        @ validate_fields d (Suc j) (insert (f_Name f) seen) fs)"

text \<open>The first pass also builds \<^verbatim>\<open>datasets\<close>, by name.\<close>

fun validate_datasets :: "nat \<Rightarrow> (string \<rightharpoonup> Dataset) \<Rightarrow> Dataset list \<Rightarrow> spec_error list \<times> (string \<rightharpoonup> Dataset)" where
  "validate_datasets i ds [] = ([], ds)"
| "validate_datasets i ds (d # rest) =
     (if d_Name d = [] then
        let (es, ds') = validate_datasets (Suc i) ds rest in (DatasetNameRequired i # es, ds')
      else if ds (d_Name d) \<noteq> None then
        let (es, ds') = validate_datasets (Suc i) ds rest in (DuplicateDataset (d_Name d) # es, ds')
      else
        let (es, ds') = validate_datasets (Suc i) (ds(d_Name d \<mapsto> d)) rest
        in (check (d_Source d = []) (SourceRequired (d_Name d)) @ validate_fields (d_Name d) 0 {} (d_Fields d) @ es, ds'))"

definition validate_relationship :: "(string \<rightharpoonup> Dataset) \<Rightarrow> Relationship \<Rightarrow> spec_error list" where
  "validate_relationship ds r =
     check (ds (r_From r) = None) (FromUnknown (r_Name r) (r_From r))
     @ check (ds (r_To r) = None) (ToUnknown (r_Name r) (r_To r))
     @ check (r_FromColumns r = [] \<or> length (r_FromColumns r) \<noteq> length (r_ToColumns r)) (ColumnMismatch (r_Name r))"

fun validate_relationships :: "(string \<rightharpoonup> Dataset) \<Rightarrow> nat \<Rightarrow> string set \<Rightarrow> Relationship list \<Rightarrow> spec_error list" where
  "validate_relationships ds i seen [] = []"
| "validate_relationships ds i seen (r # rs) =
     (if r_Name r = [] then [RelationshipNameRequired i]
      else check (r_Name r \<in> seen) (DuplicateRelationship (r_Name r)))
     @ validate_relationship ds r @ validate_relationships ds (Suc i) (insert (r_Name r) seen) rs"

definition rel_edges :: "Relationship list \<Rightarrow> string \<Rightarrow> string list" where
  "rel_edges rs n = map r_To (filter (\<lambda>r. r_From r = n) rs)"

definition validate_ref :: "(string \<rightharpoonup> Dataset) \<Rightarrow> string \<Rightarrow> FieldRef \<Rightarrow> spec_error list" where
  "validate_ref ds name ref =
     (case ds (fr_Dataset ref) of
        None \<Rightarrow> [MetricUnknownDataset name (fr_Dataset ref)]
      | Some d \<Rightarrow> check (d_Fields d \<noteq> [] \<and> FindField d (fr_Field ref) = None)
                   (MetricUnknownField name (fr_Field ref) (fr_Dataset ref)))"

definition validate_denominator :: "(string \<rightharpoonup> Dataset) \<Rightarrow> string \<Rightarrow> MetricExpr \<Rightarrow> spec_error list" where
  "validate_denominator ds name pm =
     (case me_Denominator pm of
        None \<Rightarrow> []
      | Some den \<Rightarrow>
          if t_Distinct den then []
          else concat (map (\<lambda>n. case ds n of
                  None \<Rightarrow> []
                | Some d \<Rightarrow> check (d_PrimaryKey d = []) (DenominatorNoKey name n)) (termDatasets den)))"

definition validate_metric_body :: "(string \<rightharpoonup> Dataset) \<Rightarrow> Metric \<Rightarrow> spec_error list" where
  "validate_metric_body ds mt =
     (case Select (mt_Expression mt) of
        None \<Rightarrow> [MetricNoExpression (mt_Name mt)]
      | Some body \<Rightarrow>
          (case Parse body of
             Inl e \<Rightarrow> [MetricUnparsed (mt_Name mt) e]
           | Inr pm \<Rightarrow> concat (map (validate_ref ds (mt_Name mt)) (collectRefs pm))
               @ validate_denominator ds (mt_Name mt) pm))"

fun validate_metrics :: "(string \<rightharpoonup> Dataset) \<Rightarrow> nat \<Rightarrow> string set \<Rightarrow> Metric list \<Rightarrow> spec_error list" where
  "validate_metrics ds i seen [] = []"
| "validate_metrics ds i seen (mt # mts) =
     (if mt_Name mt = [] then MetricNameRequired i # validate_metrics ds (Suc i) seen mts
      else check (mt_Name mt \<in> seen) (DuplicateMetric (mt_Name mt)) @ validate_metric_body ds mt
        @ validate_metrics ds (Suc i) (insert (mt_Name mt) seen) mts)"

definition validate_row_filter :: "(string \<rightharpoonup> Dataset) \<Rightarrow> string \<Rightarrow> RowFilter \<Rightarrow> spec_error list" where
  "validate_row_filter ds role rf =
     check (ds (rf_Dataset rf) = None) (RowFilterNoDataset role (rf_Dataset rf))
     @ (if trim_space (rf_Predicate rf) = [] then [EmptyPredicate role (rf_Dataset rf)]
        else case ValidatablePredicate (rf_Predicate rf) of
               Inl e \<Rightarrow> [BadTemplate role (rf_Dataset rf) e]
             | Inr checkable \<Rightarrow>
                 (case ParsePredicate checkable of Inl e \<Rightarrow> [BadPredicate role (rf_Dataset rf) e] | Inr _ \<Rightarrow> []))"

definition validate_deny_field :: "(string \<rightharpoonup> Dataset) \<Rightarrow> string \<Rightarrow> string \<Rightarrow> spec_error list" where
  "validate_deny_field ds role df =
     check (case splitRef df of None \<Rightarrow> True | Some (n, _) \<Rightarrow> ds n = None) (BadDenyField role df)"

fun validate_roles :: "(string \<rightharpoonup> Dataset) \<Rightarrow> nat \<Rightarrow> string set \<Rightarrow> RolePolicy list \<Rightarrow> spec_error list" where
  "validate_roles ds i seen [] = []"
| "validate_roles ds i seen (r # rs) =
     (if rp_Name r = [] then RoleNameRequired i # validate_roles ds (Suc i) seen rs
      else check (rp_Name r \<in> seen) (DuplicateRole (rp_Name r))
        @ concat (map (validate_deny_field ds (rp_Name r)) (rp_DenyFields r))
        @ concat (map (validate_row_filter ds (rp_Name r)) (rp_RowFilters r))
        @ validate_roles ds (Suc i) (insert (rp_Name r) seen) rs)"

definition validate_governance :: "(string \<rightharpoonup> Dataset) \<Rightarrow> GovernanceSpec option \<Rightarrow> spec_error list" where
  "validate_governance ds gov =
     (case gov of
        None \<Rightarrow> []
      | Some g \<Rightarrow>
          (case g_External g of
             None \<Rightarrow> []
           | Some ext \<Rightarrow> check (\<not> validProviderRef (ext_ProviderRef ext)) (BadProviderRef (ext_ProviderRef ext)))
          @ validate_roles ds 0 {} (g_Roles g)
          @ check (g_DefaultRole g \<noteq> [] \<and> g_DefaultRole g \<notin> set (filter (\<lambda>n. n \<noteq> []) (map rp_Name (g_Roles g))))
              (UndefinedDefaultRole (g_DefaultRole g)))"

definition validate_dimension :: "(string \<rightharpoonup> Dataset) \<Rightarrow> string \<Rightarrow> string \<Rightarrow> spec_error list" where
  "validate_dimension ds view dm =
     (case splitRef dm of
        None \<Rightarrow> [ViewBadDimension view dm]
      | Some (n, f) \<Rightarrow>
          (case ds n of
             None \<Rightarrow> [ViewBadDimension view dm]
           | Some d \<Rightarrow>
               (case FindField d f of
                  None \<Rightarrow> [ViewUnknownField view f n]
                | Some field \<Rightarrow> check (f_Dimension field = None) (ViewNotDimension view dm))))"

definition validate_view :: "(string \<rightharpoonup> Dataset) \<Rightarrow> string set \<Rightarrow> GovernanceSpec option \<Rightarrow> ViewSpec \<Rightarrow> spec_error list" where
  "validate_view ds metrics gov v =
     check (v_Metrics v = []) (ViewNoMetrics (v_Name v))
     @ concat (map (\<lambda>mn. check (mn \<notin> metrics) (ViewUnknownMetric (v_Name v) mn)) (v_Metrics v))
     @ concat (map (validate_dimension ds (v_Name v)) (v_Dimensions v))
     @ check (v_Role v \<noteq> [] \<and> Role gov (v_Role v) = None) (ViewUnknownRole (v_Name v) (v_Role v))"

fun validate_views :: "(string \<rightharpoonup> Dataset) \<Rightarrow> string set \<Rightarrow> GovernanceSpec option \<Rightarrow> nat \<Rightarrow> string set \<Rightarrow> ViewSpec list
    \<Rightarrow> spec_error list" where
  "validate_views ds metrics gov i seen [] = []"
| "validate_views ds metrics gov i seen (v # vs) =
     (if v_Name v = [] then ViewNameRequired i # validate_views ds metrics gov (Suc i) seen vs
      else check (v_Name v \<in> seen) (DuplicateView (v_Name v)) @ validate_view ds metrics gov v
        @ validate_views ds metrics gov (Suc i) (insert (v_Name v) seen) vs)"

fun validate_joins :: "string set \<Rightarrow> nat \<Rightarrow> string set \<Rightarrow> RelationshipJoin list \<Rightarrow> spec_error list" where
  "validate_joins rels i seen [] = []"
| "validate_joins rels i seen (j # js) =
     check (rj_Relationship j \<notin> rels) (JoinUnknownRelationship i (rj_Relationship j))
     @ check (rj_Relationship j \<in> seen) (JoinDuplicate i (rj_Relationship j))
     @ check (rj_Type j \<noteq> ''INNER'' \<and> rj_Type j \<noteq> ''LEFT'') (JoinBadType i (rj_Type j))
     @ validate_joins rels (Suc i) (insert (rj_Relationship j) seen) js"

text \<open>\<open>order\<close> lists the keys of the edge map in the order Go iterates it; \<open>None\<close> would be a search that
  ran out of fuel.\<close>

definition ValidateSpec :: "string list \<Rightarrow> SemanticModelSpec \<Rightarrow> spec_error list option" where
  "ValidateSpec order spec =
     (let m = s_Ossie spec; conn = s_Connection spec;
          (ds_errs, ds) = validate_datasets 0 Map.empty (om_Datasets m);
          metrics = set (filter (\<lambda>n. n \<noteq> []) (map mt_Name (om_Metrics m)))
      in case findCycle (rel_edges (om_Relationships m)) order of
           None \<Rightarrow> None
         | Some cyc \<Rightarrow> Some
             (check (om_Name m = []) ModelNameRequired
              @ check (conn_Catalog conn = [] \<or> conn_Database conn = []) ConnectionRequired
              @ check (om_Datasets m = []) NoDatasets
              @ ds_errs
              @ validate_relationships ds 0 {} (om_Relationships m)
              @ check (cyc \<noteq> []) (RelationshipCycle cyc)
              @ validate_metrics ds 0 {} (om_Metrics m)
              @ validate_governance ds (s_Governance spec)
              @ validate_views ds metrics (s_Governance spec) 0 {} (s_Views spec)
              @ validate_joins (r_Name ` set (om_Relationships m)) 0 {} (s_Joins spec)))"

section \<open>What validation promises\<close>

text \<open>The conditions a valid spec meets, stated without loops or maps.\<close>

definition dataset_of :: "Dataset list \<Rightarrow> string \<Rightarrow> Dataset option" where
  "dataset_of ds n = find (\<lambda>d. d_Name d = n) ds"

definition valid_field :: "Field \<Rightarrow> bool" where
  "valid_field f \<longleftrightarrow> f_Name f \<noteq> [] \<and> Select (f_Expression f) \<noteq> None"

definition valid_dataset :: "Dataset \<Rightarrow> bool" where
  "valid_dataset d \<longleftrightarrow> d_Name d \<noteq> [] \<and> d_Source d \<noteq> [] \<and> distinct (map f_Name (d_Fields d))
     \<and> (\<forall>f\<in>set (d_Fields d). valid_field f)"

definition valid_relationship :: "Dataset list \<Rightarrow> Relationship \<Rightarrow> bool" where
  "valid_relationship ds r \<longleftrightarrow> r_Name r \<noteq> [] \<and> r_From r \<in> d_Name ` set ds \<and> r_To r \<in> d_Name ` set ds
     \<and> r_FromColumns r \<noteq> [] \<and> length (r_FromColumns r) = length (r_ToColumns r)"

definition valid_metric_ref :: "Dataset list \<Rightarrow> FieldRef \<Rightarrow> bool" where
  "valid_metric_ref ds ref \<longleftrightarrow>
     (\<exists>d\<in>set ds. d_Name d = fr_Dataset ref \<and> (d_Fields d = [] \<or> fr_Field ref \<in> f_Name ` set (d_Fields d)))"

definition valid_metric :: "Dataset list \<Rightarrow> Metric \<Rightarrow> bool" where
  "valid_metric ds mt \<longleftrightarrow> mt_Name mt \<noteq> [] \<and>
     (\<exists>body pm. Select (mt_Expression mt) = Some body \<and> Parse body = Inr pm
        \<and> (\<forall>ref\<in>set (collectRefs pm). valid_metric_ref ds ref)
        \<and> (\<forall>den. me_Denominator pm = Some den \<longrightarrow> \<not> t_Distinct den \<longrightarrow>
             (\<forall>ref\<in>set (t_Refs den). \<forall>d\<in>set ds. d_Name d = fr_Dataset ref \<longrightarrow> d_PrimaryKey d \<noteq> [])))"

definition valid_row_filter :: "Dataset list \<Rightarrow> RowFilter \<Rightarrow> bool" where
  "valid_row_filter ds rf \<longleftrightarrow> rf_Dataset rf \<in> d_Name ` set ds \<and> trim_space (rf_Predicate rf) \<noteq> []
     \<and> (\<exists>checkable cols. ValidatablePredicate (rf_Predicate rf) = (Inr checkable :: (unit gov_error, string) result)
          \<and> ParsePredicate checkable = Inr cols)"

definition valid_role :: "Dataset list \<Rightarrow> RolePolicy \<Rightarrow> bool" where
  "valid_role ds r \<longleftrightarrow> rp_Name r \<noteq> []
     \<and> (\<forall>df\<in>set (rp_DenyFields r). \<exists>n f. splitRef df = Some (n, f) \<and> n \<in> d_Name ` set ds)
     \<and> (\<forall>rf\<in>set (rp_RowFilters r). valid_row_filter ds rf)"

definition valid_governance :: "Dataset list \<Rightarrow> GovernanceSpec \<Rightarrow> bool" where
  "valid_governance ds g \<longleftrightarrow> (\<forall>ext. g_External g = Some ext \<longrightarrow> validProviderRef (ext_ProviderRef ext))
     \<and> distinct (map rp_Name (g_Roles g)) \<and> (\<forall>r\<in>set (g_Roles g). valid_role ds r)
     \<and> (g_DefaultRole g = [] \<or> g_DefaultRole g \<in> rp_Name ` set (g_Roles g))"

definition valid_dimension :: "Dataset list \<Rightarrow> string \<Rightarrow> bool" where
  "valid_dimension ds dm \<longleftrightarrow> (\<exists>n f d field. splitRef dm = Some (n, f) \<and> dataset_of ds n = Some d
     \<and> FindField d f = Some field \<and> f_Dimension field \<noteq> None)"

definition valid_view :: "SemanticModelSpec \<Rightarrow> ViewSpec \<Rightarrow> bool" where
  "valid_view spec v \<longleftrightarrow> v_Name v \<noteq> [] \<and> v_Metrics v \<noteq> [] \<and> set (v_Metrics v) \<subseteq> mt_Name ` set (om_Metrics (s_Ossie spec))
     \<and> (\<forall>dm\<in>set (v_Dimensions v). valid_dimension (om_Datasets (s_Ossie spec)) dm)
     \<and> (v_Role v = [] \<or> Role (s_Governance spec) (v_Role v) \<noteq> None)"

definition valid_join :: "Relationship list \<Rightarrow> RelationshipJoin \<Rightarrow> bool" where
  "valid_join rels j \<longleftrightarrow> rj_Relationship j \<in> r_Name ` set rels \<and> rj_Type j \<in> {''INNER'', ''LEFT''}"

definition valid_spec :: "SemanticModelSpec \<Rightarrow> bool" where
  "valid_spec spec \<longleftrightarrow>
     (let m = s_Ossie spec; ds = om_Datasets m; rels = om_Relationships m
      in om_Name m \<noteq> [] \<and> conn_Catalog (s_Connection spec) \<noteq> [] \<and> conn_Database (s_Connection spec) \<noteq> []
         \<and> ds \<noteq> [] \<and> distinct (map d_Name ds) \<and> (\<forall>d\<in>set ds. valid_dataset d)
         \<and> distinct (map r_Name rels) \<and> (\<forall>r\<in>set rels. valid_relationship ds r)
         \<and> acyclic {(r_From r, r_To r) |r. r \<in> set rels}
         \<and> distinct (map mt_Name (om_Metrics m)) \<and> (\<forall>mt\<in>set (om_Metrics m). valid_metric ds mt)
         \<and> (\<forall>g. s_Governance spec = Some g \<longrightarrow> valid_governance ds g)
         \<and> distinct (map v_Name (s_Views spec)) \<and> (\<forall>v\<in>set (s_Views spec). valid_view spec v)
         \<and> distinct (map rj_Relationship (s_Joins spec)) \<and> (\<forall>j\<in>set (s_Joins spec). valid_join rels j))"

lemma check_Nil [simp]: "check b e = [] \<longleftrightarrow> \<not> b"
  by simp

lemma validate_fields_Nil:
  "validate_fields d j seen fs = [] \<longleftrightarrow>
     (\<forall>f\<in>set fs. valid_field f) \<and> distinct (map f_Name fs) \<and> f_Name ` set fs \<inter> seen = {}"
  by (induction d j seen fs rule: validate_fields.induct) (auto simp: valid_field_def)

lemma validate_datasets_Cons:
  "fst (validate_datasets i ds (d # rest)) = [] \<longleftrightarrow>
     d_Name d \<noteq> [] \<and> d_Name d \<notin> dom ds \<and> valid_dataset d
     \<and> fst (validate_datasets (Suc i) (ds(d_Name d \<mapsto> d)) rest) = []"
  "fst (validate_datasets i ds (d # rest)) = [] \<Longrightarrow>
     snd (validate_datasets i ds (d # rest)) = snd (validate_datasets (Suc i) (ds(d_Name d \<mapsto> d)) rest)"
  by (auto simp: valid_dataset_def validate_fields_Nil case_prod_unfold Let_def split: if_split_asm)

lemmas [simp del] = validate_datasets.simps(2)

lemma validate_datasets_Nil:
  "fst (validate_datasets i ds rest) = [] \<longleftrightarrow>
     (\<forall>d\<in>set rest. valid_dataset d) \<and> distinct (map d_Name rest) \<and> d_Name ` set rest \<inter> dom ds = {}"
proof (induction rest arbitrary: i ds)
  case (Cons d rest)
  show ?case unfolding validate_datasets_Cons Cons.IH by (auto simp: valid_dataset_def)
qed simp

lemma dataset_of_Cons: "dataset_of (d # ds) n = (if d_Name d = n then Some d else dataset_of ds n)"
  by (simp add: dataset_of_def)

lemma dataset_of_None: "dataset_of ds n = None \<longleftrightarrow> n \<notin> d_Name ` set ds"
  by (simp add: dataset_of_def find_name_None)

lemma validate_datasets_map:
  "fst (validate_datasets i ds rest) = [] \<Longrightarrow> snd (validate_datasets i ds rest) n =
     (case dataset_of rest n of Some d \<Rightarrow> Some d | None \<Rightarrow> ds n)"
proof (induction rest arbitrary: i ds)
  case (Cons d rest)
  from Cons(2) have r: "fst (validate_datasets (Suc i) (ds(d_Name d \<mapsto> d)) rest) = []"
    by (simp add: validate_datasets_Cons)
  then have "d_Name d \<notin> d_Name ` set rest" by (auto simp: validate_datasets_Nil)
  then have "dataset_of rest (d_Name d) = None" by (simp add: dataset_of_def find_name_None)
  then show ?case unfolding validate_datasets_Cons(2)[OF Cons(2)] Cons.IH[OF r]
    by (cases "d_Name d = n") (auto simp: dataset_of_Cons split: option.splits)
qed (simp add: dataset_of_def)

lemma validate_relationship_Nil:
  assumes "\<And>n. ds n = dataset_of dl n"
  shows "validate_relationship ds r = [] \<and> r_Name r \<noteq> [] \<longleftrightarrow> valid_relationship dl r"
  by (auto simp: validate_relationship_def valid_relationship_def assms dataset_of_def find_name_None)

lemma validate_relationships_Nil:
  assumes "\<And>n. ds n = dataset_of dl n"
  shows "validate_relationships ds i seen rs = [] \<longleftrightarrow>
     (\<forall>r\<in>set rs. valid_relationship dl r) \<and> distinct (map r_Name rs) \<and> r_Name ` set rs \<inter> seen = {}"
proof (induction rs arbitrary: i seen)
  case (Cons r rs)
  show ?case using validate_relationship_Nil[OF assms, of r] Cons.IH by (auto simp: valid_relationship_def)
qed simp

lemma set_first_seen: "set (first_seen seen xs) = set xs - set seen"
  by (induction seen xs rule: first_seen.induct) auto

lemma dataset_of_Some:
  "distinct (map d_Name dl) \<Longrightarrow> dataset_of dl n = Some d \<longleftrightarrow> d \<in> set dl \<and> d_Name d = n"
  by (induction dl) (auto simp: dataset_of_def)

lemma dataset_of_unique:
  assumes "distinct (map d_Name dl)" "dataset_of dl n = Some d"
  shows "d \<in> set dl" "d_Name d = n" "e \<in> set dl \<Longrightarrow> d_Name e = n \<longleftrightarrow> e = d"
  using assms dataset_of_Some[OF assms(1), of n d] dataset_of_Some[OF assms(1), of n e] by auto

lemma validate_ref_Nil:
  assumes "\<And>n. ds n = dataset_of dl n" "distinct (map d_Name dl)"
  shows "validate_ref ds name ref = [] \<longleftrightarrow> valid_metric_ref dl ref"
proof (cases "dataset_of dl (fr_Dataset ref)")
  case None
  then have "\<forall>d\<in>set dl. d_Name d \<noteq> fr_Dataset ref" using dataset_of_None[of dl "fr_Dataset ref"] by force
  then show ?thesis by (auto simp: validate_ref_def valid_metric_ref_def assms(1) None)
next
  case (Some d)
  note d = dataset_of_unique[OF assms(2) Some]
  have "valid_metric_ref dl ref \<longleftrightarrow> d_Fields d = [] \<or> fr_Field ref \<in> f_Name ` set (d_Fields d)"
    using d by (auto simp: valid_metric_ref_def)
  with Some show ?thesis by (auto simp: validate_ref_def assms(1) FindField_def find_name_None)
qed

lemma validate_denominator_Nil:
  assumes "\<And>n. ds n = dataset_of dl n" "distinct (map d_Name dl)"
  shows "validate_denominator ds name pm = [] \<longleftrightarrow>
     (\<forall>den. me_Denominator pm = Some den \<longrightarrow> \<not> t_Distinct den \<longrightarrow>
        (\<forall>ref\<in>set (t_Refs den). \<forall>d\<in>set dl. d_Name d = fr_Dataset ref \<longrightarrow> d_PrimaryKey d \<noteq> []))"
proof -
  have key: "(case ds n of None \<Rightarrow> [] | Some d \<Rightarrow> check (d_PrimaryKey d = []) (DenominatorNoKey name n)) = []
      \<longleftrightarrow> (\<forall>d\<in>set dl. d_Name d = n \<longrightarrow> d_PrimaryKey d \<noteq> [])" for n
  proof (cases "dataset_of dl n")
    case None
    then show ?thesis using dataset_of_None[of dl n] by (auto simp: assms(1))
  next
    case (Some d)
    note d = dataset_of_unique[OF assms(2) Some]
    have "(\<forall>e\<in>set dl. d_Name e = n \<longrightarrow> d_PrimaryKey e \<noteq> []) \<longleftrightarrow> d_PrimaryKey d \<noteq> []" using d by auto
    with Some show ?thesis by (simp add: assms(1))
  qed
  show ?thesis
    by (auto simp: validate_denominator_def termDatasets_def set_first_seen key split: option.splits)
qed

lemma validate_metric_body_Nil:
  assumes "\<And>n. ds n = dataset_of dl n" "distinct (map d_Name dl)"
  shows "validate_metric_body ds mt = [] \<and> mt_Name mt \<noteq> [] \<longleftrightarrow> valid_metric dl mt"
  by (auto simp: validate_metric_body_def valid_metric_def validate_ref_Nil[OF assms] validate_denominator_Nil[OF assms]
      split: option.splits sum.splits)

lemma validate_metrics_Nil:
  assumes "\<And>n. ds n = dataset_of dl n" "distinct (map d_Name dl)"
  shows "validate_metrics ds i seen mts = [] \<longleftrightarrow>
     (\<forall>mt\<in>set mts. valid_metric dl mt) \<and> distinct (map mt_Name mts) \<and> mt_Name ` set mts \<inter> seen = {}"
proof (induction mts arbitrary: i seen)
  case (Cons mt mts)
  have n: "valid_metric dl mt \<Longrightarrow> mt_Name mt \<noteq> []" by (simp add: valid_metric_def)
  show ?case using validate_metric_body_Nil[OF assms, of mt] Cons.IH n by auto
qed simp

lemma concat_map_Nil: "concat (map f xs) = [] \<longleftrightarrow> (\<forall>x\<in>set xs. f x = [])"
  by auto

lemma validate_row_filter_Nil:
  assumes "\<And>n. ds n = dataset_of dl n"
  shows "validate_row_filter ds role rf = [] \<longleftrightarrow> valid_row_filter dl rf"
  by (auto simp: validate_row_filter_def valid_row_filter_def assms dataset_of_None split: sum.splits)

lemma validate_deny_field_Nil:
  assumes "\<And>n. ds n = dataset_of dl n"
  shows "validate_deny_field ds role df = [] \<longleftrightarrow> (\<exists>n f. splitRef df = Some (n, f) \<and> n \<in> d_Name ` set dl)"
  by (auto simp: validate_deny_field_def assms dataset_of_None split: option.splits)

lemma validate_roles_Nil:
  assumes "\<And>n. ds n = dataset_of dl n"
  shows "validate_roles ds i seen rs = [] \<longleftrightarrow>
     (\<forall>r\<in>set rs. valid_role dl r) \<and> distinct (map rp_Name rs) \<and> rp_Name ` set rs \<inter> seen = {}"
proof (induction rs arbitrary: i seen)
  case (Cons r rs)
  show ?case
    by (auto simp: Cons.IH valid_role_def validate_row_filter_Nil[OF assms] validate_deny_field_Nil[OF assms]
        simp del: concat_eq_Nil_conv simp: concat_map_Nil)
qed simp

lemma validate_governance_Nil:
  assumes "\<And>n. ds n = dataset_of dl n"
  shows "validate_governance ds gov = [] \<longleftrightarrow> (\<forall>g. gov = Some g \<longrightarrow> valid_governance dl g)"
proof (cases gov)
  case (Some g)
  have "valid_role dl r \<Longrightarrow> rp_Name r \<noteq> []" for r by (simp add: valid_role_def)
  then show ?thesis
    by (auto simp: Some validate_governance_def valid_governance_def validate_roles_Nil[OF assms] split: option.splits)
qed (simp add: validate_governance_def)

lemma validate_dimension_Nil:
  assumes "\<And>n. ds n = dataset_of dl n"
  shows "validate_dimension ds view dm = [] \<longleftrightarrow> valid_dimension dl dm"
  by (auto simp: validate_dimension_def valid_dimension_def assms split: option.splits)

lemma validate_views_Nil:
  assumes "\<And>n. ds n = dataset_of (om_Datasets (s_Ossie spec)) n"
    "metrics = set (filter (\<lambda>n. n \<noteq> []) (map mt_Name (om_Metrics (s_Ossie spec))))"
    "[] \<notin> mt_Name ` set (om_Metrics (s_Ossie spec))"
  shows "validate_views ds metrics (s_Governance spec) i seen vs = [] \<longleftrightarrow>
     (\<forall>v\<in>set vs. valid_view spec v) \<and> distinct (map v_Name vs) \<and> v_Name ` set vs \<inter> seen = {}"
proof (induction vs arbitrary: i seen)
  case (Cons v vs)
  have m: "x \<in> metrics \<longleftrightarrow> x \<in> mt_Name ` set (om_Metrics (s_Ossie spec))" for x using assms(2,3) by (auto simp: image_iff)
  show ?case
    by (auto simp: Cons.IH valid_view_def validate_view_def m subset_iff validate_dimension_Nil[OF assms(1)]
        simp del: concat_eq_Nil_conv simp: concat_map_Nil)
qed simp

lemma validate_joins_Nil:
  "validate_joins (r_Name ` set rels) i seen js = [] \<longleftrightarrow>
     (\<forall>j\<in>set js. valid_join rels j) \<and> distinct (map rj_Relationship js) \<and> rj_Relationship ` set js \<inter> seen = {}"
proof (induction js arbitrary: i seen)
  case (Cons j js)
  show ?case by (auto simp: Cons.IH valid_join_def)
qed simp

lemma rel_edges_rel: "succ_rel (rel_edges rs) = {(r_From r, r_To r) |r. r \<in> set rs}"
  by (auto simp: rel_edges_def)

lemma rel_edges_key: "rel_edges rs n \<noteq> [] \<longleftrightarrow> n \<in> r_From ` set rs"
  by (auto simp: rel_edges_def filter_empty_conv)

lemma ValidateSpec_facts:
  assumes "r_From ` set (om_Relationships (s_Ossie spec)) \<subseteq> set order"
  shows "\<exists>errs. ValidateSpec order spec = Some errs \<and> (errs = [] \<longleftrightarrow> valid_spec spec)"
proof -
  let ?m = "s_Ossie spec"
  have "\<exists>c. findCycle (rel_edges (om_Relationships ?m)) order = Some c
      \<and> (c = [] \<longleftrightarrow> acyclic (succ_rel (rel_edges (om_Relationships ?m))))
      \<and> (c \<noteq> [] \<longrightarrow> (\<exists>p. c = join '' -> '' p \<and> closes_cycle (rel_edges (om_Relationships ?m)) p))"
    by (rule findCycle_facts) (use assms in \<open>auto simp: rel_edges_key\<close>)
  then obtain cyc where cyc: "findCycle (rel_edges (om_Relationships ?m)) order = Some cyc"
    "cyc = [] \<longleftrightarrow> acyclic {(r_From r, r_To r) |r. r \<in> set (om_Relationships ?m)}"
    unfolding rel_edges_rel by blast
  obtain es ds where vd: "validate_datasets 0 Map.empty (om_Datasets ?m) = (es, ds)" by fastforce
  have es: "es = [] \<longleftrightarrow> (\<forall>d\<in>set (om_Datasets ?m). valid_dataset d) \<and> distinct (map d_Name (om_Datasets ?m))"
    using validate_datasets_Nil[of 0 Map.empty "om_Datasets ?m"] by (simp add: vd)
  show ?thesis
  proof (cases "es = []")
    case False
    with es show ?thesis by (auto simp: ValidateSpec_def Let_def vd cyc(1) valid_spec_def)
  next
    case True
    have ds: "ds n = dataset_of (om_Datasets ?m) n" for n
      using validate_datasets_map[of 0 Map.empty "om_Datasets ?m" n] True vd by (simp split: option.splits)
    note dist = conjunct2[OF es[THEN iffD1, OF True]]
    note nil = validate_relationships_Nil[OF ds] validate_metrics_Nil[OF ds dist] validate_governance_Nil[OF ds]
      validate_joins_Nil
    show ?thesis
    proof (cases "\<forall>mt\<in>set (om_Metrics ?m). valid_metric (om_Datasets ?m) mt")
      case m: True
      then have "[] \<notin> mt_Name ` set (om_Metrics ?m)" by (auto simp: valid_metric_def)
      note views = validate_views_Nil[OF ds refl this, unfolded set_filter set_map]
      show ?thesis using es True cyc(2) m
        by (simp add: ValidateSpec_def Let_def vd cyc(1) valid_spec_def nil views) blast
    next
      case False
      then show ?thesis by (simp add: ValidateSpec_def Let_def vd cyc(1) valid_spec_def nil) blast
    qed
  qed
qed

section \<open>The theorems\<close>

text \<open>
  C20. Validation is exact: whatever order Go iterates the edge map in, the validator returns, and it
  returns no error for exactly the specs that meet the declarative conditions: unique non-empty
  names, references that resolve, an acyclic join graph, metrics in the grammar over known fields,
  a primary key under every ratio denominator that needs one, row filters in the predicate
  grammar, views over existing metrics, dimensions and roles, join overrides used once.
\<close>

theorem ValidateSpec_exact:
  "r_From ` set (om_Relationships (s_Ossie spec)) \<subseteq> set order \<Longrightarrow>
   \<exists>errs. ValidateSpec order spec = Some errs \<and> (errs = [] \<longleftrightarrow> valid_spec spec)"
  by (rule ValidateSpec_facts)

definition sample_rel :: "string \<Rightarrow> string \<Rightarrow> string \<Rightarrow> Relationship" where
  "sample_rel n a b = \<lparr>r_Name = n, r_From = a, r_To = b, r_FromColumns = [''k''], r_ToColumns = [''id''],
     r_AIContext = None, r_CustomExtensions = []\<rparr>"

definition spec_over :: "Dataset list \<Rightarrow> Relationship list \<Rightarrow> Metric list \<Rightarrow> SemanticModelSpec" where
  "spec_over ds rels ms = sample_spec\<lparr>s_Ossie := (s_Ossie sample_spec)\<lparr>om_Datasets := ds, om_Relationships := rels,
     om_Metrics := ms\<rparr>\<rparr>"

lemma sample_spec_validates: "ValidateSpec [] sample_spec = Some []"
  by code_simp

theorem ValidateSpec_exact_witness:
  "ValidateSpec [] sample_spec = Some [] \<and> valid_spec sample_spec"
proof -
  have "r_From ` set (om_Relationships (s_Ossie sample_spec)) \<subseteq> set []" by (simp add: sample_spec_def)
  from ValidateSpec_exact[OF this] sample_spec_validates show ?thesis by auto
qed

lemma compile_valid_dataset:
  assumes "valid_dataset d" "length (split_at CHR ''.'' (d_Source d)) \<le> 3"
  shows "\<exists>cd. compile_dataset conn d = Inr cd"
proof -
  have "ResolveSource (d_Source d) conn \<noteq> None"
    using assms(2) split_at_not_Nil[of "CHR ''.''" "d_Source d"]
    by (auto simp: ResolveSource_def split: list.splits)
  moreover have "\<exists>fs. emap (compile_field (d_Name d)) (d_Fields d) = Inr fs"
    by (rule emap_total) (use assms(1) in \<open>auto simp: valid_dataset_def valid_field_def compile_field_def\<close>)
  ultimately show ?thesis by (auto simp: compile_dataset_def)
qed

lemma compile_valid_metric: "valid_metric ds mt \<Longrightarrow> \<exists>cm. compile_metric mt = Inr cm"
  by (auto simp: valid_metric_def compile_metric_def)

lemma Compile_parts:
  assumes "Compile marshal spec ns res = Inr cm"
  shows "cm_DatasetOrder cm = map d_Name (om_Datasets (s_Ossie spec))"
    "cm_Relationships cm = map (compile_relationship (s_Joins spec)) (om_Relationships (s_Ossie spec))"
    "cm_Governance cm = s_Governance spec"
  using assms by (auto simp: Compile_def result_simps Let_def)

lemma valid_sound_model:
  assumes "valid_spec spec" "Compile marshal spec ns res = Inr cm"
  shows "sound_model cm"
  using Compile_wf_model[OF assms(2)] assms(1) Compile_parts[OF assms(2)]
  by (auto simp: sound_model_def valid_spec_def Let_def valid_relationship_def compile_relationship_def)

lemma valid_spec_Compile:
  assumes v: "valid_spec spec"
    and s: "\<forall>d\<in>set (om_Datasets (s_Ossie spec)). length (split_at CHR ''.'' (d_Source d)) \<le> 3"
  shows "\<exists>cm. Compile marshal spec ns res = Inr cm"
proof -
  have "\<exists>ds. emap (compile_dataset (s_Connection spec)) (om_Datasets (s_Ossie spec)) = Inr ds"
    by (rule emap_total) (use v s in \<open>auto simp: valid_spec_def Let_def intro: compile_valid_dataset\<close>)
  moreover have "\<exists>ms. emap compile_metric (om_Metrics (s_Ossie spec)) = Inr ms"
    by (rule emap_total) (use v in \<open>auto simp: valid_spec_def Let_def intro: compile_valid_metric\<close>)
  ultimately show ?thesis by (auto simp: Compile_def Let_def)
qed

lemma Compile_join_graph:
  assumes "Compile marshal spec ns res = Inr cm"
  shows "(\<lambda>r. (cr_From r, cr_To r)) ` set (cm_Relationships cm)
    = (\<lambda>r. (r_From r, r_To r)) ` set (om_Relationships (s_Ossie spec))"
  by (simp add: Compile_parts[OF assms] image_image compile_relationship_def)

text \<open>
  C21. A spec that validates compiles, provided its sources have at most three dotted parts, into a model
  on which planning cannot go wrong internally: its relationships join known datasets on as many
  columns on each side, over an acyclic graph.
\<close>

theorem validated_spec_compiles:
  assumes "r_From ` set (om_Relationships (s_Ossie spec)) \<subseteq> set order" "ValidateSpec order spec = Some []"
    "\<forall>d\<in>set (om_Datasets (s_Ossie spec)). length (split_at CHR ''.'' (d_Source d)) \<le> 3"
  shows "\<exists>cm. Compile marshal spec ns res = Inr cm \<and> sound_model cm
     \<and> acyclic ((\<lambda>r. (cr_From r, cr_To r)) ` set (cm_Relationships cm))"
proof -
  have v: "valid_spec spec" using ValidateSpec_facts[OF assms(1)] assms(2) by auto
  then obtain cm where cm: "Compile marshal spec ns res = Inr cm" using valid_spec_Compile assms(3) by blast
  from v have "acyclic ((\<lambda>r. (r_From r, r_To r)) ` set (om_Relationships (s_Ossie spec)))"
    by (simp add: valid_spec_def Let_def setcompr_eq_image)
  with cm valid_sound_model[OF v cm] Compile_join_graph[OF cm] show ?thesis by auto
qed

theorem validated_spec_compiles_witness:
  "\<exists>cm. Compile (\<lambda>_. []) sample_spec [] [] = Inr cm \<and> sound_model cm"
proof -
  have "r_From ` set (om_Relationships (s_Ossie sample_spec)) \<subseteq> set []"
    "\<forall>d\<in>set (om_Datasets (s_Ossie sample_spec)). length (split_at CHR ''.'' (d_Source d)) \<le> 3"
    by (simp_all add: sample_spec_def sample_dataset_def)
  from validated_spec_compiles[OF this(1) sample_spec_validates this(2)] show ?thesis by blast
qed

text \<open>
  A provider reference is accepted exactly when it is a DNS label: one to 63 characters, lowercase
  letters, digits and hyphens, with neither end a hyphen.
\<close>

lemma validProviderRef_iff:
  "validProviderRef s \<longleftrightarrow> s \<noteq> [] \<and> length s \<le> 63 \<and> label_char (hd s) \<and> label_char (last s)
     \<and> (\<forall>c\<in>set s. label_char c \<or> c = CHR ''-'')"
proof (cases s)
  case (Cons c cs)
  have "set cs = (!) s ` set [1..<length s]"
  proof -
    have "map ((!) s) [1..<length s] = map ((!) cs) [0..<length cs]"
      by (simp add: Cons map_Suc_upt[symmetric] del: upt_Suc)
    then show ?thesis by (metis map_nth set_map)
  qed
  then have all: "(\<exists>i\<in>set [1..<length s]. \<not> label_char (s ! i) \<and> s ! i \<noteq> CHR ''-'')
      \<longleftrightarrow> \<not> (\<forall>c\<in>set cs. label_char c \<or> c = CHR ''-'')" by auto
  have h: "\<not> label_char CHR ''-''" by (simp add: label_char_def byte_defs)
  have l: "last s \<in> set s" "s ! (length s - 1) = last s" "s ! 0 = c" "hd s = c" using Cons by (simp_all add: last_conv_nth)
  have "validProviderRef s \<longleftrightarrow> length s \<le> 63 \<and> label_char c \<and> (\<forall>c\<in>set cs. label_char c \<or> c = CHR ''-'') \<and> last s \<noteq> CHR ''-''"
    unfolding validProviderRef_def all l(2,3) using Cons by auto
  moreover have "last s = c \<or> last s \<in> set cs" using Cons by (auto simp: last_ConsR)
  ultimately show ?thesis using Cons h l(4) by auto
qed (simp add: validProviderRef_def)

lemma validProviderRef_examples:
  "validProviderRef ''opa-1'' \<and> \<not> validProviderRef ''opa-'' \<and> \<not> validProviderRef ''Opa''"
  by (simp add: validProviderRef_iff label_char_def byte_defs)

section \<open>Gaps\<close>

text \<open>
  Validation does not look at the number of dotted parts of a source, so a spec without a
  validation error can still fail to compile.
\<close>

theorem validated_source_may_not_compile:
  "ValidateSpec [] (spec_over [sample_dataset ''s'' ''a.b.c.d'' [] []] [] []) = Some []
   \<and> Compile marshal (spec_over [sample_dataset ''s'' ''a.b.c.d'' [] []] [] []) ns res = Inl (BadSource ''s'' ''a.b.c.d'')"
proof -
  have "ResolveSource ''a.b.c.d'' conn = None" for conn by (simp add: ResolveSource_def)
  then have "compile_dataset conn (sample_dataset ''s'' ''a.b.c.d'' [] []) = Inl (BadSource ''s'' ''a.b.c.d'')" for conn
    by (simp add: compile_dataset_def sample_dataset_def)
  then have "Compile marshal (spec_over [sample_dataset ''s'' ''a.b.c.d'' [] []] [] []) ns res = Inl (BadSource ''s'' ''a.b.c.d'')"
    by (simp add: Compile_def spec_over_def Let_def)
  moreover have "ValidateSpec [] (spec_over [sample_dataset ''s'' ''a.b.c.d'' [] []] [] []) = Some []" by code_simp
  ultimately show ?thesis by simp
qed

definition diamond :: SemanticModelSpec where
  "diamond = spec_over (map (\<lambda>n. sample_dataset n n [] []) [''a'', ''b'', ''c'', ''d''])
     [sample_rel ''ab'' ''a'' ''b'', sample_rel ''ac'' ''a'' ''c'', sample_rel ''bd'' ''b'' ''d'', sample_rel ''cd'' ''c'' ''d''] []"

lemma joinTree_cong:
  "cm_DatasetOrder cm = cm_DatasetOrder cm' \<Longrightarrow> cm_Relationships cm = cm_Relationships cm' \<Longrightarrow>
   joinTree cm req = joinTree cm' req"
  by (simp add: joinTree_def)

text \<open>
  The message for a cycle says the join graph must be a tree, but only cycles are refused: two paths
  between the same datasets validate, and the plan silently takes the one whose relationship is
  declared first.
\<close>

theorem diamond_validates:
  "ValidateSpec [''a'', ''b'', ''c''] diamond = Some []
   \<and> (\<exists>cm js. Compile marshal diamond ns res = Inr cm \<and> joinTree cm [''a'', ''d''] = Inr (''a'', js)
        \<and> map cr_Name js = [''ab'', ''bd''])"
proof -
  let ?ds = "om_Datasets (s_Ossie diamond)" and ?rels = "map (compile_relationship []) (om_Relationships (s_Ossie diamond))"
  have v: "ValidateSpec [''a'', ''b'', ''c''] diamond = Some []" by code_simp
  have "r_From ` set (om_Relationships (s_Ossie diamond)) \<subseteq> set [''a'', ''b'', ''c'']" by code_simp
  from ValidateSpec_facts[OF this] v have "valid_spec diamond" by auto
  moreover have "\<forall>d\<in>set ?ds. length (split_at CHR ''.'' (d_Source d)) \<le> 3" by code_simp
  ultimately obtain cm where cm: "Compile marshal diamond ns res = Inr cm" using valid_spec_Compile by blast
  let ?cm = "star_model\<lparr>cm_DatasetOrder := map d_Name ?ds, cm_Relationships := ?rels\<rparr>"
  have joins: "s_Joins diamond = []" by (simp add: diamond_def spec_over_def sample_spec_def)
  have "case joinTree ?cm [''a'', ''d''] of Inl e \<Rightarrow> False | Inr (root, js) \<Rightarrow> root = ''a'' \<and> map cr_Name js = [''ab'', ''bd'']"
    by code_simp
  moreover have "joinTree cm [''a'', ''d''] = joinTree ?cm [''a'', ''d'']"
    by (rule joinTree_cong) (simp_all add: Compile_parts[OF cm] joins)
  ultimately show ?thesis using v cm by (auto split: sum.splits prod.splits)
qed

text \<open>A compiled model to plan against, with the datasets \<open>s\<close> and \<open>c\<close> joined by \<open>s.k = c.id\<close>.\<close>

definition plain_model :: "CompiledDataset list \<Rightarrow> CompiledMetric \<Rightarrow> CompiledModel" where
  "plain_model ds m = open_shop\<lparr>cm_Datasets := map_by cd_Name ds, cm_DatasetOrder := map cd_Name ds,
     cm_Metrics := [cmt_Name m \<mapsto> m], cm_MetricOrder := [cmt_Name m]\<rparr>"

definition lim_per_buyer :: CompiledMetric where
  "lim_per_buyer = shop_metric ''x'' ''SUM(c.lim)/COUNT(DISTINCT s.cid)''
     (shop_term ''SUM'' False ''c.lim'' [\<lparr>fr_Dataset = ''c'', fr_Field = ''lim''\<rparr>])
     (Some (shop_term ''COUNT'' True ''s.cid'' [\<lparr>fr_Dataset = ''s'', fr_Field = ''cid''\<rparr>]))"

text \<open>
  A dataset that declares no fields is exempt from the check of metric references, but the renderer
  has no such exemption: a metric over it validates, and every request for it fails.
\<close>

theorem fieldless_dataset_cannot_be_planned:
  "ValidateSpec [] (spec_over [sample_dataset ''s'' ''s'' [] []] [] [sample_metric ''rev'' ''SUM(s.amt)'']) = Some []
   \<and> Build star_glob (plain_model [shop_dataset ''s'' [] []] revenue) trino (empty_Request\<lparr>req_Metrics := [''rev'']\<rparr>) no_identity
     = Inl (RenderRef (UnknownField ''amt'' ''s''))"
proof -
  have "ebind (resolve_request (plain_model [shop_dataset ''s'' [] []] revenue) (empty_Request\<lparr>req_Metrics := [''rev'']\<rparr>))
      (\<lambda>rs. ebind (govern star_glob (plain_model [shop_dataset ''s'' [] []] revenue) trino (empty_Request\<lparr>req_Metrics := [''rev'']\<rparr>) no_identity rs)
      (\<lambda>(dec, groups). plan_query (plain_model [shop_dataset ''s'' [] []] revenue) trino (empty_Request\<lparr>req_Metrics := [''rev'']\<rparr>) rs groups))
     = Inl (RenderRef (UnknownField ''amt'' ''s''))"
    by code_simp
  then have "Build star_glob (plain_model [shop_dataset ''s'' [] []] revenue) trino (empty_Request\<lparr>req_Metrics := [''rev'']\<rparr>) no_identity
     = Inl (RenderRef (UnknownField ''amt'' ''s''))" by (rule Build_Inl)
  moreover have "ValidateSpec [] (spec_over [sample_dataset ''s'' ''s'' [] []] [] [sample_metric ''rev'' ''SUM(s.amt)'']) = Some []"
    by code_simp
  ultimately show ?thesis by simp
qed

definition keyless_spec :: SemanticModelSpec where
  "keyless_spec = spec_over
     [sample_dataset ''s'' ''s'' [] [sample_field ''cid'' ''cid'' False, sample_field ''day'' ''day'' True],
      sample_dataset ''c'' ''c'' [] [sample_field ''id'' ''id'' False, sample_field ''lim'' ''lim'' False]]
     [sample_rel ''s_c'' ''s'' ''c''] [sample_metric ''x'' ''SUM(c.lim)/COUNT(DISTINCT s.cid)'']"

definition keyless_model :: CompiledModel where
  "keyless_model = plain_model [shop_dataset ''s'' [] [''cid'', ''day''], shop_dataset ''c'' [] [''id'', ''lim'']] lim_per_buyer"

definition keyless_request :: Request where
  "keyless_request = empty_Request\<lparr>req_Metrics := [''x''], req_Dimensions := [''s.day'']\<rparr>"

text \<open>
  Validation requires a primary key under a ratio's denominator only, while both sides are
  deduplicated by it: this ratio validates over a dataset without one, and a request that groups it
  by a field of the other dataset is refused.
\<close>

theorem keyless_numerator_cannot_be_planned:
  "ValidateSpec [''s''] keyless_spec = Some []
   \<and> Build star_glob keyless_model trino keyless_request no_identity = Inl (RatioSide ''x'' True (RatioSideNoPrimaryKey ''c''))"
proof -
  have "ebind (resolve_request keyless_model keyless_request)
      (\<lambda>rs. ebind (govern star_glob keyless_model trino keyless_request no_identity rs)
      (\<lambda>(dec, groups). plan_query keyless_model trino keyless_request rs groups))
     = Inl (RatioSide ''x'' True (RatioSideNoPrimaryKey ''c''))"
    by code_simp
  then have "Build star_glob keyless_model trino keyless_request no_identity = Inl (RatioSide ''x'' True (RatioSideNoPrimaryKey ''c''))"
    by (rule Build_Inl)
  moreover have "ValidateSpec [''s''] keyless_spec = Some []" by code_simp
  ultimately show ?thesis by simp
qed

end
