(* ===== verification/Limits.thy ===== *)
theory Limits
  imports Plan Machine
begin

text \<open>
  \<^verbatim>\<open>internal/serving/limits.go\<close> and \<^verbatim>\<open>limiter.go\<close>: the bounds on one request, and the bound on the
  requests in flight. A Go int is an integer; the one addition that can leave its 64 bits is
  wrapped. The limiter is a transition system: each request is a goroutine in the middleware, a
  slot is an element of the buffered channel, and the scheduler may take any enabled step.
\<close>

section \<open>Limits\<close>

record Limits =
  DefaultRowLimit :: int
  MaxRowLimit :: int
  MaxMetrics :: int
  MaxDimensions :: int
  MaxFilters :: int
  MaxFilterValues :: int
  MaxResultBytes :: int
  MaxCacheEntryBytes :: int
  MaxRequestBytes :: int
  MaxConcurrentQueries :: int

text \<open>What every adapter maps to status 400 is \<^verbatim>\<open>ErrRequestTooLarge\<close> with its detail.\<close>

datatype limit_error =
    TooManyMetrics int int
  | TooManyDimensions int int
  | TooManyFilters int int
  | TooManyFilterValues string int int
  | NegativeLimit
  | LimitTooLarge int int

definition DefaultLimits :: Limits where
  "DefaultLimits =
     \<lparr>DefaultRowLimit = 1000, MaxRowLimit = 10000, MaxMetrics = 25, MaxDimensions = 25, MaxFilters = 50,
      MaxFilterValues = 1000, MaxResultBytes = 32 * 2 ^ 20, MaxCacheEntryBytes = 8 * 2 ^ 20,
      MaxRequestBytes = 1 * 2 ^ 20, MaxConcurrentQueries = 4\<rparr>"

definition or_default :: "int \<Rightarrow> int \<Rightarrow> int" where
  "or_default x d = (if x \<le> 0 then d else x)"

definition withDefaults :: "Limits \<Rightarrow> Limits" where
  "withDefaults l =
     (let d = DefaultLimits; result_bytes = or_default (MaxResultBytes l) (MaxResultBytes d);
          entry_bytes = or_default (MaxCacheEntryBytes l) (MaxCacheEntryBytes d)
      in \<lparr>DefaultRowLimit = or_default (DefaultRowLimit l) (DefaultRowLimit d),
          MaxRowLimit = or_default (MaxRowLimit l) (MaxRowLimit d),
          MaxMetrics = or_default (MaxMetrics l) (MaxMetrics d),
          MaxDimensions = or_default (MaxDimensions l) (MaxDimensions d),
          MaxFilters = or_default (MaxFilters l) (MaxFilters d),
          MaxFilterValues = or_default (MaxFilterValues l) (MaxFilterValues d),
          MaxResultBytes = result_bytes,
          MaxCacheEntryBytes = (if entry_bytes > result_bytes then result_bytes else entry_bytes),
          MaxRequestBytes = or_default (MaxRequestBytes l) (MaxRequestBytes d),
          MaxConcurrentQueries = or_default (MaxConcurrentQueries l) (MaxConcurrentQueries d)\<rparr>)"

text \<open>Two's complement addition of 64-bit ints.\<close>

definition int64_add :: "int \<Rightarrow> int \<Rightarrow> int" where
  "int64_add a b = (a + b + 2 ^ 63) mod 2 ^ 64 - 2 ^ 63"

definition apply_limits :: "Limits \<Rightarrow> Request \<Rightarrow> (limit_error, Request) result" where
  "apply_limits limits req =
     (let l = withDefaults limits; n_filters = int (length (req_Filters req)) + int (length (req_MetricFilters req))
      in if int (length (req_Metrics req)) > MaxMetrics l then
           Inl (TooManyMetrics (int (length (req_Metrics req))) (MaxMetrics l))
         else if int (length (req_Dimensions req)) > MaxDimensions l then
           Inl (TooManyDimensions (int (length (req_Dimensions req))) (MaxDimensions l))
         else if n_filters > MaxFilters l then Inl (TooManyFilters n_filters (MaxFilters l))
         else
           ebind (emap (\<lambda>f. if int (length (flt_Values f)) > MaxFilterValues l
               then Inl (TooManyFilterValues (flt_Field f) (int (length (flt_Values f))) (MaxFilterValues l))
               else Inr ()) (req_Filters req)) (\<lambda>_.
           if req_Limit req < 0 then Inl NegativeLimit
           else if req_Limit req = 0 then Inr (req\<lparr>req_Limit := int64_add (DefaultRowLimit l) 1\<rparr>)
           else if req_Limit req > MaxRowLimit l then Inl (LimitTooLarge (req_Limit req) (MaxRowLimit l))
           else Inr req))"

lemma withDefaults_positive:
  "0 < DefaultRowLimit (withDefaults l)" "0 < MaxRowLimit (withDefaults l)" "0 < MaxMetrics (withDefaults l)"
  "0 < MaxResultBytes (withDefaults l)" "0 < MaxCacheEntryBytes (withDefaults l)"
  "0 < MaxConcurrentQueries (withDefaults l)" "MaxCacheEntryBytes (withDefaults l) \<le> MaxResultBytes (withDefaults l)"
  by (simp_all add: withDefaults_def Let_def or_default_def DefaultLimits_def)

lemma withDefaults_idem: "withDefaults (withDefaults l) = withDefaults l"
  by (simp add: withDefaults_def Let_def or_default_def DefaultLimits_def)

lemma int64_add_in_range: "- (2 ^ 63) \<le> a + b \<Longrightarrow> a + b < 2 ^ 63 \<Longrightarrow> int64_add a b = a + b"
  by (simp add: int64_add_def)

definition within_limits :: "Limits \<Rightarrow> Request \<Rightarrow> bool" where
  "within_limits l req \<longleftrightarrow> int (length (req_Metrics req)) \<le> MaxMetrics l
     \<and> int (length (req_Dimensions req)) \<le> MaxDimensions l
     \<and> int (length (req_Filters req)) + int (length (req_MetricFilters req)) \<le> MaxFilters l
     \<and> (\<forall>f\<in>set (req_Filters req). int (length (flt_Values f)) \<le> MaxFilterValues l)
     \<and> 0 \<le> req_Limit req \<and> req_Limit req \<le> max (MaxRowLimit l) 0"

text \<open>The limit in force: an explicit one is honored, a missing one is one row past the default.\<close>

definition effective_limit :: "Limits \<Rightarrow> Request \<Rightarrow> int" where
  "effective_limit l req = (if req_Limit req = 0 then DefaultRowLimit l + 1 else req_Limit req)"

lemma emap_unit:
  "(\<exists>us. emap (\<lambda>x. if P x then Inl (e x) else Inr ()) xs = Inr us) \<longleftrightarrow> (\<forall>x\<in>set xs. \<not> P x)"
  by (induction xs) (auto simp: result_simps)

lemma apply_limits_Inr:
  assumes "DefaultRowLimit (withDefaults limits) < 2 ^ 63 - 1"
  shows "apply_limits limits req = Inr r \<longleftrightarrow>
     within_limits (withDefaults limits) req \<and> r = req\<lparr>req_Limit := effective_limit (withDefaults limits) req\<rparr>"
proof -
  let ?l = "withDefaults limits"
  let ?check = "\<lambda>f. if int (length (flt_Values f)) > MaxFilterValues ?l
               then Inl (TooManyFilterValues (flt_Field f) (int (length (flt_Values f))) (MaxFilterValues ?l))
               else (Inr () :: (limit_error, unit) result)"
  have add: "int64_add (DefaultRowLimit ?l) 1 = DefaultRowLimit ?l + 1"
    using assms withDefaults_positive(1)[of limits] by (intro int64_add_in_range) simp_all
  have vals: "(\<exists>us. emap ?check (req_Filters req) = Inr us)
      \<longleftrightarrow> (\<forall>f\<in>set (req_Filters req). int (length (flt_Values f)) \<le> MaxFilterValues ?l)"
    unfolding emap_unit by (simp only: not_less)
  have pos: "0 < MaxRowLimit ?l" by (rule withDefaults_positive)
  show ?thesis
    unfolding apply_limits_def Let_def within_limits_def effective_limit_def vals[symmetric]
    using pos by (auto simp: result_simps add max_def split: if_splits)
qed

text \<open>
  A request passes the limits exactly when every count is within its bound and its row limit is
  not negative and not above the maximum, and it comes out with nothing changed but the row limit:
  an explicit one is kept, a missing one becomes one more than the default, so that the service can
  tell a complete result from a longer one. Unset limits are the defaults, never "unbounded".
\<close>

theorem apply_limits_exact:
  "DefaultRowLimit (withDefaults limits) < 2 ^ 63 - 1 \<Longrightarrow>
   apply_limits limits req = Inr r \<longleftrightarrow>
     within_limits (withDefaults limits) req \<and> r = req\<lparr>req_Limit := effective_limit (withDefaults limits) req\<rparr>"
  by (rule apply_limits_Inr)

definition no_limits :: Limits where
  "no_limits = \<lparr>DefaultRowLimit = 0, MaxRowLimit = 0, MaxMetrics = 0, MaxDimensions = 0, MaxFilters = 0,
     MaxFilterValues = 0, MaxResultBytes = 0, MaxCacheEntryBytes = 0, MaxRequestBytes = 0, MaxConcurrentQueries = 0\<rparr>"

theorem apply_limits_exact_witness:
  "apply_limits no_limits empty_Request = Inr (empty_Request\<lparr>req_Limit := 1001\<rparr>)
   \<and> (\<nexists>r. apply_limits no_limits (empty_Request\<lparr>req_Limit := 10001\<rparr>) = Inr r)"
proof -
  have d: "withDefaults no_limits = DefaultLimits" by (simp add: withDefaults_def no_limits_def or_default_def DefaultLimits_def)
  have "DefaultRowLimit (withDefaults no_limits) < 2 ^ 63 - 1" by (simp add: d DefaultLimits_def)
  note apply_limits_exact[OF this]
  then show ?thesis by (simp add: d within_limits_def effective_limit_def DefaultLimits_def empty_Request_def)
qed

section \<open>The limiter\<close>

text \<open>\<^verbatim>\<open>slots\<close> is a buffered channel of capacity \<open>lim_cap\<close>; durations are nanoseconds.\<close>

record Limiter =
  lim_cap :: nat
  lim_held :: nat
  lim_wait :: int

definition NewLimiter :: "int \<Rightarrow> int \<Rightarrow> Limiter" where
  "NewLimiter n wait =
     \<lparr>lim_cap = nat (if n \<le> 0 then MaxConcurrentQueries DefaultLimits else n), lim_held = 0,
      lim_wait = (if wait \<le> 0 then 5 * 10 ^ 9 else wait)\<rparr>"

definition retry_after :: "Limiter \<Rightarrow> int" where
  "retry_after l = lim_wait l div 10 ^ 9 + 1"

definition InFlight :: "Limiter \<Rightarrow> nat" where
  "InFlight l = lim_held l"

text \<open>Where a request is in \<^verbatim>\<open>Middleware\<close>: blocked in the select, in the wrapped handler, or past it with
  the response written, abandoned by its caller, or turned away with status 503.\<close>

datatype phase = Selecting | Serving | Served | Abandoned | TurnedAway int

type_synonym limiter_state = "Limiter \<times> (nat \<rightharpoonup> phase)"

text \<open>A send to the channel is enabled while it has room; the caller's context and the timer can fire at
  any time while the request waits. The deferred receive runs when the handler returns or panics.\<close>

inductive Middleware :: "limiter_state \<Rightarrow> limiter_state \<Rightarrow> bool" where
  Arrive: "ph r = None \<Longrightarrow> Middleware (l, ph) (l, ph(r \<mapsto> Selecting))"
| Acquire: "ph r = Some Selecting \<Longrightarrow> lim_held l < lim_cap l \<Longrightarrow>
    Middleware (l, ph) (l\<lparr>lim_held := lim_held l + 1\<rparr>, ph(r \<mapsto> Serving))"
| Cancelled: "ph r = Some Selecting \<Longrightarrow> Middleware (l, ph) (l, ph(r \<mapsto> Abandoned))"
| Expired: "ph r = Some Selecting \<Longrightarrow> Middleware (l, ph) (l, ph(r \<mapsto> TurnedAway (retry_after l)))"
| Release: "ph r = Some Serving \<Longrightarrow>
    Middleware (l, ph) (l\<lparr>lim_held := lim_held l - 1\<rparr>, ph(r \<mapsto> Served))"

definition limiter_start :: "limiter_state \<Rightarrow> bool" where
  "limiter_start s \<longleftrightarrow> (\<exists>n wait. s = (NewLimiter n wait, Map.empty))"

definition serving :: "limiter_state \<Rightarrow> nat set" where
  "serving s = {r. snd s r = Some Serving}"

text \<open>The slots held are the requests in the handler, and never more than the capacity.\<close>

definition slots_inv :: "limiter_state \<Rightarrow> bool" where
  "slots_inv s \<longleftrightarrow> finite (dom (snd s)) \<and> finite (serving s) \<and> card (serving s) = lim_held (fst s)
     \<and> lim_held (fst s) \<le> lim_cap (fst s) \<and> 0 < lim_cap (fst s)"

lemma serving_upd: "serving (l, ph(r \<mapsto> p)) = (if p = Serving then insert r (serving (l, ph)) else serving (l, ph) - {r})"
  by (auto simp: serving_def)

lemma serving_limiter: "serving (l, ph) = serving (k, ph)"
  by (simp add: serving_def)

lemma Middleware_inv: "slots_inv s \<Longrightarrow> Middleware s t \<Longrightarrow> slots_inv t"
proof -
  assume inv: "slots_inv s" and step: "Middleware s t"
  have other: "serving (l, ph) - {r} = serving (l, ph)" if "ph r \<noteq> Some Serving" for l :: Limiter and ph r
    using that by (auto simp: serving_def)
  from step show ?thesis
  proof (cases rule: Middleware.cases)
    case (Acquire ph r l)
    then have "r \<notin> serving s" by (simp add: serving_def)
    with inv Acquire show ?thesis
      by (simp add: slots_inv_def serving_upd serving_limiter[of "l\<lparr>lim_held := Suc (lim_held l)\<rparr>" ph l])
  next
    case (Release ph r l)
    then have "r \<in> serving s" by (simp add: serving_def)
    with inv Release show ?thesis
      by (auto simp: slots_inv_def serving_upd serving_limiter[of "l\<lparr>lim_held := lim_held l - Suc 0\<rparr>" ph l])
  qed (use inv other in \<open>auto simp: slots_inv_def serving_upd\<close>)
qed

lemma limiter_start_inv: "limiter_start s \<Longrightarrow> slots_inv s"
  by (auto simp: limiter_start_def slots_inv_def serving_def NewLimiter_def DefaultLimits_def)

interpretation limiter: machine limiter_start Middleware slots_inv
  by unfold_locales (fact limiter_start_inv Middleware_inv)+

text \<open>
  C34. Whatever the scheduler does, the number of requests inside the wrapped handler is exactly the
  number of slots held and never exceeds the capacity, which is positive: the memory budget of
  that many full results bounds what all in-flight requests hold together.
\<close>

theorem limiter_bounds_memory:
  assumes "limiter_start s" "Middleware\<^sup>*\<^sup>* s t" "\<And>r. r \<in> serving t \<Longrightarrow> result_bytes r \<le> max_bytes"
  shows "card (serving t) = InFlight (fst t) \<and> InFlight (fst t) \<le> lim_cap (fst t)
     \<and> (\<Sum>r\<in>serving t. result_bytes r) \<le> lim_cap (fst t) * (max_bytes :: nat)"
proof -
  have inv: "slots_inv t" by (rule limiter.reachable_invariant[OF assms(1,2)])
  have "(\<Sum>r\<in>serving t. result_bytes r) \<le> card (serving t) * max_bytes"
    using sum_bounded_above[of "serving t" result_bytes max_bytes] assms(3) by simp
  also have "\<dots> \<le> lim_cap (fst t) * max_bytes" using inv by (simp add: slots_inv_def)
  finally show ?thesis using inv by (simp add: slots_inv_def InFlight_def)
qed

lemma two_requests:
  "Middleware\<^sup>*\<^sup>* (NewLimiter 1 0, Map.empty)
     ((NewLimiter 1 0)\<lparr>lim_held := 1\<rparr>, [1 \<mapsto> Serving, 2 \<mapsto> TurnedAway 6])"
proof -
  let ?l = "NewLimiter 1 0"
  have "Middleware (?l, Map.empty) (?l, [1 \<mapsto> Selecting])" by (rule Arrive) simp
  moreover have "Middleware (?l, [1 \<mapsto> Selecting]) (?l, [1 \<mapsto> Selecting, 2 \<mapsto> Selecting])" by (rule Arrive) simp
  moreover have "Middleware (?l, [1 \<mapsto> Selecting, 2 \<mapsto> Selecting])
      (?l\<lparr>lim_held := lim_held ?l + 1\<rparr>, [1 \<mapsto> Selecting, 2 \<mapsto> Selecting, 1 \<mapsto> Serving])"
    by (rule Acquire) (simp_all add: NewLimiter_def)
  moreover have "Middleware (?l\<lparr>lim_held := 1\<rparr>, [1 \<mapsto> Serving, 2 \<mapsto> Selecting])
      (?l\<lparr>lim_held := 1\<rparr>, [1 \<mapsto> Serving, 2 \<mapsto> Selecting, 2 \<mapsto> TurnedAway (retry_after (?l\<lparr>lim_held := 1\<rparr>))])"
    by (rule Expired) simp
  moreover have "retry_after (?l\<lparr>lim_held := 1\<rparr>) = 6" "lim_held ?l + 1 = 1"
    by (simp_all add: retry_after_def NewLimiter_def)
  ultimately show ?thesis by (simp add: fun_upd_twist rtranclp.rtrancl_into_rtrancl)
qed

theorem limiter_bounds_memory_witness:
  "card (serving ((NewLimiter 1 0)\<lparr>lim_held := 1\<rparr>, [1 \<mapsto> Serving, 2 \<mapsto> TurnedAway 6])) = 1
   \<and> (\<Sum>r\<in>serving ((NewLimiter 1 0)\<lparr>lim_held := 1\<rparr>, [1 \<mapsto> Serving, 2 \<mapsto> TurnedAway 6]). 7) \<le> (7 :: nat)"
proof -
  have "limiter_start (NewLimiter 1 0, Map.empty)" by (auto simp: limiter_start_def)
  from limiter_bounds_memory[OF this two_requests, of "\<lambda>_. 7" 7] show ?thesis
    by (simp add: InFlight_def NewLimiter_def)
qed

definition active :: "limiter_state \<Rightarrow> nat set" where
  "active s = {r. snd s r \<in> {Some Selecting, Some Serving}}"

lemma leave_step:
  assumes "r \<in> active (l, ph)"
  shows "\<exists>l' p. Middleware (l, ph) (l', ph(r \<mapsto> p)) \<and> active (l', ph(r \<mapsto> p)) = active (l, ph) - {r}"
proof (cases "ph r = Some Serving")
  case True
  from Release[of ph r l, OF this] show ?thesis by (auto simp: active_def split: if_splits)
next
  case False
  with assms have "ph r = Some Selecting" by (simp add: active_def)
  from Cancelled[of ph r l, OF this] show ?thesis by (auto simp: active_def split: if_splits)
qed

lemma drains:
  assumes "slots_inv s"
  shows "\<exists>t. Middleware\<^sup>*\<^sup>* s t \<and> active t = {}"
proof -
  have "finite (active s)" using assms
    by (rule_tac finite_subset[of _ "dom (snd s)"]) (auto simp: active_def slots_inv_def)
  then show ?thesis using assms
  proof (induction "active s" arbitrary: s rule: finite_psubset_induct)
    case psubset
    show ?case
    proof (cases "active s = {}")
      case False
      then obtain r where r: "r \<in> active s" by blast
      obtain l ph where s: "s = (l, ph)" by fastforce
      from leave_step[of r l ph] r s obtain t where t: "Middleware s t" "active t = active s - {r}" by blast
      then have "active t \<subset> active s" using r by auto
      with psubset(2)[OF this _ ] t(1) psubset(3) obtain u where "Middleware\<^sup>*\<^sup>* t u" "active u = {}"
        using Middleware_inv by blast
      with t(1) show ?thesis by (meson converse_rtranclp_into_rtranclp)
    qed blast
  qed
qed

text \<open>
  C35. The limiter neither blocks for ever nor leaks a slot: from every state it can reach, letting the
  requests leave one by one, each by a step that is open to it, ends with no request in the
  middleware and no slot held.
\<close>

theorem limiter_drains:
  assumes "limiter_start s" "Middleware\<^sup>*\<^sup>* s t"
  shows "\<exists>u. Middleware\<^sup>*\<^sup>* t u \<and> active u = {} \<and> InFlight (fst u) = 0"
proof -
  have inv: "slots_inv t" by (rule limiter.reachable_invariant[OF assms])
  then obtain u where u: "Middleware\<^sup>*\<^sup>* t u" "active u = {}" using drains by blast
  then have "serving u = {}" by (auto simp: active_def serving_def)
  moreover have "slots_inv u" using limiter.steps_invariant[OF u(1) inv] .
  ultimately have "InFlight (fst u) = 0" by (simp add: slots_inv_def InFlight_def)
  with u show ?thesis by blast
qed

theorem limiter_drains_witness:
  "\<exists>u. Middleware\<^sup>*\<^sup>* ((NewLimiter 1 0)\<lparr>lim_held := 1\<rparr>, [1 \<mapsto> Serving, 2 \<mapsto> TurnedAway 6]) u \<and> InFlight (fst u) = 0"
proof -
  have "limiter_start (NewLimiter 1 0, Map.empty)" by (auto simp: limiter_start_def)
  from limiter_drains[OF this two_requests] show ?thesis by blast
qed

end
