(* ===== verification/ModelStore.thy ===== *)
theory ModelStore
  imports Plan Machine "HOL-Library.AList" "HOL-Library.Product_Lexorder"
begin

text \<open>
  \<^verbatim>\<open>internal/serving/store.go\<close>: the compiled models the operator has published, keyed by the name of the
  ConfigMap that carries each. The map is an association list, whose order stands for the order in
  which Go happens to iterate the map; what the theorems say of lookups holds for every order.
  Each operation takes the lock for its whole body, so it is one atomic step. The decoding of a
  published blob is the parameter \<open>decode\<close>.
\<close>

record Store =
  st_cms :: "(string \<times> CompiledModel) list"
  st_synced :: bool

definition NewStore :: Store where
  "NewStore = \<lparr>st_cms = [], st_synced = False\<rparr>"

definition MarkSynced :: "Store \<Rightarrow> Store" where
  "MarkSynced s = s\<lparr>st_synced := True\<rparr>"

definition Synced :: "Store \<Rightarrow> bool" where
  "Synced s = st_synced s"

definition Count :: "Store \<Rightarrow> nat" where
  "Count s = length (st_cms s)"

definition byName :: "Store \<Rightarrow> string \<Rightarrow> CompiledModel list" where
  "byName s name = filter (\<lambda>m. cm_Name m = name) (map snd (st_cms s))"

definition Get :: "Store \<Rightarrow> string \<Rightarrow> CompiledModel option" where
  "Get s name = (case byName s name of [m] \<Rightarrow> Some m | _ \<Rightarrow> None)"

definition Ambiguous :: "Store \<Rightarrow> string \<Rightarrow> bool" where
  "Ambiguous s name \<longleftrightarrow> length (byName s name) > 1"

definition ByName :: "Store \<Rightarrow> string \<Rightarrow> CompiledModel list" where
  "ByName s name = sort_key (\<lambda>m. (cm_Namespace m, cm_Resource m)) (byName s name)"

definition Names :: "Store \<Rightarrow> string list" where
  "Names s = sort (remdups (map (\<lambda>(k, m). cm_Name m) (st_cms s)))"

definition All :: "Store \<Rightarrow> CompiledModel list" where
  "All s = sort_key (\<lambda>m. (cm_Name m, cm_Version m)) (map snd (st_cms s))"

definition Single_model :: "Store \<Rightarrow> CompiledModel option" where
  "Single_model s = (case st_cms s of [(k, m)] \<Rightarrow> Some m | _ \<Rightarrow> None)"

definition Put :: "(string \<Rightarrow> CompiledModel option) \<Rightarrow> Store \<Rightarrow> string \<Rightarrow> string \<Rightarrow> Store option" where
  "Put decode s cmName blob =
     (case decode blob of None \<Rightarrow> None | Some m \<Rightarrow> Some (s\<lparr>st_cms := AList.update cmName m (st_cms s)\<rparr>))"

definition Delete :: "Store \<Rightarrow> string \<Rightarrow> Store" where
  "Delete s cmName = s\<lparr>st_cms := AList.delete cmName (st_cms s)\<rparr>"

section \<open>The informer\<close>

record ConfigMap =
  cfm_Name :: string
  cfm_Data :: "string \<rightharpoonup> string"

text \<open>What the informer hands to a handler: a ConfigMap, or (for a deletion it missed) a
  \<^verbatim>\<open>DeletedFinalStateUnknown\<close> that wraps the last state known.\<close>

datatype informer_object = IsConfigMap ConfigMap | FinalStateUnknown ConfigMap

datatype informer_event =
    Added informer_object
  | Updated informer_object informer_object
  | Deleted informer_object
  | CacheSynced

text \<open>Which callbacks are installed, and the calls made to them.\<close>

record WatchCallbacks =
  wc_OnModelCount :: bool
  wc_OnSync :: bool

datatype callback_call = ModelCount nat | SyncReported bool

definition CompiledModelKey :: string where
  "CompiledModelKey = ''compiled-model.json''"

definition report_count :: "WatchCallbacks \<Rightarrow> Store \<Rightarrow> callback_call list" where
  "report_count cb s = (if wc_OnModelCount cb then [ModelCount (Count s)] else [])"

definition ingest :: "(string \<Rightarrow> CompiledModel option) \<Rightarrow> WatchCallbacks \<Rightarrow> Store \<Rightarrow> informer_object
    \<Rightarrow> Store \<times> callback_call list" where
  "ingest decode cb s obj =
     (case obj of
        FinalStateUnknown _ \<Rightarrow> (s, [])
      | IsConfigMap cm \<Rightarrow>
          (case cfm_Data cm CompiledModelKey of
             None \<Rightarrow> (s, [])
           | Some blob \<Rightarrow>
               (case Put decode s (cfm_Name cm) blob of
                  None \<Rightarrow> (s, [])
                | Some s' \<Rightarrow> (s', report_count cb s'))))"

definition delete_handler :: "WatchCallbacks \<Rightarrow> Store \<Rightarrow> informer_object \<Rightarrow> Store \<times> callback_call list" where
  "delete_handler cb s obj =
     (case obj of
        FinalStateUnknown _ \<Rightarrow> (s, [])
      | IsConfigMap cm \<Rightarrow> (let s' = Delete s (cfm_Name cm) in (s', report_count cb s')))"

definition handle_event :: "(string \<Rightarrow> CompiledModel option) \<Rightarrow> WatchCallbacks \<Rightarrow> Store \<Rightarrow> informer_event
    \<Rightarrow> Store \<times> callback_call list" where
  "handle_event decode cb s e =
     (case e of
        Added obj \<Rightarrow> ingest decode cb s obj
      | Updated _ obj \<Rightarrow> ingest decode cb s obj
      | Deleted obj \<Rightarrow> delete_handler cb s obj
      | CacheSynced \<Rightarrow> (MarkSynced s, if wc_OnSync cb then [SyncReported True] else []))"

text \<open>A run of \<^verbatim>\<open>WatchConfigMaps\<close>: the store and all calls made so far.\<close>

definition watch_step :: "(string \<Rightarrow> CompiledModel option) \<Rightarrow> WatchCallbacks \<Rightarrow> Store \<times> callback_call list
    \<Rightarrow> informer_event \<Rightarrow> Store \<times> callback_call list" where
  "watch_step decode cb st e = (let (s', out) = handle_event decode cb (fst st) e in (s', snd st @ out))"

section \<open>The store refines the published ConfigMaps\<close>

text \<open>The abstract state: the model each ConfigMap publishes.\<close>

definition publish :: "(string \<Rightarrow> CompiledModel option) \<Rightarrow> (string \<rightharpoonup> CompiledModel) \<Rightarrow> ConfigMap \<Rightarrow> (string \<rightharpoonup> CompiledModel)" where
  "publish decode pub cm =
     (case Option.bind (cfm_Data cm CompiledModelKey) decode of None \<Rightarrow> pub | Some m \<Rightarrow> pub(cfm_Name cm \<mapsto> m))"

fun published :: "(string \<Rightarrow> CompiledModel option) \<Rightarrow> (string \<rightharpoonup> CompiledModel) \<Rightarrow> informer_event \<Rightarrow> (string \<rightharpoonup> CompiledModel)" where
  "published decode pub (Added (IsConfigMap cm)) = publish decode pub cm"
| "published decode pub (Updated _ (IsConfigMap cm)) = publish decode pub cm"
| "published decode pub (Deleted (IsConfigMap cm)) = pub(cfm_Name cm := None)"
| "published decode pub _ = pub"

definition store_inv :: "WatchCallbacks \<Rightarrow> Store \<times> callback_call list \<Rightarrow> bool" where
  "store_inv cb st \<longleftrightarrow> distinct (map fst (st_cms (fst st)))
     \<and> (wc_OnModelCount cb \<longrightarrow>
          (case filter (\<lambda>c. c \<noteq> SyncReported True) (snd st) of
             [] \<Rightarrow> st_cms (fst st) = []
           | cs \<Rightarrow> last cs = ModelCount (Count (fst st))))"

lemma filter_snoc_last: "filter P (xs @ [y]) = (if P y then filter P xs @ [y] else filter P xs)"
  by simp

lemma store_inv_report:
  "distinct (map fst (st_cms s)) \<Longrightarrow> store_inv cb (s, out @ report_count cb s)"
  by (cases "filter (\<lambda>c. c \<noteq> SyncReported True) out") (auto simp: store_inv_def report_count_def)

lemma watch_step_inv: "store_inv cb st \<Longrightarrow> store_inv cb (watch_step decode cb st e)"
proof -
  assume inv: "store_inv cb st"
  obtain s out where st: "st = (s, out)" by fastforce
  have d: "distinct (map fst (st_cms s))" using inv by (simp add: st store_inv_def)
  have ing: "store_inv cb (let (s', cs) = ingest decode cb s obj in (s', out @ cs))" for obj
    using inv d by (auto simp: st ingest_def Put_def Let_def distinct_update
        intro: store_inv_report split: informer_object.split option.split)
  have del: "store_inv cb (let (s', cs) = delete_handler cb s obj in (s', out @ cs))" for obj
    using inv d by (auto simp: st delete_handler_def Delete_def Let_def distinct_delete
        intro!: store_inv_report split: informer_object.split)
  have sync: "store_inv cb (MarkSynced s, out @ (if wc_OnSync cb then [SyncReported True] else []))"
    using inv by (cases "filter (\<lambda>c. c \<noteq> SyncReported True) out") (auto simp: st store_inv_def MarkSynced_def Count_def)
  show ?thesis using ing del sync
    by (auto simp: st watch_step_def handle_event_def split: informer_event.split)
qed

lemma watch_step_view:
  "map_of (st_cms (fst (watch_step decode cb st e))) = published decode (map_of (st_cms (fst st))) e"
proof -
  have "map_of (st_cms (fst (ingest decode cb s (IsConfigMap cm)))) = publish decode (map_of (st_cms s)) cm" for s cm
    by (auto simp: ingest_def publish_def Put_def update_conv' split: option.split)
  moreover have "map_of (st_cms (fst (delete_handler cb s (IsConfigMap cm)))) = (map_of (st_cms s))(cfm_Name cm := None)" for s cm
    by (simp add: delete_handler_def Delete_def Let_def delete_conv')
  moreover have "fst (ingest decode cb s (FinalStateUnknown cm)) = s" "fst (delete_handler cb s (FinalStateUnknown cm)) = s" for s cm
    by (simp_all add: ingest_def delete_handler_def)
  moreover have "fst (watch_step decode cb st e) = fst (handle_event decode cb (fst st) e)"
    by (simp add: watch_step_def split: prod.split)
  ultimately show ?thesis
    by (cases "(decode, map_of (st_cms (fst st)), e)" rule: published.cases) (simp_all add: handle_event_def MarkSynced_def)
qed

definition watched :: "WatchCallbacks \<Rightarrow> (string \<Rightarrow> CompiledModel option) \<Rightarrow> informer_event list \<Rightarrow> Store \<times> callback_call list" where
  "watched cb decode es = foldl (watch_step decode cb) (NewStore, []) es"

definition store_view :: "Store \<times> callback_call list \<Rightarrow> (string \<rightharpoonup> CompiledModel)" where
  "store_view st = map_of (st_cms (fst st))"

interpretation informer: event_machine "watch_step decode cb" "store_inv cb" store_view "published decode"
  for decode :: "string \<Rightarrow> CompiledModel option" and cb :: WatchCallbacks
  by unfold_locales (simp_all add: watch_step_inv watch_step_view store_view_def)

lemma start_inv: "store_inv cb (NewStore, [])"
  by (simp add: store_inv_def NewStore_def)

lemma watched_inv: "store_inv cb (watched cb decode es)"
  unfolding watched_def by (rule informer.run_invariant[OF start_inv])

lemma watched_view: "store_view (watched cb decode es) = foldl (published decode) Map.empty es"
  by (simp add: watched_def informer.run_view[OF start_inv]) (simp add: store_view_def NewStore_def)

lemma watched_distinct: "distinct (map fst (st_cms (fst (watched cb decode es))))"
  using watched_inv[of cb decode es] by (simp add: store_inv_def)

text \<open>How many models a map of published ConfigMaps holds is what the store counts.\<close>

lemma Count_published: "distinct (map fst (st_cms s)) \<Longrightarrow> Count s = card (dom (map_of (st_cms s)))"
  by (simp add: Count_def dom_map_of_conv_image_fst distinct_card flip: set_map)

text \<open>
  C37. Whatever the informer reports, in whatever order, the store holds exactly the model last
  published by each ConfigMap that is not deleted, a blob that does not decode never displaces
  what is served, and a model count is reported after every change, so that the last count reported
  is the number of models in the store.
\<close>

theorem store_refines_published:
  "store_view (watched cb decode es) = foldl (published decode) Map.empty es
   \<and> Count (fst (watched cb decode es)) = card (dom (foldl (published decode) Map.empty es))
   \<and> (wc_OnModelCount cb \<and> filter (\<lambda>c. c \<noteq> SyncReported True) (snd (watched cb decode es)) \<noteq> [] \<longrightarrow>
        last (filter (\<lambda>c. c \<noteq> SyncReported True) (snd (watched cb decode es)))
          = ModelCount (Count (fst (watched cb decode es))))"
proof (intro conjI impI)
  show "store_view (watched cb decode es) = foldl (published decode) Map.empty es" by (rule watched_view)
  then show "Count (fst (watched cb decode es)) = card (dom (foldl (published decode) Map.empty es))"
    using Count_published[OF watched_distinct] by (simp add: store_view_def)
qed (use watched_inv[of cb decode es] in \<open>auto simp: store_inv_def split: list.splits\<close>)

definition blank_model :: "string \<Rightarrow> string \<Rightarrow> CompiledModel" where
  "blank_model n r = shop\<lparr>cm_Name := n, cm_Resource := r\<rparr>"

definition blank_decode :: "string \<Rightarrow> CompiledModel option" where
  "blank_decode blob = (case blob of CHR ''{'' # r \<Rightarrow> Some (blank_model ''sales'' r) | _ \<Rightarrow> None)"

definition blank_cm :: "string \<Rightarrow> string \<Rightarrow> informer_object" where
  "blank_cm n blob = IsConfigMap \<lparr>cfm_Name = n, cfm_Data = [CompiledModelKey \<mapsto> blob]\<rparr>"

definition all_callbacks :: WatchCallbacks where
  "all_callbacks = \<lparr>wc_OnModelCount = True, wc_OnSync = True\<rparr>"

text \<open>Two resources publish a model of one name; the update of the first does not decode.\<close>

definition blank_events :: "informer_event list" where
  "blank_events = [Added (blank_cm ''a'' ''{r''), CacheSynced, Added (blank_cm ''b'' ''{q''),
     Updated (blank_cm ''a'' ''{r'') (blank_cm ''a'' ''x'')]"

lemmas blank_simps = watched_def watch_step_def handle_event_def ingest_def delete_handler_def Put_def Delete_def
  MarkSynced_def NewStore_def report_count_def Count_def blank_cm_def blank_decode_def all_callbacks_def publish_def
  blank_events_def

theorem store_refines_published_witness:
  "snd (watched all_callbacks blank_decode blank_events) = [ModelCount 1, SyncReported True, ModelCount 2]
   \<and> last (filter (\<lambda>c. c \<noteq> SyncReported True) (snd (watched all_callbacks blank_decode blank_events)))
       = ModelCount (Count (fst (watched all_callbacks blank_decode blank_events)))"
proof -
  have "snd (watched all_callbacks blank_decode blank_events) = [ModelCount 1, SyncReported True, ModelCount 2]"
    by (simp add: blank_simps)
  with store_refines_published[of all_callbacks blank_decode blank_events] show ?thesis
    by (simp add: all_callbacks_def)
qed

section \<open>Lookups\<close>

text \<open>The ConfigMaps that publish a model of the given name.\<close>

definition publishers :: "(string \<rightharpoonup> CompiledModel) \<Rightarrow> string \<Rightarrow> string set" where
  "publishers pub name = {k. \<exists>m. pub k = Some m \<and> cm_Name m = name}"

lemma byName_alt: "byName s name = map snd (filter (\<lambda>(k, m). cm_Name m = name) (st_cms s))"
  by (simp add: byName_def filter_map comp_def case_prod_unfold)

lemma publishers_set:
  assumes "distinct (map fst (st_cms s))"
  shows "publishers (map_of (st_cms s)) name = set (map fst (filter (\<lambda>(k, m). cm_Name m = name) (st_cms s)))"
  using assms by (force simp: publishers_def)

lemma length_byName:
  assumes "distinct (map fst (st_cms s))"
  shows "length (byName s name) = card (publishers (map_of (st_cms s)) name)"
proof -
  have "distinct (map fst (filter (\<lambda>(k, m). cm_Name m = name) (st_cms s)))"
    using assms by (simp add: distinct_map_filter)
  from distinct_card[OF this] show ?thesis by (simp only: byName_alt publishers_set[OF assms] length_map)
qed

lemma set_byName:
  assumes "distinct (map fst (st_cms s))"
  shows "set (byName s name) = {m. cm_Name m = name \<and> m \<in> ran (map_of (st_cms s))}"
  using assms by (auto simp: byName_def ran_distinct)

lemma Get_some:
  assumes d: "distinct (map fst (st_cms s))"
  shows "Get s name = Some m \<longleftrightarrow> (\<exists>k. publishers (map_of (st_cms s)) name = {k} \<and> map_of (st_cms s) k = Some m)"
proof
  assume "Get s name = Some m"
  then have b: "byName s name = [m]" by (auto simp: Get_def split: list.splits)
  then obtain k where "publishers (map_of (st_cms s)) name = {k}"
    using length_byName[OF d, of name] card_1_singletonE by (metis One_nat_def length_Cons list.size(3))
  moreover from this obtain m' where m': "map_of (st_cms s) k = Some m'" "cm_Name m' = name"
    by (auto simp: publishers_def)
  moreover have "m' = m" using set_byName[OF d, of name] b m' by (auto simp: ran_def)
  ultimately show "\<exists>k. publishers (map_of (st_cms s)) name = {k} \<and> map_of (st_cms s) k = Some m" by blast
next
  assume "\<exists>k. publishers (map_of (st_cms s)) name = {k} \<and> map_of (st_cms s) k = Some m"
  then obtain k where k: "publishers (map_of (st_cms s)) name = {k}" "map_of (st_cms s) k = Some m" by blast
  then have "length (byName s name) = 1" using length_byName[OF d] by simp
  then obtain m' where b: "byName s name = [m']" by (auto simp: length_Suc_conv)
  moreover have "m \<in> set (byName s name)"
  proof -
    have "k \<in> publishers (map_of (st_cms s)) name" using k by simp
    with k(2) show ?thesis by (auto simp: set_byName[OF d] publishers_def ran_def)
  qed
  ultimately show "Get s name = Some m" by (simp add: Get_def)
qed

lemma Single_iff:
  assumes d: "distinct (map fst (st_cms s))"
  shows "Single_model s = Some m \<longleftrightarrow> (\<exists>k. map_of (st_cms s) = [k \<mapsto> m])"
proof
  assume "Single_model s = Some m"
  then show "\<exists>k. map_of (st_cms s) = [k \<mapsto> m]" by (auto simp: Single_model_def split: list.splits prod.splits)
next
  assume "\<exists>k. map_of (st_cms s) = [k \<mapsto> m]"
  then obtain k where k: "map_of (st_cms s) = [k \<mapsto> m]" by blast
  then have "Count s = 1" using Count_published[OF d] by simp
  then obtain k' m' where "st_cms s = [(k', m')]" by (auto simp: Count_def length_Suc_conv)
  with k show "Single_model s = Some m" by (auto simp: Single_model_def fun_eq_iff split: if_splits)
qed

lemma Names_correct: "sorted (Names s) \<and> distinct (Names s) \<and> set (Names s) = cm_Name ` set (map snd (st_cms s))"
  by (force simp: Names_def)

lemma models_ran: "distinct (map fst (st_cms s)) \<Longrightarrow> set (map snd (st_cms s)) = ran (map_of (st_cms s))"
  by (simp add: ran_distinct)

text \<open>
  A lookup by name answers with a model exactly when one ConfigMap alone publishes that name,
  and then with that ConfigMap's model: a name that two resources publish is never answered by
  either, and is reported as ambiguous. The only model is offered without a name exactly when one
  is published, and the names listed are all the published names, each once, in order.
\<close>

theorem lookups_exact:
  "let s = fst (watched cb decode es); pub = foldl (published decode) Map.empty es
   in (Get s name = Some m) = (\<exists>k. publishers pub name = {k} \<and> pub k = Some m)
     \<and> Ambiguous s name = (1 < card (publishers pub name))
     \<and> (Single_model s = Some m) = (\<exists>k. pub = [k \<mapsto> m])
     \<and> sorted (Names s) \<and> distinct (Names s) \<and> set (Names s) = cm_Name ` ran pub"
proof -
  let ?s = "fst (watched cb decode es)"
  have d: "distinct (map fst (st_cms ?s))" by (rule watched_distinct)
  have v: "map_of (st_cms ?s) = foldl (published decode) Map.empty es"
    using watched_view[of cb decode es] by (simp add: store_view_def)
  show ?thesis
    using Get_some[OF d, of name m] Single_iff[OF d, of m] Names_correct[of ?s]
    by (simp only: Let_def v Ambiguous_def length_byName[OF d] models_ran[OF d] simp_thms)
qed

section \<open>A deletion the informer missed\<close>

text \<open>
  A deletion that the watch missed reaches the handler as a \<^verbatim>\<open>DeletedFinalStateUnknown\<close>, which the
  type assertion of the handler does not match: the store keeps serving the model of a
  ConfigMap that no longer exists.
\<close>

lemma missed_deletion_keeps_model:
  "Get (fst (watched all_callbacks blank_decode [Added (IsConfigMap cm), CacheSynced, Deleted (FinalStateUnknown cm)])) name
   = Get (fst (watched all_callbacks blank_decode [Added (IsConfigMap cm)])) name"
  by (simp add: blank_simps Get_def byName_def split: option.split)

end
