(* ===== verification/Cache.thy ===== *)
theory Cache
  imports Plan JsonText
begin

text \<open>
  \<^verbatim>\<open>internal/cache/cache.go\<close>: the keys of the plan and result caches, and the two operations on the
  Redis client. The client and its server are not part of the repository: what a lookup replies is
  a parameter, and a write is the key, the value and the lifetime handed to the client. A
  cache that is not configured is \<^const>\<open>None\<close>. Durations are nanoseconds.
\<close>

record Options =
  opt_Addr :: string
  opt_Password :: string
  opt_DB :: int
  opt_PlanTTL :: int
  opt_ResultTTL :: int

record Cache =
  ch_Addr :: string
  ch_Password :: string
  ch_DB :: int
  ch_planTTL :: int
  ch_resultTTL :: int

datatype redis_reply = RedisValue string | RedisNil | RedisError

type_synonym redis = "string \<Rightarrow> redis_reply"

definition NewCache :: "Options \<Rightarrow> Cache option" where
  "NewCache o' =
     (if opt_Addr o' = [] then None
      else Some \<lparr>ch_Addr = opt_Addr o', ch_Password = opt_Password o', ch_DB = opt_DB o',
                 ch_planTTL = (if opt_PlanTTL o' = 0 then 24 * 3600 * 10 ^ 9 else opt_PlanTTL o'),
                 ch_resultTTL = (if opt_ResultTTL o' = 0 then 60 * 10 ^ 9 else opt_ResultTTL o')\<rparr>)"

text \<open>The optional last argument of both keys is the authorization scope, absent when empty.\<close>

definition PlanKey :: "string \<Rightarrow> string \<Rightarrow> string \<Rightarrow> string \<Rightarrow> string \<Rightarrow> string" where
  "PlanKey dialect model modelVersion requestHash fp =
     ''sl:plan:'' @ dialect @ '':'' @ model @ '':'' @ modelVersion @ '':'' @ requestHash
     @ (if fp \<noteq> [] then '':authz:'' @ fp else [])"

definition NUL :: char where
  "NUL = CHR 0x00"

text \<open>The bytes that are hashed.\<close>

definition result_text :: "string \<Rightarrow> string \<Rightarrow> string" where
  "result_text sql scope = sql @ (if scope \<noteq> [] then NUL # scope else [])"

definition ResultKey :: "string \<Rightarrow> string \<Rightarrow> string \<Rightarrow> string \<Rightarrow> string" where
  "ResultKey model modelVersion sql scope =
     ''sl:result:'' @ model @ '':'' @ modelVersion @ '':'' @ take 24 (sha256_hex (result_text sql scope))"

definition cache_get :: "Cache option \<Rightarrow> redis \<Rightarrow> string \<Rightarrow> string option" where
  "cache_get c reply key =
     (case c of
        None \<Rightarrow> None
      | Some _ \<Rightarrow> (case reply key of RedisValue b \<Rightarrow> Some b | RedisNil \<Rightarrow> None | RedisError \<Rightarrow> None))"

type_synonym cache_write = "string \<times> string \<times> int"

definition cache_set :: "Cache option \<Rightarrow> string \<Rightarrow> string \<Rightarrow> int \<Rightarrow> cache_write list" where
  "cache_set c key val ttl = (case c of None \<Rightarrow> [] | Some _ \<Rightarrow> [(key, val, ttl)])"

definition ttlOr :: "Cache option \<Rightarrow> (Cache \<Rightarrow> int) \<Rightarrow> int" where
  "ttlOr c f = (case c of None \<Rightarrow> 0 | Some ch \<Rightarrow> f ch)"

definition GetPlan :: "Cache option \<Rightarrow> redis \<Rightarrow> string \<Rightarrow> string option" where
  "GetPlan c reply key = cache_get c reply key"

definition SetPlan :: "Cache option \<Rightarrow> string \<Rightarrow> string \<Rightarrow> cache_write list" where
  "SetPlan c key val = cache_set c key val (ttlOr c ch_planTTL)"

definition GetResult :: "Cache option \<Rightarrow> redis \<Rightarrow> string \<Rightarrow> string option" where
  "GetResult c reply key = cache_get c reply key"

definition SetResult :: "Cache option \<Rightarrow> string \<Rightarrow> string \<Rightarrow> cache_write list" where
  "SetResult c key val = cache_set c key val (ttlOr c ch_resultTTL)"

section \<open>What a key determines\<close>

lemma append_sep_first:
  "c \<notin> set a \<Longrightarrow> c \<notin> set a' \<Longrightarrow> a @ c # b = a' @ c # b' \<Longrightarrow> a = a' \<and> b = b'"
proof (induction a arbitrary: a')
  case Nil
  then show ?case by (cases a') auto
next
  case (Cons x xs)
  then show ?case by (cases a') auto
qed

lemma append_sep_last:
  assumes "c \<notin> set b" "c \<notin> set b'" "a @ c # b = a' @ c # b'"
  shows "a = a' \<and> b = b'"
proof -
  have "rev b @ c # rev a = rev b' @ c # rev a'" using arg_cong[OF assms(3), of rev] by simp
  from append_sep_first[OF _ _ this] assms(1,2) show ?thesis by simp
qed

definition no_colon :: "string \<Rightarrow> bool" where
  "no_colon s \<longleftrightarrow> CHR '':'' \<notin> set s"

lemma PlanKey_inj:
  assumes "no_colon d" "no_colon d'" "no_colon v" "no_colon v'" "no_colon h" "no_colon h'" "no_colon fp" "no_colon fp'"
    and "length h = RequestHashLen" "length h' = RequestHashLen"
    and "fp = [] \<or> length fp = 64" "fp' = [] \<or> length fp' = 64"
    and key: "PlanKey d m v h fp = PlanKey d' m' v' h' fp'"
  shows "d = d' \<and> m = m' \<and> v = v' \<and> h = h' \<and> fp = fp'"
proof -
  let ?dmv = "\<lambda>d m v. ''sl:plan:'' @ d @ CHR '':'' # m @ CHR '':'' # v"
  let ?front = "\<lambda>d m v h (fp :: string). if fp = [] then ?dmv d m v else (?dmv d m v @ CHR '':'' # h) @ '':authz''"
  let ?tail = "\<lambda>h (fp :: string). if fp = [] then h else fp"
  have split: "PlanKey d m v h fp = ?front d m v h fp @ CHR '':'' # ?tail h fp" for d m v h fp
    by (simp add: PlanKey_def)
  have nc: "CHR '':'' \<notin> set (?tail h fp)" "CHR '':'' \<notin> set (?tail h' fp')"
    using assms(5-8) by (simp_all add: no_colon_def)
  have eq: "?front d m v h fp = ?front d' m' v' h' fp' \<and> ?tail h fp = ?tail h' fp'"
    using append_sep_last[OF nc] key unfolding split by blast
  then have "fp = [] \<longleftrightarrow> fp' = []" using assms(9-12) by (auto simp: RequestHashLen_def split: if_splits)
  with eq have fp: "fp = fp'" by (auto split: if_splits)
  have dmv: "d = d' \<and> m = m' \<and> v = v'" if e: "?dmv d m v = ?dmv d' m' v'"
  proof -
    have "(''sl:plan:'' @ d @ CHR '':'' # m) @ CHR '':'' # v = (''sl:plan:'' @ d' @ CHR '':'' # m') @ CHR '':'' # v'"
      using e by simp
    from append_sep_last[OF _ _ this] assms(3,4) have v: "v = v'"
      and dm: "d @ CHR '':'' # m = d' @ CHR '':'' # m'" by (simp_all add: no_colon_def)
    from append_sep_first[OF _ _ dm] assms(1,2) v show ?thesis by (simp add: no_colon_def)
  qed
  show ?thesis
  proof (cases "fp = []")
    case True
    with eq fp dmv show ?thesis by simp
  next
    case False
    with eq fp have "?dmv d m v @ CHR '':'' # h = ?dmv d' m' v' @ CHR '':'' # h'" by simp
    from append_sep_last[OF _ _ this] assms(5,6) dmv fp show ?thesis by (simp add: no_colon_def)
  qed
qed

text \<open>
  Plans of different requests never share a cache key: the key determines the dialect, the model,
  its version, the request hash (which covers the caller's identity) and the external
  authorization fingerprint. The separators are unambiguous because the dialect names, the
  hexadecimal versions, hashes and fingerprints hold no colon, and a hash and a fingerprint differ in
  length; the model name may hold anything.
\<close>

theorem PlanKey_injective:
  assumes "no_colon d" "no_colon d'" "no_colon v" "no_colon v'" "no_colon h" "no_colon h'" "no_colon fp" "no_colon fp'"
    and "length h = RequestHashLen" "length h' = RequestHashLen"
    and "fp = [] \<or> length fp = 64" "fp' = [] \<or> length fp' = 64"
    and "PlanKey d m v h fp = PlanKey d' m' v' h' fp'"
  shows "d = d' \<and> m = m' \<and> v = v' \<and> h = h' \<and> fp = fp'"
  using assms by (rule PlanKey_inj)

theorem PlanKey_injective_witness:
  "PlanKey ''trino'' ''a:b'' ''1f'' (replicate 32 CHR ''0'') [] \<noteq> PlanKey ''trino'' ''a'' ''1f'' (replicate 32 CHR ''0'') []"
proof
  assume k: "PlanKey ''trino'' ''a:b'' ''1f'' (replicate 32 CHR ''0'') [] = PlanKey ''trino'' ''a'' ''1f'' (replicate 32 CHR ''0'') []"
  have "''a:b'' = ''a''"
    by (rule conjunct1[OF conjunct2[OF PlanKey_injective[OF _ _ _ _ _ _ _ _ _ _ _ _ k]]]) (simp_all add: no_colon_def RequestHashLen_def)
  then show False by simp
qed

text \<open>The scope of a cached result: the authorization fingerprint, and the engine user under identity
  propagation.\<close>

definition result_scope :: "string \<Rightarrow> string option \<Rightarrow> string" where
  "result_scope fp user = fp @ (case user of None \<Rightarrow> [] | Some u \<Rightarrow> NUL # ''engine:'' @ u)"

text \<open>
  What is hashed into the key of a result determines the statement, the authorization
  fingerprint and the engine user, for callers of one model in one deployment (which
  either propagates identities or does not, and authorizes externally or does not): the row of one
  caller cannot be served to another by a choice of the filter values, even ones that hold
  the separator, because a user name holds no NUL and a fingerprint has a fixed length.
\<close>

theorem result_text_injective:
  assumes "length fp = length fp'" "user = None \<longleftrightarrow> user' = None"
    and "\<And>u. user = Some u \<Longrightarrow> NUL \<notin> set u" "\<And>u. user' = Some u \<Longrightarrow> NUL \<notin> set u"
    and same: "result_text sql (result_scope fp user) = result_text sql' (result_scope fp' user')"
  shows "sql = sql' \<and> fp = fp' \<and> user = user'"
proof (cases user)
  case None
  then have u': "user' = None" using assms(2) by simp
  show ?thesis
  proof (cases "fp = []")
    case True
    with assms(1) have "fp' = []" by simp
    with True same None u' show ?thesis by (simp add: result_text_def result_scope_def)
  next
    case False
    with assms(1) have "fp' \<noteq> []" by auto
    with False same None u' have "sql @ NUL # fp = sql' @ NUL # fp'" by (simp add: result_text_def result_scope_def)
    with assms(1) None u' show ?thesis using append_eq_append_conv[of "NUL # fp" "NUL # fp'" sql sql'] by simp
  qed
next
  case (Some u)
  then obtain u' where u': "user' = Some u'" using assms(2) by auto
  have t: "result_text s (result_scope f (Some w)) = (s @ NUL # f) @ NUL # (''engine:'' @ w)" for s f w
    by (simp add: result_text_def result_scope_def)
  have nul: "NUL \<notin> set (''engine:'' @ u)" "NUL \<notin> set (''engine:'' @ u')"
    using assms(3)[OF Some] assms(4)[OF u'] by (simp_all add: NUL_def)
  have "sql @ NUL # fp = sql' @ NUL # fp' \<and> ''engine:'' @ u = ''engine:'' @ u'"
    by (rule append_sep_last[OF nul]) (use same in \<open>simp only: Some u' t\<close>)
  then show ?thesis using assms(1) by (simp add: Some u' append_eq_append_conv)
qed

theorem result_text_injective_witness:
  "result_text (''SELECT 1'' @ [NUL, NUL] @ ''engine:bob'') (result_scope [] (Some ''ann''))
     \<noteq> result_text ''SELECT 1'' (result_scope [] (Some ''bob''))"
proof
  assume t: "result_text (''SELECT 1'' @ [NUL, NUL] @ ''engine:bob'') (result_scope [] (Some ''ann''))
     = result_text ''SELECT 1'' (result_scope [] (Some ''bob''))"
  have "Some ''ann'' = Some ''bob''"
    by (rule conjunct2[OF conjunct2[OF result_text_injective[OF _ _ _ _ t]]]) (auto simp: NUL_def)
  then show False by simp
qed

end
