(* ===== verification/Authorization.thy ===== *)
theory Authorization
  imports Ossie Plan JsonText
begin

text \<open>
  \<^verbatim>\<open>internal/serving/authorization/authorization.go\<close>: the input presented to an external policy
  provider, the registry of the configured providers, and the fingerprint of a decision. A
  provider is an interface of the program; the registry holds it as the function \<open>Decide\<close>.
\<close>

section \<open>The input\<close>

definition InputAPIVersion :: string where
  "InputAPIVersion = ''authorization.semantic.ossie.io/v1alpha1''"

definition ActionQuery :: string where
  "ActionQuery = ''query''"

record Environment =
  env_AccessTimeUnixMilli :: int
  env_Adapter :: string

record Model =
  am_Name :: string
  am_Version :: string
  am_Namespace :: string
  am_Resource :: string

record Input =
  in_APIVersion :: string
  in_Action :: string
  in_Identity :: Identity
  in_Model :: Model
  in_Request :: Request
  in_Environment :: Environment

definition NewQueryInput :: "CompiledModel \<Rightarrow> Request \<Rightarrow> Identity \<Rightarrow> Environment \<Rightarrow> Input" where
  "NewQueryInput m req idn environment =
     (let roles = (case cm_Governance m of
             Some g \<Rightarrow> if id_Groups idn = [] \<and> id_Roles idn = [] \<and> g_DefaultRole g \<noteq> [] then [g_DefaultRole g]
                       else id_Roles idn
           | None \<Rightarrow> id_Roles idn)
      in \<lparr>in_APIVersion = InputAPIVersion, in_Action = ActionQuery,
          in_Identity = idn\<lparr>id_Groups := sort (id_Groups idn), id_Roles := sort roles\<rparr>,
          in_Model = \<lparr>am_Name = cm_Name m, am_Version = cm_Version m, am_Namespace = cm_Namespace m,
            am_Resource = cm_Resource m\<rparr>,
          in_Request = req, in_Environment = environment\<rparr>)"

section \<open>Providers\<close>

text \<open>The decision of a provider; the name avoids that of the built-in governance decision.\<close>

record AuthzDecision =
  ad_Allow :: bool
  ad_Revision :: string

datatype provider_error = ContextCanceled | ProviderFailed string

type_synonym Provider = "Input \<Rightarrow> (provider_error, AuthzDecision) result"

datatype authz_error =
    Unavailable string string
  | Canceled
  | Denied string string

definition name_body :: "char \<Rightarrow> bool" where
  "name_body c \<longleftrightarrow> label_char c \<or> c = CHR ''-''"

text \<open>The anchored expression \<^verbatim>\<open>[a-z0-9]([-a-z0-9]*[a-z0-9])?\<close>.\<close>

definition providerNamePattern :: "string \<Rightarrow> bool" where
  "providerNamePattern s =
     (case s of
        [] \<Rightarrow> False
      | c # cs \<Rightarrow> label_char c \<and> (cs = [] \<or> (list_all name_body (butlast cs) \<and> label_char (last cs))))"

definition ValidateProviderName :: "string \<Rightarrow> bool" where
  "ValidateProviderName name \<longleftrightarrow> \<not> (length name > 63 \<or> \<not> providerNamePattern name)"

datatype register_error = NilRegistry | BadProviderName string | NilProvider string | DuplicateProvider string

text \<open>\<^verbatim>\<open>*Registry\<close>: None is the nil pointer. A nil provider is None.\<close>

type_synonym Registry = "(string \<rightharpoonup> Provider) option"

definition NewRegistry :: Registry where
  "NewRegistry = Some Map.empty"

definition Register_provider :: "Registry \<Rightarrow> string \<Rightarrow> Provider option \<Rightarrow> (register_error, Registry) result" where
  "Register_provider r name provider =
     (case r of
        None \<Rightarrow> Inl NilRegistry
      | Some ps \<Rightarrow>
          if \<not> ValidateProviderName name then Inl (BadProviderName name)
          else (case provider of
              None \<Rightarrow> Inl (NilProvider name)
            | Some p \<Rightarrow> if ps name \<noteq> None then Inl (DuplicateProvider name) else Inr (Some (ps(name \<mapsto> p)))))"

definition Authorize_external :: "Registry \<Rightarrow> string \<Rightarrow> Input \<Rightarrow> (authz_error, AuthzDecision) result" where
  "Authorize_external r providerRef input =
     (case Option.bind r (\<lambda>ps. ps providerRef) of
        None \<Rightarrow> Inl (Unavailable providerRef ''not configured'')
      | Some provider \<Rightarrow>
          (case provider input of
             Inl ContextCanceled \<Rightarrow> Inl Canceled
           | Inl (ProviderFailed e) \<Rightarrow> Inl (Unavailable providerRef e)
           | Inr decision \<Rightarrow>
               if \<not> ad_Allow decision then Inl (Denied providerRef (in_Action input)) else Inr decision))"

definition fingerprint_text :: "string \<Rightarrow> Identity \<Rightarrow> AuthzDecision \<Rightarrow> string" where
  "fingerprint_text providerRef idn decision =
     json_members
       [(''provider'', json_string providerRef),
        (''identityDigest'', json_string (IdentityDigest idn)),
        (''decision'', json_members
           ((''allow'', if ad_Allow decision then ''true'' else ''false'')
            # (if ad_Revision decision = [] then [] else [(''revision'', json_string (ad_Revision decision))])))]"

definition Fingerprint :: "string \<Rightarrow> Identity \<Rightarrow> AuthzDecision \<Rightarrow> string" where
  "Fingerprint providerRef idn decision = sha256_hex (fingerprint_text providerRef idn decision)"

lemma length_Fingerprint: "length (Fingerprint p i d) = 64"
  by (simp add: Fingerprint_def length_sha256_hex)

section \<open>Properties\<close>

lemma name_pattern: "ValidateProviderName s \<longleftrightarrow> s \<noteq> [] \<and> length s \<le> 63 \<and> label_char (hd s) \<and> label_char (last s)
     \<and> (\<forall>c\<in>set s. label_char c \<or> c = CHR ''-'')"
proof (cases s)
  case (Cons c cs)
  show ?thesis
  proof (cases cs rule: rev_cases)
    case Nil
    with Cons show ?thesis by (auto simp: ValidateProviderName_def providerNamePattern_def)
  next
    case (snoc xs x)
    with Cons show ?thesis
      by (auto simp: ValidateProviderName_def providerNamePattern_def list_all_iff name_body_def)
  qed
qed (simp add: ValidateProviderName_def providerNamePattern_def)

text \<open>
  The names under which a provider can be configured are exactly the references a validated model
  can hold, DNS labels of at most 63 characters, although one is checked by a regular expression
  and the other by a loop: no configured provider is unreachable, and no valid reference is
  impossible to configure.
\<close>

theorem provider_names_agree:
  "ValidateProviderName s = validProviderRef s
   \<and> validProviderRef s = (s \<noteq> [] \<and> length s \<le> 63 \<and> label_char (hd s) \<and> label_char (last s)
       \<and> set s \<subseteq> {c. label_char c \<or> c = CHR ''-''})"
  by (auto simp: name_pattern validProviderRef_iff)

text \<open>
  The input a provider sees does not depend on the order in which a token lists its groups and
  roles, and a caller without any is presented under the default role of the model.
\<close>

theorem NewQueryInput_order_independent:
  "mset (id_Groups idn) = mset (id_Groups idn') \<Longrightarrow> mset (id_Roles idn) = mset (id_Roles idn') \<Longrightarrow>
   id_Principal idn = id_Principal idn' \<Longrightarrow> id_Claims idn = id_Claims idn' \<Longrightarrow>
   NewQueryInput m req (idn :: Identity) e = NewQueryInput m req idn' e"
proof -
  assume a: "mset (id_Groups idn) = mset (id_Groups idn')" "mset (id_Roles idn) = mset (id_Roles idn')"
    "id_Principal idn = id_Principal idn'" "id_Claims idn = id_Claims idn'"
  then have s: "sort (id_Groups idn) = sort (id_Groups idn')" "sort (id_Roles idn) = sort (id_Roles idn')"
    by (metis sorted_list_of_multiset_mset)+
  have e: "id_Groups idn = [] \<longleftrightarrow> id_Groups idn' = []" "id_Roles idn = [] \<longleftrightarrow> id_Roles idn' = []"
    using a(1,2) by (metis mset_zero_iff)+
  show ?thesis
    using a(3,4) s e by (cases idn; cases idn'; cases "cm_Governance m") (simp_all add: NewQueryInput_def Let_def)
qed

theorem NewQueryInput_order_independent_witness:
  "NewQueryInput shop empty_Request (no_identity\<lparr>id_Roles := [''b'', ''a'']\<rparr>) e
   = NewQueryInput shop empty_Request (no_identity\<lparr>id_Roles := [''a'', ''b'']\<rparr>) e"
  by (rule NewQueryInput_order_independent) (simp_all add: no_identity_def)

section \<open>What a fingerprint covers\<close>

lemma hex_str_ascii: "\<forall>b\<in>set bs. b < 256 \<Longrightarrow> \<forall>c\<in>set (hex_str bs). byte c < 128"
  by (auto simp: hex_str_def hex_digit_def byte_char_of)

lemma sha256_bytes: "b \<in> set (sha256 s) \<Longrightarrow> b < 256"
  by (auto simp: sha256_def be_bytes_def)

lemma utf8_ok_digest: "utf8_ok (sha256_hex s)"
  unfolding sha256_hex_def by (intro utf8_ok_ascii hex_str_ascii ballI sha256_bytes)

lemma utf8_ok_IdentityDigest: "utf8_ok (IdentityDigest idn)"
  by (simp add: IdentityDigest_def utf8_ok_digest)

definition fingerprint_value :: "string \<Rightarrow> Identity \<Rightarrow> AuthzDecision \<Rightarrow> json" where
  "fingerprint_value providerRef idn decision =
     JObj [(''provider'', JStr providerRef), (''identityDigest'', JStr (IdentityDigest idn)),
       (''decision'', JObj ((''allow'', JBool (ad_Allow decision))
          # (if ad_Revision decision = [] then [] else [(''revision'', JStr (ad_Revision decision))])))]"

lemma reads_fingerprint:
  assumes "utf8_ok providerRef" "utf8_ok (ad_Revision decision)"
  shows "reads (fingerprint_value providerRef idn decision) (fingerprint_text providerRef idn decision)"
proof -
  have ascii: "utf8_ok ''provider''" "utf8_ok ''identityDigest''" "utf8_ok ''decision''" "utf8_ok ''allow''" "utf8_ok ''revision''"
    by (simp_all add: utf8_ok_ascii byte_def)
  have "reads (JObj ((''allow'', JBool (ad_Allow decision))
          # (if ad_Revision decision = [] then [] else [(''revision'', JStr (ad_Revision decision))])))
      (json_members ((''allow'', if ad_Allow decision then ''true'' else ''false'')
            # (if ad_Revision decision = [] then [] else [(''revision'', json_string (ad_Revision decision))])))"
    by (rule reads_members) (simp add: ascii reads_words reads_string assms)
  then show ?thesis
    unfolding fingerprint_value_def fingerprint_text_def
    by (intro reads_members) (simp add: ascii reads_string assms(1) utf8_ok_IdentityDigest)
qed

text \<open>
  Two decisions with one fingerprint text come from one provider, for identities with the
  same digest, with the same answer and the same policy revision: caches that are partitioned by the
  fingerprint never mix what different decisions allow, short of a SHA-256 collision.
\<close>

theorem fingerprint_text_injective:
  assumes "utf8_ok p" "utf8_ok p'" "utf8_ok (ad_Revision d)" "utf8_ok (ad_Revision d')"
    and "fingerprint_text p idn d = fingerprint_text p' idn' d'"
  shows "p = p' \<and> IdentityDigest idn = IdentityDigest idn' \<and> (d :: AuthzDecision) = d'"
proof -
  have "fingerprint_value p idn d = fingerprint_value p' idn' d'"
    using json_parse_reads[OF reads_fingerprint[OF assms(1,3)]] json_parse_reads[OF reads_fingerprint[OF assms(2,4)]] assms(5)
    by (metis option.inject)
  then show ?thesis
    by (cases d; cases d') (auto simp: fingerprint_value_def split: if_splits)
qed

theorem fingerprint_text_injective_witness:
  "fingerprint_text ''opa'' no_identity \<lparr>ad_Allow = True, ad_Revision = ''1''\<rparr>
     \<noteq> fingerprint_text ''opa'' no_identity \<lparr>ad_Allow = True, ad_Revision = ''2''\<rparr>"
proof
  assume t: "fingerprint_text ''opa'' no_identity \<lparr>ad_Allow = True, ad_Revision = ''1''\<rparr>
     = fingerprint_text ''opa'' no_identity \<lparr>ad_Allow = True, ad_Revision = ''2''\<rparr>"
  have "\<lparr>ad_Allow = True, ad_Revision = ''1''\<rparr> = \<lparr>ad_Allow = True, ad_Revision = ''2''\<rparr>"
    by (rule conjunct2[OF conjunct2[OF fingerprint_text_injective[OF _ _ _ _ t]]]) (simp_all add: utf8_ok_ascii byte_def)
  then show False by simp
qed

end
