(* ===== verification/Service.thy ===== *)
theory Service
  imports Limits ModelStore Cache Authorization
begin

text \<open>
  \<^verbatim>\<open>internal/serving/service.go\<close>: the one query path shared by the adapters. A call returns its
  outcome together with the list of what it did outside the process, in order: which provider it
  asked, which cache keys it read and wrote, which statement it ran under which credential. The
  replies of these parties (Redis, the policy providers, the engine) and the clock are the record
  \<open>World\<close>. Counters, logging and tracing are left out.
\<close>

section \<open>Types\<close>

text \<open>\<^verbatim>\<open>dbclient.EngineCredential\<close>; the expiry is Unix time in nanoseconds.\<close>

record EngineCredential =
  ec_Token :: string
  ec_EngineUser :: string
  ec_Expiry :: int

definition cred_IsZero :: "EngineCredential \<Rightarrow> bool" where
  "cred_IsZero c \<longleftrightarrow> ec_Token c = []"

text \<open>An engine reply: column names and rows, where no rows at all may be a nil slice.\<close>

type_synonym engine_reply = "(string, string list \<times> go_value list list option) result"

record Service =
  svc_Store :: Store
  svc_Dialect :: dialect
  svc_Cache :: "Cache option"
  svc_Authorization :: "Registry option"
  svc_ExposeExpressions :: bool
  svc_Limits :: Limits

record World =
  w_now :: int
  w_redis :: redis
  w_db :: "EngineCredential \<Rightarrow> string \<Rightarrow> engine_reply"

record MetricInfo =
  mi_Name :: string
  mi_Description :: string
  mi_Expression :: string
  mi_Synonyms :: "string list"

record DimensionInfo =
  di_Name :: string
  di_Description :: string
  di_Type :: string
  di_IsTime :: bool
  di_Synonyms :: "string list"

record ModelInfo =
  mo_Name :: string
  mo_Version :: string
  mo_Description :: string
  mo_Metrics :: nat
  mo_Datasets :: nat
  mo_Namespace :: string
  mo_Resource :: string

record QueryResult =
  qr_Columns :: "string list"
  qr_Rows :: "go_value list list"
  qr_RowCount :: nat
  qr_SQL :: string
  qr_Model :: string
  qr_ModelVersion :: string
  qr_RequestHash :: string
  qr_Role :: string
  qr_AuthorizationFingerprint :: string
  qr_CachedPlan :: bool
  qr_CachedResult :: bool

datatype service_error =
    ErrUnknownModel string
  | AmbiguousModel string "string list"
  | NoAccessibleModel
  | ModelNameRequired "string list"
  | GovernanceRefused "unit gov_error"
  | NilModelEntry string
  | LimitExceeded limit_error
  | NoAuthorizer string string
  | AuthzError authz_error
  | PlanFailed plan_error
  | ErrResultIncomplete int
  | ExecutionFailed string
  | ResultTooLarge nat int

section \<open>Choosing a model\<close>

definition ambiguityErr :: "Service \<Rightarrow> string \<Rightarrow> service_error" where
  "ambiguityErr s name =
     AmbiguousModel name (map (\<lambda>d. cm_Namespace d @ ''/'' @ cm_Resource d) (ByName (svc_Store s) name))"

definition may_use :: "glob_compiler \<Rightarrow> Identity \<Rightarrow> CompiledModel \<Rightarrow> bool" where
  "may_use compile idn m = isOK (Visible compile (cm_Governance m) idn :: (unit gov_error, Visibility) result)"

fun visible_models :: "glob_compiler \<Rightarrow> Identity \<Rightarrow> string list \<Rightarrow> CompiledModel list \<Rightarrow> string list" where
  "visible_models compile idn seen [] = []"
| "visible_models compile idn seen (m # ms) =
     (if cm_Name m \<in> set seen then visible_models compile idn seen ms
      else if \<not> may_use compile idn m then visible_models compile idn seen ms
      else cm_Name m # visible_models compile idn (cm_Name m # seen) ms)"

definition visibleNames :: "glob_compiler \<Rightarrow> Service \<Rightarrow> Identity \<Rightarrow> string list" where
  "visibleNames compile s idn = visible_models compile idn [] (All (svc_Store s))"

text \<open>A lookup by name that answers with the model or the ambiguity error, or not at all.\<close>

definition resolve_name :: "Service \<Rightarrow> string \<Rightarrow> (service_error, CompiledModel) result option" where
  "resolve_name s name =
     (case ModelStore.Get (svc_Store s) name of
        Some m \<Rightarrow> Some (Inr m)
      | None \<Rightarrow> if Ambiguous (svc_Store s) name then Some (Inl (ambiguityErr s name)) else None)"

definition Resolve :: "glob_compiler \<Rightarrow> Service \<Rightarrow> string \<Rightarrow> Identity \<Rightarrow> (service_error, CompiledModel) result" where
  "Resolve compile s name idn =
     (if name \<noteq> [] then
        (case resolve_name s name of Some r \<Rightarrow> r | None \<Rightarrow> Inl (ErrUnknownModel name))
      else
        (case Single_model (svc_Store s) of
           Some m \<Rightarrow> Inr m
         | None \<Rightarrow>
             (let visible = visibleNames compile s idn
              in case (case visible of [n] \<Rightarrow> resolve_name s n | _ \<Rightarrow> None) of
                   Some r \<Rightarrow> r
                 | None \<Rightarrow> if visible = [] then Inl NoAccessibleModel else Inl (ModelNameRequired visible))))"

section \<open>Listings\<close>

definition model_info :: "CompiledModel \<Rightarrow> ModelInfo" where
  "model_info m =
     \<lparr>mo_Name = cm_Name m, mo_Version = cm_Version m, mo_Description = cm_Description m,
      mo_Metrics = length (cm_MetricOrder m), mo_Datasets = length (cm_DatasetOrder m),
      mo_Namespace = cm_Namespace m, mo_Resource = cm_Resource m\<rparr>"

definition Models :: "glob_compiler \<Rightarrow> Service \<Rightarrow> Identity \<Rightarrow> ModelInfo list" where
  "Models compile s idn = map model_info (filter (may_use compile idn) (All (svc_Store s)))"

definition metric_info :: "bool \<Rightarrow> CompiledMetric \<Rightarrow> MetricInfo" where
  "metric_info expose mt =
     \<lparr>mi_Name = cmt_Name mt, mi_Description = cmt_Description mt,
      mi_Expression = (if expose then cmt_Raw mt else []), mi_Synonyms = ai_Synonyms (cmt_AIContext mt)\<rparr>"

text \<open>A name without an entry is a nil pointer, which the loop dereferences.\<close>

definition ListMetrics :: "glob_compiler \<Rightarrow> Service \<Rightarrow> CompiledModel \<Rightarrow> Identity \<Rightarrow> (service_error, MetricInfo list) result" where
  "ListMetrics compile s m idn =
     ebind (emap_err GovernanceRefused (Visible compile (cm_Governance m) idn)) (\<lambda>vis.
     ebind (emap (\<lambda>name. case cm_Metrics m name of None \<Rightarrow> Inl (NilModelEntry name) | Some mt \<Rightarrow> Inr mt)
             (cm_MetricOrder m)) (\<lambda>mts.
       Inr (map (metric_info (svc_ExposeExpressions s)) (filter (\<lambda>mt. Visibility_Metric vis (cmt_Name mt)) mts))))"

definition dimension_info :: "string \<Rightarrow> CompiledField \<Rightarrow> DimensionInfo" where
  "dimension_info ref f =
     \<lparr>di_Name = ref, di_Description = cf_Description f, di_Type = cf_Type f, di_IsTime = cf_IsTime f,
      di_Synonyms = ai_Synonyms (cf_AIContext f)\<rparr>"

definition dataset_dimensions :: "Visibility \<Rightarrow> string \<Rightarrow> CompiledDataset \<Rightarrow> (service_error, DimensionInfo list) result" where
  "dataset_dimensions vis dsName ds =
     ebind (emap (\<lambda>fName. case cd_Fields ds fName of None \<Rightarrow> Inl (NilModelEntry fName) | Some f \<Rightarrow> Inr (fName, f))
             (cd_FieldOrder ds)) (\<lambda>fs.
       Inr (map (\<lambda>(fName, f). dimension_info (dsName @ ''.'' @ fName) f)
              (filter (\<lambda>(fName, f). cf_IsDimension f \<and> Visibility_Field vis (dsName @ ''.'' @ fName)) fs)))"

definition ListDimensions :: "glob_compiler \<Rightarrow> CompiledModel \<Rightarrow> Identity \<Rightarrow> (service_error, DimensionInfo list) result" where
  "ListDimensions compile m idn =
     ebind (emap_err GovernanceRefused (Visible compile (cm_Governance m) idn)) (\<lambda>vis.
     ebind (emap (\<lambda>dsName. case cm_Datasets m dsName of
                None \<Rightarrow> Inl (NilModelEntry dsName)
              | Some ds \<Rightarrow> dataset_dimensions vis dsName ds) (cm_DatasetOrder m)) (\<lambda>dss.
       Inr (concat dss)))"

definition Service_MaxRequestBytes :: "Service \<Rightarrow> int" where
  "Service_MaxRequestBytes s = MaxRequestBytes (withDefaults (svc_Limits s))"

section \<open>What the caches store\<close>

text \<open>\<^verbatim>\<open>json.Marshal\<close> of a plan, and \<^verbatim>\<open>json.Unmarshal\<close> into an empty one: members are matched
  without regard to case, the last of several wins, a null leaves the field as it was, and a value
  of another type is an error.\<close>

definition plan_json :: "QueryPlan \<Rightarrow> string" where
  "plan_json p =
     json_members
       ([(''sql'', json_string (p_SQL p)), (''model'', json_string (p_Model p)),
         (''modelVersion'', json_string (p_ModelVersion p)), (''requestHash'', json_string (p_RequestHash p))]
        @ (if p_Role p = [] then [] else [(''role'', json_string (p_Role p))])
        @ (if p_AuthorizationFingerprint p = [] then []
           else [(''authorizationFingerprint'', json_string (p_AuthorizationFingerprint p))])
        @ [(''columns'', json_list (map json_string (p_Columns p)))])"

definition zero_plan :: QueryPlan where
  "zero_plan = \<lparr>p_SQL = [], p_Model = [], p_ModelVersion = [], p_RequestHash = [], p_Role = [],
     p_AuthorizationFingerprint = [], p_Columns = []\<rparr>"

fun member_string :: "string \<Rightarrow> json \<Rightarrow> string option" where
  "member_string old (JStr s) = Some s"
| "member_string old JNull = Some old"
| "member_string old _ = None"

fun strings_at :: "string list \<Rightarrow> json list \<Rightarrow> string list option" where
  "strings_at old [] = Some []"
| "strings_at old (v # vs) =
     (case member_string (case old of [] \<Rightarrow> [] | x # _ \<Rightarrow> x) v of
        None \<Rightarrow> None
      | Some s \<Rightarrow> map_option (\<lambda>ss. s # ss) (strings_at (tl old) vs))"

fun member_strings :: "string list \<Rightarrow> json \<Rightarrow> string list option" where
  "member_strings old (JArr vs) = strings_at old vs"
| "member_strings old JNull = Some []"
| "member_strings old _ = None"

definition plan_member :: "QueryPlan option \<Rightarrow> string \<times> json \<Rightarrow> QueryPlan option" where
  "plan_member acc kv =
     (case acc of
        None \<Rightarrow> None
      | Some p \<Rightarrow>
          (let (k, v) = kv
           in if equal_fold k ''sql'' then map_option (\<lambda>x. p\<lparr>p_SQL := x\<rparr>) (member_string (p_SQL p) v)
              else if equal_fold k ''model'' then map_option (\<lambda>x. p\<lparr>p_Model := x\<rparr>) (member_string (p_Model p) v)
              else if equal_fold k ''modelVersion'' then
                map_option (\<lambda>x. p\<lparr>p_ModelVersion := x\<rparr>) (member_string (p_ModelVersion p) v)
              else if equal_fold k ''requestHash'' then
                map_option (\<lambda>x. p\<lparr>p_RequestHash := x\<rparr>) (member_string (p_RequestHash p) v)
              else if equal_fold k ''role'' then map_option (\<lambda>x. p\<lparr>p_Role := x\<rparr>) (member_string (p_Role p) v)
              else if equal_fold k ''authorizationFingerprint'' then
                map_option (\<lambda>x. p\<lparr>p_AuthorizationFingerprint := x\<rparr>) (member_string (p_AuthorizationFingerprint p) v)
              else if equal_fold k ''columns'' then
                map_option (\<lambda>x. p\<lparr>p_Columns := x\<rparr>) (member_strings (p_Columns p) v)
              else Some p))"

definition plan_decode :: "string \<Rightarrow> QueryPlan option" where
  "plan_decode blob =
     (case json_parse blob of
        Some (JObj kvs) \<Rightarrow> foldl plan_member (Some zero_plan) kvs
      | Some JNull \<Rightarrow> Some zero_plan
      | _ \<Rightarrow> None)"

text \<open>A result is marshalled as a map; a value that JSON cannot hold makes the whole fail. Decoding turns
  every number into a \<^verbatim>\<open>float64\<close>.\<close>

definition result_json :: "string list \<Rightarrow> go_value list list \<Rightarrow> string option" where
  "result_json cols rows =
     map_option (\<lambda>rs. json_members [(''columns'', json_list (map json_string cols)), (''rows'', json_list rs)])
       (option_list (map (json_array json_value) rows))"

fun any_value :: "json \<Rightarrow> go_value option" where
  "any_value JNull = Some VNil"
| "any_value (JBool b) = Some (VBool b)"
| "any_value (JNum t) = map_option VFloat64 (ParseFloat t)"
| "any_value (JStr s) = Some (VString s)"
| "any_value (JArr vs) = map_option VArray (option_list (map any_value vs))"
| "any_value (JObj kvs) =
     map_option (\<lambda>vs. VObject (rev (zip (map fst kvs) vs))) (option_list (map (\<lambda>kv. any_value (snd kv)) kvs))"

fun row_values :: "json \<Rightarrow> go_value list option" where
  "row_values (JArr vs) = option_list (map any_value vs)"
| "row_values JNull = Some []"
| "row_values _ = None"

fun member_rows :: "json \<Rightarrow> go_value list list option" where
  "member_rows (JArr vs) = option_list (map row_values vs)"
| "member_rows JNull = Some []"
| "member_rows _ = None"

type_synonym result_set = "string list \<times> go_value list list"

definition result_member :: "result_set option \<Rightarrow> string \<times> json \<Rightarrow> result_set option" where
  "result_member acc kv =
     (case acc of
        None \<Rightarrow> None
      | Some (cols, rows) \<Rightarrow>
          if equal_fold (fst kv) ''columns'' then map_option (\<lambda>c. (c, rows)) (member_strings cols (snd kv))
          else if equal_fold (fst kv) ''rows'' then map_option (\<lambda>r. (cols, r)) (member_rows (snd kv))
          else Some (cols, rows))"

definition result_decode :: "string \<Rightarrow> result_set option" where
  "result_decode blob =
     (case json_parse blob of
        Some (JObj kvs) \<Rightarrow> foldl result_member (Some ([], [])) kvs
      | Some JNull \<Rightarrow> Some ([], [])
      | _ \<Rightarrow> None)"

section \<open>Planning and executing\<close>

datatype event =
    AskProvider string Input
  | LookUp string
  | Write string string int
  | AskEngine EngineCredential string

type_synonym 'a served = "(service_error, 'a) result \<times> event list"

definition sbind :: "'a served \<Rightarrow> ('a \<Rightarrow> 'b served) \<Rightarrow> 'b served" where
  "sbind c f = (case fst c of Inl e \<Rightarrow> (Inl e, snd c) | Inr x \<Rightarrow> (let (r, es) = f x in (r, snd c @ es)))"

definition outcome :: "(service_error, 'a) result \<Rightarrow> 'a served" where
  "outcome r = (r, [])"

definition does :: "event list \<Rightarrow> unit served" where
  "does es = (Inr (), es)"

definition writes :: "cache_write list \<Rightarrow> event list" where
  "writes ws = map (\<lambda>(k, v, ttl). Write k v ttl) ws"

text \<open>A nil cache is not looked up.\<close>

definition look_up :: "Cache option \<Rightarrow> string \<Rightarrow> unit served" where
  "look_up c key = does (if c = None then [] else [LookUp key])"

text \<open>The external decision comes before any cache lookup; its fingerprint is the scope of what follows.\<close>

definition external_decision :: "Service \<Rightarrow> World \<Rightarrow> string \<Rightarrow> CompiledModel \<Rightarrow> Request \<Rightarrow> Identity \<Rightarrow> string served" where
  "external_decision s w adapter m req idn =
     (case Option.bind (cm_Governance m) g_External of
        None \<Rightarrow> outcome (Inr [])
      | Some ext \<Rightarrow>
          (case svc_Authorization s of
             None \<Rightarrow> outcome (Inl (NoAuthorizer (ext_ProviderRef ext) (cm_Name m)))
           | Some reg \<Rightarrow>
               (let input = NewQueryInput m req idn \<lparr>env_AccessTimeUnixMilli = w_now w, env_Adapter = adapter\<rparr>
                in sbind (does [AskProvider (ext_ProviderRef ext) input]) (\<lambda>_.
                   sbind (outcome (emap_err AuthzError (Authorize_external reg (ext_ProviderRef ext) input))) (\<lambda>decision.
                   outcome (Inr (Fingerprint (ext_ProviderRef ext) (in_Identity input) decision)))))))"

definition plan_key :: "glob_compiler \<Rightarrow> Service \<Rightarrow> CompiledModel \<Rightarrow> Request \<Rightarrow> Identity \<Rightarrow> string \<Rightarrow> string" where
  "plan_key compile s m req idn fp =
     PlanKey (dialect_name (svc_Dialect s)) (cm_Name m) (cm_Version m)
       (RequestHash req (IdentityKey compile (cm_Governance m) idn)) fp"

definition cached_plan :: "Service \<Rightarrow> World \<Rightarrow> string \<Rightarrow> string \<Rightarrow> QueryPlan option" where
  "cached_plan s w key fp =
     (case GetPlan (svc_Cache s) (w_redis w) key of
        None \<Rightarrow> None
      | Some blob \<Rightarrow>
          (case plan_decode blob of
             None \<Rightarrow> None
           | Some p \<Rightarrow> if p_AuthorizationFingerprint p = fp then Some p else None))"

text \<open>The second half of \<^verbatim>\<open>Plan\<close>: the plan cache, then the planner.\<close>

definition plan_scoped ::
  "glob_compiler \<Rightarrow> Service \<Rightarrow> World \<Rightarrow> CompiledModel \<Rightarrow> Request \<Rightarrow> Identity \<Rightarrow> string \<Rightarrow> (QueryPlan \<times> bool) served" where
  "plan_scoped compile s w m req idn fp =
     (let key = plan_key compile s m req idn fp
      in sbind (look_up (svc_Cache s) key) (\<lambda>_.
         case cached_plan s w key fp of
           Some p \<Rightarrow> outcome (Inr (p, True))
         | None \<Rightarrow>
             sbind (outcome (emap_err PlanFailed (Build compile m (svc_Dialect s) req idn))) (\<lambda>p0.
               let p = p0\<lparr>p_AuthorizationFingerprint := fp\<rparr>
               in sbind (does (writes (SetPlan (svc_Cache s) key (plan_json p)))) (\<lambda>_. outcome (Inr (p, False))))))"

definition Service_Plan ::
  "glob_compiler \<Rightarrow> Service \<Rightarrow> World \<Rightarrow> string \<Rightarrow> CompiledModel \<Rightarrow> Request \<Rightarrow> Identity \<Rightarrow> (QueryPlan \<times> bool) served" where
  "Service_Plan compile s w adapter m req0 idn =
     sbind (outcome (emap_err LimitExceeded (apply_limits (svc_Limits s) req0))) (\<lambda>req.
     sbind (external_decision s w adapter m req idn) (plan_scoped compile s w m req idn))"

definition plan_result :: "QueryPlan \<Rightarrow> bool \<Rightarrow> bool \<Rightarrow> result_set \<Rightarrow> QueryResult" where
  "plan_result p cachedPlan cachedResult rs =
     \<lparr>qr_Columns = fst rs, qr_Rows = snd rs, qr_RowCount = length (snd rs), qr_SQL = p_SQL p, qr_Model = p_Model p,
      qr_ModelVersion = p_ModelVersion p, qr_RequestHash = p_RequestHash p, qr_Role = p_Role p,
      qr_AuthorizationFingerprint = p_AuthorizationFingerprint p, qr_CachedPlan = cachedPlan,
      qr_CachedResult = cachedResult\<rparr>"

text \<open>A credential without an engine user has no key to cache its results under.\<close>

definition cacheable :: "EngineCredential \<Rightarrow> bool" where
  "cacheable cred \<longleftrightarrow> cred_IsZero cred \<or> ec_EngineUser cred \<noteq> []"

definition scope_user :: "EngineCredential \<Rightarrow> string option" where
  "scope_user cred = (if cred_IsZero cred \<or> ec_EngineUser cred = [] then None else Some (ec_EngineUser cred))"

definition result_key :: "CompiledModel \<Rightarrow> QueryPlan \<Rightarrow> EngineCredential \<Rightarrow> string" where
  "result_key m p cred =
     ResultKey (cm_Name m) (cm_Version m) (p_SQL p) (result_scope (p_AuthorizationFingerprint p) (scope_user cred))"

definition cached_result :: "Service \<Rightarrow> World \<Rightarrow> string \<Rightarrow> result_set option" where
  "cached_result s w key = Option.bind (GetResult (svc_Cache s) (w_redis w) key) result_decode"

definition incomplete :: "Service \<Rightarrow> Request \<Rightarrow> go_value list list \<Rightarrow> bool" where
  "incomplete s req rows \<longleftrightarrow> req_Limit req = 0 \<and> int (length rows) > DefaultRowLimit (withDefaults (svc_Limits s))"

text \<open>From the reply of the engine to the envelope.\<close>

definition deliver ::
  "Service \<Rightarrow> CompiledModel \<Rightarrow> Request \<Rightarrow> EngineCredential \<Rightarrow> QueryPlan \<Rightarrow> bool \<Rightarrow> engine_reply \<Rightarrow> QueryResult served" where
  "deliver s m req cred p cachedPlan reply =
     (let lim = withDefaults (svc_Limits s)
      in case reply of
           Inl e \<Rightarrow> outcome (Inl (ExecutionFailed e))
         | Inr (cols, rows0) \<Rightarrow>
             (let rows = (case rows0 of None \<Rightarrow> [] | Some rs \<Rightarrow> rs); blob = result_json cols rows
              in if incomplete s req rows then outcome (Inl (ErrResultIncomplete (DefaultRowLimit lim)))
                 else (case blob of
                     None \<Rightarrow> outcome (Inr (plan_result p cachedPlan False (cols, rows)))
                   | Some b \<Rightarrow>
                       if int (length b) > MaxResultBytes lim then outcome (Inl (ResultTooLarge (length b) (MaxResultBytes lim)))
                       else sbind (does (if cacheable cred \<and> int (length b) \<le> MaxCacheEntryBytes lim
                                         then writes (SetResult (svc_Cache s) (result_key m p cred) b) else []))
                              (\<lambda>_. outcome (Inr (plan_result p cachedPlan False (cols, rows)))))))"

text \<open>The second half of \<^verbatim>\<open>Query\<close>: the result cache, then the engine.\<close>

definition run_plan ::
  "Service \<Rightarrow> World \<Rightarrow> CompiledModel \<Rightarrow> Request \<Rightarrow> EngineCredential \<Rightarrow> QueryPlan \<times> bool \<Rightarrow> QueryResult served" where
  "run_plan s w m req cred pc =
     (let (p, cachedPlan) = pc; key = result_key m p cred
      in sbind (if cacheable cred then look_up (svc_Cache s) key else does []) (\<lambda>_.
         case (if cacheable cred then cached_result s w key else None) of
           Some rs \<Rightarrow>
             if incomplete s req (snd rs)
             then outcome (Inl (ErrResultIncomplete (DefaultRowLimit (withDefaults (svc_Limits s)))))
             else outcome (Inr (plan_result p cachedPlan True rs))
         | None \<Rightarrow>
             sbind (does [AskEngine cred (p_SQL p)]) (\<lambda>_.
             deliver s m req cred p cachedPlan (w_db w cred (p_SQL p)))))"

definition Service_Query ::
  "glob_compiler \<Rightarrow> Service \<Rightarrow> World \<Rightarrow> string \<Rightarrow> CompiledModel \<Rightarrow> Request \<Rightarrow> Identity \<Rightarrow> EngineCredential \<Rightarrow> QueryResult served" where
  "Service_Query compile s w adapter m req idn cred =
     sbind (Service_Plan compile s w adapter m req idn) (run_plan s w m req cred)"

section \<open>Steps of a call\<close>

lemma sbind_cases:
  assumes "sbind c f = (r, es)"
  obtains e where "fst c = Inl e" "r = Inl e" "es = snd c"
    | x es' where "fst c = Inr x" "f x = (r, es')" "es = snd c @ es'"
  using assms by (cases "fst c") (auto simp: sbind_def split: prod.splits)

lemma sbind_simps [simp]:
  "sbind (Inl e, es) f = (Inl e, es)" "sbind (Inr x, es) f = (let (r, es') = f x in (r, es @ es'))" "sbind (outcome r) f = (case r of Inl e \<Rightarrow> outcome (Inl e) | Inr x \<Rightarrow> f x)"
  "sbind (does es) g = (let (r, es') = g () in (r, es @ es'))"
  by (auto simp: sbind_def outcome_def does_def split: sum.split)

lemma look_up_fst: "fst (look_up c key) = Inr ()"
  by (simp add: look_up_def does_def)

text \<open>The parts of a call that planned successfully.\<close>

definition plan_origin :: "glob_compiler \<Rightarrow> Service \<Rightarrow> World \<Rightarrow> CompiledModel \<Rightarrow> Request \<Rightarrow> Identity \<Rightarrow> string \<Rightarrow> QueryPlan \<Rightarrow> bool \<Rightarrow> bool" where
  "plan_origin compile s w m req idn fp p cached \<longleftrightarrow>
     p_AuthorizationFingerprint p = fp
     \<and> (if cached then cached_plan s w (plan_key compile s m req idn fp) fp = Some p
        else \<exists>p0. Build compile m (svc_Dialect s) req idn = Inr p0 \<and> p = p0\<lparr>p_AuthorizationFingerprint := fp\<rparr>)"

lemma plan_scoped_origin:
  assumes "plan_scoped compile s w m req idn fp = (Inr (p, cached), es)"
  shows "plan_origin compile s w m req idn fp p cached"
  using assms
  by (cases "cached_plan s w (plan_key compile s m req idn fp) fp"; cases "Build compile m (svc_Dialect s) req idn")
    (auto simp: plan_scoped_def Let_def look_up_def outcome_def plan_origin_def cached_plan_def
      split: option.splits if_splits prod.splits)

lemma Service_Plan_steps:
  assumes "Service_Plan compile s w adapter m req0 idn = (Inr (p, cached), es)"
  obtains req fp where "apply_limits (svc_Limits s) req0 = Inr req"
    "fst (external_decision s w adapter m req idn) = Inr fp" "plan_origin compile s w m req idn fp p cached"
proof (cases "apply_limits (svc_Limits s) req0")
  case (Inl e)
  with assms show ?thesis by (simp add: Service_Plan_def outcome_def)
next
  case (Inr req)
  with assms have r: "sbind (external_decision s w adapter m req idn) (plan_scoped compile s w m req idn) = (Inr (p, cached), es)"
    by (simp add: Service_Plan_def)
  show ?thesis
  proof (rule sbind_cases[OF r], goal_cases)
    case (2 fp es')
    with that[OF Inr 2(1)] plan_scoped_origin show ?thesis by blast
  qed simp
qed

section \<open>External authorization comes first\<close>

lemma sbind_events: "snd (sbind c f) = snd c @ (case fst c of Inl e \<Rightarrow> [] | Inr x \<Rightarrow> snd (f x))"
  by (auto simp: sbind_def split: sum.split prod.split)

lemma sbind_outcome: "fst (sbind c f) = (case fst c of Inl e \<Rightarrow> Inl e | Inr x \<Rightarrow> fst (f x))"
  by (auto simp: sbind_def split: sum.split prod.split)

text \<open>What a decision that lets a request through looks like.\<close>

definition allowed_by ::
  "Service \<Rightarrow> World \<Rightarrow> string \<Rightarrow> CompiledModel \<Rightarrow> Request \<Rightarrow> Identity \<Rightarrow> string \<Rightarrow> Input \<Rightarrow> bool" where
  "allowed_by s w adapter m req idn ref input \<longleftrightarrow>
     (\<exists>ps provider lreq decision. svc_Authorization s = Some (Some ps) \<and> ps ref = Some provider
        \<and> apply_limits (svc_Limits s) req = Inr lreq
        \<and> input = NewQueryInput m lreq idn \<lparr>env_AccessTimeUnixMilli = w_now w, env_Adapter = adapter\<rparr>
        \<and> provider input = Inr decision \<and> ad_Allow decision)"

lemma Authorize_external_Inr:
  "Authorize_external reg ref input = Inr d \<longleftrightarrow>
     (\<exists>ps provider. reg = Some ps \<and> ps ref = Some provider \<and> provider input = Inr d \<and> ad_Allow d)"
  by (cases reg) (auto simp: Authorize_external_def split: option.splits sum.splits provider_error.splits)

lemma external_decision_cases:
  assumes ext: "Option.bind (cm_Governance m) g_External = Some ext" and lim: "apply_limits (svc_Limits s) req = Inr lreq"
  shows "(\<exists>e input. fst (external_decision s w adapter m lreq idn) = Inl e
       \<and> (snd (external_decision s w adapter m lreq idn) = []
          \<or> snd (external_decision s w adapter m lreq idn) = [AskProvider (ext_ProviderRef ext) input]))
     \<or> (\<exists>fp input. external_decision s w adapter m lreq idn = (Inr fp, [AskProvider (ext_ProviderRef ext) input])
       \<and> allowed_by s w adapter m req idn (ext_ProviderRef ext) input)"
proof (cases "svc_Authorization s")
  case None
  then show ?thesis by (simp add: external_decision_def ext outcome_def)
next
  case (Some reg)
  let ?input = "NewQueryInput m lreq idn \<lparr>env_AccessTimeUnixMilli = w_now w, env_Adapter = adapter\<rparr>"
  show ?thesis
  proof (cases "Authorize_external reg (ext_ProviderRef ext) ?input")
    case (Inl e)
    with Some show ?thesis by (simp add: external_decision_def ext outcome_def Let_def)
  next
    case (Inr d)
    then have "allowed_by s w adapter m req idn (ext_ProviderRef ext) ?input"
      using Some lim unfolding Authorize_external_Inr allowed_by_def by blast
    with Some Inr show ?thesis by (simp add: external_decision_def ext outcome_def Let_def)
  qed
qed

text \<open>
  C7. A model that names an external provider is served only by its decision. Nothing happens outside
  the process before the provider is asked, neither a cache lookup nor a statement sent to the engine;
  and unless the provider is configured, is asked about exactly this request, and
  allows it, the call ends with an error right there, whatever the caches hold.
\<close>

theorem external_authorization_first:
  assumes "Option.bind (cm_Governance m) g_External = Some ext"
    and "Service_Query compile s w adapter m req idn cred = (r, es)"
  shows "(\<exists>e input. r = Inl e \<and> (es = [] \<or> es = [AskProvider (ext_ProviderRef ext) input]))
     \<or> (\<exists>input rest. es = AskProvider (ext_ProviderRef ext) input # rest
          \<and> allowed_by s w adapter m req idn (ext_ProviderRef ext) input)"
proof -
  have es: "es = snd (Service_Query compile s w adapter m req idn cred)"
    and r: "r = fst (Service_Query compile s w adapter m req idn cred)" using assms(2) by simp_all
  show ?thesis
  proof (cases "apply_limits (svc_Limits s) req")
    case (Inl e)
    then show ?thesis unfolding es r
      by (simp add: Service_Query_def Service_Plan_def sbind_events sbind_outcome outcome_def)
  next
    case (Inr lreq)
    let ?ed = "external_decision s w adapter m lreq idn"
    have sp: "Service_Plan compile s w adapter m req idn = sbind ?ed (plan_scoped compile s w m lreq idn)"
      by (simp add: Service_Plan_def Inr)
    from external_decision_cases[OF assms(1) Inr, of w adapter idn]
    consider e input where "fst ?ed = Inl e" "snd ?ed = [] \<or> snd ?ed = [AskProvider (ext_ProviderRef ext) input]"
      | fp input where "?ed = (Inr fp, [AskProvider (ext_ProviderRef ext) input])"
          "allowed_by s w adapter m req idn (ext_ProviderRef ext) input" by blast
    then show ?thesis
    proof cases
      case (1 e input)
      then have "r = Inl e \<and> es = snd ?ed" unfolding es r Service_Query_def sp by (simp add: sbind_events sbind_outcome)
      with 1 show ?thesis by auto
    next
      case (2 fp input)
      then have "\<exists>rest. es = AskProvider (ext_ProviderRef ext) input # rest"
        unfolding es Service_Query_def sbind_events[of "Service_Plan compile s w adapter m req idn"]
        unfolding sp sbind_events by simp
      with 2 show ?thesis by blast
    qed
  qed
qed

definition guarded_shop :: CompiledModel where
  "guarded_shop = shop\<lparr>cm_Governance := Some (two_roles\<lparr>g_External := Some \<lparr>ext_ProviderRef = ''opa''\<rparr>\<rparr>)\<rparr>"

definition denying_service :: Service where
  "denying_service = \<lparr>svc_Store = NewStore, svc_Dialect = trino, svc_Cache = None,
     svc_Authorization = Some (Some [''opa'' \<mapsto> \<lambda>input. Inr \<lparr>ad_Allow = False, ad_Revision = []\<rparr>]),
     svc_ExposeExpressions = False, svc_Limits = no_limits\<rparr>"

definition quiet_world :: World where
  "quiet_world = \<lparr>w_now = 0, w_redis = (\<lambda>k. RedisNil), w_db = (\<lambda>c q. Inr ([], None))\<rparr>"

definition no_credential :: EngineCredential where
  "no_credential = \<lparr>ec_Token = [], ec_EngineUser = [], ec_Expiry = 0\<rparr>"

theorem external_authorization_first_witness:
  "\<exists>e input. fst (Service_Query star_glob denying_service quiet_world ''rest'' guarded_shop by_city (Single ''b'') no_credential) = Inl e
     \<and> (let es = snd (Service_Query star_glob denying_service quiet_world ''rest'' guarded_shop by_city (Single ''b'') no_credential)
        in es = [] \<or> es = [AskProvider ''opa'' input])"
proof -
  let ?q = "Service_Query star_glob denying_service quiet_world ''rest'' guarded_shop by_city (Single ''b'') no_credential"
  have ext: "Option.bind (cm_Governance guarded_shop) g_External = Some \<lparr>ext_ProviderRef = ''opa''\<rparr>"
    by (simp add: guarded_shop_def)
  have ref: "ext_ProviderRef \<lparr>ext_ProviderRef = ''opa''\<rparr> = ''opa''" by simp
  have no: "\<not> allowed_by denying_service quiet_world ''rest'' guarded_shop by_city (Single ''b'') ''opa'' input" for input
    by (simp add: allowed_by_def denying_service_def)
  have q: "?q = (fst ?q, snd ?q)" by (rule surjective_pairing)
  from external_authorization_first[OF ext q, unfolded ref] no show ?thesis unfolding Let_def by blast
qed

section \<open>Results are complete\<close>

definition is_engine_event :: "event \<Rightarrow> bool" where
  "is_engine_event e = (case e of AskEngine _ _ \<Rightarrow> True | _ \<Rightarrow> False)"

lemma no_engine_events [simp]:
  "filter is_engine_event (writes ws) = []" "filter is_engine_event (snd (look_up c k)) = []"
  "filter is_engine_event (snd (external_decision s w adapter m req idn)) = []"
proof -
  show "filter is_engine_event (writes ws) = []" by (auto simp: writes_def filter_empty_conv is_engine_event_def)
  show "filter is_engine_event (snd (look_up c k)) = []" by (simp add: look_up_def does_def is_engine_event_def)
  show "filter is_engine_event (snd (external_decision s w adapter m req idn)) = []"
    by (auto simp: external_decision_def outcome_def does_def Let_def is_engine_event_def sbind_events
        simp del: sbind_simps split: option.split sum.split)
qed

lemma plan_no_engine [simp]: "filter is_engine_event (snd (Service_Plan compile s w adapter m req idn)) = []"
proof -
  have "filter is_engine_event (snd (plan_scoped compile s w m lreq idn fp)) = []" for lreq fp
    by (simp add: plan_scoped_def Let_def sbind_events look_up_fst outcome_def split: option.split sum.split)
  then show ?thesis by (simp add: Service_Plan_def sbind_events outcome_def split: sum.split)
qed

definition engine_rows :: "go_value list list option \<Rightarrow> go_value list list" where
  "engine_rows rows = (case rows of None \<Rightarrow> [] | Some rs \<Rightarrow> rs)"

lemma deliver_Inr:
  assumes "deliver s m req cred p cached reply = (Inr res, es)"
  obtains cols rows where "reply = Inr (cols, rows)" "res = plan_result p cached False (cols, engine_rows rows)"
    "\<not> incomplete s req (engine_rows rows)"
    "\<And>b. result_json cols (engine_rows rows) = Some b \<Longrightarrow> int (length b) \<le> MaxResultBytes (withDefaults (svc_Limits s))"
    "filter is_engine_event es = []"
proof (cases reply)
  case (Inl e)
  with assms show ?thesis by (simp add: deliver_def outcome_def)
next
  case (Inr a)
  obtain cols rows where a: "a = (cols, rows)" by fastforce
  have "\<not> incomplete s req (engine_rows rows)" using assms
    by (auto simp: deliver_def outcome_def Inr a engine_rows_def Let_def split: if_splits)
  with assms show ?thesis
    by (intro that[of cols rows])
      (auto simp: deliver_def outcome_def Inr a engine_rows_def[symmetric] Let_def does_def split: if_splits option.splits)
qed

lemma run_plan_Inr:
  assumes "run_plan s w m req cred (p, cached) = (Inr res, es)"
  shows "\<exists>cr rs. res = plan_result p cached cr rs \<and> \<not> incomplete s req (snd rs)
    \<and> (if cr then cacheable cred \<and> cached_result s w (result_key m p cred) = Some rs \<and> filter is_engine_event es = []
       else filter is_engine_event es = [AskEngine cred (p_SQL p)]
         \<and> (\<exists>rows. w_db w cred (p_SQL p) = Inr (fst rs, rows) \<and> snd rs = engine_rows rows)
         \<and> (\<forall>b. result_json (fst rs) (snd rs) = Some b \<longrightarrow> int (length b) \<le> MaxResultBytes (withDefaults (svc_Limits s))))"
proof (cases "if cacheable cred then cached_result s w (result_key m p cred) else None")
  case (Some rs)
  then have c: "cacheable cred" "cached_result s w (result_key m p cred) = Some rs" by (simp_all split: if_splits)
  with assms have "res = plan_result p cached True rs \<and> \<not> incomplete s req (snd rs) \<and> filter is_engine_event es = []"
    by (auto simp: run_plan_def Let_def look_up_def outcome_def is_engine_event_def split: if_splits)
  with c show ?thesis by (intro exI[of _ True] exI[of _ rs]) simp
next
  case None
  obtain r es' where d: "deliver s m req cred p cached (w_db w cred (p_SQL p)) = (r, es')" by fastforce
  from assms None d have r: "r = Inr res" and es: "filter is_engine_event es = AskEngine cred (p_SQL p) # filter is_engine_event es'"
    by (auto simp: run_plan_def Let_def look_up_def is_engine_event_def split: if_splits)
  from deliver_Inr[OF d[unfolded r]] obtain cols rows where
    "w_db w cred (p_SQL p) = Inr (cols, rows)" "res = plan_result p cached False (cols, engine_rows rows)"
    "\<not> incomplete s req (engine_rows rows)"
    "\<And>b. result_json cols (engine_rows rows) = Some b \<Longrightarrow> int (length b) \<le> MaxResultBytes (withDefaults (svc_Limits s))"
    "filter is_engine_event es' = []" by metis
  with es show ?thesis by (intro exI[of _ False] exI[of _ "(cols, engine_rows rows)"]) auto
qed

lemma Build_limit:
  assumes "Build compile cm d req idn = Inr p" "0 < req_Limit req"
  shows "\<exists>body. p_SQL p = body @ NL @ ''LIMIT '' @ int_str (req_Limit req)"
proof -
  from assms(1) show ?thesis
  proof (rule Build_steps)
    fix rs :: Resolved and sql
    assume "p_SQL p = plan_comment cm (p_RequestHash p) @ NL
       @ finishQuery sql (length (rs_dims rs)) (rs_order rs) (req_Limit req)"
    then have "p_SQL p = (plan_comment cm (p_RequestHash p) @ NL @ sql
       @ (if rs_order rs \<noteq> [] then NL @ ''ORDER BY '' @ join '', '' (map (\<lambda>s. nat_str (os_Ordinal s) @ '' '' @ os_Direction s) (rs_order rs))
          else if 0 < length (rs_dims rs) then NL @ ''ORDER BY '' @ ordinals (length (rs_dims rs)) else []))
       @ NL @ ''LIMIT '' @ int_str (req_Limit req)"
      using assms(2) by (simp add: finishQuery_def)
    then show ?thesis by blast
  qed
qed


definition open_service :: Service where
  "open_service = denying_service\<lparr>svc_Authorization := None\<rparr>"

lemma no_limits_defaults: "withDefaults no_limits = DefaultLimits"
  by (simp add: withDefaults_def no_limits_def or_default_def DefaultLimits_def)

lemma by_city_limited: "apply_limits no_limits by_city = Inr (by_city\<lparr>req_Limit := 1001\<rparr>)"
  using apply_limits_Inr[of no_limits by_city] unfolding no_limits_defaults
  by (simp add: DefaultLimits_def within_limits_def effective_limit_def by_city_def empty_Request_def)

lemma by_city_served:
  "\<exists>p. Service_Plan star_glob open_service quiet_world ''rest'' shop by_city (Single ''b'') = (Inr (p, False), [])"
proof -
  have "\<exists>p. Build star_glob shop trino (by_city\<lparr>req_Limit := 1001\<rparr>) (Single ''b'') = Inr p"
    by (rule Build_isOK) code_simp
  then obtain p where p: "Build star_glob shop trino (by_city\<lparr>req_Limit := 1001\<rparr>) (Single ''b'') = Inr p" by blast
  have sel: "svc_Limits open_service = no_limits" "svc_Cache open_service = None" "svc_Dialect open_service = trino"
    "Option.bind (cm_Governance shop) g_External = None"
    by (simp_all add: open_service_def denying_service_def shop_def two_roles_def)
  show ?thesis
    by (simp add: Service_Plan_def sel by_city_limited external_decision_def plan_scoped_def Let_def outcome_def
        look_up_def does_def cached_plan_def GetPlan_def cache_get_def p SetPlan_def cache_set_def writes_def)
qed


end
