(* ===== verification/ServiceRuns.thy ===== *)
theory ServiceRuns
  imports Service
begin

text \<open>
  The query service over time: calls by any callers, for any models, share one Redis server, which may
  fail a read or a write at any time and may drop an entry whenever it likes. What a cache entry
  can then hold, and so what a caller can be served from it. Each cache operation is one step of the
  server; the invariant speaks of single entries, so it does not matter how the operations of
  concurrent calls interleave.
\<close>

record Call =
  cl_adapter :: string
  cl_model :: CompiledModel
  cl_req :: Request
  cl_idn :: Identity
  cl_cred :: EngineCredential
  cl_now :: int
  cl_db :: "EngineCredential \<Rightarrow> string \<Rightarrow> engine_reply"
  cl_readable :: "string \<Rightarrow> bool"
  cl_writable :: "string \<Rightarrow> bool"

datatype serving_event = Called Call | Expired string

record serving_state =
  sv_redis :: "string \<rightharpoonup> string"
  sv_calls :: "Call list"

definition redis_view :: "(string \<rightharpoonup> string) \<Rightarrow> (string \<Rightarrow> bool) \<Rightarrow> redis" where
  "redis_view kv ok k = (if \<not> ok k then RedisError else case kv k of None \<Rightarrow> RedisNil | Some b \<Rightarrow> RedisValue b)"

definition call_world :: "(string \<rightharpoonup> string) \<Rightarrow> Call \<Rightarrow> World" where
  "call_world kv c = \<lparr>w_now = cl_now c, w_redis = redis_view kv (cl_readable c), w_db = cl_db c\<rparr>"

definition query_call :: "glob_compiler \<Rightarrow> Service \<Rightarrow> (string \<rightharpoonup> string) \<Rightarrow> Call \<Rightarrow> QueryResult served" where
  "query_call compile s kv c =
     Service_Query compile s (call_world kv c) (cl_adapter c) (cl_model c) (cl_req c) (cl_idn c) (cl_cred c)"

definition apply_write :: "(string \<Rightarrow> bool) \<Rightarrow> (string \<rightharpoonup> string) \<Rightarrow> event \<Rightarrow> (string \<rightharpoonup> string)" where
  "apply_write ok kv e = (case e of Write k v ttl \<Rightarrow> if ok k then kv(k \<mapsto> v) else kv | _ \<Rightarrow> kv)"

definition serve :: "glob_compiler \<Rightarrow> Service \<Rightarrow> serving_state \<Rightarrow> serving_event \<Rightarrow> serving_state" where
  "serve compile s st e =
     (case e of
        Called c \<Rightarrow>
          \<lparr>sv_redis = foldl (apply_write (cl_writable c)) (sv_redis st) (snd (query_call compile s (sv_redis st) c)),
           sv_calls = sv_calls st @ [c]\<rparr>
      | Expired k \<Rightarrow> st\<lparr>sv_redis := (sv_redis st)(k := None)\<rparr>)"

definition calls_so_far :: "Call list \<Rightarrow> serving_event \<Rightarrow> Call list" where
  "calls_so_far cs e = (case e of Called c \<Rightarrow> cs @ [c] | Expired k \<Rightarrow> cs)"

definition fresh_state :: serving_state where
  "fresh_state = \<lparr>sv_redis = Map.empty, sv_calls = []\<rparr>"

section \<open>What an entry can hold\<close>

text \<open>The scope of a plan: no external decision, or the fingerprint of one.\<close>

definition is_scope :: "string \<Rightarrow> bool" where
  "is_scope fp \<longleftrightarrow> fp = [] \<or> (\<exists>p i d. fp = Fingerprint p i d)"

text \<open>A plan that \<^verbatim>\<open>Build\<close> made for one of the calls, under the key of that call.\<close>

definition plan_entry :: "glob_compiler \<Rightarrow> Service \<Rightarrow> Call list \<Rightarrow> string \<Rightarrow> string \<Rightarrow> bool" where
  "plan_entry compile s cs k b \<longleftrightarrow>
     (\<exists>c\<in>set cs. \<exists>req fp p0. apply_limits (svc_Limits s) (cl_req c) = Inr req \<and> is_scope fp
        \<and> Build compile (cl_model c) (svc_Dialect s) req (cl_idn c) = Inr p0
        \<and> k = plan_key compile s (cl_model c) req (cl_idn c) fp
        \<and> b = plan_json (p0\<lparr>p_AuthorizationFingerprint := fp\<rparr>))"

text \<open>The reply of the engine to one of the calls, for a statement run under its credential.\<close>

definition result_entry :: "Service \<Rightarrow> Call list \<Rightarrow> string \<Rightarrow> string \<Rightarrow> bool" where
  "result_entry s cs k b \<longleftrightarrow>
     (\<exists>c\<in>set cs. \<exists>p cols rows. cl_db c (cl_cred c) (p_SQL p) = Inr (cols, rows) \<and> cacheable (cl_cred c)
        \<and> result_json cols (engine_rows rows) = Some b \<and> k = result_key (cl_model c) p (cl_cred c))"

definition entries_sound :: "glob_compiler \<Rightarrow> Service \<Rightarrow> serving_state \<Rightarrow> bool" where
  "entries_sound compile s st \<longleftrightarrow>
     (\<forall>k b. sv_redis st k = Some b \<longrightarrow> plan_entry compile s (sv_calls st) k b \<or> result_entry s (sv_calls st) k b)"

lemma external_decision_scope: "fst (external_decision s w adapter m req idn) = Inr fp \<Longrightarrow> is_scope fp"
  by (auto simp: external_decision_def is_scope_def outcome_def does_def Let_def sbind_outcome
      simp del: sbind_simps split: option.splits sum.splits)

lemma in_sbind: "e \<in> set (snd (sbind c f)) \<longleftrightarrow> e \<in> set (snd c) \<or> (\<exists>x. fst c = Inr x \<and> e \<in> set (snd (f x)))"
  by (cases "fst c") (simp_all add: sbind_events)

lemma writes_iff: "Write k v t \<in> set (writes ws) \<longleftrightarrow> (k, v, t) \<in> set ws"
  by (force simp: writes_def)

lemma no_writes: "Write k v t \<notin> set (snd (look_up c key))"
  "Write k v t \<notin> set (snd (external_decision s w adapter m req idn))"
  by (auto simp: look_up_def does_def external_decision_def outcome_def Let_def sbind_events
      simp del: sbind_simps split: option.split sum.split if_splits)

lemma plan_scoped_writes:
  assumes "Write k v t \<in> set (snd (plan_scoped compile s w m req idn fp))"
  obtains p0 where "Build compile m (svc_Dialect s) req idn = Inr p0" "k = plan_key compile s m req idn fp"
    "v = plan_json (p0\<lparr>p_AuthorizationFingerprint := fp\<rparr>)"
  using assms
  by (cases "Build compile m (svc_Dialect s) req idn")
    (auto simp: plan_scoped_def Let_def sbind_events look_up_fst no_writes outcome_def does_def writes_iff SetPlan_def
      cache_set_def simp del: sbind_simps split: option.splits sum.splits)

lemma deliver_writes:
  assumes "Write k v t \<in> set (snd (deliver s m req cred p cached reply))"
  obtains cols rows where "reply = Inr (cols, rows)" "cacheable cred" "result_json cols (engine_rows rows) = Some v"
    "k = result_key m p cred"
  using assms
  by (auto simp: deliver_def Let_def sbind_events outcome_def does_def writes_iff SetResult_def cache_set_def engine_rows_def
      simp del: sbind_simps split: option.splits sum.splits if_splits)

lemma query_writes:
  assumes "Write k v t \<in> set (snd (query_call compile s kv c))"
  shows "plan_entry compile s [c] k v \<or> result_entry s [c] k v"
proof -
  let ?w = "call_world kv c" and ?m = "cl_model c"
  let ?sp = "Service_Plan compile s ?w (cl_adapter c) ?m (cl_req c) (cl_idn c)"
  from assms consider "Write k v t \<in> set (snd ?sp)"
    | pc where "fst ?sp = Inr pc" "Write k v t \<in> set (snd (run_plan s ?w ?m (cl_req c) (cl_cred c) pc))"
    by (cases "fst ?sp") (auto simp: query_call_def Service_Query_def sbind_events simp del: sbind_simps)
  then show ?thesis
  proof cases
    case 1
    then obtain req fp where "apply_limits (svc_Limits s) (cl_req c) = Inr req"
      and fp: "fst (external_decision s ?w (cl_adapter c) ?m req (cl_idn c)) = Inr fp"
      and w: "Write k v t \<in> set (snd (plan_scoped compile s ?w ?m req (cl_idn c) fp))"
      by (cases "apply_limits (svc_Limits s) (cl_req c)")
        (auto simp: Service_Plan_def in_sbind outcome_def no_writes simp del: sbind_simps)
    with external_decision_scope[OF fp] plan_scoped_writes[OF w] show ?thesis
      unfolding plan_entry_def by (metis list.set_intros(1))
  next
    case (2 pc)
    obtain p cached where pc: "pc = (p, cached)" by fastforce
    from 2(2) have "Write k v t \<in> set (snd (deliver s ?m (cl_req c) (cl_cred c) p cached (cl_db c (cl_cred c) (p_SQL p))))"
      by (auto simp: pc run_plan_def Let_def sbind_events does_def outcome_def no_writes look_up_fst call_world_def
          simp del: sbind_simps split: option.splits if_splits)
    then show ?thesis by (rule deliver_writes) (auto simp: result_entry_def)
  qed
qed

lemma entry_mono:
  "plan_entry compile s cs k b \<or> result_entry s cs k b \<Longrightarrow> set cs \<subseteq> set ds \<Longrightarrow>
   plan_entry compile s ds k b \<or> result_entry s ds k b"
  unfolding plan_entry_def result_entry_def by blast+

lemma apply_write_cases:
  "foldl (apply_write ok) kv es k = Some b \<Longrightarrow> kv k = Some b \<or> (\<exists>t. Write k b t \<in> set es)"
proof (induction es arbitrary: kv)
  case (Cons e es)
  from Cons.IH[of "apply_write ok kv e"] Cons.prems show ?case
    by (cases e) (auto simp: apply_write_def split: if_splits)
qed simp

lemma serve_sound: "entries_sound compile s st \<Longrightarrow> entries_sound compile s (serve compile s st e)"
proof -
  assume st: "entries_sound compile s st"
  show ?thesis
  proof (cases e)
    case (Expired k)
    with st show ?thesis by (auto simp: entries_sound_def serve_def)
  next
    case (Called c)
    have "plan_entry compile s (sv_calls st @ [c]) k b \<or> result_entry s (sv_calls st @ [c]) k b"
      if "sv_redis (serve compile s st (Called c)) k = Some b" for k b
    proof -
      from that consider "sv_redis st k = Some b" | t where "Write k b t \<in> set (snd (query_call compile s (sv_redis st) c))"
        using apply_write_cases by (fastforce simp: serve_def)
      then show ?thesis
      proof cases
        case 1
        then have "plan_entry compile s (sv_calls st) k b \<or> result_entry s (sv_calls st) k b" using st by (simp add: entries_sound_def)
        then show ?thesis by (rule entry_mono) auto
      next
        case 2
        from query_writes[OF 2] show ?thesis by (rule entry_mono) auto
      qed
    qed
    then show ?thesis by (simp add: Called entries_sound_def serve_def)
  qed
qed

interpretation serving: event_machine "serve compile s" "entries_sound compile s" sv_calls calls_so_far
  for compile :: glob_compiler and s :: Service
proof unfold_locales
  show "sv_calls (serve compile s st e) = calls_so_far (sv_calls st) e" for st e
    by (simp add: serve_def calls_so_far_def split: serving_event.split)
qed (rule serve_sound)

definition served :: "glob_compiler \<Rightarrow> Service \<Rightarrow> serving_event list \<Rightarrow> serving_state" where
  "served compile s es = foldl (serve compile s) fresh_state es"

lemma served_sound: "entries_sound compile s (served compile s es)"
  unfolding served_def by (rule serving.run_invariant) (simp add: entries_sound_def fresh_state_def)

definition calls_of :: "serving_event list \<Rightarrow> Call list" where
  "calls_of es = concat (map (\<lambda>e. case e of Called c \<Rightarrow> [c] | Expired k \<Rightarrow> []) es)"

lemma served_calls: "sv_calls (served compile s es) = calls_of es"
proof -
  have "entries_sound compile s fresh_state" by (simp add: entries_sound_def fresh_state_def)
  from serving.run_view[OF this] have "sv_calls (served compile s es) = foldl calls_so_far [] es"
    by (simp add: served_def fresh_state_def)
  moreover have "foldl calls_so_far cs es = cs @ calls_of es" for cs
    by (induction es arbitrary: cs) (auto simp: calls_of_def calls_so_far_def split: serving_event.split)
  ultimately show ?thesis by simp
qed

section \<open>Round trips\<close>

definition utf8_plan :: "QueryPlan \<Rightarrow> bool" where
  "utf8_plan p \<longleftrightarrow> utf8_ok (p_SQL p) \<and> utf8_ok (p_Model p) \<and> utf8_ok (p_ModelVersion p) \<and> utf8_ok (p_RequestHash p)
     \<and> utf8_ok (p_Role p) \<and> utf8_ok (p_AuthorizationFingerprint p) \<and> (\<forall>c\<in>set (p_Columns p). utf8_ok c)"

definition plan_value :: "QueryPlan \<Rightarrow> json" where
  "plan_value p = JObj
     ([(''sql'', JStr (p_SQL p)), (''model'', JStr (p_Model p)), (''modelVersion'', JStr (p_ModelVersion p)),
       (''requestHash'', JStr (p_RequestHash p))]
      @ (if p_Role p = [] then [] else [(''role'', JStr (p_Role p))])
      @ (if p_AuthorizationFingerprint p = [] then [] else [(''authorizationFingerprint'', JStr (p_AuthorizationFingerprint p))])
      @ [(''columns'', JArr (map JStr (p_Columns p)))])"

lemma utf8_ok_names: "utf8_ok ''sql''" "utf8_ok ''model''" "utf8_ok ''modelVersion''" "utf8_ok ''requestHash''" "utf8_ok ''role''"
  "utf8_ok ''authorizationFingerprint''" "utf8_ok ''columns''" "utf8_ok ''rows''"
  by (simp_all add: utf8_ok_ascii byte_def)

lemma reads_strings: "\<forall>c\<in>set cs. utf8_ok c \<Longrightarrow> reads (JArr (map JStr cs)) (json_list (map json_string cs))"
  by (rule reads_list) (simp add: list_all2_map1 list_all2_map2 list.rel_refl_strong reads_string)

lemma reads_plan: "utf8_plan p \<Longrightarrow> reads (plan_value p) (plan_json p)"
  unfolding plan_value_def plan_json_def utf8_plan_def
  by (intro reads_members) (simp add: utf8_ok_names reads_string reads_strings)

lemma strings_at_JStr: "strings_at old (map JStr cs) = Some cs"
  by (induction cs arbitrary: old) simp_all

lemma equal_fold_refl: "equal_fold s s"
  by (simp add: equal_fold_def)

lemma equal_fold_length: "length s \<noteq> length t \<Longrightarrow> \<not> equal_fold s t"
  by (auto simp: equal_fold_def to_upper_def dest: map_eq_imp_length_eq)

lemma fold_names:
  "\<not> equal_fold ''model'' ''sql''" "\<not> equal_fold ''modelVersion'' ''sql''"
  "\<not> equal_fold ''modelVersion'' ''model''" "\<not> equal_fold ''requestHash'' ''sql''"
  "\<not> equal_fold ''requestHash'' ''model''" "\<not> equal_fold ''requestHash'' ''modelVersion''"
  "\<not> equal_fold ''role'' ''sql''" "\<not> equal_fold ''role'' ''model''"
  "\<not> equal_fold ''role'' ''modelVersion''" "\<not> equal_fold ''role'' ''requestHash''"
  "\<not> equal_fold ''authorizationFingerprint'' ''sql''" "\<not> equal_fold ''authorizationFingerprint'' ''model''"
  "\<not> equal_fold ''authorizationFingerprint'' ''modelVersion''" "\<not> equal_fold ''authorizationFingerprint'' ''requestHash''"
  "\<not> equal_fold ''authorizationFingerprint'' ''role''" "\<not> equal_fold ''columns'' ''sql''"
  "\<not> equal_fold ''columns'' ''model''" "\<not> equal_fold ''columns'' ''modelVersion''"
  "\<not> equal_fold ''columns'' ''requestHash''" "\<not> equal_fold ''columns'' ''role''"
  "\<not> equal_fold ''columns'' ''authorizationFingerprint''" "\<not> equal_fold ''rows'' ''columns''"
  by (rule equal_fold_length, simp)+

lemma plan_decode_json: "utf8_plan p \<Longrightarrow> plan_decode (plan_json p) = Some p"
proof -
  assume "utf8_plan p"
  then have "json_parse (plan_json p) = Some (plan_value p)" using json_parse_reads reads_plan by blast
  then show ?thesis
    by (cases p) (simp add: plan_decode_def plan_value_def plan_member_def equal_fold_refl fold_names zero_plan_def
        strings_at_JStr)
qed

section \<open>What a caller can be served\<close>

lemma hex_digit_no_colon: "d < 16 \<Longrightarrow> hex_digit d \<noteq> CHR '':''"
proof
  assume "d < 16" "hex_digit d = CHR '':''"
  then have "byte (hex_digit d) = 58" by (simp add: byte_def)
  with \<open>d < 16\<close> show False by (auto simp: hex_digit_def byte_char_of split: if_splits)
qed

lemma hex_no_colon: "no_colon (sha256_hex s)"
proof -
  have "CHR '':'' \<notin> set (hex_str bs)" if "\<forall>b\<in>set bs. b < 256" for bs
  proof -
    have "CHR '':'' \<noteq> hex_digit (b div 16) \<and> CHR '':'' \<noteq> hex_digit (b mod 16)" if "b < 256" for b
    proof -
      have "b div 16 < 16" using that by (simp add: less_mult_imp_div_less)
      then show ?thesis using hex_digit_no_colon[of "b div 16"] hex_digit_no_colon[of "b mod 16"] by auto
    qed
    with that show ?thesis by (auto simp: hex_str_def)
  qed
  then show ?thesis using sha256_bytes by (simp add: no_colon_def sha256_hex_def)
qed

lemma no_colon_take: "no_colon s \<Longrightarrow> no_colon (take n s)"
  by (auto simp: no_colon_def dest: in_set_takeD)

lemma is_scope_facts: "is_scope fp \<Longrightarrow> no_colon fp \<and> (fp = [] \<or> length fp = 64)"
  by (auto simp: is_scope_def length_Fingerprint) (auto simp: no_colon_def Fingerprint_def hex_no_colon[unfolded no_colon_def])

lemma RequestHash_facts: "no_colon (RequestHash req key)" "length (RequestHash req key) = RequestHashLen"
  by (simp_all add: RequestHash_def no_colon_take hex_no_colon length_sha256_hex RequestHashLen_def)

lemma plan_key_inj:
  assumes "no_colon (dialect_name (svc_Dialect s))" "no_colon (cm_Version m)" "no_colon (cm_Version m')" "is_scope fp" "is_scope fp'"
    and "plan_key compile s m req idn fp = plan_key compile s m' req' idn' fp'"
  shows "cm_Name m = cm_Name m' \<and> cm_Version m = cm_Version m'
    \<and> RequestHash req (IdentityKey compile (cm_Governance m) idn) = RequestHash req' (IdentityKey compile (cm_Governance m') idn')
    \<and> fp = fp'"
  using PlanKey_inj[OF assms(1,1-3) RequestHash_facts(1) RequestHash_facts(1) _ _ RequestHash_facts(2) RequestHash_facts(2)
      _ _ assms(6)[unfolded plan_key_def]] is_scope_facts[OF assms(4)] is_scope_facts[OF assms(5)] by blast

lemma keys_apart: "plan_key compile s m req idn fp \<noteq> result_key m' p cred"
  by (simp add: plan_key_def result_key_def PlanKey_def ResultKey_def)



section \<open>A run\<close>

definition cached_service :: Service where
  "cached_service = open_service\<lparr>svc_Cache := Some \<lparr>ch_Addr = ''valkey:6379'', ch_Password = [], ch_DB = 0,
     ch_planTTL = 86400, ch_resultTTL = 60\<rparr>\<rparr>"

definition city_call :: Call where
  "city_call = \<lparr>cl_adapter = ''rest'', cl_model = shop, cl_req = by_city, cl_idn = Single ''b'', cl_cred = no_credential,
     cl_now = 0, cl_db = (\<lambda>cred q. Inr ([''c.city'', ''rev''], Some [[VString ''Oslo'', VString ''12'']])),
     cl_readable = (\<lambda>k. True), cl_writable = (\<lambda>k. True)\<rparr>"

definition is_ascii :: "string \<Rightarrow> bool" where
  "is_ascii s \<longleftrightarrow> list_all (\<lambda>c. byte c < 128) s"

lemma city_statement:
  "case resolve_request shop (by_city\<lparr>req_Limit := 1001\<rparr>) of Inl _ \<Rightarrow> False | Inr rs \<Rightarrow>
     (case govern star_glob shop trino (by_city\<lparr>req_Limit := 1001\<rparr>) (Single ''b'') rs of Inl _ \<Rightarrow> False | Inr (dec, groups) \<Rightarrow>
       is_ascii (dec_RoleKey dec) \<and> list_all is_ascii (map (\<lambda>dm. FieldRef_String (ds_Ref dm)) (rs_dims rs) @ [''rev''])
       \<and> (case plan_query shop trino (by_city\<lparr>req_Limit := 1001\<rparr>) rs groups of Inl _ \<Rightarrow> False | Inr sql \<Rightarrow>
         is_ascii (finishQuery sql (length (rs_dims rs)) (rs_order rs) 1001)))"
  by code_simp

lemma is_ascii_utf8: "is_ascii s \<Longrightarrow> utf8_ok s"
  by (rule utf8_ok_ascii) (simp add: is_ascii_def list_all_iff)

lemma is_ascii_append: "is_ascii (s @ t) \<longleftrightarrow> is_ascii s \<and> is_ascii t"
  by (simp add: is_ascii_def)

lemma is_ascii_hash: "is_ascii (RequestHash req key)"
proof -
  have "\<forall>c\<in>set (sha256_hex x). byte c < 128" for x
    unfolding sha256_hex_def by (intro hex_str_ascii ballI sha256_bytes)
  then show ?thesis by (auto simp: is_ascii_def list_all_iff RequestHash_def dest!: in_set_takeD)
qed

lemma city_plan:
  "\<exists>p. Build star_glob shop trino (by_city\<lparr>req_Limit := 1001\<rparr>) (Single ''b'') = Inr p \<and> utf8_plan p
     \<and> p_AuthorizationFingerprint p = []"
proof -
  let ?req = "by_city\<lparr>req_Limit := 1001\<rparr>"
  have lim: "req_Limit ?req = 1001" "req_Metrics ?req = [''rev'']" by (simp_all add: by_city_def)
  have names: "cm_Name shop = ''shop''" "cm_Version shop = ''v''" by (simp_all add: shop_def)
  from city_statement obtain rs dec groups where
    r: "resolve_request shop ?req = Inr rs" and g: "govern star_glob shop trino ?req (Single ''b'') rs = Inr (dec, groups)"
    by (auto split: sum.splits prod.splits)
  from city_statement[unfolded r sum.case g prod.case] obtain sql where
    q: "plan_query shop trino ?req rs groups = Inr sql"
    and a: "is_ascii (dec_RoleKey dec)" "list_all is_ascii (map (\<lambda>dm. FieldRef_String (ds_Ref dm)) (rs_dims rs) @ [''rev''])"
      "is_ascii (finishQuery sql (length (rs_dims rs)) (rs_order rs) 1001)"
    by (cases "plan_query shop trino ?req rs groups") auto
  let ?hash = "RequestHash ?req (IdentityKey star_glob (cm_Governance shop) (Single ''b''))"
  let ?p = "\<lparr>p_SQL = plan_comment shop ?hash @ NL @ finishQuery sql (length (rs_dims rs)) (rs_order rs) 1001,
     p_Model = ''shop'', p_ModelVersion = ''v'', p_RequestHash = ?hash, p_Role = dec_RoleKey dec,
     p_AuthorizationFingerprint = [], p_Columns = map (\<lambda>dm. FieldRef_String (ds_Ref dm)) (rs_dims rs) @ [''rev'']\<rparr>"
  have b: "Build star_glob shop trino ?req (Single ''b'') = Inr ?p"
    unfolding Build_def r ebind_simps g prod.case q Let_def lim names ..
  have "is_ascii (plan_comment shop ?hash)" "is_ascii NL" "is_ascii ''shop''" "is_ascii ''v''"
  proof -
    have lit: "is_ascii ''/* semantic-layer model=''" "is_ascii '' version=''" "is_ascii '' request=''" "is_ascii '' */''"
      "is_ascii ''shop''" "is_ascii ''v''" "is_ascii NL" by (simp_all add: is_ascii_def NL_def byte_def)
    show "is_ascii (plan_comment shop ?hash)" unfolding plan_comment_def names is_ascii_append using lit is_ascii_hash by blast
    show "is_ascii NL" "is_ascii ''shop''" "is_ascii ''v''" by (fact lit)+
  qed
  then have "utf8_plan ?p" using a is_ascii_hash
    by (auto simp: utf8_plan_def is_ascii_append list_all_iff intro!: is_ascii_utf8)
  with b show ?thesis by (intro exI[of _ ?p]) simp
qed

text \<open>The same call twice: the second is answered from both caches.\<close>

lemma cached_service_sel:
  "svc_Limits cached_service = no_limits" "svc_Dialect cached_service = trino" "\<exists>ch. svc_Cache cached_service = Some ch"
  by (simp_all add: cached_service_def open_service_def denying_service_def)

lemma city_call_sel:
  "cl_model city_call = shop" "cl_req city_call = by_city" "cl_idn city_call = Single ''b''" "cl_cred city_call = no_credential"
  "cl_readable city_call k" "cl_writable city_call k"
  "cl_db city_call cred q = Inr ([''c.city'', ''rev''], Some [[VString ''Oslo'', VString ''12'']])"
  by (simp_all add: city_call_def)

lemma no_external: "Option.bind (cm_Governance shop) g_External = None"
  by (simp add: shop_def two_roles_def)

lemma sbind_outcome_Inr: "sbind (outcome (Inr x)) f = f x"
  by simp

lemma city_served_twice:
  obtains p where
    "fst (Service_Plan star_glob cached_service
       (call_world (sv_redis (served star_glob cached_service [Called city_call])) city_call) (cl_adapter city_call)
       (cl_model city_call) (cl_req city_call) (cl_idn city_call)) = Inr (p, True)"
    "\<exists>res. fst (run_plan cached_service (call_world (sv_redis (served star_glob cached_service [Called city_call])) city_call)
       (cl_model city_call) (cl_req city_call) (cl_cred city_call) (p, True)) = Inr res \<and> qr_CachedResult res"
proof -
  let ?s = cached_service and ?c = city_call and ?req = "by_city\<lparr>req_Limit := 1001\<rparr>"
  obtain ch where ch: "svc_Cache ?s = Some ch" using cached_service_sel(3) by blast
  obtain p where b: "Build star_glob shop trino ?req (Single ''b'') = Inr p" and u: "utf8_plan p"
    and f: "p_AuthorizationFingerprint p = []" using city_plan by blast
  have p: "p\<lparr>p_AuthorizationFingerprint := []\<rparr> = p" using f by (cases p) simp
  let ?key = "plan_key star_glob ?s shop ?req (Single ''b'') []"
  let ?rkey = "result_key shop p no_credential"
  let ?blob = "''{'' @ json_string ''columns'' @ '':['' @ json_string ''c.city'' @ '','' @ json_string ''rev'' @ ''],''
     @ json_string ''rows'' @ '':[['' @ json_string ''Oslo'' @ '','' @ json_string ''12'' @ '']]}''"
  have blob: "result_json [''c.city'', ''rev''] [[VString ''Oslo'', VString ''12'']] = Some ?blob"
    by (simp add: result_json_def json_array_def json_members_def json_list_def)
  have small: "length ?blob < 100" by code_simp
  have plan: "Service_Plan star_glob ?s w a shop by_city (Single ''b'')
     = sbind (look_up (svc_Cache ?s) ?key) (\<lambda>_. case cached_plan ?s w ?key [] of Some p \<Rightarrow> outcome (Inr (p, True))
         | None \<Rightarrow> sbind (does [Write ?key (plan_json p) (ch_planTTL ch)]) (\<lambda>_. outcome (Inr (p, False))))" for w a
    by (simp only: Service_Plan_def cached_service_sel(1) by_city_limited emap_err_simps sbind_outcome_Inr external_decision_def
        no_external option.case plan_scoped_def Let_def cached_service_sel(2) b p SetPlan_def cache_set_def ch ttlOr_def
        writes_def list.map prod.case)
  have open_cred: "cacheable no_credential" by (simp add: no_credential_def cacheable_def cred_IsZero_def)
  have run: "run_plan ?s w shop by_city no_credential (p, cp)
     = sbind (look_up (svc_Cache ?s) ?rkey) (\<lambda>_. case cached_result ?s w ?rkey of
           Some rs \<Rightarrow> if incomplete ?s by_city (snd rs) then outcome (Inl (ErrResultIncomplete (DefaultRowLimit (withDefaults (svc_Limits ?s)))))
                      else outcome (Inr (plan_result p cp True rs))
         | None \<Rightarrow> sbind (does [AskEngine no_credential (p_SQL p)]) (\<lambda>_.
             deliver ?s shop by_city no_credential p cp (w_db w no_credential (p_SQL p))))" for w cp
    by (simp add: run_plan_def Let_def open_cred)
  have inc: "\<not> incomplete ?s by_city [[VString ''Oslo'', VString ''12'']]"
    by (simp add: incomplete_def cached_service_sel no_limits_defaults DefaultLimits_def)
  have deliv: "snd (deliver ?s shop by_city no_credential p cp (Inr ([''c.city'', ''rev''], Some [[VString ''Oslo'', VString ''12'']])))
     = [Write ?rkey ?blob (ch_resultTTL ch)]" for cp
    using small by (simp add: deliver_def Let_def blob inc cached_service_sel no_limits_defaults DefaultLimits_def
        open_cred SetResult_def cache_set_def ttlOr_def ch writes_def outcome_def does_def)
  let ?w0 = "call_world Map.empty ?c"
  have miss: "cached_plan ?s ?w0 ?key [] = None" "cached_result ?s ?w0 ?rkey = None"
    by (simp_all add: cached_plan_def cached_result_def GetPlan_def GetResult_def cache_get_def ch call_world_def redis_view_def city_call_sel)
  have db: "w_db ?w0 cred q = Inr ([''c.city'', ''rev''], Some [[VString ''Oslo'', VString ''12'']])" for cred q
    by (simp add: call_world_def city_call_sel)
  have "snd (query_call star_glob ?s Map.empty ?c)
     = [LookUp ?key, Write ?key (plan_json p) (ch_planTTL ch), LookUp ?rkey, AskEngine no_credential (p_SQL p),
        Write ?rkey ?blob (ch_resultTTL ch)]"
    unfolding query_call_def Service_Query_def city_call_sel plan miss
    by (simp add: run miss db sbind_events sbind_outcome look_up_def ch does_def outcome_def deliv del: sbind_simps)
  then have kv: "sv_redis (served star_glob ?s [Called ?c]) = [?key \<mapsto> plan_json p, ?rkey \<mapsto> ?blob]"
    by (simp add: served_def fresh_state_def serve_def apply_write_def city_call_sel)
  let ?w1 = "call_world (sv_redis (served star_glob ?s [Called ?c])) ?c"
  have hit: "cached_plan ?s ?w1 ?key [] = Some p"
    by (simp add: cached_plan_def GetPlan_def cache_get_def ch call_world_def redis_view_def city_call_sel kv keys_apart
        plan_decode_json[OF u] f)
  have "result_decode ?blob = Some ([''c.city'', ''rev''], [[VString ''Oslo'', VString ''12'']])" by code_simp
  then have hit2: "cached_result ?s ?w1 ?rkey = Some ([''c.city'', ''rev''], [[VString ''Oslo'', VString ''12'']])"
    by (simp add: cached_result_def GetResult_def cache_get_def ch call_world_def redis_view_def city_call_sel kv)
  show ?thesis
  proof (rule that)
    show "fst (Service_Plan star_glob ?s ?w1 (cl_adapter ?c) (cl_model ?c) (cl_req ?c) (cl_idn ?c)) = Inr (p, True)"
      unfolding city_call_sel plan hit by (simp add: sbind_outcome look_up_fst outcome_def del: sbind_simps)
    show "\<exists>res. fst (run_plan ?s ?w1 (cl_model ?c) (cl_req ?c) (cl_cred ?c) (p, True)) = Inr res \<and> qr_CachedResult res"
      unfolding city_call_sel run hit2 using inc
      by (simp add: sbind_outcome look_up_fst outcome_def plan_result_def del: sbind_simps)
  qed
qed

lemma shop_versions: "no_colon (dialect_name (svc_Dialect cached_service))" "no_colon (cm_Version (cl_model city_call))"
  "\<forall>c'\<in>set (calls_of [Called city_call]). no_colon (cm_Version (cl_model c'))"
  by (simp_all add: cached_service_sel city_call_sel calls_of_def trino_def no_colon_def shop_def)



section \<open>What the caches change\<close>

definition text_cell :: "go_value \<Rightarrow> bool" where
  "text_cell v = (case v of VNil \<Rightarrow> True | VString s \<Rightarrow> utf8_ok s | VBool b \<Rightarrow> True | _ \<Rightarrow> False)"

fun cell_json :: "go_value \<Rightarrow> json" where
  "cell_json (VString s) = JStr s"
| "cell_json (VBool b) = JBool b"
| "cell_json _ = JNull"

lemma text_cell_reads: "text_cell v \<Longrightarrow> \<exists>t. json_value v = Some t \<and> reads (cell_json v) t \<and> any_value (cell_json v) = Some v"
  by (cases v) (auto simp: text_cell_def reads_string reads_words split: bool.split)

lemma option_list_reads:
  assumes "\<forall>v\<in>set vs. \<exists>t. f v = Some t \<and> reads (g v) t \<and> h (g v) = Some v"
  shows "\<exists>ts. option_list (map f vs) = Some ts \<and> list_all2 reads (map g vs) ts \<and> option_list (map h (map g vs)) = Some vs"
  using assms by (induction vs) auto

lemma row_reads:
  assumes "\<forall>v\<in>set row. text_cell v"
  shows "\<exists>t. json_array json_value row = Some t \<and> reads (JArr (map cell_json row)) t \<and> row_values (JArr (map cell_json row)) = Some row"
proof -
  from option_list_reads[of row json_value cell_json any_value] text_cell_reads assms obtain ts where
    "option_list (map json_value row) = Some ts" "list_all2 reads (map cell_json row) ts"
    "option_list (map any_value (map cell_json row)) = Some row" by blast
  then show ?thesis by (auto simp: json_array_def intro: reads_list)
qed

text \<open>
  What the caches store is read back unchanged: a plan whose texts are well-formed UTF-8, and a
  result whose cells are texts, booleans or nulls, with any quotes, control characters, HTML
  characters or separators in them.
\<close>

theorem caches_round_trip:
  "utf8_plan p \<Longrightarrow> \<forall>c\<in>set cols. utf8_ok c \<Longrightarrow> \<forall>row\<in>set rows. \<forall>v\<in>set row. text_cell v \<Longrightarrow>
   plan_decode (plan_json p) = Some p \<and> Option.bind (result_json cols rows) result_decode = Some (cols, rows)"
proof (intro conjI plan_decode_json)
  assume c: "\<forall>c\<in>set cols. utf8_ok c" and r: "\<forall>row\<in>set rows. \<forall>v\<in>set row. text_cell v"
  let ?row = "\<lambda>row. JArr (map cell_json row)"
  from option_list_reads[of rows "json_array json_value" ?row row_values] row_reads r obtain ts where
    t: "option_list (map (json_array json_value) rows) = Some ts" "list_all2 reads (map ?row rows) ts"
    "option_list (map row_values (map ?row rows)) = Some rows" by blast
  have "reads (JObj [(''columns'', JArr (map JStr cols)), (''rows'', JArr (map ?row rows))])
      (json_members [(''columns'', json_list (map json_string cols)), (''rows'', json_list ts)])"
    by (rule reads_members) (simp add: utf8_ok_names reads_strings[OF c] reads_list[OF t(2)])
  from json_parse_reads[OF this] t(1,3) show "Option.bind (result_json cols rows) result_decode = Some (cols, rows)"
    by (simp add: result_json_def result_decode_def result_member_def equal_fold_refl fold_names strings_at_JStr)
qed

theorem caches_round_trip_witness:
  "Option.bind (result_json [''a''] [[VString [dquote_ch, CHR 0x0A]], [VNil]]) result_decode
     = Some ([''a''], [[VString [dquote_ch, CHR 0x0A]], [VNil]])"
proof -
  have ascii: "utf8_ok [dquote_ch, CHR 0x0A]" "utf8_ok ''a''" by (simp_all add: utf8_ok_ascii dquote_ch_def byte_def)
  have "utf8_plan zero_plan" by (simp add: utf8_plan_def zero_plan_def)
  from conjunct2[OF caches_round_trip[OF this, of "[''a'']" "[[VString [dquote_ch, CHR 0x0A]], [VNil]]"]] ascii
  show ?thesis by (simp add: text_cell_def)
qed

text \<open>
  Numbers are not: an integer is decoded as a \<^verbatim>\<open>float64\<close>. The first caller gets \<open>2 ^ 53 + 1\<close> from the
  engine, the next one gets \<open>2 ^ 53\<close> from the cache.
\<close>

lemma cached_integer_rounded:
  "Option.bind (result_json [''n''] [[VInt64 9007199254740993]]) result_decode = Some ([''n''], [[VFloat64 4845873199050653696]])
   \<and> float64 4845873199050653696 = FFin False (2 ^ 52) 1 True"
proof
  have "json_parse ''{\"columns\":[\"n\"],\"rows\":[[9007199254740993]]}''
      = Some (JObj [(''columns'', JArr [JStr ''n'']), (''rows'', JArr [JArr [JNum ''9007199254740993'']])])" by code_simp
  moreover have "result_json [''n''] [[VInt64 9007199254740993]] = Some ''{\"columns\":[\"n\"],\"rows\":[[9007199254740993]]}''"
  proof -
    have names: "json_string ''columns'' = ''\"columns\"''" "json_string ''rows'' = ''\"rows\"''" "json_string ''n'' = ''\"n\"''"
      by code_simp+
    have "int_str 9007199254740993 = ''9007199254740993''" by (simp add: int_str_def digit_char_def nat_str.simps, code_simp)
    then show ?thesis by (simp add: result_json_def json_array_def json_list_def json_members_def names)
  qed
  moreover have "ParseFloat ''9007199254740993'' = Some 4845873199050653696"
  proof -
    have len: "bit_length 9007199254740993 = 54" "bit_length 1 = 1" by (simp_all add: bit_length.simps)
    have digits: "takeWhile is_digit ''9007199254740993'' = ''9007199254740993''" "dropWhile is_digit ''9007199254740993'' = []"
      by (simp_all add: is_digit_def byte_def)
    have val: "digits_val (''9007199254740993'' @ []) = 9007199254740993" by (simp add: digits_val_def byte_def)
    have cut: "(take 1 ''9007199254740993'' = ''-'') = False" "(take 1 [] = ''.'') = False" by simp_all
    have scale: "9007199254740993 * 10 ^ nat (0 - int (length ([] :: string))) = (9007199254740993 :: nat)"
      "10 ^ nat (- (0 - int (length ([] :: string)))) = (1 :: nat)" by simp_all
    have "nearest_float64 False 9007199254740993 1 = Some 4845873199050653696"
      by (simp only: nearest_float64_def len, simp add: in_units_def, simp add: round_half_even_def)
    then show ?thesis by (simp only: ParseFloat_def Let_def cut if_False digits val scale simp_thms if_True)
  qed
  ultimately show "Option.bind (result_json [''n''] [[VInt64 9007199254740993]]) result_decode = Some ([''n''], [[VFloat64 4845873199050653696]])"
    by (simp add: result_decode_def result_member_def equal_fold_refl fold_names)
  show "float64 4845873199050653696 = FFin False (2 ^ 52) 1 True" by (simp add: float64_def decode_float_def Let_def)
qed

end
