(* ===== verification/Discovery.thy ===== *)
theory Discovery
  imports Service
begin

text \<open>
  What the service lets a caller find out: the model a request is resolved to, the names an error
  discloses, and the listings of \<^verbatim>\<open>internal/serving/service.go\<close>. One section shows where the listing of
  metrics and the planner disagree.
\<close>

section \<open>Resolving a name\<close>

definition stored_models :: "Service \<Rightarrow> CompiledModel set" where
  "stored_models s = set (map snd (st_cms (svc_Store s)))"

lemma set_All: "set (All st) = set (map snd (st_cms st))"
  by (simp add: All_def)

lemma set_visible_models:
  "set (visible_models compile idn seen ms) = {n. n \<notin> set seen \<and> (\<exists>m\<in>set ms. cm_Name m = n \<and> may_use compile idn m)}"
  by (induction ms arbitrary: seen) auto

lemma distinct_visible_models: "distinct (visible_models compile idn seen ms)"
  by (induction ms arbitrary: seen) (auto simp: set_visible_models)

lemma visibleNames_set:
  "set (visibleNames compile s idn) = cm_Name ` {m \<in> stored_models s. may_use compile idn m}"
  by (auto simp: visibleNames_def set_visible_models set_All stored_models_def)

lemma sorted_visible_models:
  "sorted (map cm_Name ms) \<Longrightarrow> sorted (visible_models compile idn seen ms)"
  by (induction ms arbitrary: seen) (auto simp: set_visible_models)

lemma sorted_All_names: "sorted (map cm_Name (All st))"
proof -
  have "sorted (map (\<lambda>m. (cm_Name m, cm_Version m)) (All st))" by (simp add: All_def)
  then show ?thesis by (auto simp: sorted_iff_nth_mono less_eq_prod_def intro: less_imp_le)
qed

lemma byName_set: "set (byName st n) = {m \<in> set (map snd (st_cms st)). cm_Name m = n}"
  by (auto simp: byName_def)

lemma resolve_name_cases:
  "resolve_name s n = Some (Inr m) \<Longrightarrow> m \<in> stored_models s \<and> cm_Name m = n"
  "resolve_name s n = Some (Inl e) \<Longrightarrow> \<exists>refs. e = AmbiguousModel n refs \<and> 1 < length refs"
  "resolve_name s n = None \<Longrightarrow> n \<notin> cm_Name ` stored_models s"
proof -
  assume "resolve_name s n = Some (Inr m)"
  then have "byName (svc_Store s) n = [m]" by (auto simp: resolve_name_def ModelStore.Get_def split: list.splits if_splits)
  then have "m \<in> set (byName (svc_Store s) n)" by simp
  then show "m \<in> stored_models s \<and> cm_Name m = n" unfolding byName_set stored_models_def by blast
next
  assume "resolve_name s n = Some (Inl e)"
  then show "\<exists>refs. e = AmbiguousModel n refs \<and> 1 < length refs"
    by (auto simp: resolve_name_def ambiguityErr_def Ambiguous_def ByName_def split: option.splits if_splits)
next
  assume "resolve_name s n = None"
  then have "byName (svc_Store s) n = []"
    by (auto simp: resolve_name_def ModelStore.Get_def Ambiguous_def split: list.splits if_splits)
  then have "set (byName (svc_Store s) n) = {}" by simp
  then show "n \<notin> cm_Name ` stored_models s" unfolding byName_set stored_models_def by blast
qed

text \<open>
  A request is resolved to a model of the store with the name it asks for, or to an error that says
  why not. A name that two resources publish is never resolved to either of them. Without a name the
  error lists, sorted and once each, exactly the models whose governance grants the caller's roles
  anything, and says so when there is none.
\<close>

theorem Resolve_sound:
  "case Resolve compile s name idn of
     Inr m \<Rightarrow> m \<in> stored_models s \<and> (name = [] \<or> cm_Name m = name)
   | Inl e \<Rightarrow>
       (\<exists>n refs. e = AmbiguousModel n refs \<and> 1 < length refs
          \<and> n \<in> (if name = [] then cm_Name ` {m \<in> stored_models s. may_use compile idn m} else {name}))
       \<or> e = ErrUnknownModel name \<and> name \<notin> cm_Name ` stored_models s
       \<or> e = NoAccessibleModel \<and> name = [] \<and> {m \<in> stored_models s. may_use compile idn m} = {}
       \<or> (\<exists>ns. e = ModelNameRequired ns \<and> name = [] \<and> sorted ns \<and> distinct ns
          \<and> set ns = cm_Name ` {m \<in> stored_models s. may_use compile idn m})"
proof (cases "name = []")
  case False
  then show ?thesis
    using resolve_name_cases[of s name]
    by (cases "resolve_name s name") (auto simp: Resolve_def split: sum.split)
next
  case True
  let ?vis = "visibleNames compile s idn"
  have vis: "sorted ?vis" "distinct ?vis"
    by (simp_all add: visibleNames_def sorted_visible_models sorted_All_names distinct_visible_models)
  show ?thesis
  proof (cases "Single_model (svc_Store s)")
    case (Some m)
    then have "m \<in> stored_models s" by (auto simp: Single_model_def stored_models_def split: list.splits prod.splits)
    with True Some show ?thesis by (simp add: Resolve_def)
  next
    case None
    show ?thesis
    proof (cases "case ?vis of [n] \<Rightarrow> resolve_name s n | _ \<Rightarrow> None")
      case (Some r)
      then obtain n where n: "?vis = [n]" "resolve_name s n = Some r" by (auto split: list.splits)
      then have "n \<in> cm_Name ` {m \<in> stored_models s. may_use compile idn m}"
        unfolding visibleNames_set[symmetric] by simp
      moreover have "Resolve compile s name idn = r" using True None Some by (simp add: Resolve_def Let_def)
      ultimately show ?thesis using resolve_name_cases(1,2)[of s n] n(2) True by (cases r) auto
    next
      case no: None
      have "Resolve compile s name idn = (if ?vis = [] then Inl NoAccessibleModel else Inl (ModelNameRequired ?vis))"
        unfolding Resolve_def Let_def no using True None by simp
      moreover have "?vis = [] \<Longrightarrow> {m \<in> stored_models s. may_use compile idn m} = {}"
        using visibleNames_set[of compile s idn] by simp
      ultimately show ?thesis using True vis visibleNames_set[of compile s idn] by (cases "?vis = []") simp_all
    qed
  qed
qed

section \<open>What discovery gives away\<close>

definition amount_hidden :: CompiledModel where
  "amount_hidden = shop\<lparr>cm_Governance := Some
     \<lparr>g_DefaultRole = [], g_Roles = [\<lparr>rp_Name = ''b'', rp_AllowMetrics = [''*''], rp_DenyFields = [''s.amt''], rp_RowFilters = []\<rparr>],
      g_External = None\<rparr>\<rparr>"

definition shut_shop :: "string \<Rightarrow> CompiledModel" where
  "shut_shop r = shop\<lparr>cm_Resource := r, cm_Namespace := ''n'', cm_Governance := Some
     \<lparr>g_DefaultRole = [], g_Roles = [\<lparr>rp_Name = r, rp_AllowMetrics = [''*''], rp_DenyFields = [], rp_RowFilters = []\<rparr>],
      g_External = None\<rparr>\<rparr>"

text \<open>
  The listing judges a metric by its name and the planner also by the fields it reads: a metric over
  a denied field is listed to a caller whose every request for it is refused.
\<close>

lemma listed_metric_refused:
  "(case ListMetrics star_glob open_service amount_hidden (Single ''b'') of
      Inl e \<Rightarrow> False | Inr infos \<Rightarrow> ''rev'' \<in> mi_Name ` set infos)
   \<and> \<not> isOK (Build star_glob amount_hidden trino (empty_Request\<lparr>req_Metrics := [''rev'']\<rparr>) (Single ''b''))"
proof
  show "case ListMetrics star_glob open_service amount_hidden (Single ''b'') of
      Inl e \<Rightarrow> False | Inr infos \<Rightarrow> ''rev'' \<in> mi_Name ` set infos"
    by code_simp
  have "\<not> isOK (ebind (resolve_request amount_hidden (empty_Request\<lparr>req_Metrics := [''rev'']\<rparr>))
      (govern star_glob amount_hidden trino (empty_Request\<lparr>req_Metrics := [''rev'']\<rparr>) (Single ''b'')))"
    by code_simp
  then show "\<not> isOK (Build star_glob amount_hidden trino (empty_Request\<lparr>req_Metrics := [''rev'']\<rparr>) (Single ''b''))"
    by (auto simp: isOK_iff Build_def result_simps Let_def)
qed

text \<open>
  Two resources publish one name and the caller may use the first only; a request without a name is
  answered with the namespace and the name of the second resource as well.
\<close>

lemma ambiguity_discloses_resources:
  "let s = open_service\<lparr>svc_Store := \<lparr>st_cms = [(''x'', shut_shop ''b''), (''y'', shut_shop ''q'')], st_synced = True\<rparr>\<rparr>
   in \<not> may_use star_glob (Single ''b'') (shut_shop ''q'')
      \<and> (case Resolve star_glob s [] (Single ''b'') of
           Inl (AmbiguousModel n refs) \<Rightarrow> ''n/q'' \<in> set refs | _ \<Rightarrow> False)"
  by code_simp

end
