(* ===== verification/Auth.thy ===== *)
theory Auth
  imports Governance "HOL-Library.AList"
begin

text \<open>
  \<^verbatim>\<open>internal/serving/auth/auth.go\<close>: who the caller is. In header mode the caller is named by two headers that
  a proxy sets; in JWT mode by the claims of a bearer token. Checking a token against the issuer's
  keys is library code: the parameter \<open>parse\<close> takes the restrictions the parser was built with, the
  address of the keys and the token, and answers with its claims and its expiry. So are fetching and
  loading the keys, and with them the interval at which they are refreshed.
\<close>

section \<open>Types\<close>

type_synonym claims = "(string \<times> go_value) list"

record Options =
  ao_Mode :: string
  ao_JWKSURL :: string
  ao_Issuer :: string
  ao_Audience :: string
  ao_PrincipalClaim :: string
  ao_RoleClaim :: string
  ao_GroupsClaim :: string
  ao_ClaimsToCopy :: "string list"
  ao_EngineUserClaim :: string

record ParserOptions =
  po_ValidMethods :: "string list"
  po_ExpirationRequired :: bool
  po_Issuer :: string
  po_Audience :: string

type_synonym token_parser = "ParserOptions \<Rightarrow> string \<Rightarrow> string \<Rightarrow> (string, claims \<times> int option) result"

record Authenticator =
  au_mode :: string
  au_keys :: string
  au_principalClaim :: "string list"
  au_roleClaim :: "string list"
  au_groupsClaim :: "string list"
  au_engineUserClaim :: "string list"
  au_copy :: "string list"
  au_parser :: ParserOptions

text \<open>The expiry is None where Go has the zero time.\<close>

record Authenticated =
  ad_Identity :: Identity
  ad_Token :: string
  ad_Expiry :: "int option"
  ad_EngineUser :: string

datatype auth_error =
    UnknownMode string
  | JWKSURLRequired
  | IssuerRequired
  | AudienceRequired
  | JWKSUnusable string
  | NoPrincipalHeader
  | NoAuthorizationHeader
  | NotABearerToken
  | InvalidToken string
  | NoPrincipalClaim string
  | NoRoleOrGroup string

text \<open>\<^verbatim>\<open>r.Header.Get\<close>: the first value under the canonical form of a name, or the empty text.\<close>

type_synonym request_header = "string \<Rightarrow> string"

definition RoleHeader :: string where "RoleHeader = ''X-Semantic-Role''"
definition PrincipalHeader :: string where "PrincipalHeader = ''X-Semantic-User''"

section \<open>Claims\<close>

fun claimAt :: "go_value \<Rightarrow> string list \<Rightarrow> go_value option" where
  "claimAt cur [] = Some cur"
| "claimAt cur (p # ps) =
     (case cur of
        VObject m \<Rightarrow> (case map_of m p of None \<Rightarrow> None | Some v \<Rightarrow> claimAt v ps)
      | _ \<Rightarrow> None)"

definition stringClaim :: "claims \<Rightarrow> string list \<Rightarrow> string option" where
  "stringClaim claims path =
     (case claimAt (VObject claims) path of
        Some (VString s) \<Rightarrow> Some s
      | Some (VArray [VString s]) \<Rightarrow> Some s
      | _ \<Rightarrow> None)"

fun nonempty_strings :: "go_value list \<Rightarrow> string list" where
  "nonempty_strings [] = []"
| "nonempty_strings (VString s # vs) = (if s = [] then nonempty_strings vs else s # nonempty_strings vs)"
| "nonempty_strings (_ # vs) = nonempty_strings vs"

definition listClaim :: "claims \<Rightarrow> string list \<Rightarrow> string list" where
  "listClaim claims path =
     (case claimAt (VObject claims) path of
        Some (VString s) \<Rightarrow> if s = [] then [] else [s]
      | Some (VArray vs) \<Rightarrow> nonempty_strings vs
      | _ \<Rightarrow> [])"

fun dedupe_from :: "string list \<Rightarrow> string list \<Rightarrow> string list" where
  "dedupe_from seen [] = []"
| "dedupe_from seen (s # ss) = (if s \<in> set seen then dedupe_from seen ss else s # dedupe_from (s # seen) ss)"

definition dedupe :: "string list \<Rightarrow> string list" where
  "dedupe ss = dedupe_from [] ss"

section \<open>Construction\<close>

definition asymmetric_methods :: "string list" where
  "asymmetric_methods = [''RS256'', ''RS384'', ''RS512'', ''ES256'', ''ES384'', ''ES512'', ''PS256'', ''PS384'', ''PS512'']"

definition text_or :: "string \<Rightarrow> string \<Rightarrow> string" where
  "text_or s d = (if s = [] then d else s)"

definition optional_path :: "string \<Rightarrow> string list" where
  "optional_path s = (if s = [] then [] else split_at CHR ''.'' s)"

definition no_parser :: ParserOptions where
  "no_parser = \<lparr>po_ValidMethods = [], po_ExpirationRequired = False, po_Issuer = [], po_Audience = []\<rparr>"

text \<open>\<open>load\<close> is the probe of the key endpoint and the loading of the keys.\<close>

definition NewAuthenticator :: "(string \<Rightarrow> string option) \<Rightarrow> Options \<Rightarrow> (auth_error, Authenticator) result" where
  "NewAuthenticator load opts =
     (if ao_Mode opts = [] \<or> ao_Mode opts = ''header'' then
        Inr \<lparr>au_mode = ''header'', au_keys = [], au_principalClaim = [], au_roleClaim = [], au_groupsClaim = [],
             au_engineUserClaim = [], au_copy = [], au_parser = no_parser\<rparr>
      else if ao_Mode opts \<noteq> ''jwt'' then Inl (UnknownMode (ao_Mode opts))
      else if ao_JWKSURL opts = [] then Inl JWKSURLRequired
      else if ao_Issuer opts = [] then Inl IssuerRequired
      else if ao_Audience opts = [] then Inl AudienceRequired
      else case load (ao_JWKSURL opts) of
             Some e \<Rightarrow> Inl (JWKSUnusable e)
           | None \<Rightarrow> Inr
               \<lparr>au_mode = ''jwt'', au_keys = ao_JWKSURL opts,
                au_principalClaim = split_at CHR ''.'' (text_or (ao_PrincipalClaim opts) ''sub''),
                au_roleClaim = split_at CHR ''.'' (text_or (ao_RoleClaim opts) ''role''),
                au_groupsClaim = optional_path (ao_GroupsClaim opts),
                au_engineUserClaim = optional_path (ao_EngineUserClaim opts), au_copy = ao_ClaimsToCopy opts,
                au_parser = \<lparr>po_ValidMethods = asymmetric_methods, po_ExpirationRequired = True,
                             po_Issuer = ao_Issuer opts, po_Audience = ao_Audience opts\<rparr>\<rparr>)"

section \<open>Authentication\<close>

definition headerIdentity :: "request_header \<Rightarrow> Identity" where
  "headerIdentity h =
     (let idn = no_identity\<lparr>id_Principal := trim_space (h PrincipalHeader)\<rparr>
      in if h RoleHeader = [] then idn
         else idn\<lparr>id_Roles := dedupe (filter (\<lambda>p. p \<noteq> []) (map trim_space (split_at CHR '','' (h RoleHeader))))\<rparr>)"

definition bearerToken :: "request_header \<Rightarrow> (auth_error, string) result" where
  "bearerToken r =
     (let h = r ''Authorization''
      in if h = [] then Inl NoAuthorizationHeader
         else if length h \<le> 7 \<or> \<not> equal_fold (take 7 h) ''Bearer '' then Inl NotABearerToken
         else Inr (trim_space (drop 7 h)))"

definition copied_claims :: "claims \<Rightarrow> string list \<Rightarrow> (string \<times> string) list" where
  "copied_claims claims names =
     foldl (\<lambda>acc name. case stringClaim claims (split_at CHR ''.'' name) of None \<Rightarrow> acc | Some v \<Rightarrow> AList.update name v acc) [] names"

definition token_identity :: "Authenticator \<Rightarrow> claims \<Rightarrow> (auth_error, Identity) result" where
  "token_identity a claims =
     (case stringClaim claims (au_principalClaim a) of
        None \<Rightarrow> Inl (NoPrincipalClaim (join ''.'' (au_principalClaim a)))
      | Some prin \<Rightarrow>
          if trim_space prin = [] then Inl (NoPrincipalClaim (join ''.'' (au_principalClaim a)))
          else
            (let roles = listClaim claims (au_roleClaim a);
                 groups = (if au_groupsClaim a = [] then [] else listClaim claims (au_groupsClaim a))
             in if roles = [] \<and> groups = [] then Inl (NoRoleOrGroup (join ''.'' (au_roleClaim a)))
                else Inr \<lparr>id_Principal = prin, id_Groups = dedupe groups, id_Roles = dedupe roles,
                          id_Claims = copied_claims claims (au_copy a)\<rparr>))"

definition Authenticate :: "token_parser \<Rightarrow> Authenticator \<Rightarrow> request_header \<Rightarrow> (auth_error, Authenticated) result" where
  "Authenticate parse a r =
     (if au_mode a = ''header'' then
        (let idn = headerIdentity r
         in if id_Principal idn = [] then Inl NoPrincipalHeader
            else Inr \<lparr>ad_Identity = idn, ad_Token = [], ad_Expiry = None, ad_EngineUser = []\<rparr>)
      else
        ebind (bearerToken r) (\<lambda>raw.
        ebind (emap_err InvalidToken (parse (au_parser a) (au_keys a) raw)) (\<lambda>(claims, expiry).
        ebind (token_identity a claims) (\<lambda>idn. Inr
          \<lparr>ad_Identity = idn, ad_Token = raw, ad_Expiry = expiry,
           ad_EngineUser =
             (if au_engineUserClaim a = [] then []
              else case stringClaim claims (au_engineUserClaim a) of None \<Rightarrow> [] | Some v \<Rightarrow> v)\<rparr>))))"

section \<open>What an identity rests on\<close>

lemma set_dedupe_from: "set (dedupe_from seen ss) = set ss - set seen"
  by (induction seen ss rule: dedupe_from.induct) auto

lemma dedupe_facts: "set (dedupe ss) = set ss" "distinct (dedupe ss)"
proof -
  show "set (dedupe ss) = set ss" by (simp add: dedupe_def set_dedupe_from)
  have "distinct (dedupe_from seen ss)" for seen
    by (induction seen ss rule: dedupe_from.induct) (auto simp: set_dedupe_from)
  then show "distinct (dedupe ss)" by (simp add: dedupe_def)
qed

lemma nonempty_strings_set: "set (nonempty_strings vs) = {s. VString s \<in> set vs \<and> s \<noteq> []}"
  by (induction vs rule: nonempty_strings.induct) auto

lemma listClaim_nonempty: "[] \<notin> set (listClaim claims path)"
  by (auto simp: listClaim_def nonempty_strings_set split: option.splits go_value.splits)

lemma copied_claims_map:
  "map_of (copied_claims claims names) n
     = (if n \<in> set names then stringClaim claims (split_at CHR ''.'' n) else None)"
proof -
  let ?f = "\<lambda>acc name. case stringClaim claims (split_at CHR ''.'' name) of None \<Rightarrow> acc | Some v \<Rightarrow> AList.update name v acc"
  have "map_of (foldl ?f acc names) n
      = (if n \<in> set names \<and> stringClaim claims (split_at CHR ''.'' n) \<noteq> None then stringClaim claims (split_at CHR ''.'' n) else map_of acc n)"
    for acc
    by (induction names arbitrary: acc) (auto simp: update_conv' split: option.splits)
  from this[of "[]"] show ?thesis unfolding copied_claims_def by (auto split: if_splits)
qed

text \<open>
  C28. In JWT mode the token alone says who the caller is. An authenticator built for it checks tokens under
  asymmetric signature methods only, with an expiry, for the configured issuer and audience, none of
  them empty. When it accepts a request, the token in the Authorization header passed that check; the
  principal is a claim that is not blank; roles and groups are the non-empty texts of their claims,
  each once, and not both missing; the claims copied are those configured; and every other header,
  the identity headers included, is without effect.
\<close>

theorem jwt_identity_from_token:
  assumes "NewAuthenticator load opts = Inr a" "ao_Mode opts = ''jwt''" "Authenticate parse a r = Inr res"
  shows "\<exists>claims expiry. bearerToken r = Inr (ad_Token res)
    \<and> parse (au_parser a) (ao_JWKSURL opts) (ad_Token res) = Inr (claims, expiry) \<and> ad_Expiry res = expiry
    \<and> set (po_ValidMethods (au_parser a)) \<inter> {''none'', ''HS256'', ''HS384'', ''HS512''} = {} \<and> po_ExpirationRequired (au_parser a)
    \<and> po_Issuer (au_parser a) = ao_Issuer opts \<and> ao_Issuer opts \<noteq> [] \<and> po_Audience (au_parser a) = ao_Audience opts \<and> ao_Audience opts \<noteq> []
    \<and> stringClaim claims (au_principalClaim a) = Some (id_Principal (ad_Identity res)) \<and> trim_space (id_Principal (ad_Identity res)) \<noteq> []
    \<and> set (id_Roles (ad_Identity res)) = set (listClaim claims (au_roleClaim a)) \<and> distinct (id_Roles (ad_Identity res))
    \<and> set (id_Groups (ad_Identity res)) = (if ao_GroupsClaim opts = [] then {} else set (listClaim claims (au_groupsClaim a)))
    \<and> distinct (id_Groups (ad_Identity res)) \<and> [] \<notin> set (id_Roles (ad_Identity res) @ id_Groups (ad_Identity res))
    \<and> id_Roles (ad_Identity res) @ id_Groups (ad_Identity res) \<noteq> []
    \<and> (\<forall>n. map_of (id_Claims (ad_Identity res)) n
          = (if n \<in> set (ao_ClaimsToCopy opts) then stringClaim claims (split_at CHR ''.'' n) else None))
    \<and> (\<forall>r'. r' ''Authorization'' = r ''Authorization'' \<longrightarrow> Authenticate parse a r' = Inr res)"
proof -
  from assms(1,2) have a: "au_mode a = ''jwt''" "au_keys a = ao_JWKSURL opts" "po_ValidMethods (au_parser a) = asymmetric_methods"
    "po_ExpirationRequired (au_parser a)" "po_Issuer (au_parser a) = ao_Issuer opts" "po_Audience (au_parser a) = ao_Audience opts"
    "ao_Issuer opts \<noteq> []" "ao_Audience opts \<noteq> []" "au_groupsClaim a = optional_path (ao_GroupsClaim opts)" "au_copy a = ao_ClaimsToCopy opts"
    by (auto simp: NewAuthenticator_def split: if_splits option.splits)
  from assms(3) a(1,2) obtain raw claims expiry idn where raw: "bearerToken r = Inr raw"
    and p: "parse (au_parser a) (ao_JWKSURL opts) raw = Inr (claims, expiry)" and i: "token_identity a claims = Inr idn"
    and res: "ad_Identity res = idn" "ad_Token res = raw" "ad_Expiry res = expiry"
    by (auto simp: Authenticate_def result_simps)
  let ?groups = "if au_groupsClaim a = [] then [] else listClaim claims (au_groupsClaim a)"
  from i have idn: "stringClaim claims (au_principalClaim a) = Some (id_Principal idn)" "trim_space (id_Principal idn) \<noteq> []"
    "id_Roles idn = dedupe (listClaim claims (au_roleClaim a))" "id_Groups idn = dedupe ?groups"
    "\<not> (listClaim claims (au_roleClaim a) = [] \<and> ?groups = [])" "id_Claims idn = copied_claims claims (au_copy a)"
    by (auto simp: token_identity_def Let_def split: option.splits if_splits)
  have split: "split_at c s \<noteq> []" for c s by (cases s) (auto split: list.splits)
  have g: "set ?groups = (if ao_GroupsClaim opts = [] then {} else set (listClaim claims (au_groupsClaim a)))"
    by (simp add: a(9) optional_path_def split)
  have ne: "id_Roles idn @ id_Groups idn \<noteq> []"
    using idn(5) dedupe_facts(1)[of "listClaim claims (au_roleClaim a)"] dedupe_facts(1)[of ?groups] unfolding idn(3,4)
    by (metis append_is_Nil_conv set_empty)
  have he: "[] \<notin> set (id_Roles idn @ id_Groups idn)"
    using listClaim_nonempty by (auto simp: idn(3,4) dedupe_facts(1))
  have "Authenticate parse a r' = Inr res" if "r' ''Authorization'' = r ''Authorization''" for r'
    using assms(3) that by (simp add: Authenticate_def a(1) bearerToken_def)
  moreover have "set (po_ValidMethods (au_parser a)) \<inter> {''none'', ''HS256'', ''HS384'', ''HS512''} = {}"
    by (simp add: a(3) asymmetric_methods_def)
  moreover have "set (id_Groups idn) = (if ao_GroupsClaim opts = [] then {} else set (listClaim claims (au_groupsClaim a)))"
    "distinct (id_Groups idn)" "set (id_Roles idn) = set (listClaim claims (au_roleClaim a))" "distinct (id_Roles idn)"
    unfolding idn(3,4) dedupe_facts(1) using g dedupe_facts(2) by blast+
  moreover have "\<forall>n. map_of (id_Claims idn) n
          = (if n \<in> set (ao_ClaimsToCopy opts) then stringClaim claims (split_at CHR ''.'' n) else None)"
    by (simp add: idn(6) a(10) copied_claims_map)
  ultimately show ?thesis using raw p a(4-8) idn(1,2) ne he unfolding res by blast
qed

definition jwt_options :: Options where
  "jwt_options = \<lparr>ao_Mode = ''jwt'', ao_JWKSURL = ''https://i/keys'', ao_Issuer = ''i'', ao_Audience = ''semantic'', ao_PrincipalClaim = [],
     ao_RoleClaim = [], ao_GroupsClaim = [], ao_ClaimsToCopy = [''tenant''], ao_EngineUserClaim = []\<rparr>"

definition ann_token :: token_parser where
  "ann_token po keys raw = Inr ([(''sub'', VString ''ann''), (''role'', VArray [VString ''b'', VString [], VString ''b'']),
     (''tenant'', VString ''t'')], Some 9)"

definition ann_request :: request_header where
  "ann_request h = (if h = ''Authorization'' then ''bearer tok'' else if h = RoleHeader then ''admin'' else [])"

theorem jwt_identity_from_token_witness:
  "\<exists>a res. NewAuthenticator (\<lambda>_. None) jwt_options = Inr a \<and> Authenticate ann_token a ann_request = Inr res
     \<and> id_Principal (ad_Identity res) = ''ann'' \<and> set (id_Roles (ad_Identity res)) = {''b''}
     \<and> map_of (id_Claims (ad_Identity res)) ''tenant'' = Some ''t''"
proof -
  obtain a where a: "NewAuthenticator (\<lambda>_. None) jwt_options = Inr a" "au_principalClaim a = [''sub'']" "au_roleClaim a = [''role'']"
    by (simp add: NewAuthenticator_def jwt_options_def text_or_def)
  have "isOK (ebind (NewAuthenticator (\<lambda>_. None) jwt_options) (\<lambda>a. Authenticate ann_token a ann_request))" by code_simp
  then obtain res where res: "Authenticate ann_token a ann_request = Inr res" by (auto simp: isOK_iff a(1))
  have m: "ao_Mode jwt_options = ''jwt''" "ao_ClaimsToCopy jwt_options = [''tenant'']" by (simp_all add: jwt_options_def)
  from jwt_identity_from_token[OF a(1) m(1) res] obtain claims expiry where
    c: "ann_token (au_parser a) (ao_JWKSURL jwt_options) (ad_Token res) = Inr (claims, expiry)"
      "stringClaim claims [''sub''] = Some (id_Principal (ad_Identity res))" "set (id_Roles (ad_Identity res)) = set (listClaim claims [''role''])"
      "\<forall>n. map_of (id_Claims (ad_Identity res)) n = (if n \<in> set [''tenant''] then stringClaim claims (split_at CHR ''.'' n) else None)"
    unfolding a(2,3) m(2) by blast
  with a(1) res show ?thesis by (auto simp: ann_token_def stringClaim_def listClaim_def)
qed

text \<open>In header mode the caller is whom the headers name, and a request without a principal is refused.\<close>

lemma header_identity:
  assumes "au_mode a = ''header''"
  shows "Authenticate parse a r = (if trim_space (r PrincipalHeader) = [] then Inl NoPrincipalHeader
     else Inr \<lparr>ad_Identity = headerIdentity r, ad_Token = [], ad_Expiry = None, ad_EngineUser = []\<rparr>)"
  "set (id_Roles (headerIdentity r)) = (if r RoleHeader = [] then {} else trim_space ` set (split_at CHR '','' (r RoleHeader)) - {[]})"
  "distinct (id_Roles (headerIdentity r))"
  using assms by (auto simp: Authenticate_def headerIdentity_def Let_def no_identity_def dedupe_facts)

end
