(* ===== verification/Exchange.thy ===== *)
theory Exchange
  imports Service Auth
begin

text \<open>
  \<^verbatim>\<open>internal/serving/exchange/exchange.go\<close> and \<^verbatim>\<open>internal/serving/credential.go\<close>: under which credential a query
  runs. Exchanged tokens are cached by the engine user until shortly before they expire. Times are
  nanoseconds of Unix time; Go's zero time is \<open>zero_time\<close>. The two critical sections of \<^verbatim>\<open>Exchange\<close> are
  functions on the cache; between them the authorization server is asked.
\<close>

definition zero_time :: int where
  "zero_time = - 62135596800 * 10 ^ 9"

definition refreshMargin :: int where
  "refreshMargin = 30 * 10 ^ 9"

record ExchangeOptions =
  eo_TokenURL :: string
  eo_ClientID :: string
  eo_AllowInsecureHTTP :: bool

type_synonym token_entry = "string \<times> int"
type_synonym token_cache = "(string \<times> token_entry) list"

datatype exchange_error =
    TokenURLRequired
  | ClientIDRequired
  | InvalidTokenURL string
  | InsecureTokenURL string
  | SubjectTokenEmpty
  | ErrExchangeFailed
  | NoAccessToken
  | EngineUserMismatch "string option" string

text \<open>\<open>scheme\<close> is \<^verbatim>\<open>url.Parse\<close>, of which only the scheme is used. A new exchanger starts with an empty cache.\<close>

definition NewExchanger :: "(string \<Rightarrow> (string, string) result) \<Rightarrow> ExchangeOptions \<Rightarrow> (exchange_error, token_cache) result" where
  "NewExchanger scheme o' =
     (if eo_TokenURL o' = [] then Inl TokenURLRequired
      else if eo_ClientID o' = [] then Inl ClientIDRequired
      else case scheme (eo_TokenURL o') of
             Inl e \<Rightarrow> Inl (InvalidTokenURL e)
           | Inr s \<Rightarrow> if s \<noteq> ''https'' \<and> \<not> eo_AllowInsecureHTTP o' then Inl (InsecureTokenURL (eo_TokenURL o')) else Inr [])"

text \<open>The first critical section: a hit, or the cache without the entry that is about to expire.\<close>

definition lookup_token :: "string \<Rightarrow> int \<Rightarrow> token_cache \<Rightarrow> token_entry option \<times> token_cache" where
  "lookup_token key now cache =
     (if key = [] then (None, cache)
      else case map_of cache key of
             None \<Rightarrow> (None, cache)
           | Some (token, expiry) \<Rightarrow>
               if now < expiry - refreshMargin then (Some (token, expiry), cache) else (None, AList.delete key cache))"

text \<open>The second: what has expired is dropped, what was issued is kept.\<close>

definition store_token :: "string \<Rightarrow> int \<Rightarrow> token_entry \<Rightarrow> token_cache \<Rightarrow> token_cache" where
  "store_token key now te cache =
     (if key = [] then cache else AList.update key te (filter (\<lambda>(k, t, expiry). now < expiry) cache))"

definition finish_exchange :: "string \<Rightarrow> int \<Rightarrow> token_entry option \<Rightarrow> token_cache \<Rightarrow> (exchange_error, token_entry) result \<times> token_cache" where
  "finish_exchange key now reply cache =
     (case reply of
        None \<Rightarrow> (Inl ErrExchangeFailed, cache)
      | Some te \<Rightarrow> if fst te = [] then (Inl NoAccessToken, cache) else (Inr te, store_token key now te cache))"

text \<open>One call that nothing interleaves with; \<open>ask\<close> is the authorization server.\<close>

definition Exchange :: "(string \<Rightarrow> token_entry option) \<Rightarrow> int \<Rightarrow> string \<Rightarrow> string \<Rightarrow> token_cache
    \<Rightarrow> (exchange_error, token_entry) result \<times> token_cache" where
  "Exchange ask now key subject cache =
     (if subject = [] then (Inl SubjectTokenEmpty, cache)
      else case lookup_token key now cache of
             (Some te, cache') \<Rightarrow> (Inr te, cache')
           | (None, cache') \<Rightarrow> finish_exchange key now (ask subject) cache')"

section \<open>The subject of a token\<close>

text \<open>\<^verbatim>\<open>base64.RawURLEncoding\<close>: line breaks are skipped, bits left over are ignored.\<close>

definition b64_val :: "char \<Rightarrow> nat option" where
  "b64_val c =
     (if is_upper c then Some (byte c - 65) else if is_lower c then Some (byte c - 71)
      else if is_digit c then Some (byte c + 4) else if c = CHR ''-'' then Some 62 else if c = CHR ''_'' then Some 63 else None)"

fun b64_bytes :: "nat list \<Rightarrow> nat list option" where
  "b64_bytes [] = Some []"
| "b64_bytes [a] = None"
| "b64_bytes [a, b] = Some [4 * a + b div 16]"
| "b64_bytes [a, b, c] = Some [4 * a + b div 16, 16 * (b mod 16) + c div 4]"
| "b64_bytes (a # b # c # d # r) =
     map_option (\<lambda>t. (4 * a + b div 16) # (16 * (b mod 16) + c div 4) # (64 * (c mod 4) + d) # t) (b64_bytes r)"

definition base64_decode :: "string \<Rightarrow> string option" where
  "base64_decode s =
     Option.bind (option_list (map b64_val (filter (\<lambda>c. byte c \<noteq> 10 \<and> byte c \<noteq> 13) s)))
       (\<lambda>vs. map_option (map char_of) (b64_bytes vs))"

definition jwtClaimString :: "string \<Rightarrow> string list \<Rightarrow> string option" where
  "jwtClaimString token path =
     (case split_at CHR ''.'' token of
        [header, payload, signature] \<Rightarrow>
          (case Option.bind (base64_decode payload) json_parse of
             Some (JObj kvs) \<Rightarrow>
               (case Option.bind (any_value (JObj kvs)) (\<lambda>claims. claimAt claims path) of
                  Some (VString s) \<Rightarrow> Some s
                | _ \<Rightarrow> None)
           | _ \<Rightarrow> None)
      | _ \<Rightarrow> None)"

section \<open>Resolvers\<close>

definition StaticResolver :: "string \<Rightarrow> string \<Rightarrow> int \<Rightarrow> EngineCredential" where
  "StaticResolver token engineUser expiry = \<lparr>ec_Token = [], ec_EngineUser = [], ec_Expiry = zero_time\<rparr>"

definition PassthroughResolver :: "string \<Rightarrow> string \<Rightarrow> int \<Rightarrow> EngineCredential" where
  "PassthroughResolver token engineUser expiry = \<lparr>ec_Token = token, ec_EngineUser = engineUser, ec_Expiry = expiry\<rparr>"

text \<open>What the exchange resolver makes of the answer of the exchanger.\<close>

definition same_subject :: "string \<Rightarrow> string \<Rightarrow> (exchange_error, token_entry) result \<Rightarrow> (exchange_error, EngineCredential) result" where
  "same_subject engineUserClaim engineUser r =
     ebind r (\<lambda>(exchanged, expiry).
       let got = jwtClaimString exchanged (split_at CHR ''.'' engineUserClaim)
       in if got = Some engineUser then Inr \<lparr>ec_Token = exchanged, ec_EngineUser = engineUser, ec_Expiry = expiry\<rparr>
          else Inl (EngineUserMismatch got engineUser))"

definition ExchangeResolver :: "(string \<Rightarrow> token_entry option) \<Rightarrow> int \<Rightarrow> string \<Rightarrow> string \<Rightarrow> string \<Rightarrow> token_cache
    \<Rightarrow> (exchange_error, EngineCredential) result \<times> token_cache" where
  "ExchangeResolver ask now engineUserClaim token engineUser cache =
     (let (r, cache') = Exchange ask now engineUser token cache in (same_subject engineUserClaim engineUser r, cache'))"

section \<open>Concurrent callers\<close>

text \<open>Where a call of \<^verbatim>\<open>Exchange\<close> is: before the first critical section, waiting for the authorization server,
  or answered.\<close>

datatype exchange_phase = Entered | Asking | Answered "(exchange_error, token_entry) result"

record exchange_call =
  xc_key :: string
  xc_subject :: string
  xc_now :: int
  xc_phase :: exchange_phase

type_synonym exchange_state = "token_cache \<times> (nat \<rightharpoonup> exchange_call)"

text \<open>\<open>issues s te\<close>: the authorization server may answer the exchange of \<open>s\<close> with \<open>te\<close>.\<close>

inductive exchange_step :: "(string \<Rightarrow> token_entry \<Rightarrow> bool) \<Rightarrow> exchange_state \<Rightarrow> exchange_state \<Rightarrow> bool" for issues where
  Enter: "cs i = None \<Longrightarrow> subject \<noteq> [] \<Longrightarrow>
    exchange_step issues (cache, cs) (cache, cs(i \<mapsto> \<lparr>xc_key = key, xc_subject = subject, xc_now = now, xc_phase = Entered\<rparr>))"
| Hit: "cs i = Some c \<Longrightarrow> xc_phase c = Entered \<Longrightarrow> lookup_token (xc_key c) (xc_now c) cache = (Some te, cache') \<Longrightarrow>
    exchange_step issues (cache, cs) (cache', cs(i \<mapsto> c\<lparr>xc_phase := Answered (Inr te)\<rparr>))"
| Miss: "cs i = Some c \<Longrightarrow> xc_phase c = Entered \<Longrightarrow> lookup_token (xc_key c) (xc_now c) cache = (None, cache') \<Longrightarrow>
    exchange_step issues (cache, cs) (cache', cs(i \<mapsto> c\<lparr>xc_phase := Asking\<rparr>))"
| Reply: "cs i = Some c \<Longrightarrow> xc_phase c = Asking \<Longrightarrow> (\<forall>te. reply = Some te \<longrightarrow> issues (xc_subject c) te) \<Longrightarrow>
    finish_exchange (xc_key c) (xc_now c) reply cache = (r, cache') \<Longrightarrow>
    exchange_step issues (cache, cs) (cache', cs(i \<mapsto> c\<lparr>xc_phase := Answered r\<rparr>))"

definition exchange_start :: "exchange_state \<Rightarrow> bool" where
  "exchange_start s \<longleftrightarrow> s = ([], Map.empty)"

text \<open>A token answered to a call was issued for the subject of a call with the same key: the call itself, or, where
  it has a key and the token is not about to expire, any.\<close>

definition rightful :: "(string \<Rightarrow> token_entry \<Rightarrow> bool) \<Rightarrow> (nat \<rightharpoonup> exchange_call) \<Rightarrow> string \<Rightarrow> token_entry \<Rightarrow> bool" where
  "rightful issues cs key te \<longleftrightarrow> (\<exists>j d. cs j = Some d \<and> xc_key d = key \<and> issues (xc_subject d) te)"

definition answer_ok :: "(string \<Rightarrow> token_entry \<Rightarrow> bool) \<Rightarrow> (nat \<rightharpoonup> exchange_call) \<Rightarrow> exchange_call \<Rightarrow> bool" where
  "answer_ok issues cs c \<longleftrightarrow> (\<forall>te. xc_phase c = Answered (Inr te) \<longrightarrow>
     issues (xc_subject c) te \<or> xc_key c \<noteq> [] \<and> xc_now c < snd te - refreshMargin \<and> rightful issues cs (xc_key c) te)"

definition exchange_inv :: "(string \<Rightarrow> token_entry \<Rightarrow> bool) \<Rightarrow> exchange_state \<Rightarrow> bool" where
  "exchange_inv issues s \<longleftrightarrow>
     (\<forall>k te. map_of (fst s) k = Some te \<longrightarrow> k \<noteq> [] \<and> rightful issues (snd s) k te)
     \<and> distinct (map fst (fst s)) \<and> (\<forall>i c. snd s i = Some c \<longrightarrow> answer_ok issues (snd s) c)"

lemma rightful_upd:
  "rightful issues cs k te \<Longrightarrow> (\<And>c. cs i = Some c \<Longrightarrow> xc_key c' = xc_key c \<and> xc_subject c' = xc_subject c) \<Longrightarrow>
     rightful issues (cs(i \<mapsto> c')) k te"
  unfolding rightful_def by (metis (full_types) fun_upd_apply option.inject)

lemma answer_ok_upd:
  "answer_ok issues cs c \<Longrightarrow> (\<And>c. cs i = Some c \<Longrightarrow> xc_key c' = xc_key c \<and> xc_subject c' = xc_subject c) \<Longrightarrow>
     answer_ok issues (cs(i \<mapsto> c')) c"
  unfolding answer_ok_def using rightful_upd by blast

lemma exchange_inv_entry:
  "exchange_inv issues (cache, cs) \<Longrightarrow> map_of cache k = Some te \<Longrightarrow> k \<noteq> [] \<and> rightful issues cs k te"
  unfolding exchange_inv_def fst_conv snd_conv by blast

lemma exchange_inv_upd:
  assumes "exchange_inv issues (cache, cs)" "\<And>c. cs i = Some c \<Longrightarrow> xc_key c' = xc_key c \<and> xc_subject c' = xc_subject c"
    "answer_ok issues (cs(i \<mapsto> c')) c'" "distinct (map fst cache')"
    "\<And>k te. map_of cache' k = Some te \<Longrightarrow> map_of cache k = Some te \<or> k \<noteq> [] \<and> rightful issues (cs(i \<mapsto> c')) k te"
  shows "exchange_inv issues (cache', cs(i \<mapsto> c'))"
proof -
  have "k \<noteq> [] \<and> rightful issues (cs(i \<mapsto> c')) k te" if "map_of cache' k = Some te" for k te
    using assms(5)[OF that]
  proof
    assume "map_of cache k = Some te"
    then have "k \<noteq> []" "rightful issues cs k te" using exchange_inv_entry[OF assms(1)] by blast+
    with rightful_upd[OF this(2) assms(2)] show ?thesis by blast
  qed
  moreover have "answer_ok issues (cs(i \<mapsto> c')) c" if "(cs(i \<mapsto> c')) j = Some c" for j c
    using that assms(1,3) answer_ok_upd[OF _ assms(2)] unfolding exchange_inv_def by (auto split: if_splits)
  ultimately show ?thesis using assms(4) unfolding exchange_inv_def by simp
qed

lemma lookup_token_cache:
  assumes "lookup_token key now cache = (r, cache')" "distinct (map fst cache)"
  shows "distinct (map fst cache')" "map_of cache' k = Some te \<Longrightarrow> map_of cache k = Some te"
    "r = Some te \<Longrightarrow> key \<noteq> [] \<and> map_of cache key = Some te \<and> now < snd te - refreshMargin"
  using assms by (auto simp: lookup_token_def distinct_delete delete_conv' split: if_splits option.splits prod.splits)

lemma store_token_cache:
  assumes "distinct (map fst cache)"
  shows "distinct (map fst (store_token key now te cache))"
    "map_of (store_token key now te cache) k = Some t \<Longrightarrow> map_of cache k = Some t \<or> k = key \<and> key \<noteq> [] \<and> t = te"
proof -
  let ?f = "filter (\<lambda>(k, t, expiry). now < expiry) cache"
  have d: "distinct (map fst ?f)" using assms by (simp add: distinct_map_filter)
  then show "distinct (map fst (store_token key now te cache))"
    using assms by (simp add: store_token_def distinct_update)
  have "map_of ?f k = Some t \<Longrightarrow> map_of cache k = Some t"
    using assms d by (auto simp: map_of_eq_Some_iff)
  then show "map_of (store_token key now te cache) k = Some t \<Longrightarrow> map_of cache k = Some t \<or> k = key \<and> key \<noteq> [] \<and> t = te"
    by (auto simp: store_token_def update_conv' split: if_splits)
qed

interpretation exchanger: machine exchange_start "exchange_step issues" "exchange_inv issues" for issues
proof
  show "exchange_start s \<Longrightarrow> exchange_inv issues s" for s by (simp add: exchange_start_def exchange_inv_def)
  fix s t assume inv: "exchange_inv issues s" and "exchange_step issues s t"
  from this(2) show "exchange_inv issues t"
  proof cases
    case (Enter cs i subject cache key now)
    show ?thesis unfolding Enter(2)
      by (rule exchange_inv_upd[OF inv[unfolded Enter(1)]])
        (use Enter inv in \<open>auto simp: answer_ok_def exchange_inv_def\<close>)
  next
    case (Hit cs i c cache te cache')
    from inv have d: "distinct (map fst cache)" by (simp add: exchange_inv_def Hit)
    note l = lookup_token_cache[OF Hit(5) d]
    have "rightful issues cs (xc_key c) te" using exchange_inv_entry[OF inv[unfolded Hit(1)]] l(3)[OF refl] by blast
    then have "rightful issues (cs(i \<mapsto> c\<lparr>xc_phase := Answered (Inr te)\<rparr>)) (xc_key c) te" by (rule rightful_upd) (use Hit in simp)
    then show ?thesis unfolding Hit(2)
      by (intro exchange_inv_upd[OF inv[unfolded Hit(1)]]) (use Hit l in \<open>auto simp: answer_ok_def\<close>)
  next
    case (Miss cs i c cache cache')
    from inv have d: "distinct (map fst cache)" by (simp add: exchange_inv_def Miss)
    note l = lookup_token_cache[OF Miss(5) d]
    show ?thesis unfolding Miss(2)
      by (intro exchange_inv_upd[OF inv[unfolded Miss(1)]]) (use Miss l in \<open>auto simp: answer_ok_def\<close>)
  next
    case (Reply cs i c reply cache r cache')
    from inv have d: "distinct (map fst cache)" by (simp add: exchange_inv_def Reply)
    show ?thesis
    proof (cases "\<exists>te. r = Inr te")
      case False
      with Reply(6) have "cache' = cache" by (auto simp: finish_exchange_def split: option.splits if_splits)
      with False d show ?thesis unfolding Reply(2)
        by (intro exchange_inv_upd[OF inv[unfolded Reply(1)]]) (use Reply in \<open>auto simp: answer_ok_def\<close>)
    next
      case True
      then obtain te where r: "r = Inr te" "issues (xc_subject c) te" "cache' = store_token (xc_key c) (xc_now c) te cache"
        using Reply(5,6) by (auto simp: finish_exchange_def split: option.splits if_splits)
      have "rightful issues (cs(i \<mapsto> c\<lparr>xc_phase := Answered r\<rparr>)) (xc_key c) te"
        unfolding rightful_def by (rule exI[of _ i]) (use r(2) in simp)
      note st = store_token_cache[OF d, where key = "xc_key c" and now = "xc_now c" and te = te, folded r(3)]
      show ?thesis unfolding Reply(2)
      proof (rule exchange_inv_upd[OF inv[unfolded Reply(1)] _ _ st(1)])
        show "map_of cache k = Some te' \<or> k \<noteq> [] \<and> rightful issues (cs(i \<mapsto> c\<lparr>xc_phase := Answered r\<rparr>)) k te'"
          if "map_of cache' k = Some te'" for k te'
          using st(2)[OF that]
        proof
          assume "k = xc_key c \<and> xc_key c \<noteq> [] \<and> te' = te"
          with \<open>rightful issues _ (xc_key c) te\<close> show ?thesis by simp
        qed simp
      qed (use Reply r in \<open>auto simp: answer_ok_def\<close>)
    qed
  qed
qed

text \<open>
  C29. No caller runs under another's token. However the calls of the exchanger interleave, the token a call is
  answered with was issued by the authorization server for the subject token of that call, or, from
  the cache, for one presented under the same engine user, and then it is not within the margin of
  its expiry; and the credential a caller gets from it carries the caller's own engine user, which
  the token itself names.
\<close>

theorem exchanged_token_rightful:
  assumes "(exchange_step issues)\<^sup>*\<^sup>* ([], Map.empty) (cache, cs)" "cs i = Some c" "xc_phase c = Answered r"
    "same_subject engineUserClaim (xc_key c) r = Inr cred"
  shows "ec_EngineUser cred = xc_key c
    \<and> jwtClaimString (ec_Token cred) (split_at CHR ''.'' engineUserClaim) = Some (xc_key c)
    \<and> (\<exists>j d. cs j = Some d \<and> xc_key d = xc_key c \<and> issues (xc_subject d) (ec_Token cred, ec_Expiry cred))
    \<and> (issues (xc_subject c) (ec_Token cred, ec_Expiry cred) \<or> xc_now c < ec_Expiry cred - refreshMargin)"
proof -
  have "exchange_inv issues (cache, cs)"
    by (rule exchanger.reachable_invariant[OF _ assms(1)]) (simp add: exchange_start_def)
  then have ok: "answer_ok issues cs c" using assms(2) by (simp add: exchange_inv_def)
  from assms(4) obtain t e where r: "r = Inr (t, e)" "jwtClaimString t (split_at CHR ''.'' engineUserClaim) = Some (xc_key c)"
    "cred = \<lparr>ec_Token = t, ec_EngineUser = xc_key c, ec_Expiry = e\<rparr>"
    by (auto simp: same_subject_def result_simps Let_def split: if_splits)
  with ok assms(2,3) show ?thesis by (auto simp: answer_ok_def rightful_def)
qed

definition ann_jwt :: string where
  "ann_jwt = ''h.eyJ1IjoiYW5uIn0.s''"

lemma ann_jwt_subject: "jwtClaimString ann_jwt [''u''] = Some ''ann''"
  by code_simp

theorem exchanged_token_rightful_witness:
  "\<exists>cs c cred. (exchange_step (\<lambda>s te. te = (ann_jwt, 10 ^ 12)))\<^sup>*\<^sup>* ([], Map.empty) ([(''ann'', (ann_jwt, 10 ^ 12))], cs)
     \<and> cs 1 = Some c \<and> same_subject ''u'' ''ann'' (Inr (ann_jwt, 10 ^ 12)) = Inr cred \<and> xc_phase c = Answered (Inr (ann_jwt, 10 ^ 12))
     \<and> ec_EngineUser cred = ''ann''"
proof -
  let ?te = "(ann_jwt, 10 ^ 12) :: token_entry" and ?step = "exchange_step (\<lambda>s te. te = (ann_jwt, 10 ^ 12))"
  define call where "call = (\<lambda>n p. \<lparr>xc_key = ''ann'', xc_subject = ''x'', xc_now = n, xc_phase = p\<rparr>)"
  have ne: "ann_jwt \<noteq> []" by (simp add: ann_jwt_def)
  have 1: "?step ([], Map.empty) ([], [1 \<mapsto> call 0 Entered])" unfolding call_def by (rule Enter) simp_all
  have 2: "?step ([], [1 \<mapsto> call 0 Entered]) ([], [1 \<mapsto> call 0 Entered, 1 \<mapsto> (call 0 Entered)\<lparr>xc_phase := Asking\<rparr>])"
    by (rule Miss) (simp_all add: call_def lookup_token_def)
  have 3: "?step ([], [1 \<mapsto> call 0 Asking]) ([(''ann'', ?te)], [1 \<mapsto> call 0 Asking, 1 \<mapsto> (call 0 Asking)\<lparr>xc_phase := Answered (Inr ?te)\<rparr>])"
    by (rule Reply[where reply = "Some ?te"]) (simp_all add: call_def finish_exchange_def store_token_def ne)
  have u: "[1 \<mapsto> call 0 p, 1 \<mapsto> (call 0 p)\<lparr>xc_phase := q\<rparr>] = [1 \<mapsto> call 0 q]" for p q by (simp add: call_def)
  have run: "?step\<^sup>*\<^sup>* ([], Map.empty) ([(''ann'', ?te)], [1 \<mapsto> call 0 (Answered (Inr ?te))])"
    using 1 2[unfolded u] 3[unfolded u] by (meson converse_rtranclp_into_rtranclp rtranclp.rtrancl_refl)
  have sub: "\<exists>cred. same_subject ''u'' ''ann'' (Inr ?te) = Inr cred" by (simp add: same_subject_def ann_jwt_subject)
  then obtain cred where cred: "same_subject ''u'' ''ann'' (Inr ?te) = Inr cred" by blast
  have k: "xc_key (call 0 (Answered (Inr ?te))) = ''ann''" "xc_phase (call 0 (Answered (Inr ?te))) = Answered (Inr ?te)"
    by (simp_all add: call_def)
  have "[1 \<mapsto> call 0 (Answered (Inr ?te))] 1 = Some (call 0 (Answered (Inr ?te)))" by simp
  from exchanged_token_rightful[OF run this k(2), unfolded k(1), OF cred] run cred k(2) this show ?thesis by blast
qed

end
