(* ===== verification/Scan.thy ===== *)
theory Scan
  imports JsonText
begin

text \<open>
  \<^verbatim>\<open>internal/dbclient/scan.go\<close>: reading the rows of an engine under a byte ceiling. A row scanner is the columns
  it reports, the rows it will hand out (or the error that scanning one ends in), and the error it
  reports afterwards.
\<close>

text \<open>What a driver leaves in an \<^verbatim>\<open>any\<close>: raw bytes or a value.\<close>

datatype scanned = Bytes string | Val go_value

record RowScanner =
  rows_Columns :: "(string, string list) result"
  rows_Scan :: "(string, scanned list) result list"
  rows_Err :: "string option"

datatype scan_error =
    DriverError string
  | ErrResultTooLarge nat nat nat

definition DefaultMaxResultBytes :: nat where
  "DefaultMaxResultBytes = 32 * 2 ^ 20"

text \<open>One rune: the byte cases only apply to a sequence of width one, and the two line separators are the only
  longer sequences that are escaped.\<close>

definition rune_len :: "nat \<Rightarrow> string \<Rightarrow> nat" where
  "rune_len w s =
     (let b = byte (hd s)
      in if w = 0 then 6
         else if w = 1 then
           (if hd s = dquote_ch \<or> hd s = backslash_ch then 2
            else if b = 10 \<or> b = 13 \<or> b = 9 then 2
            else if b = 60 \<or> b = 62 \<or> b = 38 then 6
            else if b < 32 then 6 else 1)
         else if map byte (take 3 s) = [226, 128, 168] \<or> map byte (take 3 s) = [226, 128, 169] then 6
         else w)"

function json_chars_len :: "string \<Rightarrow> nat" where
  "json_chars_len s =
     (if s = [] then 0
      else let w = utf8_width s in rune_len w s + json_chars_len (drop (if w = 0 then 1 else w) s))"
  by pat_completeness auto
termination
  by (relation "measure length") auto

declare json_chars_len.simps [simp del]

definition jsonStringLen :: "string \<Rightarrow> nat" where
  "jsonStringLen s = 2 + json_chars_len s"

text \<open>\<^verbatim>\<open>time.RFC3339Nano\<close> has 35 characters.\<close>

fun encodedSize :: "go_value \<Rightarrow> nat" where
  "encodedSize VNil = 4"
| "encodedSize (VString s) = jsonStringLen s"
| "encodedSize (VTime t) = 35 + 2"
| "encodedSize (VBool b) = 5"
| "encodedSize _ = 24"

definition copied :: "scanned \<Rightarrow> go_value" where
  "copied v = (case v of Bytes b \<Rightarrow> VString b | Val x \<Rightarrow> x)"

fun scan_loop :: "nat \<Rightarrow> (string, scanned list) result list \<Rightarrow> go_value list list \<Rightarrow> nat \<Rightarrow> (scan_error, go_value list list) result" where
  "scan_loop maxBytes [] out sz = Inr out"
| "scan_loop maxBytes (r # rs) out sz =
     (case r of
        Inl e \<Rightarrow> Inl (DriverError e)
      | Inr row \<Rightarrow>
          (let vals = map copied row;
               sz' = sz + sum_list (map (\<lambda>v. encodedSize v + 1) vals) + 2
           in if maxBytes < sz' then Inl (ErrResultTooLarge (length out + 1) sz' maxBytes)
              else scan_loop maxBytes rs (out @ [vals]) sz'))"

definition ScanRows :: "RowScanner \<Rightarrow> int \<Rightarrow> (scan_error, string list \<times> go_value list list) result" where
  "ScanRows rows maxBytes =
     (let ceiling = (if maxBytes \<le> 0 then DefaultMaxResultBytes else nat maxBytes)
      in case rows_Columns rows of
           Inl e \<Rightarrow> Inl (DriverError e)
         | Inr cols \<Rightarrow>
             ebind (scan_loop ceiling (rows_Scan rows) [] 0) (\<lambda>out.
               case rows_Err rows of Some e \<Rightarrow> Inl (DriverError e) | None \<Rightarrow> Inr (cols, out)))"

section \<open>The ceiling holds for what is encoded\<close>

lemma length_json_byte: "length (json_byte c) \<le> rune_len 1 (c # cs)"
  by (auto simp: json_byte_def rune_len_def Let_def special_chars byte_def)

lemma separator_width:
  assumes "map byte (take 3 s) = [226, 128, n]" "n = 168 \<or> n = 169"
  shows "utf8_width s = 3"
proof -
  from assms(1) obtain a b c r where s: "s = a # b # c # r" "byte a = 226" "byte b = 128" "byte c = n"
    by (cases s rule: list.exhaust; cases "tl s" rule: list.exhaust; cases "tl (tl s)" rule: list.exhaust) auto
  with assms(2) show ?thesis by (auto simp: utf8_width_def cont_byte_def Let_def)
qed

lemma length_json_chars: "length (json_chars s) \<le> json_chars_len s"
proof (induction s rule: json_chars.induct)
  case 1
  show ?case by simp
next
  case (2 c cs)
  let ?s = "c # cs" and ?w = "utf8_width (c # cs)"
  note [simp] = rune_len_def Let_def
  consider "?w = 0" | "?w = 1" | (a) "1 < ?w" "map byte (take 3 ?s) = [226, 128, 168]"
    | (b) "1 < ?w" "map byte (take 3 ?s) = [226, 128, 169]"
    | (n) "1 < ?w" "map byte (take 3 ?s) \<noteq> [226, 128, 168]" "map byte (take 3 ?s) \<noteq> [226, 128, 169]"
    by linarith
  then show ?case
  proof cases
    case a
    with separator_width[OF a(2)] 2(3)[OF refl] show ?thesis
      by (subst json_chars_len.simps) (simp del: take_Suc_Cons list.map)
  next
    case b
    with separator_width[OF b(2)] 2(4)[OF refl] show ?thesis
      by (subst json_chars_len.simps) (simp del: take_Suc_Cons list.map)
  next
    case n
    with 2(5)[OF refl] show ?thesis
      by (subst json_chars_len.simps) (simp del: take_Suc_Cons list.map)
  qed (subst json_chars_len.simps, use 2(1,2)[OF refl] length_json_byte[of c cs] in \<open>simp del: take_Suc_Cons list.map\<close>)+
qed

lemma length_json_string: "length (json_string s) \<le> jsonStringLen s"
  using length_json_chars[of s] by (simp add: json_string_def jsonStringLen_def)

text \<open>The values whose size is accounted for: scalars other than floats, with integers of 64 bits and instants whose
  text is not longer than the layout.\<close>

fun accounted :: "go_value \<Rightarrow> bool" where
  "accounted VNil = True"
| "accounted (VString s) = True"
| "accounted (VBool b) = True"
| "accounted (VInt i) = (- (2 ^ 63) \<le> i \<and> i < 2 ^ 63)"
| "accounted (VInt32 i) = (- (2 ^ 63) \<le> i \<and> i < 2 ^ 63)"
| "accounted (VInt64 i) = (- (2 ^ 63) \<le> i \<and> i < 2 ^ 63)"
| "accounted (VTime t) = (length (time_str t) \<le> 34)"
| "accounted _ = False"

lemma length_nat_str: "n < 10 ^ k \<Longrightarrow> 0 < k \<Longrightarrow> length (nat_str n) \<le> k"
proof (induction n arbitrary: k rule: nat_str.induct)
  case (1 n)
  show ?case
  proof (cases "n < 10")
    case True
    with 1(3) show ?thesis by (subst nat_str.simps) simp
  next
    case False
    then have "1 < k" using 1(2,3) by (metis One_nat_def Suc_lessI power_one_right)
    then obtain j where k: "k = Suc j" "0 < j" by (cases k) auto
    have "n div 10 < 10 ^ j" using 1(2) by (simp add: k less_mult_imp_div_less mult.commute)
    from 1(1)[OF False this k(2)] False show ?thesis by (subst nat_str.simps) (simp add: k)
  qed
qed

lemma length_int_str: "- (2 ^ 63) \<le> i \<Longrightarrow> i < 2 ^ 63 \<Longrightarrow> length (int_str i) \<le> 20"
  using length_nat_str[of "nat (abs i)" 19] by (auto simp: int_str_def nat_less_iff)

lemma length_json_value: "accounted v \<Longrightarrow> json_value v = Some t \<Longrightarrow> length t \<le> encodedSize v"
  using length_int_str length_json_string by (cases v) (force+)

lemma length_join: "length (join '','' xs) = sum_list (map length xs) + (length xs - 1)"
  by (induction "'',''" xs rule: join.induct) auto

lemma length_json_list: "length (json_list xs) = sum_list (map length xs) + (length xs - 1) + 2"
  by (simp add: json_list_def length_join)

lemma option_list_Some: "option_list xs = Some ys \<longleftrightarrow> xs = map Some ys"
  by (induction xs arbitrary: ys) (auto split: option.splits)

lemma json_values_size:
  "list_all accounted vs \<Longrightarrow> map json_value vs = map Some ts \<Longrightarrow>
     sum_list (map length ts) \<le> sum_list (map encodedSize vs) \<and> length ts = length vs"
proof (induction vs arbitrary: ts)
  case (Cons v vs)
  then obtain t ts' where "ts = t # ts'" "json_value v = Some t" "map json_value vs = map Some ts'" by (cases ts) auto
  with Cons show ?case using length_json_value[of v t] by fastforce
qed simp

lemma json_row_size:
  assumes "list_all accounted row" "row \<noteq> []" "json_value (VArray row) = Some t"
  shows "length t + 1 \<le> sum_list (map (\<lambda>v. encodedSize v + 1) row) + 2"
proof -
  from assms(3) obtain ts where ts: "map json_value row = map Some ts" "t = json_list ts" by (auto simp: option_list_Some)
  have "sum_list (map (\<lambda>v. encodedSize v + 1) row) = sum_list (map encodedSize row) + length row"
    by (induction row) auto
  with json_values_size[OF assms(1) ts(1)] assms(2) show ?thesis by (cases row) (auto simp: ts(2) length_json_list)
qed

lemma json_rows_size:
  "\<forall>row\<in>set rows. row \<noteq> [] \<and> list_all accounted row \<Longrightarrow> map json_value (map VArray rows) = map Some ts \<Longrightarrow>
     sum_list (map length ts) + length ts \<le> sum_list (map (\<lambda>row. sum_list (map (\<lambda>v. encodedSize v + 1) row) + 2) rows)"
proof (induction rows arbitrary: ts)
  case (Cons row rows)
  then obtain t ts' where ts: "ts = t # ts'" "json_value (VArray row) = Some t" "map json_value (map VArray rows) = map Some ts'"
    by (cases ts) auto
  with Cons.prems(1) json_row_size[of row t] Cons.IH[of ts'] show ?case by (simp del: json_value.simps)
qed simp

lemma scan_loop_Inr:
  assumes "scan_loop ceiling scans out sz = Inr res"
  shows "\<exists>rows. scans = map Inr rows \<and> res = out @ map (map copied) rows
    \<and> sz + sum_list (map (\<lambda>row. sum_list (map (\<lambda>v. encodedSize v + 1) row) + 2) (map (map copied) rows)) \<le> max ceiling sz"
  using assms
proof (induction scans arbitrary: out sz)
  case (Cons r rs)
  then obtain row where r: "r = Inr row" by (cases r) auto
  let ?sz = "sz + sum_list (map (\<lambda>v. encodedSize v + 1) (map copied row)) + 2"
  from Cons.prems r have le: "?sz \<le> ceiling" and rest: "scan_loop ceiling rs (out @ [map copied row]) ?sz = Inr res"
    by (auto simp: Let_def split: if_splits)
  from Cons.IH[OF rest] obtain rows where "rs = map Inr rows" "res = (out @ [map copied row]) @ map (map copied) rows"
    "?sz + sum_list (map (\<lambda>row. sum_list (map (\<lambda>v. encodedSize v + 1) row) + 2) (map (map copied) rows)) \<le> max ceiling ?sz" by blast
  with le r show ?case by (intro exI[of _ "row # rows"]) simp
qed (auto intro!: exI[of _ "[]"])



text \<open>
  The size of any other value is put at 24 bytes, an array of the engine of any length as much as a number.
\<close>

lemma encodedSize_underestimates:
  "encodedSize (VArray vs) = 24" "json_value (VArray (replicate 20 VNil)) = Some (json_list (replicate 20 ''null''))"
  "length (json_list (replicate 20 ''null'')) = 101"
  by (simp, code_simp, simp add: length_json_list sum_list_replicate)

end
