(* ===== verification/Views.thy ===== *)
theory Views
  imports Plan Strconv Effects
begin

text \<open>
  \<^verbatim>\<open>internal/serving/views/views.go\<close>: the views the operator keeps in the engine. The body of a view is what
  the planner makes of its spec for the one role the view is compiled under. The engine is the
  parameter \<open>exec\<close>: it takes a statement, answers with an error text or none, and changes a state of
  any type.
\<close>

type_synonym 'w executor = "string \<Rightarrow> ('w, string option) state"

datatype view_error =
    ViewPlan string plan_error
  | ViewDatabase string string
  | ViewExec string string
  | ViewDrop "(string \<times> string) list"

definition DefaultDatabase :: string where
  "DefaultDatabase = ''semantic_views''"

definition quoteDotted :: "dialect \<Rightarrow> string \<Rightarrow> string" where
  "quoteDotted d name = join ''.'' (map (QuoteIdent d) (split_at CHR ''.'' name))"

text \<open>The value types \<^verbatim>\<open>number\<close> and \<^verbatim>\<open>auto\<close> are read the same way.\<close>

definition coerce :: "string \<Rightarrow> string \<Rightarrow> go_value" where
  "coerce s valueType =
     (if valueType = ''string'' then VString s
      else case ParseInt10 s of
             Some i \<Rightarrow> VInt64 i
           | None \<Rightarrow> (case ParseFloat_text s of Some w \<Rightarrow> VFloat64 w | None \<Rightarrow> VString s))"

definition view_filter :: "ViewFilter \<Rightarrow> Filter" where
  "view_filter f =
     (if vf_Values f \<noteq> []
      then \<lparr>flt_Field = vf_Field f, flt_Op = vf_Op f, flt_Value = VNil,
            flt_Values = map (\<lambda>s. coerce s (vf_ValueType f)) (vf_Values f)\<rparr>
      else \<lparr>flt_Field = vf_Field f, flt_Op = vf_Op f, flt_Value = coerce (vf_Value f) (vf_ValueType f), flt_Values = []\<rparr>)"

definition view_request :: "ViewSpec \<Rightarrow> Request" where
  "view_request v = empty_Request
     \<lparr>req_Metrics := v_Metrics v, req_Dimensions := v_Dimensions v, req_TimeGrain := v_TimeGrain v,
      req_Filters := map view_filter (v_Filters v)\<rparr>"

definition view_role :: "ViewSpec \<Rightarrow> string \<Rightarrow> string" where
  "view_role v defaultRole = (if v_Role v = [] then defaultRole else v_Role v)"

definition BuildViewSQL :: "glob_compiler \<Rightarrow> CompiledModel \<Rightarrow> dialect \<Rightarrow> ViewSpec \<Rightarrow> string \<Rightarrow> string \<Rightarrow> (view_error, string) result" where
  "BuildViewSQL compile cm d v database defaultRole =
     ebind (emap_err (ViewPlan (v_Name v)) (Build compile cm d (view_request v) (Single (view_role v defaultRole)))) (\<lambda>p.
       Inr (''CREATE OR REPLACE VIEW '' @ quoteDotted d database @ ''.'' @ QuoteIdent d (v_Name v) @ '' AS'' @ NL @ p_SQL p))"

text \<open>The names of the views made so far are returned beside the error.\<close>

fun publish_views :: "'w executor \<Rightarrow> glob_compiler \<Rightarrow> CompiledModel \<Rightarrow> dialect \<Rightarrow> string \<Rightarrow> string \<Rightarrow> string list \<Rightarrow> ViewSpec list
    \<Rightarrow> ('w, string list \<times> view_error option) state" where
  "publish_views exec compile cm d database defaultRole created [] = State_Monad.return (created, None)"
| "publish_views exec compile cm d database defaultRole created (v # vs) =
     (case BuildViewSQL compile cm d v database defaultRole of
        Inl e \<Rightarrow> State_Monad.return (created, Some e)
      | Inr ddl \<Rightarrow> do {
          r \<leftarrow> exec ddl;
          case r of
            Some e \<Rightarrow> State_Monad.return (created, Some (ViewExec (v_Name v) e))
          | None \<Rightarrow> publish_views exec compile cm d database defaultRole (created @ [v_Name v]) vs })"

definition view_database :: "string \<Rightarrow> string" where
  "view_database database = (if database = [] then DefaultDatabase else database)"

definition Publish :: "'w executor \<Rightarrow> glob_compiler \<Rightarrow> CompiledModel \<Rightarrow> dialect \<Rightarrow> ViewSpec list \<Rightarrow> string \<Rightarrow> string
    \<Rightarrow> ('w, string list \<times> view_error option) state" where
  "Publish exec compile cm d specViews database defaultRole =
     (if specViews = [] then State_Monad.return ([], None)
      else let db = view_database database in do {
        r \<leftarrow> exec (CreateSchema d (quoteDotted d db));
        case r of
          Some e \<Rightarrow> State_Monad.return ([], Some (ViewDatabase db e))
        | None \<Rightarrow> publish_views exec compile cm d db defaultRole [] specViews })"

definition drop_statement :: "dialect \<Rightarrow> string \<Rightarrow> string \<Rightarrow> string" where
  "drop_statement d db n = ''DROP VIEW IF EXISTS '' @ quoteDotted d db @ ''.'' @ QuoteIdent d n"

fun drop_views :: "'w executor \<Rightarrow> dialect \<Rightarrow> string \<Rightarrow> string list \<Rightarrow> ('w, (string \<times> string) list) state" where
  "drop_views exec d db [] = State_Monad.return []"
| "drop_views exec d db (n # ns) = do {
     r \<leftarrow> exec (drop_statement d db n);
     errs \<leftarrow> drop_views exec d db ns;
     State_Monad.return (case r of Some e \<Rightarrow> (n, e) # errs | None \<Rightarrow> errs) }"

definition Drop :: "'w executor \<Rightarrow> dialect \<Rightarrow> string \<Rightarrow> string list \<Rightarrow> ('w, view_error option) state" where
  "Drop exec d database names = do {
     errs \<leftarrow> drop_views exec d (view_database database) names;
     State_Monad.return (if errs = [] then None else Some (ViewDrop errs)) }"

end
