(* ===== verification/Controller.thy ===== *)
theory Controller
  imports Views Ossie ModelStore
begin

text \<open>
  \<^verbatim>\<open>controllers/semanticmodel_controller.go\<close>: the reconciler that validates a spec, compiles it, compares it
  with the physical schema, publishes the compiled model in a ConfigMap and maintains the views.
  Every call to the Kubernetes API and to the engine is an entry of the list of calls, and its reply
  may depend on all calls before it (record \<open>Outside\<close>). What the code takes from libraries is the
  record \<open>Runtime\<close>. Log lines are left out.
\<close>

section \<open>Types\<close>

text \<open>\<^verbatim>\<open>metav1.Condition\<close>; the message of a condition that reports an error is the cut-off text of that
  error, which stands for itself.\<close>

datatype recon_error =
    ApiFailed string
  | NotFound
  | Conflict
  | Invalid "spec_error list"
  | NotCompiled compile_error
  | EngineUnreachable string
  | MarshalFailed string
  | ErrArtifactTooLarge nat
  | OwnerRefused string
  | ViewsFailed view_error
  | NilPointer
  | OutOfFuel

datatype message = Message string | ErrorText recon_error

record Condition =
  con_Type :: string
  con_Status :: bool
  con_Reason :: string
  con_Message :: message
  con_ObservedGeneration :: int

record DatasetBinding =
  bd_Dataset :: string
  bd_Table :: string
  bd_Drift :: string

record SemanticModelStatus =
  ss_ModelVersion :: string
  ss_ObservedGeneration :: int
  ss_PublishedConfigMap :: string
  ss_Bindings :: "DatasetBinding list"
  ss_Conditions :: "Condition list"

record SemanticModel =
  sm_Name :: string
  sm_Namespace :: string
  sm_Generation :: int
  sm_DeletionTimestamp :: "int option"
  sm_Finalizers :: "string list"
  sm_Annotations :: "string \<rightharpoonup> string"
  sm_Spec :: SemanticModelSpec
  sm_Status :: SemanticModelStatus

record OwnerReference =
  or_APIVersion :: string
  or_Kind :: string
  or_Name :: string
  or_UID :: string

text \<open>The ConfigMap that carries a compiled model, as the operator reads and writes it.\<close>

record Artifact = ConfigMap +
  art_Namespace :: string
  art_Labels :: "string \<rightharpoonup> string"
  art_OwnerReferences :: "OwnerReference list"

record Column =
  col_Name :: string
  col_Type :: string

datatype api_call =
    GetModel string string
  | UpdateModel SemanticModel
  | UpdateStatus SemanticModel
  | GetArtifact string string
  | CreateArtifact Artifact
  | UpdateArtifact Artifact
  | DescribeTable string string string
  | Ping
  | Exec string

type_synonym 'a reply = "(recon_error, 'a) result"

record Outside =
  out_model :: "api_call list \<Rightarrow> SemanticModel reply"
  out_update :: "api_call list \<Rightarrow> SemanticModel \<Rightarrow> SemanticModel reply"
  out_status :: "api_call list \<Rightarrow> SemanticModel \<Rightarrow> unit reply"
  out_artifact :: "api_call list \<Rightarrow> Artifact reply"
  out_write :: "api_call list \<Rightarrow> Artifact \<Rightarrow> unit reply"
  out_describe :: "api_call list \<Rightarrow> string \<Rightarrow> string \<Rightarrow> string \<Rightarrow> (string, Column list) result"
  out_ping :: "api_call list \<Rightarrow> string option"
  out_exec :: "api_call list \<Rightarrow> string \<Rightarrow> string option"

text \<open>Library code: \<^verbatim>\<open>meta.SetStatusCondition\<close>, the finalizer helpers and \<^verbatim>\<open>SetControllerReference\<close> of
  \<^verbatim>\<open>controllerutil\<close>, the globs of governance, the order in which Go iterates the edges of a spec, and
  the JSON texts of specs and compiled models.\<close>

record Runtime =
  rt_SetStatusCondition :: "Condition list \<Rightarrow> Condition \<Rightarrow> Condition list"
  rt_ContainsFinalizer :: "string list \<Rightarrow> string \<Rightarrow> bool"
  rt_AddFinalizer :: "string list \<Rightarrow> string \<Rightarrow> string list"
  rt_RemoveFinalizer :: "string list \<Rightarrow> string \<Rightarrow> string list"
  rt_SetControllerReference :: "SemanticModel \<Rightarrow> OwnerReference list \<Rightarrow> (string, OwnerReference list) result"
  rt_globs :: glob_compiler
  rt_edge_order :: "SemanticModelSpec \<Rightarrow> string list"
  rt_spec_json :: "SemanticModelSpec \<Rightarrow> string"
  rt_model_json :: "CompiledModel \<Rightarrow> (string, string) result"

record Reconciler =
  rc_Dialect :: dialect
  rc_ViewDatabase :: string
  rc_ResyncPeriod :: int
  rc_Runtime :: Runtime
  rc_Outside :: Outside

type_synonym 'a api = "(api_call list, 'a) state"

section \<open>Calls\<close>

definition get_model :: "Reconciler \<Rightarrow> string \<Rightarrow> string \<Rightarrow> SemanticModel reply api" where
  "get_model rc ns n = answer (\<lambda>w. out_model (rc_Outside rc) w) (GetModel ns n)"

text \<open>A successful update overwrites the object in memory with the stored one, its status included.\<close>

definition update_model :: "Reconciler \<Rightarrow> SemanticModel \<Rightarrow> SemanticModel reply api" where
  "update_model rc sm = answer (\<lambda>w. out_update (rc_Outside rc) w sm) (UpdateModel sm)"

definition update_status :: "Reconciler \<Rightarrow> SemanticModel \<Rightarrow> unit reply api" where
  "update_status rc sm = answer (\<lambda>w. out_status (rc_Outside rc) w sm) (UpdateStatus sm)"

definition get_artifact :: "Reconciler \<Rightarrow> string \<Rightarrow> string \<Rightarrow> Artifact reply api" where
  "get_artifact rc ns n = answer (\<lambda>w. out_artifact (rc_Outside rc) w) (GetArtifact ns n)"

definition write_artifact :: "Reconciler \<Rightarrow> (Artifact \<Rightarrow> api_call) \<Rightarrow> Artifact \<Rightarrow> unit reply api" where
  "write_artifact rc verb art = answer (\<lambda>w. out_write (rc_Outside rc) w art) (verb art)"

definition describe_table :: "Reconciler \<Rightarrow> CompiledDataset \<Rightarrow> (string, Column list) result api" where
  "describe_table rc ds =
     answer (\<lambda>w. out_describe (rc_Outside rc) w (cd_Catalog ds) (cd_Database ds) (cd_Table ds))
       (DescribeTable (cd_Catalog ds) (cd_Database ds) (cd_Table ds))"

definition ping :: "Reconciler \<Rightarrow> string option api" where
  "ping rc = answer (\<lambda>w. out_ping (rc_Outside rc) w) Ping"

definition exec :: "Reconciler \<Rightarrow> api_call list executor" where
  "exec rc q = answer (\<lambda>w. out_exec (rc_Outside rc) w q) (Exec q)"

section \<open>Status\<close>

definition truncate_text :: "string \<Rightarrow> string" where
  "truncate_text s = (if length s \<le> 1024 then s else take 1024 s @ '' ...'')"

definition setCondition :: "Reconciler \<Rightarrow> SemanticModel \<Rightarrow> string \<Rightarrow> bool \<Rightarrow> string \<Rightarrow> message \<Rightarrow> SemanticModel" where
  "setCondition rc sm t s reason msg =
     sm\<lparr>sm_Status := (sm_Status sm)\<lparr>ss_Conditions := rt_SetStatusCondition (rc_Runtime rc) (ss_Conditions (sm_Status sm))
       \<lparr>con_Type = t, con_Status = s, con_Reason = reason, con_Message = msg, con_ObservedGeneration = sm_Generation sm\<rparr>\<rparr>\<rparr>"

definition statusUpdate :: "Reconciler \<Rightarrow> SemanticModel \<Rightarrow> recon_error option api" where
  "statusUpdate rc sm = do {
     r \<leftarrow> update_status rc sm;
     State_Monad.return (case r of Inl e \<Rightarrow> if e = Conflict then None else Some e | Inr _ \<Rightarrow> None) }"

definition resync :: "Reconciler \<Rightarrow> int" where
  "resync rc = (if 0 < rc_ResyncPeriod rc then rc_ResyncPeriod rc else 5 * 60 * 10 ^ 9)"

section \<open>Binding\<close>

definition isBareIdent :: "string \<Rightarrow> bool" where
  "isBareIdent s \<longleftrightarrow> s \<noteq> [] \<and> list_all (\<lambda>c. c = CHR ''_'' \<or> is_lower c \<or> is_upper c \<or> is_digit c) s"

record BindState =
  bs_Datasets :: "string \<rightharpoonup> CompiledDataset"
  bs_tableCols :: "string \<rightharpoonup> (string \<rightharpoonup> string)"
  bs_drift :: "string list"
  bs_bindings :: "DatasetBinding list"

definition col_types :: "Column list \<Rightarrow> (string \<rightharpoonup> string)" where
  "col_types cols = map_of (rev (map (\<lambda>c. (col_Name c, col_Type c)) cols))"

text \<open>The names of missing columns, and the fields with their physical types; None where a name of the order
  has no field.\<close>

fun bind_fields :: "(string \<rightharpoonup> string) \<Rightarrow> string list \<Rightarrow> (string \<rightharpoonup> CompiledField) \<Rightarrow> (string list \<times> (string \<rightharpoonup> CompiledField)) option" where
  "bind_fields colTypes [] fs = Some ([], fs)"
| "bind_fields colTypes (n # ns) fs =
     (case fs n of
        None \<Rightarrow> None
      | Some f \<Rightarrow>
          if isBareIdent (cf_Expr f) then
            (case colTypes (cf_Expr f) of
               Some t \<Rightarrow> bind_fields colTypes ns (fs(n \<mapsto> f\<lparr>cf_Type := t\<rparr>))
             | None \<Rightarrow> map_option (\<lambda>(ms, fs'). ((n @ '' (column '' @ cf_Expr f @ '')'') # ms, fs')) (bind_fields colTypes ns fs))
          else bind_fields colTypes ns fs)"

definition bind_table :: "CompiledDataset \<Rightarrow> string" where
  "bind_table ds = cd_Catalog ds @ ''.'' @ cd_Database ds @ ''.'' @ cd_Table ds"

definition bind_result :: "string \<Rightarrow> CompiledDataset \<Rightarrow> string \<Rightarrow> BindState \<Rightarrow> BindState" where
  "bind_result name ds drift st =
     st\<lparr>bs_drift := bs_drift st @ (if drift = [] then [] else [name @ '': '' @ drift]),
        bs_bindings := bs_bindings st @ [\<lparr>bd_Dataset = name, bd_Table = bind_table ds, bd_Drift = drift\<rparr>]\<rparr>"

definition bind_columns :: "string \<Rightarrow> CompiledDataset \<Rightarrow> Column list \<Rightarrow> BindState \<Rightarrow> BindState option" where
  "bind_columns name ds cols st =
     (case bind_fields (col_types cols) (cd_FieldOrder ds) (cd_Fields ds) of
        None \<Rightarrow> None
      | Some (missing, fs) \<Rightarrow> Some
          (bind_result name ds (if missing = [] then [] else ''missing columns: '' @ join '', '' missing)
            (st\<lparr>bs_Datasets := (bs_Datasets st)(name \<mapsto> ds\<lparr>cd_Fields := fs\<rparr>),
                bs_tableCols := (bs_tableCols st)(name \<mapsto> col_types cols)\<rparr>)))"

fun bind_datasets :: "Reconciler \<Rightarrow> string list \<Rightarrow> BindState \<Rightarrow> BindState reply api" where
  "bind_datasets rc [] st = State_Monad.return (Inr st)"
| "bind_datasets rc (name # names) st =
     (case bs_Datasets st name of
        None \<Rightarrow> State_Monad.return (Inl NilPointer)
      | Some ds \<Rightarrow> do {
          r \<leftarrow> describe_table rc ds;
          case r of
            Inl err \<Rightarrow> do {
              p \<leftarrow> ping rc;
              case p of
                Some perr \<Rightarrow> State_Monad.return (Inl (EngineUnreachable perr))
              | None \<Rightarrow> bind_datasets rc names (bind_result name ds (''table not resolvable: '' @ err) st) }
          | Inr cols \<Rightarrow>
              (case bind_columns name ds cols st of
                 None \<Rightarrow> State_Monad.return (Inl NilPointer)
               | Some st' \<Rightarrow> bind_datasets rc names st') })"

definition missing_columns :: "(string \<rightharpoonup> (string \<rightharpoonup> string)) \<Rightarrow> string \<Rightarrow> string \<Rightarrow> string list \<Rightarrow> string list" where
  "missing_columns tableCols rel dataset cs =
     (case tableCols dataset of
        None \<Rightarrow> []
      | Some cols \<Rightarrow> map (\<lambda>c. ''relationship '' @ rel @ '': column '' @ c @ '' missing on '' @ dataset)
                      (filter (\<lambda>c. cols c = None) cs))"

definition relationship_drift :: "(string \<rightharpoonup> (string \<rightharpoonup> string)) \<Rightarrow> CompiledRelationship \<Rightarrow> string list" where
  "relationship_drift tableCols rel =
     missing_columns tableCols (cr_Name rel) (cr_From rel) (cr_FromColumns rel)
     @ missing_columns tableCols (cr_Name rel) (cr_To rel) (cr_ToColumns rel)"

definition row_filter_drift :: "(string \<rightharpoonup> (string \<rightharpoonup> string)) \<Rightarrow> string \<Rightarrow> RowFilter \<Rightarrow> string list" where
  "row_filter_drift tableCols role rf =
     (case (ValidatablePredicate (rf_Predicate rf) :: (unit gov_error, string) result) of
        Inl _ \<Rightarrow> []
      | Inr checkable \<Rightarrow>
          (case ParsePredicate checkable of
             Inl _ \<Rightarrow> []
           | Inr cols \<Rightarrow>
               (case tableCols (rf_Dataset rf) of
                  None \<Rightarrow> []
                | Some physical \<Rightarrow>
                    map (\<lambda>c. ''governance role '' @ role @ '': rowFilter on '' @ rf_Dataset rf @ '' references missing column '' @ c)
                      (filter (\<lambda>c. physical c = None) cols))))"

definition governance_drift :: "(string \<rightharpoonup> (string \<rightharpoonup> string)) \<Rightarrow> GovernanceSpec option \<Rightarrow> string list" where
  "governance_drift tableCols gov =
     (case gov of
        None \<Rightarrow> []
      | Some g \<Rightarrow> concat (map (\<lambda>role. concat (map (row_filter_drift tableCols (rp_Name role)) (rp_RowFilters role))) (g_Roles g)))"

definition bind_schema :: "Reconciler \<Rightarrow> CompiledModel \<Rightarrow> (string list \<times> DatasetBinding list \<times> CompiledModel) reply api" where
  "bind_schema rc cm = do {
     r \<leftarrow> bind_datasets rc (cm_DatasetOrder cm)
           \<lparr>bs_Datasets = cm_Datasets cm, bs_tableCols = Map.empty, bs_drift = [], bs_bindings = []\<rparr>;
     State_Monad.return (case r of
       Inl e \<Rightarrow> Inl e
     | Inr st \<Rightarrow> Inr
         (bs_drift st @ concat (map (relationship_drift (bs_tableCols st)) (cm_Relationships cm))
            @ governance_drift (bs_tableCols st) (cm_Governance cm),
          bs_bindings st, cm\<lparr>cm_Datasets := bs_Datasets st\<rparr>)) }"

section \<open>Publishing\<close>

definition maxArtifactBytes :: nat where
  "maxArtifactBytes = 900 * 1024"

definition LabelModel :: string where "LabelModel = ''semantic.ossie.io/model''"
definition LabelVersion :: string where "LabelVersion = ''semantic.ossie.io/version''"
definition ManagedByValue :: string where "ManagedByValue = ''semantic-operator''"
definition AnnotationOwnedViews :: string where "AnnotationOwnedViews = ''semantic.ossie.io/owned-views''"

definition artifact_name :: "SemanticModel \<Rightarrow> string" where
  "artifact_name sm = ''sm-'' @ sm_Name sm @ ''-compiled''"

definition decorate :: "Artifact \<Rightarrow> SemanticModel \<Rightarrow> string \<Rightarrow> string \<Rightarrow> Artifact" where
  "decorate art sm version blob =
     art\<lparr>art_Labels := (art_Labels art)
           (''app.kubernetes.io/managed-by'' \<mapsto> ManagedByValue,
            LabelModel \<mapsto> om_Name (s_Ossie (sm_Spec sm)), LabelVersion \<mapsto> version),
         cfm_Data := [CompiledModelKey \<mapsto> blob]\<rparr>"

definition stale_owner :: "OwnerReference \<Rightarrow> bool" where
  "stale_owner ref \<longleftrightarrow> or_Kind ref = ''SemanticModel''
     \<and> (or_APIVersion ref = ''semantic.ossie.io/v1alpha1'' \<or> or_APIVersion ref = ''semantic.osi.io/v1alpha1'')"

definition new_artifact :: "SemanticModel \<Rightarrow> Artifact" where
  "new_artifact sm = \<lparr>cfm_Name = artifact_name sm, cfm_Data = Map.empty, art_Namespace = sm_Namespace sm,
     art_Labels = Map.empty, art_OwnerReferences = []\<rparr>"

definition create_artifact :: "Reconciler \<Rightarrow> SemanticModel \<Rightarrow> string \<Rightarrow> string \<Rightarrow> string reply api" where
  "create_artifact rc sm version blob =
     (let art = decorate (new_artifact sm) sm version blob
      in case rt_SetControllerReference (rc_Runtime rc) sm (art_OwnerReferences art) of
           Inl e \<Rightarrow> State_Monad.return (Inl (OwnerRefused e))
         | Inr refs \<Rightarrow> do {
             r \<leftarrow> write_artifact rc CreateArtifact (art\<lparr>art_OwnerReferences := refs\<rparr>);
             State_Monad.return (ebind r (\<lambda>_. Inr (artifact_name sm))) })"

text \<open>Two lists of references are compared as values, as \<^verbatim>\<open>equality.Semantic.DeepEqual\<close> does.\<close>

definition refresh_artifact :: "Reconciler \<Rightarrow> SemanticModel \<Rightarrow> string \<Rightarrow> string \<Rightarrow> Artifact \<Rightarrow> string reply api" where
  "refresh_artifact rc sm version blob art =
     (case rt_SetControllerReference (rc_Runtime rc) sm (filter (\<lambda>r. \<not> stale_owner r) (art_OwnerReferences art)) of
        Inl e \<Rightarrow> State_Monad.return (Inl (OwnerRefused e))
      | Inr refs \<Rightarrow>
          if refs = art_OwnerReferences art \<and> art_Labels art LabelVersion = Some version
             \<and> cfm_Data art CompiledModelKey = Some blob
          then State_Monad.return (Inr (artifact_name sm))
          else do {
            r \<leftarrow> write_artifact rc UpdateArtifact (decorate (art\<lparr>art_OwnerReferences := refs\<rparr>) sm version blob);
            State_Monad.return (ebind r (\<lambda>_. Inr (artifact_name sm))) })"

definition publish_artifact :: "Reconciler \<Rightarrow> SemanticModel \<Rightarrow> CompiledModel \<Rightarrow> string reply api" where
  "publish_artifact rc sm compiled =
     (case rt_model_json (rc_Runtime rc) compiled of
        Inl e \<Rightarrow> State_Monad.return (Inl (MarshalFailed e))
      | Inr blob \<Rightarrow>
          if maxArtifactBytes < length blob then State_Monad.return (Inl (ErrArtifactTooLarge (length blob)))
          else do {
            r \<leftarrow> get_artifact rc (sm_Namespace sm) (artifact_name sm);
            case r of
              Inr art \<Rightarrow> refresh_artifact rc sm (cm_Version compiled) blob art
            | Inl e \<Rightarrow> if e = NotFound then create_artifact rc sm (cm_Version compiled) blob
                       else State_Monad.return (Inl e) })"

section \<open>Views\<close>

text \<open>\<^verbatim>\<open>json.Unmarshal\<close> into a nil \<^verbatim>\<open>[]string\<close> with its error ignored: an element of another type is left
  empty, a text that is not JSON or not an array leaves the slice nil.\<close>

definition decode_names :: "string \<Rightarrow> string list" where
  "decode_names raw =
     (case json_parse raw of
        Some (JArr vs) \<Rightarrow> map (\<lambda>v. case v of JStr s \<Rightarrow> s | _ \<Rightarrow> []) vs
      | _ \<Rightarrow> [])"

definition owned_views :: "SemanticModel \<Rightarrow> string list" where
  "owned_views sm = (case sm_Annotations sm AnnotationOwnedViews of
     None \<Rightarrow> [] | Some raw \<Rightarrow> if raw = [] then [] else decode_names raw)"

text \<open>A nil slice is marshalled as \<^verbatim>\<open>null\<close>.\<close>

definition names_json :: "string list \<Rightarrow> string" where
  "names_json ns = (if ns = [] then ''null'' else json_list (map json_string ns))"

definition views_database :: "Reconciler \<Rightarrow> SemanticModel \<Rightarrow> string" where
  "views_database rc sm =
     (let db = conn_ViewDatabase (s_Connection (sm_Spec sm)) in if db = [] then rc_ViewDatabase rc else db)"

definition default_role :: "SemanticModel \<Rightarrow> string" where
  "default_role sm = (case s_Governance (sm_Spec sm) of None \<Rightarrow> [] | Some g \<Rightarrow> g_DefaultRole g)"

definition record_views :: "Reconciler \<Rightarrow> SemanticModel \<Rightarrow> string list \<Rightarrow> (SemanticModel \<times> recon_error option) api" where
  "record_views rc sm created =
     (let blob = names_json created;
          sm' = sm\<lparr>sm_Annotations := (sm_Annotations sm)(AnnotationOwnedViews \<mapsto> blob)\<rparr>
      in if sm_Annotations sm AnnotationOwnedViews = Some blob then State_Monad.return (sm, None)
         else do {
           r \<leftarrow> update_model rc sm';
           State_Monad.return (case r of Inl e \<Rightarrow> (sm', Some e) | Inr stored \<Rightarrow> (stored, None)) })"

definition drop_stale :: "Reconciler \<Rightarrow> SemanticModel \<Rightarrow> string list \<Rightarrow> view_error option api" where
  "drop_stale rc sm created =
     (let stale = filter (\<lambda>v. v \<notin> set created) (owned_views sm)
      in if stale = [] then State_Monad.return None
         else Drop (exec rc) (rc_Dialect rc) (views_database rc sm) stale)"

definition reconcileViews :: "Reconciler \<Rightarrow> SemanticModel \<Rightarrow> CompiledModel \<Rightarrow> (SemanticModel \<times> recon_error option) api" where
  "reconcileViews rc sm compiled = do {
     (created, err) \<leftarrow> Publish (exec rc) (rt_globs (rc_Runtime rc)) compiled (rc_Dialect rc)
        (s_Views (sm_Spec sm)) (views_database rc sm) (default_role sm);
     case err of
       Some e \<Rightarrow> State_Monad.return (sm, Some (ViewsFailed e))
     | None \<Rightarrow> do {
         dropped \<leftarrow> drop_stale rc sm created;
         case dropped of
           Some e \<Rightarrow> State_Monad.return (sm, Some (ViewsFailed e))
         | None \<Rightarrow> record_views rc sm created } }"

section \<open>Reconciling\<close>

text \<open>What the work queue gets back: an error, or after how many nanoseconds to come again (0: not).\<close>

type_synonym verdict = "recon_error option \<times> int"

definition finalizer :: string where "finalizer = ''semantic.ossie.io/views-cleanup''"

definition finalize :: "Reconciler \<Rightarrow> SemanticModel \<Rightarrow> verdict api" where
  "finalize rc sm =
     (if \<not> rt_ContainsFinalizer (rc_Runtime rc) (sm_Finalizers sm) finalizer then State_Monad.return (None, 0)
      else do {
        _ \<leftarrow> (if owned_views sm = [] then State_Monad.return None
              else Drop (exec rc) (rc_Dialect rc) (views_database rc sm) (owned_views sm));
        r \<leftarrow> update_model rc (sm\<lparr>sm_Finalizers := rt_RemoveFinalizer (rc_Runtime rc) (sm_Finalizers sm) finalizer\<rparr>);
        State_Monad.return (case r of Inl e \<Rightarrow> (Some e, 0) | Inr _ \<Rightarrow> (None, 0)) })"

text \<open>Steps 4 and 5, once nothing drifted.\<close>

definition views_stage :: "Reconciler \<Rightarrow> SemanticModel \<Rightarrow> CompiledModel \<Rightarrow> verdict api" where
  "views_stage rc sm compiled = do {
     (sm', err) \<leftarrow> reconcileViews rc sm compiled;
     case err of
       Some e \<Rightarrow> do {
         _ \<leftarrow> update_status rc (setCondition rc sm' ''ViewsReady'' False ''ViewsFailed'' (ErrorText e));
         State_Monad.return (Some e, 0) }
     | None \<Rightarrow> do {
         e \<leftarrow> statusUpdate rc (setCondition rc sm' ''ViewsReady'' True ''OK''
               (Message (nat_str (length (s_Views (sm_Spec sm'))) @ '' views published'')));
         State_Monad.return (case e of Some err \<Rightarrow> (Some err, 0) | None \<Rightarrow> (None, resync rc)) } }"

fun too_large :: "recon_error \<Rightarrow> bool" where
  "too_large (ErrArtifactTooLarge n) = True"
| "too_large _ = False"

definition publish_stage :: "Reconciler \<Rightarrow> SemanticModel \<Rightarrow> CompiledModel \<Rightarrow> verdict api" where
  "publish_stage rc sm compiled = do {
     r \<leftarrow> publish_artifact rc sm compiled;
     case r of
       Inl e \<Rightarrow>
         if too_large e then do {
           s \<leftarrow> statusUpdate rc (setCondition rc sm ''Published'' False ''ArtifactTooLarge'' (ErrorText e));
           State_Monad.return (s, 0) }
         else do {
           _ \<leftarrow> update_status rc (setCondition rc sm ''Published'' False ''PublishFailed'' (ErrorText e));
           State_Monad.return (Some e, 0) }
     | Inr cmName \<Rightarrow>
         views_stage rc (setCondition rc (sm\<lparr>sm_Status := (sm_Status sm)\<lparr>ss_PublishedConfigMap := cmName\<rparr>\<rparr>)
           ''Published'' True ''OK'' (Message (''published '' @ cmName))) compiled }"

definition bind_stage :: "Reconciler \<Rightarrow> SemanticModel \<Rightarrow> CompiledModel \<Rightarrow> verdict api" where
  "bind_stage rc sm compiled = do {
     r \<leftarrow> bind_schema rc compiled;
     case r of
       Inl e \<Rightarrow> State_Monad.return (Some e, 0)
     | Inr (drift, bindings, bound) \<Rightarrow>
         (let sm1 = sm\<lparr>sm_Status := (sm_Status sm)\<lparr>ss_Bindings := bindings\<rparr>\<rparr>
          in if drift \<noteq> [] then do {
               e \<leftarrow> statusUpdate rc (setCondition rc sm1 ''DriftDetected'' True ''SchemaDrift'' (Message (truncate_text (join ''; '' drift))));
               State_Monad.return (case e of Some err \<Rightarrow> (Some err, 0) | None \<Rightarrow> (None, resync rc)) }
             else publish_stage rc
               (setCondition rc (setCondition rc sm1 ''DriftDetected'' False ''NoDrift'' (Message ''physical schema matches bindings''))
                 ''Compiled'' True ''OK'' (Message (''compiled model version '' @ ss_ModelVersion (sm_Status sm1)))) bound) }"

text \<open>Steps 1 and 2.\<close>

definition check_stage :: "Reconciler \<Rightarrow> SemanticModel \<Rightarrow> verdict api" where
  "check_stage rc sm0 =
     (let rt = rc_Runtime rc;
          sm = sm0\<lparr>sm_Status := (sm_Status sm0)\<lparr>ss_ModelVersion := SpecVersion (rt_spec_json rt) (sm_Spec sm0),
                                               ss_ObservedGeneration := sm_Generation sm0\<rparr>\<rparr>
      in case ValidateSpec (rt_edge_order rt (sm_Spec sm)) (sm_Spec sm) of
           None \<Rightarrow> State_Monad.return (Some OutOfFuel, 0)
         | Some errs \<Rightarrow>
             if errs \<noteq> [] then do {
               e \<leftarrow> statusUpdate rc (setCondition rc sm ''Validated'' False ''ValidationFailed'' (ErrorText (Invalid errs)));
               State_Monad.return (e, 0) }
             else
               (let sm1 = setCondition rc sm ''Validated'' True ''OK'' (Message ''Ossie document and planner subset checks passed'')
                in case Compile (rt_spec_json rt) (sm_Spec sm1) (sm_Namespace sm1) (sm_Name sm1) of
                     Inl err \<Rightarrow> do {
                       e \<leftarrow> statusUpdate rc (setCondition rc sm1 ''Compiled'' False ''CompileFailed'' (ErrorText (NotCompiled err)));
                       State_Monad.return (e, 0) }
                   | Inr compiled \<Rightarrow> bind_stage rc sm1 compiled))"

definition Reconcile :: "Reconciler \<Rightarrow> string \<Rightarrow> string \<Rightarrow> verdict api" where
  "Reconcile rc ns name = do {
     r \<leftarrow> get_model rc ns name;
     case r of
       Inl e \<Rightarrow> State_Monad.return (if e = NotFound then None else Some e, 0)
     | Inr sm \<Rightarrow>
         if sm_DeletionTimestamp sm \<noteq> None then finalize rc sm
         else if rt_ContainsFinalizer (rc_Runtime rc) (sm_Finalizers sm) finalizer then check_stage rc sm
         else do {
           u \<leftarrow> update_model rc (sm\<lparr>sm_Finalizers := rt_AddFinalizer (rc_Runtime rc) (sm_Finalizers sm) finalizer\<rparr>);
           case u of
             Inl e \<Rightarrow> State_Monad.return (if e = Conflict then None else Some e, 0)
           | Inr stored \<Rightarrow> check_stage rc stored } }"

end
