(* ===== verification/ControllerProofs.thy ===== *)
theory ControllerProofs
  imports Controller
begin

text \<open>
  What the reconciler guarantees: the comparison with the physical schema is exact, nothing is
  published and no view is made that was not validated, compiled and found free of drift, and
  publishing again what is published writes nothing. The last section shows two ways in which its
  bookkeeping loses information.
\<close>

section \<open>Binding\<close>

definition untyped :: "CompiledDataset \<Rightarrow> CompiledDataset" where
  "untyped ds = ds\<lparr>cd_Fields := \<lambda>k. map_option (\<lambda>f. f\<lparr>cf_Type := []\<rparr>) (cd_Fields ds k)\<rparr>"

definition same_shape :: "(string \<rightharpoonup> CompiledDataset) \<Rightarrow> (string \<rightharpoonup> CompiledDataset) \<Rightarrow> bool" where
  "same_shape m m' \<longleftrightarrow> (\<forall>n. map_option untyped (m n) = map_option untyped (m' n))"

type_synonym describer = "string \<Rightarrow> string \<Rightarrow> string \<Rightarrow> (string, Column list) result"

text \<open>The columns the engine reports for a dataset of a model.\<close>

definition table_of :: "describer \<Rightarrow> CompiledModel \<Rightarrow> string \<rightharpoonup> (string \<rightharpoonup> string)" where
  "table_of describe cm n =
     (case cm_Datasets cm n of
        None \<Rightarrow> None
      | Some ds \<Rightarrow> (case describe (cd_Catalog ds) (cd_Database ds) (cd_Table ds) of
          Inl _ \<Rightarrow> None | Inr cols \<Rightarrow> Some (col_types cols)))"

definition fields_fit :: "(string \<rightharpoonup> string) \<Rightarrow> CompiledDataset \<Rightarrow> bool" where
  "fields_fit cols ds \<longleftrightarrow> (\<forall>n\<in>set (cd_FieldOrder ds). \<forall>f. cd_Fields ds n = Some f \<longrightarrow>
      isBareIdent (cf_Expr f) \<longrightarrow> cols (cf_Expr f) \<noteq> None)"

definition dataset_fits :: "describer \<Rightarrow> CompiledModel \<Rightarrow> string \<Rightarrow> bool" where
  "dataset_fits describe cm n \<longleftrightarrow>
     (\<exists>ds cols. cm_Datasets cm n = Some ds \<and> table_of describe cm n = Some cols \<and> fields_fit cols ds)"

lemma untyped_sel [simp]:
  "cd_Catalog (untyped ds) = cd_Catalog ds" "cd_Database (untyped ds) = cd_Database ds" "cd_Table (untyped ds) = cd_Table ds"
  "cd_FieldOrder (untyped ds) = cd_FieldOrder ds" "cd_Name (untyped ds) = cd_Name ds"
  "cd_Fields (untyped ds) k = map_option (\<lambda>f. f\<lparr>cf_Type := []\<rparr>) (cd_Fields ds k)"
  by (simp_all add: untyped_def)

lemma untyped_eq:
  assumes "untyped ds = untyped ds'"
  shows "cd_Catalog ds = cd_Catalog ds'" "cd_Database ds = cd_Database ds'" "cd_Table ds = cd_Table ds'"
    "cd_FieldOrder ds = cd_FieldOrder ds'" "cd_Name ds = cd_Name ds'" "dom (cd_Fields ds) = dom (cd_Fields ds')"
    "\<And>k f. cd_Fields ds k = Some f \<Longrightarrow> \<exists>f'. cd_Fields ds' k = Some f' \<and> cf_Expr f' = cf_Expr f \<and> cf_Name f' = cf_Name f"
proof -
  have f: "map_option (\<lambda>f. f\<lparr>cf_Type := []\<rparr>) (cd_Fields ds k) = map_option (\<lambda>f. f\<lparr>cf_Type := []\<rparr>) (cd_Fields ds' k)" for k
    using arg_cong[OF assms, of "\<lambda>d. cd_Fields d k"] by simp
  show "cd_Catalog ds = cd_Catalog ds'" "cd_Database ds = cd_Database ds'" "cd_Table ds = cd_Table ds'"
    "cd_FieldOrder ds = cd_FieldOrder ds'" "cd_Name ds = cd_Name ds'"
    using arg_cong[OF assms, of cd_Catalog] arg_cong[OF assms, of cd_Database] arg_cong[OF assms, of cd_Table]
      arg_cong[OF assms, of cd_FieldOrder] arg_cong[OF assms, of cd_Name] by simp_all
  have "cd_Fields ds k = None \<longleftrightarrow> cd_Fields ds' k = None" for k
    using arg_cong[OF f[of k], of "\<lambda>x. x = None"] by simp
  then show "dom (cd_Fields ds) = dom (cd_Fields ds')" by (auto simp: dom_def)
  fix k f1 assume 1: "cd_Fields ds k = Some f1"
  then obtain f2 where 2: "cd_Fields ds' k = Some f2" "f1\<lparr>cf_Type := []\<rparr> = f2\<lparr>cf_Type := []\<rparr>" using f[of k] by (cases "cd_Fields ds' k") auto
  have "cf_Expr f1 = cf_Expr f2" "cf_Name f1 = cf_Name f2"
    using arg_cong[OF 2(2), of cf_Expr] arg_cong[OF 2(2), of cf_Name] by simp_all
  with 2 show "\<exists>f'. cd_Fields ds' k = Some f' \<and> cf_Expr f' = cf_Expr f1 \<and> cf_Name f' = cf_Name f1" by simp
qed

lemma bind_fields_shape:
  "bind_fields cols ns fs = Some (ms, fs') \<Longrightarrow>
     map_option (\<lambda>f. f\<lparr>cf_Type := []\<rparr>) (fs' k) = map_option (\<lambda>f. f\<lparr>cf_Type := []\<rparr>) (fs k)"
  by (induction cols ns fs arbitrary: ms fs' rule: bind_fields.induct)
    (auto split: option.splits if_splits)

lemma bind_fields_missing:
  "bind_fields cols ns fs = Some (ms, fs') \<Longrightarrow>
     ms = [] \<longleftrightarrow> (\<forall>n\<in>set ns. \<forall>f. fs n = Some f \<longrightarrow> isBareIdent (cf_Expr f) \<longrightarrow> cols (cf_Expr f) \<noteq> None)"
proof (induction cols ns fs arbitrary: ms fs' rule: bind_fields.induct)
  case (2 cols n ns fs)
  then obtain f where f: "fs n = Some f" by (auto split: option.splits)
  show ?case
  proof (cases "isBareIdent (cf_Expr f) \<and> cols (cf_Expr f) \<noteq> None")
    case True
    then obtain t where t: "isBareIdent (cf_Expr f)" "cols (cf_Expr f) = Some t" by auto
    with 2 f have "bind_fields cols ns (fs(n \<mapsto> f\<lparr>cf_Type := t\<rparr>)) = Some (ms, fs')" by simp
    from 2(2)[OF f t this] t f show ?thesis by auto
  next
    case False
    with 2 f show ?thesis by (cases "isBareIdent (cf_Expr f)") auto
  qed
qed simp

lemma bind_fields_total:
  "set ns \<subseteq> dom fs \<Longrightarrow> \<exists>ms fs'. bind_fields cols ns fs = Some (ms, fs')"
proof (induction cols ns fs rule: bind_fields.induct)
  case (2 cols n ns fs)
  then obtain f where f: "fs n = Some f" "set ns \<subseteq> dom fs" by auto
  show ?case
  proof (cases "isBareIdent (cf_Expr f)")
    case True
    show ?thesis
    proof (cases "cols (cf_Expr f)")
      case None
      with 2(1)[OF f(1) True] f True obtain ms fs' where "bind_fields cols ns fs = Some (ms, fs')" by blast
      with f True None show ?thesis by simp
    next
      case (Some t)
      have "set ns \<subseteq> dom (fs(n \<mapsto> f\<lparr>cf_Type := t\<rparr>))" using f by auto
      from 2(2)[OF f(1) True Some this] f True Some show ?thesis by (simp del: fun_upd_apply)
    qed
  qed (use 2(3)[OF f(1)] f in simp)
qed simp

lemma same_shape_Some:
  assumes "same_shape ds (cm_Datasets cm)" "ds n = Some d"
  obtains d' where "cm_Datasets cm n = Some d'" "untyped d = untyped d'"
proof -
  have "map_option untyped (cm_Datasets cm n) = Some (untyped d)"
    using assms(1)[unfolded same_shape_def, rule_format, of n] assms(2) by simp
  then obtain d' where "cm_Datasets cm n = Some d'" "untyped d' = untyped d" unfolding map_option_eq_Some by blast
  with that show thesis by metis
qed

lemma same_shape_table:
  assumes "same_shape ds (cm_Datasets cm)" "ds n = Some d"
  shows "table_of describe cm n
     = (case describe (cd_Catalog d) (cd_Database d) (cd_Table d) of Inl _ \<Rightarrow> None | Inr cols \<Rightarrow> Some (col_types cols))"
proof -
  obtain d' where d: "cm_Datasets cm n = Some d'" "untyped d = untyped d'" by (rule same_shape_Some[OF assms])
  show ?thesis unfolding table_of_def d(1) option.case untyped_eq(1-3)[OF d(2)] by (rule refl)
qed

lemma fields_fit_mono:
  assumes "untyped d = untyped d'" "fields_fit cols d"
  shows "fields_fit cols d'"
  unfolding fields_fit_def
proof (intro ballI allI impI)
  fix n f assume n: "n \<in> set (cd_FieldOrder d')" "cd_Fields d' n = Some f" "isBareIdent (cf_Expr f)"
  from untyped_eq(7)[OF assms(1)[symmetric] n(2)] obtain f' where "cd_Fields d n = Some f'" "cf_Expr f' = cf_Expr f" by blast
  with n assms(2) show "cols (cf_Expr f) \<noteq> None" unfolding fields_fit_def untyped_eq(4)[OF assms(1)] by metis
qed

lemma fields_fit_untyped: "untyped d = untyped d' \<Longrightarrow> fields_fit cols d = fields_fit cols d'"
  using fields_fit_mono[of d d'] fields_fit_mono[of d' d] by fastforce

lemma bind_columns_facts:
  assumes "bind_columns name d cols st = Some st'" "bs_Datasets st name = Some d"
  shows "same_shape (bs_Datasets st') (bs_Datasets st)"
    "bs_tableCols st' = (bs_tableCols st)(name \<mapsto> col_types cols)"
    "bs_drift st' = [] \<longleftrightarrow> bs_drift st = [] \<and> fields_fit (col_types cols) d"
    "map bd_Dataset (bs_bindings st') = map bd_Dataset (bs_bindings st) @ [name]"
proof -
  obtain ms fs where b: "bind_fields (col_types cols) (cd_FieldOrder d) (cd_Fields d) = Some (ms, fs)"
    using assms(1) by (auto simp: bind_columns_def split: option.splits)
  have st': "st' = bind_result name d (if ms = [] then [] else ''missing columns: '' @ join '', '' ms)
      (st\<lparr>bs_Datasets := (bs_Datasets st)(name \<mapsto> d\<lparr>cd_Fields := fs\<rparr>),
          bs_tableCols := (bs_tableCols st)(name \<mapsto> col_types cols)\<rparr>)"
    using assms(1) by (simp add: bind_columns_def b)
  have "untyped (d\<lparr>cd_Fields := fs\<rparr>) = untyped d"
    unfolding untyped_def using bind_fields_shape[OF b] by simp
  then show "same_shape (bs_Datasets st') (bs_Datasets st)"
    using assms(2) by (simp add: st' bind_result_def same_shape_def)
  show "bs_tableCols st' = (bs_tableCols st)(name \<mapsto> col_types cols)" by (simp add: st' bind_result_def)
  show "bs_drift st' = [] \<longleftrightarrow> bs_drift st = [] \<and> fields_fit (col_types cols) d"
    using bind_fields_missing[OF b] by (auto simp: st' bind_result_def fields_fit_def)
  show "map bd_Dataset (bs_bindings st') = map bd_Dataset (bs_bindings st) @ [name]" by (simp add: st' bind_result_def)
qed

lemma same_shape_trans: "same_shape a b \<Longrightarrow> same_shape b c \<Longrightarrow> same_shape a c"
  by (simp add: same_shape_def)

lemma run_describe_table:
  "(\<And>w. out_describe (rc_Outside rc) w = describe) \<Longrightarrow> run_state (describe_table rc ds) w
     = (describe (cd_Catalog ds) (cd_Database ds) (cd_Table ds), w @ [DescribeTable (cd_Catalog ds) (cd_Database ds) (cd_Table ds)])"
  by (simp add: describe_table_def)

lemma bind_datasets_facts:
  assumes "\<And>w. out_describe (rc_Outside rc) w = describe"
    "run_state (bind_datasets rc names st) w = (Inr st', w')" "same_shape (bs_Datasets st) (cm_Datasets cm)"
  shows "same_shape (bs_Datasets st') (cm_Datasets cm)
    \<and> (\<forall>n. bs_tableCols st' n = (if n \<in> set names \<and> table_of describe cm n \<noteq> None then table_of describe cm n else bs_tableCols st n))
    \<and> (bs_drift st' = [] \<longleftrightarrow> bs_drift st = [] \<and> (\<forall>n\<in>set names. dataset_fits describe cm n))
    \<and> map bd_Dataset (bs_bindings st') = map bd_Dataset (bs_bindings st) @ names"
  using assms(2,3)
proof (induction names arbitrary: st w)
  case (Cons n names)
  from Cons.prems(1) obtain d where d: "bs_Datasets st n = Some d" by (auto split: option.splits)
  note t = same_shape_table[OF Cons.prems(2) d, of describe]
  let ?w = "w @ [DescribeTable (cd_Catalog d) (cd_Database d) (cd_Table d)]"
  show ?case
  proof (cases "describe (cd_Catalog d) (cd_Database d) (cd_Table d)")
    case (Inl err)
    let ?st = "bind_result n d (''table not resolvable: '' @ err) st"
    have "run_state (bind_datasets rc names ?st) (?w @ [Ping]) = (Inr st', w')"
      using Cons.prems(1) by (simp add: d run_describe_table[OF assms(1)] Inl ping_def split: option.splits)
    from Cons.IH[OF this] Cons.prems(2) have ih: "same_shape (bs_Datasets st') (cm_Datasets cm)"
      "\<forall>k. bs_tableCols st' k = (if k \<in> set names \<and> table_of describe cm k \<noteq> None then table_of describe cm k else bs_tableCols ?st k)"
      "bs_drift st' = [] \<longleftrightarrow> bs_drift ?st = [] \<and> (\<forall>n\<in>set names. dataset_fits describe cm n)"
      "map bd_Dataset (bs_bindings st') = map bd_Dataset (bs_bindings ?st) @ names"
      by (simp_all add: bind_result_def)
    have "table_of describe cm n = None" using t Inl by simp
    then have "\<not> dataset_fits describe cm n" by (simp add: dataset_fits_def)
    with ih \<open>table_of describe cm n = None\<close> show ?thesis by (auto simp: bind_result_def)
  next
    case (Inr cols)
    then obtain st1 where st1: "bind_columns n d cols st = Some st1" "run_state (bind_datasets rc names st1) ?w = (Inr st', w')"
      using Cons.prems(1) by (auto simp: d run_describe_table[OF assms(1)] split: option.splits)
    note f = bind_columns_facts[OF st1(1) d]
    from Cons.IH[OF st1(2) same_shape_trans[OF f(1) Cons.prems(2)]]
    have ih: "same_shape (bs_Datasets st') (cm_Datasets cm)"
      "\<forall>k. bs_tableCols st' k = (if k \<in> set names \<and> table_of describe cm k \<noteq> None then table_of describe cm k else bs_tableCols st1 k)"
      "bs_drift st' = [] \<longleftrightarrow> bs_drift st1 = [] \<and> (\<forall>n\<in>set names. dataset_fits describe cm n)"
      "map bd_Dataset (bs_bindings st') = map bd_Dataset (bs_bindings st1) @ names"
      by simp_all
    have tab: "table_of describe cm n = Some (col_types cols)" using t Inr by simp
    obtain d' where "cm_Datasets cm n = Some d'" "untyped d = untyped d'" by (rule same_shape_Some[OF Cons.prems(2) d])
    with tab have "dataset_fits describe cm n \<longleftrightarrow> fields_fit (col_types cols) d"
      unfolding dataset_fits_def using fields_fit_untyped[of d d'] by simp
    with ih f(2,3,4) tab show ?thesis by auto
  qed
qed simp

lemma bind_datasets_total:
  assumes "\<And>w. out_describe (rc_Outside rc) w = describe" "\<And>w. out_ping (rc_Outside rc) w = None" "wf_model cm"
    "set names \<subseteq> dom (cm_Datasets cm)" "same_shape (bs_Datasets st) (cm_Datasets cm)"
  shows "\<exists>st' w'. run_state (bind_datasets rc names st) w = (Inr st', w')"
  using assms(4,5)
proof (induction names arbitrary: st w)
  case (Cons n names)
  then obtain d where d: "bs_Datasets st n = Some d" unfolding same_shape_def
    by (metis domIff insert_subset list.simps(15) map_option_is_None not_Some_eq)
  obtain d' where d': "cm_Datasets cm n = Some d'" "untyped d = untyped d'" by (rule same_shape_Some[OF Cons.prems(2) d])
  have names: "set names \<subseteq> dom (cm_Datasets cm)" using Cons.prems(1) by simp
  show ?case
  proof (cases "describe (cd_Catalog d) (cd_Database d) (cd_Table d)")
    case (Inl err)
    have "same_shape (bs_Datasets (bind_result n d (''table not resolvable: '' @ err) st)) (cm_Datasets cm)"
      using Cons.prems(2) by (simp add: bind_result_def)
    from Cons.IH[OF names this] show ?thesis by (simp add: d run_describe_table[OF assms(1)] Inl ping_def assms(2))
  next
    case (Inr cols)
    have "dom (cd_Fields d') = set (cd_FieldOrder d')" using assms(3) d'(1) by (simp add: wf_model_def)
    then have "set (cd_FieldOrder d) \<subseteq> dom (cd_Fields d)" using untyped_eq(4,6)[OF d'(2)] by simp
    from bind_fields_total[OF this] obtain ms fs where "bind_fields (col_types cols) (cd_FieldOrder d) (cd_Fields d) = Some (ms, fs)"
      by blast
    then obtain st1 where st1: "bind_columns n d cols st = Some st1" by (simp add: bind_columns_def)
    from Cons.IH[OF names same_shape_trans[OF bind_columns_facts(1)[OF st1 d] Cons.prems(2)]] st1 show ?thesis
      by (simp add: d run_describe_table[OF assms(1)] Inr)
  qed
qed simp

definition filter_columns :: "RowFilter \<Rightarrow> string list" where
  "filter_columns rf =
     (case (ValidatablePredicate (rf_Predicate rf) :: (unit gov_error, string) result) of
        Inl _ \<Rightarrow> [] | Inr p \<Rightarrow> (case ParsePredicate p of Inl _ \<Rightarrow> [] | Inr cols \<Rightarrow> cols))"

text \<open>The physical schema has all that a model refers to: its tables, the columns behind its fields, those its
  relationships join on and those its row filters read.\<close>

definition schema_fits :: "describer \<Rightarrow> CompiledModel \<Rightarrow> bool" where
  "schema_fits describe cm \<longleftrightarrow>
     (\<forall>n\<in>set (cm_DatasetOrder cm). dataset_fits describe cm n)
     \<and> (\<forall>r\<in>set (cm_Relationships cm). \<forall>(n, cs)\<in>{(cr_From r, cr_FromColumns r), (cr_To r, cr_ToColumns r)}.
          \<forall>cols. table_of describe cm n = Some cols \<longrightarrow> set cs \<subseteq> dom cols)
     \<and> (\<forall>g. cm_Governance cm = Some g \<longrightarrow> (\<forall>role\<in>set (g_Roles g). \<forall>rf\<in>set (rp_RowFilters role).
          \<forall>cols. table_of describe cm (rf_Dataset rf) = Some cols \<longrightarrow> set (filter_columns rf) \<subseteq> dom cols))"

lemma missing_columns_Nil:
  "missing_columns tab rel n cs = [] \<longleftrightarrow> (\<forall>cols. tab n = Some cols \<longrightarrow> set cs \<subseteq> dom cols)"
  by (auto simp: missing_columns_def filter_empty_conv split: option.split)

lemma row_filter_drift_Nil:
  "row_filter_drift tab role rf = [] \<longleftrightarrow> (\<forall>cols. tab (rf_Dataset rf) = Some cols \<longrightarrow> set (filter_columns rf) \<subseteq> dom cols)"
  by (auto simp: row_filter_drift_def filter_columns_def filter_empty_conv split: option.split sum.split)

lemma bind_schema_facts:
  assumes "wf_model cm" "\<And>w. out_describe (rc_Outside rc) w = describe"
    "run_state (bind_schema rc cm) w = (Inr (drift, bindings, bound), w')"
  shows "drift = [] \<longleftrightarrow> schema_fits describe cm" "map bd_Dataset bindings = cm_DatasetOrder cm"
proof -
  let ?st0 = "\<lparr>bs_Datasets = cm_Datasets cm, bs_tableCols = Map.empty, bs_drift = [], bs_bindings = []\<rparr>"
  from assms(3) obtain st where st: "run_state (bind_datasets rc (cm_DatasetOrder cm) ?st0) w = (Inr st, w')"
    and drift: "drift = bs_drift st @ concat (map (relationship_drift (bs_tableCols st)) (cm_Relationships cm))
            @ governance_drift (bs_tableCols st) (cm_Governance cm)"
    and b: "bindings = bs_bindings st"
    by (auto simp: bind_schema_def split: prod.splits sum.splits)
  have "same_shape (bs_Datasets ?st0) (cm_Datasets cm)" by (simp add: same_shape_def)
  note f = bind_datasets_facts[OF assms(2) st this]
  have tab: "bs_tableCols st = table_of describe cm"
  proof
    fix n
    have "table_of describe cm n \<noteq> None \<Longrightarrow> n \<in> set (cm_DatasetOrder cm)"
      using assms(1) by (auto simp: wf_model_def table_of_def split: option.splits)
    moreover have "bs_tableCols st n
        = (if n \<in> set (cm_DatasetOrder cm) \<and> table_of describe cm n \<noteq> None then table_of describe cm n else None)"
      using f by simp
    ultimately show "bs_tableCols st n = table_of describe cm n" by (cases "table_of describe cm n") auto
  qed
  have rel: "concat (map (relationship_drift (table_of describe cm)) (cm_Relationships cm)) = [] \<longleftrightarrow>
     (\<forall>r\<in>set (cm_Relationships cm). \<forall>(n, cs)\<in>{(cr_From r, cr_FromColumns r), (cr_To r, cr_ToColumns r)}.
          \<forall>cols. table_of describe cm n = Some cols \<longrightarrow> set cs \<subseteq> dom cols)"
    by (simp add: relationship_drift_def missing_columns_Nil)
  have gov: "governance_drift (table_of describe cm) (cm_Governance cm) = [] \<longleftrightarrow>
     (\<forall>g. cm_Governance cm = Some g \<longrightarrow> (\<forall>role\<in>set (g_Roles g). \<forall>rf\<in>set (rp_RowFilters role).
          \<forall>cols. table_of describe cm (rf_Dataset rf) = Some cols \<longrightarrow> set (filter_columns rf) \<subseteq> dom cols))"
    by (cases "cm_Governance cm") (simp_all add: governance_drift_def row_filter_drift_Nil)
  show "drift = [] \<longleftrightarrow> schema_fits describe cm"
    unfolding drift tab append_is_Nil_conv rel gov schema_fits_def using f by auto
  show "map bd_Dataset bindings = cm_DatasetOrder cm" using f b by simp
qed

text \<open>Whatever the engine says, only the types of fields change.\<close>

lemma bind_datasets_shape:
  "run_state (bind_datasets rc names st) w = (Inr st', w') \<Longrightarrow> same_shape (bs_Datasets st') (bs_Datasets st)"
proof (induction names arbitrary: st w)
  case (Cons n names)
  from Cons.prems obtain d where d: "bs_Datasets st n = Some d" by (auto split: option.splits)
  obtain r w1 where r: "run_state (describe_table rc d) w = (r, w1)" by fastforce
  show ?case
  proof (cases r)
    case (Inl err)
    obtain p w2 where p: "run_state (ping rc) w1 = (p, w2)" by fastforce
    with Cons.prems have "run_state (bind_datasets rc names (bind_result n d (''table not resolvable: '' @ err) st)) w2 = (Inr st', w')"
      by (simp add: d r Inl split: option.splits)
    from Cons.IH[OF this] show ?thesis by (simp add: bind_result_def)
  next
    case (Inr cols)
    then obtain st1 where st1: "bind_columns n d cols st = Some st1" "run_state (bind_datasets rc names st1) w1 = (Inr st', w')"
      using Cons.prems by (auto simp: d r split: option.splits)
    show ?thesis by (rule same_shape_trans[OF Cons.IH[OF st1(2)] bind_columns_facts(1)[OF st1(1) d]])
  qed
qed (simp add: same_shape_def)

lemma bind_schema_shape:
  assumes "run_state (bind_schema rc cm) w = (Inr (drift, bindings, bound), w')"
  obtains ds where "bound = cm\<lparr>cm_Datasets := ds\<rparr>" "same_shape ds (cm_Datasets cm)"
proof -
  from assms obtain st where st: "run_state (bind_datasets rc (cm_DatasetOrder cm)
      \<lparr>bs_Datasets = cm_Datasets cm, bs_tableCols = Map.empty, bs_drift = [], bs_bindings = []\<rparr>) w = (Inr st, w')"
    "bound = cm\<lparr>cm_Datasets := bs_Datasets st\<rparr>"
    by (auto simp: bind_schema_def split: prod.splits sum.splits)
  with bind_datasets_shape[OF st(1)] that show thesis by simp
qed

lemma same_shape_wf:
  assumes "wf_model cm" "same_shape ds (cm_Datasets cm)"
  shows "wf_model (cm\<lparr>cm_Datasets := ds\<rparr>)"
proof -
  have dom: "dom ds = dom (cm_Datasets cm)"
    using assms(2) by (auto simp: same_shape_def dom_def) (metis map_option_is_None not_Some_eq)+
  have "cd_Name cd = n \<and> dom (cd_Fields cd) = set (cd_FieldOrder cd) \<and> (\<forall>k cf. cd_Fields cd k = Some cf \<longrightarrow> cf_Name cf = k)"
    if n: "ds n = Some cd" for n cd
  proof -
    obtain d' where d: "cm_Datasets cm n = Some d'" "untyped cd = untyped d'" by (rule same_shape_Some[OF assms(2) n])
    then have "cd_Name d' = n" "dom (cd_Fields d') = set (cd_FieldOrder d')" "\<And>k cf. cd_Fields d' k = Some cf \<Longrightarrow> cf_Name cf = k"
      using assms(1) by (simp_all add: wf_model_def)
    with untyped_eq(4-7)[OF d(2)] show ?thesis by metis
  qed
  with assms(1) dom show ?thesis by (simp add: wf_model_def)
qed

lemma schema_fits_shape:
  assumes "same_shape ds (cm_Datasets cm)" "schema_fits describe cm"
  shows "schema_fits describe (cm\<lparr>cm_Datasets := ds\<rparr>)"
proof -
  let ?b = "cm\<lparr>cm_Datasets := ds\<rparr>"
  have none: "ds n = None \<longleftrightarrow> cm_Datasets cm n = None" for n
    using assms(1)[unfolded same_shape_def, rule_format, of n] by (metis map_option_is_None)
  have tab: "table_of describe ?b n = table_of describe cm n" for n
  proof (cases "ds n")
    case None
    with none[of n] show ?thesis by (simp add: table_of_def)
  next
    case (Some d)
    with same_shape_table[OF assms(1) Some, of describe] show ?thesis by (simp add: table_of_def)
  qed
  have "dataset_fits describe ?b n" if fits: "dataset_fits describe cm n" for n
  proof -
    from fits obtain d cols where d: "cm_Datasets cm n = Some d" "table_of describe cm n = Some cols" "fields_fit cols d"
      by (auto simp: dataset_fits_def)
    from d(1) none[of n] obtain d' where d': "ds n = Some d'" by auto
    obtain d'' where "cm_Datasets cm n = Some d''" "untyped d' = untyped d''" by (rule same_shape_Some[OF assms(1) d'])
    with d have "fields_fit cols d'" using fields_fit_untyped[of d' d] by simp
    with d(2) d' show ?thesis by (simp add: dataset_fits_def tab)
  qed
  with assms(2) show ?thesis unfolding schema_fits_def tab by simp
qed

lemma bind_sound_model:
  assumes "run_state (bind_schema rc cm) w = (Inr (drift, bindings, bound), w')" "sound_model cm"
  shows "sound_model bound"
proof (rule bind_schema_shape[OF assms(1)])
  fix ds assume "bound = cm\<lparr>cm_Datasets := ds\<rparr>" "same_shape ds (cm_Datasets cm)"
  with same_shape_wf assms(2) show ?thesis by (simp add: sound_model_def)
qed

lemma bind_schema_total:
  assumes "wf_model cm" "\<And>w. out_describe (rc_Outside rc) w = describe" "\<And>w. out_ping (rc_Outside rc) w = None"
  shows "\<exists>drift bindings ds w'. run_state (bind_schema rc cm) w = (Inr (drift, bindings, cm\<lparr>cm_Datasets := ds\<rparr>), w')
     \<and> (drift = [] \<longleftrightarrow> schema_fits describe cm) \<and> map bd_Dataset bindings = cm_DatasetOrder cm
     \<and> same_shape ds (cm_Datasets cm)"
proof -
  let ?st0 = "\<lparr>bs_Datasets = cm_Datasets cm, bs_tableCols = Map.empty, bs_drift = [], bs_bindings = []\<rparr>"
  have "set (cm_DatasetOrder cm) \<subseteq> dom (cm_Datasets cm)" "same_shape (bs_Datasets ?st0) (cm_Datasets cm)"
    using assms(1) by (simp_all add: wf_model_def same_shape_def)
  from bind_datasets_total[OF assms(2,3,1) this] obtain st' w'
    where "run_state (bind_datasets rc (cm_DatasetOrder cm) ?st0) w = (Inr st', w')" by blast
  then obtain drift bindings bound where r: "run_state (bind_schema rc cm) w = (Inr (drift, bindings, bound), w')"
    by (simp add: bind_schema_def)
  obtain ds where "bound = cm\<lparr>cm_Datasets := ds\<rparr>" "same_shape ds (cm_Datasets cm)" by (rule bind_schema_shape[OF r])
  with r bind_schema_facts[OF assms(1,2) r] show ?thesis by blast
qed


definition sample_outside :: "SemanticModel \<Rightarrow> (api_call list \<Rightarrow> Artifact reply) \<Rightarrow> Outside" where
  "sample_outside sm art =
     \<lparr>out_model = (\<lambda>w. Inr sm), out_update = (\<lambda>w x. Inr x), out_status = (\<lambda>w x. Inr ()),
      out_artifact = art, out_write = (\<lambda>w x. Inr ()),
      out_describe = (\<lambda>w c d t. if t = ''t'' then Inr [\<lparr>col_Name = ''a'', col_Type = ''bigint''\<rparr>] else Inl ''no such table''),
      out_ping = (\<lambda>w. None), out_exec = (\<lambda>w q. None)\<rparr>"

definition own_reference :: "SemanticModel \<Rightarrow> OwnerReference" where
  "own_reference sm = \<lparr>or_APIVersion = ''semantic.ossie.io/v1alpha1'', or_Kind = ''SemanticModel'', or_Name = sm_Name sm, or_UID = ''u''\<rparr>"

definition sample_runtime :: "(CompiledModel \<Rightarrow> (string, string) result) \<Rightarrow> Runtime" where
  "sample_runtime json =
     \<lparr>rt_SetStatusCondition = (\<lambda>cs c. filter (\<lambda>c'. con_Type c' \<noteq> con_Type c) cs @ [c]),
      rt_ContainsFinalizer = (\<lambda>fs f. f \<in> set fs), rt_AddFinalizer = (\<lambda>fs f. fs @ [f]), rt_RemoveFinalizer = (\<lambda>fs f. filter (\<lambda>g. g \<noteq> f) fs),
      rt_SetControllerReference = (\<lambda>sm refs. Inr (filter (\<lambda>r. r \<noteq> own_reference sm) refs @ [own_reference sm])),
      rt_globs = star_glob, rt_edge_order = (\<lambda>spec. map r_From (om_Relationships (s_Ossie spec))), rt_spec_json = (\<lambda>_. []), rt_model_json = json\<rparr>"

definition sample_model :: SemanticModel where
  "sample_model = \<lparr>sm_Name = ''x'', sm_Namespace = ''n'', sm_Generation = 1, sm_DeletionTimestamp = None,
     sm_Finalizers = [finalizer], sm_Annotations = Map.empty, sm_Spec = sample_spec,
     sm_Status = \<lparr>ss_ModelVersion = [], ss_ObservedGeneration = 0, ss_PublishedConfigMap = [], ss_Bindings = [], ss_Conditions = []\<rparr>\<rparr>"

definition sample_reconciler :: "(api_call list \<Rightarrow> Artifact reply) \<Rightarrow> (CompiledModel \<Rightarrow> (string, string) result) \<Rightarrow> Reconciler" where
  "sample_reconciler art json = \<lparr>rc_Dialect = trino, rc_ViewDatabase = [], rc_ResyncPeriod = 0, rc_Runtime = sample_runtime json,
     rc_Outside = sample_outside sample_model art\<rparr>"

lemma sample_compiles:
  obtains cm where "Compile (\<lambda>_. []) sample_spec ''n'' ''x'' = Inr cm" "wf_model cm"
proof -
  have "\<exists>e. Parse ''SUM(s.a)'' = Inr e"
  proof -
    have "isOK (Parse ''SUM(s.a)'')" by code_simp
    then show ?thesis by (simp add: isOK_iff)
  qed
  then have "\<exists>cm. Compile (\<lambda>_. []) sample_spec ''n'' ''x'' = Inr cm"
    by (auto simp: Compile_def sample_spec_def sample_dataset_def sample_field_def sample_metric_def
        compile_dataset_def compile_field_def compile_metric_def ResolveSource_def Select_def
        DialectPreference_def first_dialect_def)
  with that Compile_wf_model show thesis by blast
qed


section \<open>What reaches the cluster and the engine\<close>

text \<open>The spec comes from the object as the API server holds it; it validated and compiled, and the engine
  had all of it when the model was bound.\<close>

definition checked_model :: "Reconciler \<Rightarrow> SemanticModel \<Rightarrow> CompiledModel \<Rightarrow> string \<Rightarrow> bool" where
  "checked_model rc sm bound blob \<longleftrightarrow>
     ((\<exists>w. out_model (rc_Outside rc) w = Inr sm) \<or> (\<exists>w x. out_update (rc_Outside rc) w x = Inr sm))
     \<and> ValidateSpec (rt_edge_order (rc_Runtime rc) (sm_Spec sm)) (sm_Spec sm) = Some []
     \<and> (\<exists>cm w w' bindings. Compile (rt_spec_json (rc_Runtime rc)) (sm_Spec sm) (sm_Namespace sm) (sm_Name sm) = Inr cm
          \<and> run_state (bind_schema rc cm) w = (Inr ([], bindings, bound), w'))
     \<and> rt_model_json (rc_Runtime rc) bound = Inr blob \<and> length blob \<le> maxArtifactBytes"

definition carries :: "Artifact \<Rightarrow> CompiledModel \<Rightarrow> string \<Rightarrow> bool" where
  "carries art bound blob \<longleftrightarrow> cfm_Data art = [CompiledModelKey \<mapsto> blob] \<and> art_Labels art LabelVersion = Some (cm_Version bound)"

definition view_ddl :: "Reconciler \<Rightarrow> SemanticModel \<Rightarrow> CompiledModel \<Rightarrow> string \<Rightarrow> bool" where
  "view_ddl rc sm bound q \<longleftrightarrow> (\<exists>v\<in>set (s_Views (sm_Spec sm)). \<exists>db.
     BuildViewSQL (rt_globs (rc_Runtime rc)) bound (rc_Dialect rc) v db (default_role sm) = Inr q)"

definition schema_ddl :: "Reconciler \<Rightarrow> string \<Rightarrow> bool" where
  "schema_ddl rc q \<longleftrightarrow> (\<exists>db. q = CreateSchema (rc_Dialect rc) (quoteDotted (rc_Dialect rc) db))"

definition drop_ddl :: "Reconciler \<Rightarrow> SemanticModel \<Rightarrow> string \<Rightarrow> bool" where
  "drop_ddl rc sm q \<longleftrightarrow> (\<exists>db. \<exists>n\<in>set (owned_views sm). q = drop_statement (rc_Dialect rc) db n)"

fun lawful :: "Reconciler \<Rightarrow> api_call \<Rightarrow> bool" where
  "lawful rc (CreateArtifact art) = (\<exists>sm bound blob. checked_model rc sm bound blob \<and> carries art bound blob)"
| "lawful rc (UpdateArtifact art) = (\<exists>sm bound blob. checked_model rc sm bound blob \<and> carries art bound blob)"
| "lawful rc (Exec q) =
     (schema_ddl rc q \<or> (\<exists>sm bound blob. checked_model rc sm bound blob \<and> view_ddl rc sm bound q) \<or> (\<exists>sm. drop_ddl rc sm q))"
| "lawful rc _ = True"

declare lawful.simps(1-3) [simp del]

lemma lawful_schema: "lawful rc (Exec (CreateSchema (rc_Dialect rc) (quoteDotted (rc_Dialect rc) db)))"
  unfolding lawful.simps schema_ddl_def by blast

lemma lawful_drop: "n \<in> set (owned_views sm) \<Longrightarrow> lawful rc (Exec (drop_statement (rc_Dialect rc) db n))"
  unfolding lawful.simps drop_ddl_def by blast

lemma lawful_view: "checked_model rc sm bound blob \<Longrightarrow> view_ddl rc sm bound q \<Longrightarrow> lawful rc (Exec q)"
  unfolding lawful.simps by blast

lemma lawful_write:
  "checked_model rc sm bound blob \<Longrightarrow> carries art bound blob \<Longrightarrow> lawful rc (CreateArtifact art)"
  "checked_model rc sm bound blob \<Longrightarrow> carries art bound blob \<Longrightarrow> lawful rc (UpdateArtifact art)"
  unfolding lawful.simps by blast+

lemma emits_executor [emits_intros]: "lawful rc (Exec q) \<Longrightarrow> emits (lawful rc) (exec rc q)"
  unfolding exec_def by (rule emits_answer)

lemma emits_calls [emits_intros]:
  "emits (lawful rc) (get_model rc ns n)" "emits (lawful rc) (update_model rc sm)" "emits (lawful rc) (update_status rc sm)"
  "emits (lawful rc) (get_artifact rc ns n)" "emits (lawful rc) (describe_table rc ds)" "emits (lawful rc) (ping rc)"
  by (auto simp: get_model_def update_model_def update_status_def get_artifact_def describe_table_def ping_def intro: emits_answer)

lemma emits_statusUpdate [emits_intros]: "emits (lawful rc) (statusUpdate rc sm)"
  unfolding statusUpdate_def by (intro emits_intros)

lemma emits_bind_datasets: "emits (lawful rc) (bind_datasets rc names st)"
  by (induction names arbitrary: st) (auto intro!: emits_intros split: option.splits)

lemma emits_bind_schema [emits_intros]: "emits (lawful rc) (bind_schema rc cm)"
  unfolding bind_schema_def by (intro emits_intros emits_bind_datasets)

lemma emits_publish_views:
  "(\<And>v q. v \<in> set vs \<Longrightarrow> BuildViewSQL compile cm d v db role = Inr q \<Longrightarrow> lawful rc (Exec q)) \<Longrightarrow>
   emits (lawful rc) (publish_views (exec rc) compile cm d db role created vs)"
  by (induction vs arbitrary: created) (auto intro!: emits_intros split: sum.splits)

lemma emits_drop_views:
  "(\<And>n. n \<in> set ns \<Longrightarrow> lawful rc (Exec (drop_statement d db n))) \<Longrightarrow> emits (lawful rc) (drop_views (exec rc) d db ns)"
  by (induction ns) (auto intro!: emits_intros)

lemma emits_Drop:
  "(\<And>n. n \<in> set ns \<Longrightarrow> n \<in> set (owned_views sm)) \<Longrightarrow> emits (lawful rc) (Drop (exec rc) (rc_Dialect rc) db ns)"
  unfolding Drop_def
  by (intro emits_intros emits_drop_views) (auto intro: lawful_drop)

lemma emits_publish_artifact:
  assumes "\<And>blob. rt_model_json (rc_Runtime rc) bound = Inr blob \<Longrightarrow> length blob \<le> maxArtifactBytes \<Longrightarrow> checked_model rc sm bound blob"
  shows "emits (lawful rc) (publish_artifact rc sm' bound)"
proof -
  have "emits (lawful rc) (create_artifact rc sm' (cm_Version bound) blob)"
    "\<And>art. emits (lawful rc) (refresh_artifact rc sm' (cm_Version bound) blob art)" if "checked_model rc sm bound blob" for blob
    unfolding create_artifact_def refresh_artifact_def write_artifact_def Let_def
    by (intro emits_intros lawful_write[OF that]; simp add: carries_def decorate_def)+
  then show ?thesis
    unfolding publish_artifact_def using assms by (intro emits_intros) simp_all
qed

lemma publish_artifact_Inr:
  assumes "run_state (publish_artifact rc sm bound) w = (Inr n, w')"
  obtains blob where "rt_model_json (rc_Runtime rc) bound = Inr blob" "length blob \<le> maxArtifactBytes"
  using assms that by (auto simp: publish_artifact_def split: sum.splits if_splits)

lemma emits_views_stage:
  assumes "checked_model rc sm bound blob" "sm_Spec sm' = sm_Spec sm"
  shows "emits (lawful rc) (views_stage rc sm' bound)"
proof -
  have q: "lawful rc (Exec q)"
    if "v \<in> set (s_Views (sm_Spec sm'))" "BuildViewSQL (rt_globs (rc_Runtime rc)) bound (rc_Dialect rc) v db (default_role sm') = Inr q" for v q db
  proof -
    have "view_ddl rc sm bound q" using that assms(2) unfolding view_ddl_def default_role_def by auto
    with assms(1) show ?thesis by (rule lawful_view)
  qed
  have "emits (lawful rc) (Publish (exec rc) (rt_globs (rc_Runtime rc)) bound (rc_Dialect rc)
      (s_Views (sm_Spec sm')) (views_database rc sm') (default_role sm'))"
    unfolding Publish_def
    by (intro emits_intros lawful_schema emits_publish_views; rule q)
  moreover have "emits (lawful rc) (drop_stale rc sm' created)" for created
    unfolding drop_stale_def by (intro emits_intros emits_Drop[of _ sm']) auto
  moreover have "emits (lawful rc) (record_views rc sm' created)" for created
    unfolding record_views_def by (intro emits_intros)
  ultimately show ?thesis
    unfolding views_stage_def reconcileViews_def by (intro emits_intros)
qed

lemma emits_finalize: "emits (lawful rc) (finalize rc sm)"
  unfolding finalize_def by (intro emits_intros emits_Drop[of _ sm])

lemma setCondition_Spec [simp]: "sm_Spec (setCondition rc sm t s r m) = sm_Spec sm"
  "sm_Namespace (setCondition rc sm t s r m) = sm_Namespace sm" "sm_Name (setCondition rc sm t s r m) = sm_Name sm"
  by (simp_all add: setCondition_def)

lemma emits_publish_stage:
  assumes "\<And>blob. rt_model_json (rc_Runtime rc) bound = Inr blob \<Longrightarrow> length blob \<le> maxArtifactBytes \<Longrightarrow> checked_model rc sm bound blob"
    "sm_Spec sm' = sm_Spec sm"
  shows "emits (lawful rc) (publish_stage rc sm' bound)"
  unfolding publish_stage_def
proof (intro emits_intros emits_publish_artifact[OF assms(1)])
  fix w r w' n assume "run_state (publish_artifact rc sm' bound) w = (r, w')" "r = Inr n"
  then obtain blob where "rt_model_json (rc_Runtime rc) bound = Inr blob" "length blob \<le> maxArtifactBytes"
    using publish_artifact_Inr by metis
  from assms(1)[OF this] show "emits (lawful rc) (views_stage rc (setCondition rc (sm'\<lparr>sm_Status := (sm_Status sm')\<lparr>ss_PublishedConfigMap := n\<rparr>\<rparr>)
      ''Published'' True ''OK'' (Message (''published '' @ n))) bound)"
    by (rule emits_views_stage) (simp add: assms(2))
qed

lemma emits_check_stage:
  assumes "(\<exists>w. out_model (rc_Outside rc) w = Inr sm) \<or> (\<exists>w x. out_update (rc_Outside rc) w x = Inr sm)"
  shows "emits (lawful rc) (check_stage rc sm)"
  unfolding check_stage_def Let_def bind_stage_def
proof (intro emits_intros emits_publish_stage[where sm = sm])
qed (use assms in \<open>auto simp: checked_model_def\<close>)

lemma Reconcile_emits:
  "\<exists>v es. run_state (Reconcile rc ns name) w = (v, w @ es) \<and> list_all (lawful rc) es"
proof -
  obtain v w' where r: "run_state (Reconcile rc ns name) w = (v, w')" by fastforce
  have "emits (lawful rc) (Reconcile rc ns name)"
    unfolding Reconcile_def
  proof (intro emits_intros emits_finalize emits_check_stage)
  qed (auto simp: get_model_def update_model_def)
  from emitsD[OF this r] r show ?thesis by (auto simp: list_all_iff)
qed


section \<open>Publishing again\<close>

definition written :: "Reconciler \<Rightarrow> SemanticModel \<Rightarrow> string \<Rightarrow> string \<Rightarrow> string \<Rightarrow> Artifact \<Rightarrow> bool" where
  "written rc sm version blob n art \<longleftrightarrow> n = artifact_name sm \<and> cfm_Data art = [CompiledModelKey \<mapsto> blob]
     \<and> art_Labels art LabelVersion = Some version
     \<and> (\<exists>refs. (\<forall>r\<in>set refs. \<not> stale_owner r) \<and> rt_SetControllerReference (rc_Runtime rc) sm refs = Inr (art_OwnerReferences art))"

lemma written_decorate:
  assumes "rt_SetControllerReference (rc_Runtime rc) sm refs = Inr refs'" "\<forall>r\<in>set refs. \<not> stale_owner r"
  shows "written rc sm version blob (artifact_name sm) (decorate (a\<lparr>art_OwnerReferences := refs'\<rparr>) sm version blob)"
    "written rc sm version blob (artifact_name sm) ((decorate a sm version blob)\<lparr>art_OwnerReferences := refs'\<rparr>)"
  using assms by (auto simp: written_def decorate_def)

lemma create_artifact_wrote:
  assumes "run_state (create_artifact rc sm version blob) w = (Inr n, w @ [e])"
  obtains art where "e = CreateArtifact art" "written rc sm version blob n art"
proof -
  let ?a = "decorate (new_artifact sm) sm version blob"
  have "art_OwnerReferences ?a = []" by (simp add: decorate_def new_artifact_def)
  with assms obtain refs where refs: "rt_SetControllerReference (rc_Runtime rc) sm [] = Inr refs"
    by (auto simp: create_artifact_def Let_def split: sum.splits)
  with assms \<open>art_OwnerReferences ?a = []\<close>
  have "ebind (out_write (rc_Outside rc) w (?a\<lparr>art_OwnerReferences := refs\<rparr>)) (\<lambda>_. Inr (artifact_name sm)) = Inr n"
    "e = CreateArtifact (?a\<lparr>art_OwnerReferences := refs\<rparr>)"
    by (simp_all add: create_artifact_def Let_def write_artifact_def)
  with that written_decorate(2)[OF refs, of version blob "new_artifact sm"] show thesis by (auto simp: result_simps)
qed

lemma refresh_artifact_wrote:
  assumes "run_state (refresh_artifact rc sm version blob a) w = (Inr n, w @ [e])"
  obtains art where "e = UpdateArtifact art" "written rc sm version blob n art"
proof -
  let ?old = "filter (\<lambda>r. \<not> stale_owner r) (art_OwnerReferences a)"
  from assms obtain refs where refs: "rt_SetControllerReference (rc_Runtime rc) sm ?old = Inr refs"
    by (auto simp: refresh_artifact_def split: sum.splits)
  let ?a = "decorate (a\<lparr>art_OwnerReferences := refs\<rparr>) sm version blob"
  have "ebind (out_write (rc_Outside rc) w ?a) (\<lambda>_. Inr (artifact_name sm)) = Inr n" "e = UpdateArtifact ?a"
    using assms by (simp_all add: refresh_artifact_def refs write_artifact_def split: if_splits)
  with that written_decorate(1)[OF refs, of version blob a] show thesis by (auto simp: result_simps)
qed

text \<open>
  Publishing is idempotent. Once the ConfigMap the operator wrote is what the API server returns,
  publishing the same model for the same object reads it and writes nothing, whatever other owners
  it had. (\<^verbatim>\<open>SetControllerReference\<close> puts the same reference in the same place when it is called again.)
\<close>

theorem publish_idempotent:
  assumes "\<And>refs refs'. \<forall>r\<in>set refs. \<not> stale_owner r \<Longrightarrow> rt_SetControllerReference (rc_Runtime rc) sm refs = Inr refs'
      \<Longrightarrow> rt_SetControllerReference (rc_Runtime rc) sm (filter (\<lambda>r. \<not> stale_owner r) refs') = Inr refs'"
    "run_state (publish_artifact rc sm cm) w = (Inr n, w @ [GetArtifact (sm_Namespace sm) (artifact_name sm), write art])"
    "write = CreateArtifact \<or> write = UpdateArtifact" "out_artifact (rc_Outside rc) w2 = Inr art"
  shows "run_state (publish_artifact rc sm cm) w2 = (Inr n, w2 @ [GetArtifact (sm_Namespace sm) (artifact_name sm)])"
proof -
  obtain blob where blob: "rt_model_json (rc_Runtime rc) cm = Inr blob" "\<not> maxArtifactBytes < length blob"
    using publish_artifact_Inr[OF assms(2)] by (metis not_le)
  let ?read = "\<lambda>v. v @ [GetArtifact (sm_Namespace sm) (artifact_name sm)]"
  have run: "run_state (publish_artifact rc sm cm) v = (case out_artifact (rc_Outside rc) v of
      Inr a \<Rightarrow> run_state (refresh_artifact rc sm (cm_Version cm) blob a) (?read v)
    | Inl e \<Rightarrow> if e = NotFound then run_state (create_artifact rc sm (cm_Version cm) blob) (?read v) else (Inl e, ?read v))" for v
    by (simp add: publish_artifact_def blob get_artifact_def split: sum.split)
  have "written rc sm (cm_Version cm) blob n art"
  proof (cases "out_artifact (rc_Outside rc) w")
    case (Inl e)
    with run[of w] assms(2) have "run_state (create_artifact rc sm (cm_Version cm) blob) (?read w) = (Inr n, ?read w @ [write art])"
      by (simp split: if_splits)
    with assms(3) show ?thesis by (elim create_artifact_wrote) auto
  next
    case (Inr a)
    with run[of w] assms(2) have "run_state (refresh_artifact rc sm (cm_Version cm) blob a) (?read w) = (Inr n, ?read w @ [write art])" by simp
    with assms(3) show ?thesis by (elim refresh_artifact_wrote) auto
  qed
  then have n: "n = artifact_name sm" and art: "cfm_Data art = [CompiledModelKey \<mapsto> blob]"
    "art_Labels art LabelVersion = Some (cm_Version cm)"
    "\<exists>refs. (\<forall>r\<in>set refs. \<not> stale_owner r) \<and> rt_SetControllerReference (rc_Runtime rc) sm refs = Inr (art_OwnerReferences art)"
    by (simp_all add: written_def)
  from art(3) assms(1) have "rt_SetControllerReference (rc_Runtime rc) sm (filter (\<lambda>r. \<not> stale_owner r) (art_OwnerReferences art))
      = Inr (art_OwnerReferences art)" by blast
  then show ?thesis by (simp add: run assms(4) refresh_artifact_def art n)
qed

definition sample_artifact :: "CompiledModel \<Rightarrow> Artifact" where
  "sample_artifact cm = (decorate (new_artifact sample_model) sample_model (cm_Version cm) ''{}'')
     \<lparr>art_OwnerReferences := [own_reference sample_model]\<rparr>"

lemma sample_runtime_sel [simp]:
  "rt_SetControllerReference (rc_Runtime (sample_reconciler art json)) sm refs
     = Inr (filter (\<lambda>r. r \<noteq> own_reference sm) refs @ [own_reference sm])"
  "rt_model_json (rc_Runtime (sample_reconciler art json)) = json"
  "out_artifact (rc_Outside (sample_reconciler art json)) = art"
  "out_write (rc_Outside (sample_reconciler art json)) w x = Inr ()"
  by (simp_all add: sample_reconciler_def sample_runtime_def sample_outside_def)

lemma stale_own [simp]: "stale_owner (own_reference sm)"
  by (simp add: stale_owner_def own_reference_def)

theorem publish_idempotent_witness:
  "\<exists>rc n. \<exists>art :: Artifact. \<exists>cm :: CompiledModel.
     run_state (publish_artifact rc sample_model cm) [] = (Inr n, [GetArtifact ''n'' ''sm-x-compiled'', CreateArtifact art])
     \<and> run_state (publish_artifact rc sample_model cm) [CreateArtifact art] = (Inr n, [CreateArtifact art, GetArtifact ''n'' ''sm-x-compiled''])"
proof -
  obtain cm where "Compile (\<lambda>_. []) sample_spec ''n'' ''x'' = Inr cm" by (rule sample_compiles)
  let ?rc = "sample_reconciler (\<lambda>w. if w = [] then Inl NotFound else Inr (sample_artifact cm)) (\<lambda>_. Inr ''{}'')"
  have g: "sm_Namespace sample_model = ''n''" "artifact_name sample_model = ''sm-x-compiled''"
    by (simp_all add: sample_model_def artifact_name_def)
  have r: "run_state (publish_artifact ?rc sample_model cm) [] = (Inr ''sm-x-compiled'',
      [] @ [GetArtifact (sm_Namespace sample_model) (artifact_name sample_model), CreateArtifact (sample_artifact cm)])"
    by (simp add: publish_artifact_def create_artifact_def get_artifact_def write_artifact_def maxArtifactBytes_def Let_def
        sample_artifact_def decorate_def new_artifact_def g)
  have law: "rt_SetControllerReference (rc_Runtime ?rc) sample_model refs = Inr refs'
      \<Longrightarrow> rt_SetControllerReference (rc_Runtime ?rc) sample_model (filter (\<lambda>r. \<not> stale_owner r) refs') = Inr refs'"
    if "\<forall>r\<in>set refs. \<not> stale_owner r" for refs refs'
  proof -
    have "filter (\<lambda>r. r \<noteq> own_reference sample_model) refs = refs" "filter (\<lambda>r. \<not> stale_owner r) refs = refs"
      using that by (auto simp: filter_id_conv)
    then show "rt_SetControllerReference (rc_Runtime ?rc) sample_model refs = Inr refs' \<Longrightarrow> ?thesis"
      by (auto simp del: filter_filter)
  qed
  have w2: "out_artifact (rc_Outside ?rc) [CreateArtifact (sample_artifact cm)] = Inr (sample_artifact cm)" by simp
  have "run_state (publish_artifact ?rc sample_model cm) [CreateArtifact (sample_artifact cm)]
      = (Inr ''sm-x-compiled'', [CreateArtifact (sample_artifact cm)] @ [GetArtifact (sm_Namespace sample_model) (artifact_name sample_model)])"
    by (rule publish_idempotent[OF _ r disjI1[OF refl] w2]) (rule law)
  with r show ?thesis unfolding g append_Nil append_Cons by blast
qed

section \<open>Views\<close>

text \<open>What the body of a view is, for a role that is allowed to see it.\<close>

definition governed_view :: "glob_compiler \<Rightarrow> CompiledModel \<Rightarrow> dialect \<Rightarrow> string \<Rightarrow> string \<Rightarrow> ViewSpec \<Rightarrow> string \<Rightarrow> bool" where
  "governed_view compile cm d db role v q \<longleftrightarrow>
     (\<exists>p refs dec. q = ''CREATE OR REPLACE VIEW '' @ quoteDotted d db @ ''.'' @ QuoteIdent d (v_Name v) @ '' AS'' @ NL @ p_SQL p
        \<and> Build compile cm d (view_request v) (Single (view_role v role)) = Inr p
        \<and> set refs = request_refs cm (view_request v)
        \<and> Authorize compile (cm_Governance cm) (Single (view_role v role)) (v_Metrics v) refs
            = (Inr dec :: (literal_error gov_error, Decision) result))"

lemma BuildViewSQL_governed:
  assumes "BuildViewSQL compile cm d v db role = Inr q"
  shows "governed_view compile cm d db role v q"
proof -
  obtain p where p: "Build compile cm d (view_request v) (Single (view_role v role)) = Inr p"
    and q: "q = ''CREATE OR REPLACE VIEW '' @ quoteDotted d db @ ''.'' @ QuoteIdent d (v_Name v) @ '' AS'' @ NL @ p_SQL p"
    using assms by (auto simp: BuildViewSQL_def result_simps)
  have "req_Metrics (view_request v) = v_Metrics v" by (simp add: view_request_def)
  with Build_authorization[OF p] p q show ?thesis unfolding governed_view_def by auto
qed

lemma run_exec: "run_state (exec rc q) w = (out_exec (rc_Outside rc) w q, w @ [Exec q])"
  by (simp add: exec_def)

lemma publish_views_steps:
  assumes "run_state (publish_views (exec rc) compile cm d db role done vs) w = ((created, err), w')"
  shows "\<exists>qs. w' = w @ map Exec qs \<and> length qs \<le> length vs
     \<and> list_all2 (governed_view compile cm d db role) (take (length qs) vs) qs
     \<and> (\<exists>made. created = done @ map v_Name (take made vs) \<and> made \<le> length qs \<and> length qs \<le> Suc made
          \<and> (err = None \<longleftrightarrow> made = length vs))"
  using assms
proof (induction vs arbitrary: "done" w)
  case (Cons v vs)
  show ?case
  proof (cases "BuildViewSQL compile cm d v db role")
    case (Inl e)
    with Cons.prems show ?thesis by (auto intro!: exI[of _ "[]"] exI[of _ 0])
  next
    case (Inr q)
    note g = BuildViewSQL_governed[OF Inr]
    show ?thesis
    proof (cases "out_exec (rc_Outside rc) w q")
      case (Some e)
      with Cons.prems Inr g show ?thesis by (auto simp: run_exec intro!: exI[of _ "[q]"] exI[of _ 0])
    next
      case None
      with Cons.prems Inr have "run_state (publish_views (exec rc) compile cm d db role (done @ [v_Name v]) vs) (w @ [Exec q])
          = ((created, err), w')" by (simp add: run_exec)
      from Cons.IH[OF this] obtain qs made where i: "w' = (w @ [Exec q]) @ map Exec qs" "length qs \<le> length vs"
        "list_all2 (governed_view compile cm d db role) (take (length qs) vs) qs"
        "created = (done @ [v_Name v]) @ map v_Name (take made vs)" "made \<le> length qs" "length qs \<le> Suc made"
        "err = None \<longleftrightarrow> made = length vs" by blast
      show ?thesis
        by (rule exI[of _ "q # qs"], intro conjI exI[of _ "Suc made"]) (use i g in auto)
    qed
  qed
qed simp


section \<open>Lost bookkeeping\<close>

text \<open>
  Status is a subresource: an update of the object answers with the stored status. When the views of
  a model change, the reconciler updates the annotation and goes on with the object it got back, so
  the status it computed so far, the published ConfigMap and the bindings included, is gone from the
  status it writes last.
\<close>

lemma annotation_update_discards_status:
  assumes "\<And>w x. out_update (rc_Outside rc) w x = Inr (x\<lparr>sm_Status := stored\<rparr>)"
    "s_Views (sm_Spec sm) = []" "sm_Annotations sm AnnotationOwnedViews = None"
    "run_state (views_stage rc sm cm) w = (v, w')"
  shows "\<exists>x sm'. w' = w @ [UpdateModel x, UpdateStatus sm']
     \<and> ss_PublishedConfigMap (sm_Status sm') = ss_PublishedConfigMap stored \<and> ss_Bindings (sm_Status sm') = ss_Bindings stored
     \<and> ss_ModelVersion (sm_Status sm') = ss_ModelVersion stored"
  using assms(2-4)
  by (auto simp: views_stage_def reconcileViews_def Publish_def drop_stale_def owned_views_def record_views_def update_model_def
      assms(1) statusUpdate_def update_status_def setCondition_def Let_def split: prod.splits)

definition one_view :: "string \<Rightarrow> string list \<Rightarrow> ViewSpec" where
  "one_view n ms = \<lparr>v_Name = n, v_Metrics = ms, v_Dimensions = [''c.city''], v_Filters = [], v_TimeGrain = [], v_Role = ''b''\<rparr>"

definition two_views_model :: SemanticModel where
  "two_views_model = sample_model\<lparr>sm_Spec := sample_spec\<lparr>s_Views := [one_view ''good'' [''rev''], one_view ''bad'' [''nope'']]\<rparr>\<rparr>"

lemma bad_view: "\<exists>e. BuildViewSQL star_glob shop trino (one_view ''bad'' [''nope'']) db role = Inl e"
proof -
  have "\<not> isOK (resolve_request shop (view_request (one_view ''bad'' [''nope''])))" by code_simp
  then show ?thesis by (auto simp: isOK_def BuildViewSQL_def Build_def split: sum.splits)
qed

lemma good_view: "\<exists>q. BuildViewSQL star_glob shop trino (one_view ''good'' [''rev'']) db role = Inr q"
proof -
  have "view_request (one_view ''good'' [''rev'']) = by_city" "view_role (one_view ''good'' [''rev'']) role = ''b''"
    by (simp_all add: view_request_def by_city_def one_view_def empty_Request_def view_role_def)
  with by_city_plan show ?thesis by (auto simp: BuildViewSQL_def)
qed

text \<open>
  The names of the views made before a failure are dropped with the error: the first view exists in the
  engine, the object does not own it, and finalizing the object runs no statement at all.
\<close>

lemma partial_publish_leaks_views:
  "\<exists>schema q e. run_state (reconcileViews (sample_reconciler (\<lambda>_. Inl NotFound) (\<lambda>_. Inl [])) two_views_model shop) []
       = ((two_views_model, Some e), [Exec schema, Exec q])
     \<and> BuildViewSQL star_glob shop trino (one_view ''good'' [''rev'']) DefaultDatabase [] = Inr q
     \<and> snd (run_state (finalize (sample_reconciler (\<lambda>_. Inl NotFound) (\<lambda>_. Inl [])) two_views_model) [])
         = [UpdateModel (two_views_model\<lparr>sm_Finalizers := []\<rparr>)]"
proof -
  let ?rc = "sample_reconciler (\<lambda>_. Inl NotFound) (\<lambda>_. Inl [])"
  obtain q where q: "BuildViewSQL star_glob shop trino (one_view ''good'' [''rev'']) DefaultDatabase [] = Inr q"
    using good_view by blast
  obtain e where e: "BuildViewSQL star_glob shop trino (one_view ''bad'' [''nope'']) DefaultDatabase [] = Inl e"
    using bad_view by blast
  have sel: "rc_Dialect ?rc = trino" "rt_globs (rc_Runtime ?rc) = star_glob" "out_exec (rc_Outside ?rc) w x = None"
    "rt_ContainsFinalizer (rc_Runtime ?rc) fs f \<longleftrightarrow> f \<in> set fs" "rt_RemoveFinalizer (rc_Runtime ?rc) fs f = filter (\<lambda>g. g \<noteq> f) fs"
    "out_update (rc_Outside ?rc) w sm = Inr sm" for w x fs f sm
    by (simp_all add: sample_reconciler_def sample_runtime_def sample_outside_def)
  have m: "views_database ?rc two_views_model = []" "default_role two_views_model = []"
    "s_Views (sm_Spec two_views_model) = [one_view ''good'' [''rev''], one_view ''bad'' [''nope'']]"
    "owned_views two_views_model = []" "sm_Finalizers two_views_model = [finalizer]"
    by (simp_all add: views_database_def two_views_model_def sample_model_def sample_spec_def sample_reconciler_def
        default_role_def owned_views_def)
  have "run_state (reconcileViews ?rc two_views_model shop) []
      = ((two_views_model, Some (ViewsFailed e)), [Exec (CreateSchema trino (quoteDotted trino DefaultDatabase)), Exec q])"
    by (simp add: reconcileViews_def Publish_def Let_def m sel run_exec q e view_database_def)
  moreover have "snd (run_state (finalize ?rc two_views_model) []) = [UpdateModel (two_views_model\<lparr>sm_Finalizers := []\<rparr>)]"
    by (simp add: finalize_def sel m update_model_def)
  ultimately show ?thesis using q by blast
qed

text \<open>
  A text that happens to name a float is not rendered as a string: the filter value \<^verbatim>\<open>nan\<close> becomes the bare
  word NaN in the statement. The value type \<^verbatim>\<open>number\<close> changes nothing: what is not a number stays a string.
\<close>

lemma coerced_view_values:
  "(\<exists>w. coerce ''nan'' ''auto'' = VFloat64 w \<and> trino_Literal (VFloat64 w) = Inr ''NaN'')"
  "coerce s ''number'' = coerce s ''auto''"
proof -
  have "ParseInt10 ''nan'' = None" by code_simp
  moreover have "ParseFloat_text ''nan'' = Some 0x7FF8000000000001"
    by (simp add: ParseFloat_text_def special_float_def to_lower_def lower_byte_def is_upper_def byte_def)
  moreover have "float64 0x7FF8000000000001 = FNaN" by (simp add: float64_def decode_float_def Let_def)
  then have "trino_Literal (VFloat64 0x7FF8000000000001) = Inr ''NaN''"
    by (simp add: float64_literal_def as_int64_def fmt_g_def)
  ultimately show "\<exists>w. coerce ''nan'' ''auto'' = VFloat64 w \<and> trino_Literal (VFloat64 w) = Inr ''NaN''"
    by (simp add: coerce_def)
qed (simp add: coerce_def)

end
