(* ===== verification/Catalog.thy ===== *)
theory Catalog
  imports Ossie JsonText
begin

text \<open>
  \<^verbatim>\<open>internal/catalog\<close>: the derivation of a model scaffold from physical tables (\<^verbatim>\<open>derive.go\<close>), the
  business metadata that decorates it (\<^verbatim>\<open>enrich.go\<close>), and the data the scaffold template is executed
  on (\<^verbatim>\<open>template.go\<close>). \<open>scaffold_spec\<close> is the spec that the YAML text of the template
  (\<^verbatim>\<open>semanticmodel.yaml.tmpl\<close>) denotes; the rendering itself is left to the template and YAML
  libraries.

  \<^verbatim>\<open>sort.Slice\<close> is not stable, so the two sorts by name are parameters; \<open>sorts_by\<close> is what the
  library promises of them.
\<close>

section \<open>Types\<close>

record TableColumn =
  tc_Name :: string
  tc_Type :: string
  tc_Comment :: string

record Table =
  tb_Name :: string
  tb_Columns :: "TableColumn list"

record FieldMeta =
  fm_Description :: string
  fm_Synonyms :: "string list"
  fm_Sensitive :: bool

text \<open>The maps of a table's metadata, and of the metadata of a database, are lists of entries with
  distinct keys.\<close>

record TableMeta =
  tm_Description :: string
  tm_Synonyms :: "string list"
  tm_Deprecated :: bool
  tm_Fields :: "(string \<times> FieldMeta) list"

type_synonym Enricher = "string \<Rightarrow> string list \<Rightarrow> (string, (string \<times> TableMeta) list option) result"

definition no_field_meta :: FieldMeta where
  "no_field_meta = \<lparr>fm_Description = [], fm_Synonyms = [], fm_Sensitive = False\<rparr>"

definition no_table_meta :: TableMeta where
  "no_table_meta = \<lparr>tm_Description = [], tm_Synonyms = [], tm_Deprecated = False, tm_Fields = []\<rparr>"

section \<open>Datasets\<close>

definition isTimeType :: "string \<Rightarrow> bool" where
  "isTimeType t \<longleftrightarrow>
     (let lt = to_lower t
      in prefix ''date'' lt \<or> prefix ''timestamp'' lt \<or> prefix ''datetime'' lt)"

definition identity_field :: "TableColumn \<Rightarrow> Field" where
  "identity_field c =
     \<lparr>f_Name = tc_Name c, f_Expression = [\<lparr>de_Dialect = ''ANSI_SQL'', de_Expression = tc_Name c\<rparr>],
      f_Dimension = (if isTimeType (tc_Type c) then Some \<lparr>dim_IsTime = True\<rparr> else None), f_Label = [],
      f_Description = tc_Comment c, f_AIContext = None, f_CustomExtensions = []\<rparr>"

definition derive_dataset :: "Table \<Rightarrow> Dataset" where
  "derive_dataset t =
     \<lparr>d_Name = tb_Name t, d_Source = tb_Name t, d_PrimaryKey = [], d_UniqueKeys = [], d_Description = [],
      d_AIContext = None, d_Fields = map identity_field (tb_Columns t), d_CustomExtensions = []\<rparr>"

definition DeriveDatasets :: "(Table list \<Rightarrow> Table list) \<Rightarrow> Table list \<Rightarrow> Dataset list" where
  "DeriveDatasets srt tables = map derive_dataset (srt tables)"

text \<open>The set of known names is built before the loop and not extended by it.\<close>

definition SyncFields :: "Dataset \<Rightarrow> Table \<Rightarrow> Dataset \<times> nat" where
  "SyncFields d t =
     (let have = map f_Name (d_Fields d);
          new = filter (\<lambda>c. tc_Name c \<notin> set have) (tb_Columns t)
      in (d\<lparr>d_Fields := d_Fields d @ map identity_field new\<rparr>, length new))"

section \<open>Candidate relationships\<close>

text \<open>The reason names both columns and the suffix they share.\<close>

datatype candidate_reason = ShareKeySuffix "string \<times> string" "string \<times> string" string

record CandidateRelationship = Relationship +
  cand_Reason :: candidate_reason

definition trim_suffix :: "string \<Rightarrow> string \<Rightarrow> string" where
  "trim_suffix w s = (if suffix w s then take (length s - length w) s else s)"

definition key_column :: "string \<Rightarrow> bool" where
  "key_column col \<longleftrightarrow> suffix ''_sk'' col \<or> suffix ''_id'' col"

definition keySuffix :: "string \<Rightarrow> string option" where
  "keySuffix col =
     (if \<not> key_column col then None
      else (case dropWhile (\<lambda>c. c \<noteq> CHR ''_'') col of
              [] \<Rightarrow> None
            | u # rest \<Rightarrow> if rest = [] then None else Some rest))"

definition ownsKey :: "string \<Rightarrow> string \<Rightarrow> string \<Rightarrow> bool" where
  "ownsKey table column suf \<longleftrightarrow>
     (let body = trim_suffix ''_id'' (trim_suffix ''_sk'' suf)
      in table = body \<or> prefix (body @ ''_'') table \<or> prefix (trim_suffix ''_dim'' table) body)"

definition key_index :: "Table list \<Rightarrow> string \<Rightarrow> (string \<times> string) list" where
  "key_index ts suf =
     concat (map (\<lambda>t. map (\<lambda>c. (tb_Name t, tc_Name c))
       (filter (\<lambda>c. keySuffix (tc_Name c) = Some suf) (tb_Columns t))) ts)"

definition candidate :: "string \<Rightarrow> string \<Rightarrow> string \<Rightarrow> string \<times> string \<Rightarrow> CandidateRelationship" where
  "candidate tn cn suf target =
     \<lparr>r_Name = tn @ ''_to_'' @ fst target, r_From = tn, r_To = fst target, r_FromColumns = [cn],
      r_ToColumns = [snd target], r_AIContext = None, r_CustomExtensions = [],
      cand_Reason = ShareKeySuffix (tn, cn) target suf\<rparr>"

definition column_candidates :: "Table list \<Rightarrow> Table \<Rightarrow> TableColumn \<Rightarrow> CandidateRelationship list" where
  "column_candidates ts t c =
     (case keySuffix (tc_Name c) of
        None \<Rightarrow> []
      | Some suf \<Rightarrow>
          map (candidate (tb_Name t) (tc_Name c) suf)
            (filter (\<lambda>target.
                \<not> (fst target = tb_Name t \<or> snd target = tc_Name c \<and> fst target = tb_Name t)
                \<and> ownsKey (fst target) (snd target) suf \<and> tb_Name t \<noteq> fst target)
              (key_index ts suf)))"

definition candidate_key :: "CandidateRelationship \<Rightarrow> string" where
  "candidate_key c = r_From c @ ''|'' @ r_To c @ ''|'' @ join '','' (r_FromColumns c)"

fun dedupe_loop :: "string list \<Rightarrow> CandidateRelationship list \<Rightarrow> CandidateRelationship list" where
  "dedupe_loop seen [] = []"
| "dedupe_loop seen (c # cs) =
     (if candidate_key c \<in> set seen then dedupe_loop seen cs
      else c # dedupe_loop (candidate_key c # seen) cs)"

definition dedupeCandidates :: "CandidateRelationship list \<Rightarrow> CandidateRelationship list" where
  "dedupeCandidates cs = dedupe_loop [] cs"

definition InferRelationships ::
  "(Table list \<Rightarrow> Table list) \<Rightarrow> (CandidateRelationship list \<Rightarrow> CandidateRelationship list) \<Rightarrow> Table list
     \<Rightarrow> CandidateRelationship list" where
  "InferRelationships srt srtc tables =
     (let ts = srt tables
      in dedupeCandidates (srtc (concat (map (\<lambda>t. concat (map (column_candidates ts t) (tb_Columns t))) ts))))"

definition AIContextJSON :: "string list \<Rightarrow> string" where
  "AIContextJSON synonyms =
     json_members [(''synonyms'', if synonyms = [] then ''null'' else json_list (map json_string synonyms))]"

section \<open>Enrichment\<close>

record Enrichment =
  en_Tables :: "(string \<times> TableMeta) list"
  en_DeniedFields :: "string list"
  en_DeprecatedTables :: "string list"

definition no_enrichment :: Enrichment where
  "no_enrichment = \<lparr>en_Tables = [], en_DeniedFields = [], en_DeprecatedTables = []\<rparr>"

definition sensitive_columns :: "TableMeta \<Rightarrow> TableColumn list \<Rightarrow> string list" where
  "sensitive_columns tm cols =
     map tc_Name (filter (\<lambda>c. case map_of (tm_Fields tm) (tc_Name c) of Some fm \<Rightarrow> fm_Sensitive fm | None \<Rightarrow> False) cols)"

definition denied_of :: "(string \<times> TableMeta) list \<Rightarrow> Table \<Rightarrow> string list" where
  "denied_of meta t =
     (case map_of meta (tb_Name t) of
        None \<Rightarrow> []
      | Some tm \<Rightarrow> map (\<lambda>c. tb_Name t @ ''.'' @ c) (sensitive_columns tm (tb_Columns t)))"

definition deprecated_in :: "(string \<times> TableMeta) list \<Rightarrow> Table \<Rightarrow> bool" where
  "deprecated_in meta t = (case map_of meta (tb_Name t) of None \<Rightarrow> False | Some tm \<Rightarrow> tm_Deprecated tm)"

definition EnrichWith :: "Table list \<Rightarrow> (string \<times> TableMeta) list option \<Rightarrow> Enrichment" where
  "EnrichWith tables meta =
     (case meta of
        None \<Rightarrow> no_enrichment
      | Some mt \<Rightarrow>
          \<lparr>en_Tables = mt, en_DeniedFields = sort (concat (map (denied_of mt) tables)),
           en_DeprecatedTables = sort (map tb_Name (filter (deprecated_in mt) tables))\<rparr>)"

definition Enrich :: "Enricher option \<Rightarrow> string \<Rightarrow> Table list \<Rightarrow> Enrichment" where
  "Enrich e database tables =
     (case e of
        None \<Rightarrow> no_enrichment
      | Some describe \<Rightarrow>
          if tables = [] then no_enrichment
          else (case describe database (map tb_Name tables) of
                  Inl err \<Rightarrow> no_enrichment
                | Inr meta \<Rightarrow> EnrichWith tables meta))"

definition Enrichment_Table :: "Enrichment \<Rightarrow> string \<Rightarrow> TableMeta option" where
  "Enrichment_Table e table = map_of (en_Tables e) table"

definition Enrichment_Field :: "Enrichment \<Rightarrow> string \<Rightarrow> string \<Rightarrow> FieldMeta option" where
  "Enrichment_Field e table column =
     (case map_of (en_Tables e) table of None \<Rightarrow> None | Some tm \<Rightarrow> map_of (tm_Fields tm) column)"

definition Enrichment_Empty :: "Enrichment \<Rightarrow> bool" where
  "Enrichment_Empty e \<longleftrightarrow> en_Tables e = []"

section \<open>The scaffold\<close>

record TemplateOptions =
  to_CRName :: string
  to_Namespace :: string
  to_Catalog :: string
  to_Database :: string
  to_Model :: string

record templateField =
  tf_Name :: string
  tf_Expression :: string
  tf_Description :: string
  tf_Synonyms :: "string list"
  tf_Sensitive :: bool
  tf_IsTime :: bool

record templateDataset =
  td_Name :: string
  td_Source :: string
  td_ExampleKey :: string
  td_Description :: string
  td_Synonyms :: "string list"
  td_Deprecated :: bool
  td_Fields :: "templateField list"

record templateRelationship =
  tr_Name :: string
  tr_From :: string
  tr_To :: string
  tr_FromColumns :: "string list"
  tr_ToColumns :: "string list"
  tr_Reason :: candidate_reason

record semanticModelTemplateData =
  sd_APIVersion :: string
  sd_SpecVersion :: string
  sd_Options :: TemplateOptions
  sd_Datasets :: "templateDataset list"
  sd_Relationships :: "templateRelationship list"
  sd_DeniedFields :: "string list"
  sd_Enriched :: bool

definition ossieSpecVersion :: string where
  "ossieSpecVersion = ''0.2.0.dev0''"

definition GroupVersion :: string where
  "GroupVersion = ''semantic.ossie.io/v1alpha1''"

definition exampleKey :: "Dataset \<Rightarrow> string" where
  "exampleKey d =
     (case find key_column (map f_Name (d_Fields d)) of
        Some n \<Rightarrow> n
      | None \<Rightarrow> (case d_Fields d of f # _ \<Rightarrow> f_Name f | [] \<Rightarrow> ''id''))"

definition field_meta :: "Enrichment \<Rightarrow> string \<Rightarrow> string \<Rightarrow> FieldMeta" where
  "field_meta e table column =
     (case Enrichment_Field e table column of Some fm \<Rightarrow> fm | None \<Rightarrow> no_field_meta)"

definition template_field :: "Enrichment \<Rightarrow> Dataset \<Rightarrow> Field \<Rightarrow> templateField" where
  "template_field e d f =
     (let fm = field_meta e (d_Name d) (f_Name f)
      in \<lparr>tf_Name = f_Name f,
          tf_Expression = (case Select (f_Expression f) of
              Some ex \<Rightarrow> if ex = [] then f_Name f else ex
            | None \<Rightarrow> f_Name f),
          tf_Description = (if fm_Description fm \<noteq> [] then fm_Description fm else f_Description f),
          tf_Synonyms = fm_Synonyms fm, tf_Sensitive = fm_Sensitive fm,
          tf_IsTime = (case f_Dimension f of Some dm \<Rightarrow> dim_IsTime dm | None \<Rightarrow> False)\<rparr>)"

definition template_dataset :: "Enrichment \<Rightarrow> Dataset \<Rightarrow> templateDataset" where
  "template_dataset e d =
     (let tm = (case Enrichment_Table e (d_Name d) of Some m \<Rightarrow> m | None \<Rightarrow> no_table_meta)
      in \<lparr>td_Name = d_Name d, td_Source = d_Source d, td_ExampleKey = exampleKey d,
          td_Description = tm_Description tm, td_Synonyms = tm_Synonyms tm, td_Deprecated = tm_Deprecated tm,
          td_Fields = map (template_field e d) (d_Fields d)\<rparr>)"

definition template_relationship :: "CandidateRelationship \<Rightarrow> templateRelationship" where
  "template_relationship c =
     \<lparr>tr_Name = r_Name c, tr_From = r_From c, tr_To = r_To c, tr_FromColumns = r_FromColumns c,
      tr_ToColumns = r_ToColumns c, tr_Reason = cand_Reason c\<rparr>"

definition prepareTemplateData ::
  "(Table list \<Rightarrow> Table list) \<Rightarrow> (CandidateRelationship list \<Rightarrow> CandidateRelationship list)
     \<Rightarrow> TemplateOptions \<Rightarrow> Table list \<Rightarrow> Enrichment \<Rightarrow> semanticModelTemplateData" where
  "prepareTemplateData srt srtc opts tables e =
     \<lparr>sd_APIVersion = GroupVersion, sd_SpecVersion = ossieSpecVersion, sd_Options = opts,
      sd_Datasets = map (template_dataset e) (DeriveDatasets srt tables),
      sd_Relationships = map template_relationship (InferRelationships srt srtc tables),
      sd_DeniedFields = en_DeniedFields e, sd_Enriched = (\<not> Enrichment_Empty e)\<rparr>"

text \<open>The synonyms of a dataset or field become its \<^verbatim>\<open>ai_context\<close>, as the JSON text the YAML converts
  to. Relationships and metrics are written as comments only.\<close>

definition scaffold_context :: "string list \<Rightarrow> string option" where
  "scaffold_context synonyms = (if synonyms = [] then None else Some (AIContextJSON synonyms))"

definition scaffold_field :: "templateField \<Rightarrow> Field" where
  "scaffold_field f =
     \<lparr>f_Name = tf_Name f, f_Expression = [\<lparr>de_Dialect = ''ANSI_SQL'', de_Expression = tf_Expression f\<rparr>],
      f_Dimension = (if tf_IsTime f then Some \<lparr>dim_IsTime = True\<rparr> else None), f_Label = [],
      f_Description = tf_Description f, f_AIContext = scaffold_context (tf_Synonyms f), f_CustomExtensions = []\<rparr>"

definition scaffold_dataset :: "templateDataset \<Rightarrow> Dataset" where
  "scaffold_dataset d =
     \<lparr>d_Name = td_Name d, d_Source = td_Source d, d_PrimaryKey = [], d_UniqueKeys = [],
      d_Description = td_Description d, d_AIContext = scaffold_context (td_Synonyms d),
      d_Fields = map scaffold_field (td_Fields d), d_CustomExtensions = []\<rparr>"

definition scaffold_governance :: "string list \<Rightarrow> GovernanceSpec option" where
  "scaffold_governance denied =
     (if denied = [] then None
      else Some \<lparr>g_DefaultRole = ''analyst'',
        g_Roles = [\<lparr>rp_Name = ''analyst'', rp_AllowMetrics = [''*''], rp_DenyFields = denied, rp_RowFilters = []\<rparr>],
        g_External = None\<rparr>)"

definition scaffold_spec :: "semanticModelTemplateData \<Rightarrow> SemanticModelSpec" where
  "scaffold_spec sd =
     \<lparr>s_Connection = \<lparr>conn_Catalog = to_Catalog (sd_Options sd), conn_Database = to_Database (sd_Options sd),
        conn_ViewDatabase = ''semantic_views''\<rparr>,
      s_Ossie = \<lparr>om_Name = to_Model (sd_Options sd), om_Description = [], om_AIContext = None,
        om_Datasets = map scaffold_dataset (sd_Datasets sd), om_Relationships = [], om_Metrics = [],
        om_CustomExtensions = []\<rparr>,
      s_Governance = scaffold_governance (sd_DeniedFields sd), s_Views = [], s_Joins = []\<rparr>"

section \<open>What derivation keeps\<close>

text \<open>What \<^verbatim>\<open>sort.Slice\<close> promises: a permutation in the order of the key, ties anyhow.\<close>

definition sorts_by :: "('a \<Rightarrow> string) \<Rightarrow> ('a list \<Rightarrow> 'a list) \<Rightarrow> bool" where
  "sorts_by key srt \<longleftrightarrow> (\<forall>xs. mset (srt xs) = mset xs \<and> sorted (map key (srt xs)))"

lemma sorts_by_sort_key: "sorts_by key (sort_key key)"
  by (simp add: sorts_by_def)

lemma sorts_by_set: "sorts_by key srt \<Longrightarrow> set (srt xs) = set xs"
  unfolding sorts_by_def by (metis mset_eq_setD)

lemma sorts_by_distinct: "sorts_by key srt \<Longrightarrow> distinct (map f (srt xs)) \<longleftrightarrow> distinct (map f xs)"
proof -
  assume "sorts_by key srt"
  then have "mset (map f (srt xs)) = mset (map f xs)" by (simp add: sorts_by_def)
  then show ?thesis by (rule mset_eq_imp_distinct_iff)
qed

lemma sorts_by_Nil: "sorts_by key srt \<Longrightarrow> srt xs = [] \<longleftrightarrow> xs = []"
  using sorts_by_set[of key srt xs] by auto

lemma f_Name_identity_field [simp]: "f_Name (identity_field c) = tc_Name c"
  by (simp add: identity_field_def)

lemma Select_identity [simp]: "Select [\<lparr>de_Dialect = ''ANSI_SQL'', de_Expression = e\<rparr>] = Some e"
  by (simp add: Select_def DialectPreference_def first_dialect_def)

definition table_ok :: "Table \<Rightarrow> bool" where
  "table_ok t \<longleftrightarrow> tb_Name t \<noteq> [] \<and> CHR ''.'' \<notin> set (tb_Name t)
     \<and> distinct (map tc_Name (tb_Columns t)) \<and> (\<forall>c\<in>set (tb_Columns t). tc_Name c \<noteq> [])"

lemma SyncFields_nothing_new: "tc_Name ` set (tb_Columns t) \<subseteq> f_Name ` set (d_Fields d) \<Longrightarrow> SyncFields d t = (d, 0)"
proof -
  assume "tc_Name ` set (tb_Columns t) \<subseteq> f_Name ` set (d_Fields d)"
  then have "filter (\<lambda>c. tc_Name c \<notin> f_Name ` set (d_Fields d)) (tb_Columns t) = []"
    by (auto simp: filter_empty_conv)
  then show ?thesis by (simp add: SyncFields_def)
qed

text \<open>
  Synchronizing a dataset with its table keeps every field it has, at its place and as it is, adds
  an identity field for exactly the columns without one, and has nothing left to add afterwards:
  field names stay distinct and a second run changes nothing.
\<close>

theorem SyncFields_conservative:
  assumes "distinct (map f_Name (d_Fields d))" "distinct (map tc_Name (tb_Columns t))"
  shows "\<exists>added. d_Fields (fst (SyncFields d t)) = d_Fields d @ added
      \<and> fst (SyncFields d t) = d\<lparr>d_Fields := d_Fields d @ added\<rparr>
      \<and> snd (SyncFields d t) = length added
      \<and> f_Name ` set added = tc_Name ` set (tb_Columns t) - f_Name ` set (d_Fields d)
      \<and> distinct (map f_Name (d_Fields d @ added))
      \<and> SyncFields (fst (SyncFields d t)) t = (fst (SyncFields d t), 0)"
proof -
  let ?new = "filter (\<lambda>c. tc_Name c \<notin> f_Name ` set (d_Fields d)) (tb_Columns t)"
  have s: "SyncFields d t = (d\<lparr>d_Fields := d_Fields d @ map identity_field ?new\<rparr>, length ?new)"
    by (simp add: SyncFields_def Let_def)
  have n: "f_Name ` set (map identity_field ?new) = tc_Name ` set (tb_Columns t) - f_Name ` set (d_Fields d)"
    by (auto simp: image_image)
  have i: "SyncFields (fst (SyncFields d t)) t = (fst (SyncFields d t), 0)"
    by (rule SyncFields_nothing_new) (auto simp: s image_Un image_image)
  have dn: "distinct (map f_Name (d_Fields d @ map identity_field ?new))"
    unfolding map_append distinct_append list.map_comp comp_def f_Name_identity_field
    by (intro conjI assms(1) distinct_map_filter assms(2)) (auto, metis imageI)
  show ?thesis
  proof (intro exI conjI)
    show "fst (SyncFields d t) = d\<lparr>d_Fields := d_Fields d @ map identity_field ?new\<rparr>" by (simp add: s)
    show "d_Fields (fst (SyncFields d t)) = d_Fields d @ map identity_field ?new" by (simp add: s)
    show "snd (SyncFields d t) = length (map identity_field ?new)" by (simp add: s)
  qed (rule n dn i)+
qed

section \<open>The scaffold validates and compiles\<close>

lemma scaffold_datasets:
  "om_Datasets (s_Ossie (scaffold_spec (prepareTemplateData srt srtc opts tables e)))
   = map (\<lambda>t. scaffold_dataset (template_dataset e (derive_dataset t))) (srt tables)"
  by (simp add: scaffold_spec_def prepareTemplateData_def DeriveDatasets_def)

lemma scaffold_dataset_simps:
  "d_Name (scaffold_dataset (template_dataset e (derive_dataset t))) = tb_Name t"
  "d_Source (scaffold_dataset (template_dataset e (derive_dataset t))) = tb_Name t"
  "map f_Name (d_Fields (scaffold_dataset (template_dataset e (derive_dataset t)))) = map tc_Name (tb_Columns t)"
  by (simp_all add: scaffold_dataset_def template_dataset_def derive_dataset_def Let_def scaffold_field_def
      template_field_def)

lemma scaffold_dataset_valid: "table_ok t \<Longrightarrow> valid_dataset (scaffold_dataset (template_dataset e (derive_dataset t)))"
  unfolding valid_dataset_def scaffold_dataset_simps
  by (auto simp: table_ok_def valid_field_def scaffold_dataset_def template_dataset_def derive_dataset_def Let_def
      scaffold_field_def template_field_def)

lemma denied_of_iff: "r \<in> set (denied_of meta t) \<longleftrightarrow>
    (\<exists>tm c fm. map_of meta (tb_Name t) = Some tm \<and> c \<in> set (tb_Columns t)
       \<and> map_of (tm_Fields tm) (tc_Name c) = Some fm \<and> fm_Sensitive fm \<and> r = tb_Name t @ ''.'' @ tc_Name c)"
proof (cases "map_of meta (tb_Name t)")
  case (Some tm)
  then show ?thesis by (auto simp: denied_of_def sensitive_columns_def split: option.splits)
qed (simp add: denied_of_def)

lemma EnrichWith_denied: "set (en_DeniedFields (EnrichWith tables meta))
    = (case meta of None \<Rightarrow> {} | Some mt \<Rightarrow> \<Union> (set ` denied_of mt ` set tables))"
  by (auto simp: EnrichWith_def no_enrichment_def split: option.splits)

text \<open>What an enrichment can come from: metadata interpreted over these tables.\<close>

definition enrichment_of :: "Table list \<Rightarrow> Enrichment \<Rightarrow> bool" where
  "enrichment_of tables e \<longleftrightarrow> (\<exists>meta. e = EnrichWith tables meta)"

lemma Enrich_enrichment_of: "enrichment_of tables (Enrich en database tables)"
proof -
  have "no_enrichment = EnrichWith tables None" by (simp add: EnrichWith_def)
  then show ?thesis unfolding enrichment_of_def Enrich_def by (auto split: option.splits sum.splits)
qed

lemma denied_valid:
  assumes "enrichment_of tables e" "\<forall>t\<in>set tables. table_ok t" "df \<in> set (en_DeniedFields e)"
  shows "\<exists>t\<in>set tables. \<exists>c\<in>set (tb_Columns t). df = tb_Name t @ ''.'' @ tc_Name c
     \<and> splitRef df = Some (tb_Name t, tc_Name c)"
proof -
  from assms(1,3) obtain mt t where t: "t \<in> set tables" "df \<in> set (denied_of mt t)"
    by (auto simp: enrichment_of_def EnrichWith_denied split: option.splits)
  then obtain c where c: "c \<in> set (tb_Columns t)" "df = tb_Name t @ ''.'' @ tc_Name c"
    by (auto simp: denied_of_iff)
  have "table_ok t" using assms(2) t by blast
  with c have "splitRef df = Some (tb_Name t, tc_Name c)"
    using cut_dot_app[of "tb_Name t" "tc_Name c"] by (force simp: table_ok_def splitRef_def)
  with t c show ?thesis by blast
qed

definition options_ok :: "TemplateOptions \<Rightarrow> bool" where
  "options_ok o' \<longleftrightarrow> to_Model o' \<noteq> [] \<and> to_Catalog o' \<noteq> [] \<and> to_Database o' \<noteq> []"

lemma scaffold_governance_valid:
  assumes "enrichment_of tables e" "\<forall>t\<in>set tables. table_ok t" "d_Name ` set ds = tb_Name ` set tables"
    and "scaffold_governance (en_DeniedFields e) = Some g"
  shows "valid_governance ds g"
proof -
  have "\<exists>n f. splitRef df = Some (n, f) \<and> n \<in> d_Name ` set ds" if "df \<in> set (en_DeniedFields e)" for df
    using denied_valid[OF assms(1,2) that] assms(3) by auto
  then show ?thesis
    using assms(4) by (auto simp: scaffold_governance_def valid_governance_def valid_role_def split: if_splits)
qed

lemma scaffold_valid:
  assumes "sorts_by tb_Name srt" "options_ok opts" "tables \<noteq> []" "distinct (map tb_Name tables)"
    and "\<forall>t\<in>set tables. table_ok t" "enrichment_of tables e"
  shows "valid_spec (scaffold_spec (prepareTemplateData srt srtc opts tables e))"
proof -
  let ?s = "scaffold_spec (prepareTemplateData srt srtc opts tables e)"
  let ?ds = "om_Datasets (s_Ossie ?s)"
  have st: "set (srt tables) = set tables" using sorts_by_set[OF assms(1)] .
  have names: "map d_Name ?ds = map tb_Name (srt tables)"
    by (simp add: scaffold_datasets scaffold_dataset_simps)
  then have dn: "d_Name ` set ?ds = tb_Name ` set tables" by (metis image_set st)
  have "\<forall>d\<in>set ?ds. valid_dataset d"
    using assms(5) st by (auto simp: scaffold_datasets scaffold_dataset_valid)
  moreover have "?ds \<noteq> []" using sorts_by_Nil[OF assms(1)] assms(3) by (simp add: scaffold_datasets)
  moreover have "distinct (map d_Name ?ds)" unfolding names sorts_by_distinct[OF assms(1)] by (rule assms(4))
  moreover have "\<forall>g. s_Governance ?s = Some g \<longrightarrow> valid_governance ?ds g"
    using scaffold_governance_valid[OF assms(6,5) dn]
    by (simp add: scaffold_spec_def prepareTemplateData_def)
  moreover have rest: "s_Connection ?s = \<lparr>conn_Catalog = to_Catalog opts, conn_Database = to_Database opts, conn_ViewDatabase = ''semantic_views''\<rparr>"
    "om_Name (s_Ossie ?s) = to_Model opts" "om_Relationships (s_Ossie ?s) = []" "om_Metrics (s_Ossie ?s) = []"
    "s_Views ?s = []" "s_Joins ?s = []"
    by (simp_all add: scaffold_spec_def prepareTemplateData_def)
  ultimately show ?thesis
    using assms(2) unfolding valid_spec_def Let_def rest by (simp add: options_ok_def acyclic_def)
qed

lemma split_at_single: "c \<notin> set s \<Longrightarrow> split_at c s = [s]"
  by (induction s) auto


definition sample_column :: "string \<Rightarrow> string \<Rightarrow> TableColumn" where
  "sample_column n t = \<lparr>tc_Name = n, tc_Type = t, tc_Comment = []\<rparr>"

definition sample_tables :: "Table list" where
  "sample_tables =
     [\<lparr>tb_Name = ''orders'', tb_Columns = [sample_column ''o_user_id'' ''bigint'', sample_column ''o_date'' ''date'']\<rparr>,
      \<lparr>tb_Name = ''user'', tb_Columns = [sample_column ''u_user_id'' ''bigint'', sample_column ''u_mail'' ''varchar'']\<rparr>]"

definition sample_meta :: "(string \<times> TableMeta) list" where
  "sample_meta = [(''user'', no_table_meta\<lparr>tm_Fields := [(''u_mail'', no_field_meta\<lparr>fm_Sensitive := True\<rparr>),
     (''gone'', no_field_meta\<lparr>fm_Sensitive := True\<rparr>)]\<rparr>)]"

definition sample_options :: TemplateOptions where
  "sample_options = \<lparr>to_CRName = ''derived-model'', to_Namespace = ''semantic-system'', to_Catalog = ''iceberg'',
     to_Database = ''shop'', to_Model = ''derived_model''\<rparr>"

lemma sample_tables_ok: "sample_tables \<noteq> []" "distinct (map tb_Name sample_tables)" "\<forall>t\<in>set sample_tables. table_ok t"
  by (auto simp: sample_tables_def table_ok_def sample_column_def)


section \<open>Classified columns are denied\<close>

lemma scaffold_wanted_role:
  assumes "granting \<lparr>g_DefaultRole = ''analyst'', g_Roles = [\<lparr>rp_Name = ''analyst'', rp_AllowMetrics = ms, rp_DenyFields = denied,
      rp_RowFilters = []\<rparr>], g_External = None\<rparr> r = Some p"
  shows "rp_DenyFields p = denied"
  using assms by (auto simp: granting_def Role_def split: option.splits if_splits)

text \<open>
  A column that the metadata catalog classifies as sensitive is out of reach of every caller of the derived
  model: whatever the roles and groups of the caller, a request that touches it is refused.
\<close>

lemma sensitive_columns_denied:
  assumes "t \<in> set tables" "c \<in> set (tb_Columns t)" "map_of meta (tb_Name t) = Some tm"
    and "map_of (tm_Fields tm) (tc_Name c) = Some fm" "fm_Sensitive fm"
    and "ref \<in> set refs" "FieldRef_String ref = tb_Name t @ ''.'' @ tc_Name c"
  shows "\<not> isOK (Authorize compile
      (s_Governance (scaffold_spec (prepareTemplateData srt srtc opts tables (EnrichWith tables (Some meta))))) idn metrics refs
      :: ('l gov_error, Decision) result)"
proof -
  let ?e = "EnrichWith tables (Some meta)"
  let ?g = "\<lparr>g_DefaultRole = ''analyst'', g_Roles = [\<lparr>rp_Name = ''analyst'', rp_AllowMetrics = [''*''],
      rp_DenyFields = en_DeniedFields ?e, rp_RowFilters = []\<rparr>], g_External = None\<rparr>"
  have "tb_Name t @ ''.'' @ tc_Name c \<in> set (denied_of meta t)"
    unfolding denied_of_iff using assms(2-5) by blast
  then have d: "FieldRef_String ref \<in> set (en_DeniedFields ?e)"
    unfolding assms(7) EnrichWith_denied using assms(1) by auto
  then have g: "s_Governance (scaffold_spec (prepareTemplateData srt srtc opts tables ?e)) = Some ?g"
    by (auto simp: scaffold_spec_def prepareTemplateData_def scaffold_governance_def)
  have "authorizing_roles compile ?g idn metrics refs = {}"
    using scaffold_wanted_role d assms(6) by (fastforce simp: authorizing_roles_def policy_permits_def)
  then show ?thesis unfolding g isOK_iff by (blast dest: Authorize_soundness_facts)
qed

section \<open>Candidates\<close>

lemma key_index_iff: "(tn, cn) \<in> set (key_index ts suf) \<longleftrightarrow>
    (\<exists>t\<in>set ts. \<exists>c\<in>set (tb_Columns t). tn = tb_Name t \<and> cn = tc_Name c \<and> keySuffix cn = Some suf)"
  by (auto simp: key_index_def)

lemma set_dedupe_loop: "set (dedupe_loop seen cs) \<subseteq> set cs"
  by (induction seen cs rule: dedupe_loop.induct) auto

lemma dedupe_loop_keys:
  "distinct (map candidate_key (dedupe_loop seen cs))
   \<and> candidate_key ` set (dedupe_loop seen cs) = candidate_key ` set cs - set seen"
  by (induction seen cs rule: dedupe_loop.induct) auto

lemma column_candidates_iff:
  "k \<in> set (column_candidates ts t c) \<longleftrightarrow>
     (\<exists>suf t'. \<exists>c'. keySuffix (tc_Name c) = Some suf \<and> t' \<in> set ts \<and> c' \<in> set (tb_Columns t')
        \<and> keySuffix (tc_Name c') = Some suf \<and> tb_Name t' \<noteq> tb_Name t \<and> ownsKey (tb_Name t') (tc_Name c') suf
        \<and> k = candidate (tb_Name t) (tc_Name c) suf (tb_Name t', tc_Name c'))"
proof (cases "keySuffix (tc_Name c)")
  case (Some suf)
  have "set (column_candidates ts t c) = candidate (tb_Name t) (tc_Name c) suf
      ` {p \<in> set (key_index ts suf). fst p \<noteq> tb_Name t \<and> ownsKey (fst p) (snd p) suf}"
    unfolding column_candidates_def Some option.case set_map set_filter by (rule arg_cong[where f = "(`) _"]) auto
  then have "k \<in> set (column_candidates ts t c) \<longleftrightarrow> (\<exists>tn cn. (tn, cn) \<in> set (key_index ts suf) \<and> tn \<noteq> tb_Name t
      \<and> ownsKey tn cn suf \<and> k = candidate (tb_Name t) (tc_Name c) suf (tn, cn))"
    by (fastforce simp: image_iff)
  then show ?thesis unfolding key_index_iff Some option.inject by blast
qed (simp add: column_candidates_def)

text \<open>Two columns of different tables that share a key suffix, the second on the side that owns the key.\<close>

definition joinable :: "Table \<Rightarrow> TableColumn \<Rightarrow> Table \<Rightarrow> TableColumn \<Rightarrow> bool" where
  "joinable t c t' c' \<longleftrightarrow> c \<in> set (tb_Columns t) \<and> c' \<in> set (tb_Columns t') \<and> tb_Name t \<noteq> tb_Name t'
     \<and> (\<exists>suf. keySuffix (tc_Name c) = Some suf \<and> keySuffix (tc_Name c') = Some suf
          \<and> ownsKey (tb_Name t') (tc_Name c') suf)"

definition joins_over :: "CandidateRelationship \<Rightarrow> Table \<Rightarrow> TableColumn \<Rightarrow> Table \<Rightarrow> TableColumn \<Rightarrow> bool" where
  "joins_over k t c t' c' \<longleftrightarrow> r_From k = tb_Name t \<and> r_FromColumns k = [tc_Name c]
     \<and> r_To k = tb_Name t' \<and> r_ToColumns k = [tc_Name c']"

lemma joins_over_candidate: "joins_over (candidate (tb_Name t) (tc_Name c) suf (tb_Name t', tc_Name c')) t c t' c'"
  by (simp add: joins_over_def candidate_def)

lemma joins_over_key: "joins_over k t c t' c' \<Longrightarrow> candidate_key k = tb_Name t @ ''|'' @ tb_Name t' @ ''|'' @ tc_Name c"
  by (simp add: joins_over_def candidate_key_def)

lemma joinable_candidate:
  assumes "joinable t c t' c'" "t' \<in> set ts"
  shows "\<exists>k\<in>set (column_candidates ts t c). joins_over k t c t' c'"
proof -
  from assms obtain suf where s: "keySuffix (tc_Name c) = Some suf" "keySuffix (tc_Name c') = Some suf"
    "ownsKey (tb_Name t') (tc_Name c') suf" "c' \<in> set (tb_Columns t')" "tb_Name t' \<noteq> tb_Name t"
    by (auto simp: joinable_def)
  have "candidate (tb_Name t) (tc_Name c) suf (tb_Name t', tc_Name c') \<in> set (column_candidates ts t c)"
    unfolding column_candidates_iff
    by (intro exI[of _ suf] exI[of _ t'] exI[of _ c'] conjI refl) (use s assms(2) in auto)
  with joins_over_candidate show ?thesis by blast
qed

lemma candidate_joinable:
  assumes "k \<in> set (column_candidates ts t c)" "c \<in> set (tb_Columns t)"
  shows "\<exists>t'\<in>set ts. \<exists>c'. joinable t c t' c' \<and> joins_over k t c t' c'"
proof -
  from assms(1)[unfolded column_candidates_iff] obtain suf t' c' where
    k: "keySuffix (tc_Name c) = Some suf" "t' \<in> set ts" "c' \<in> set (tb_Columns t')"
      "keySuffix (tc_Name c') = Some suf" "tb_Name t' \<noteq> tb_Name t" "ownsKey (tb_Name t') (tc_Name c') suf"
      "k = candidate (tb_Name t) (tc_Name c) suf (tb_Name t', tc_Name c')"
    by blast
  have "joinable t c t' c'" using k assms(2) by (auto simp: joinable_def)
  moreover have "joins_over k t c t' c'" unfolding k(7) by (rule joins_over_candidate)
  ultimately show ?thesis using k(2) by blast
qed

text \<open>
  The candidates are the join edges that the physical schema suggests: each joins two different
  tables of the input over columns that exist and share a key suffix, towards a table that owns the
  key, no two join one column to one table, and every column with such a partner in a table is
  proposed for that table.
\<close>

theorem InferRelationships_exact:
  assumes "sorts_by tb_Name srt" "sorts_by r_Name srtc"
  shows "(\<forall>k\<in>set (InferRelationships srt srtc tables).
        \<exists>t\<in>set tables. \<exists>t'\<in>set tables. \<exists>c c'. joinable t c t' c' \<and> joins_over k t c t' c')
    \<and> distinct (map candidate_key (InferRelationships srt srtc tables))
    \<and> (\<forall>t\<in>set tables. \<forall>t'\<in>set tables. \<forall>c c'. joinable t c t' c' \<longrightarrow>
        (\<exists>k\<in>set (InferRelationships srt srtc tables). candidate_key k = tb_Name t @ ''|'' @ tb_Name t' @ ''|'' @ tc_Name c))"
    (is "?sound \<and> ?dist \<and> ?complete")
proof -
  let ?ts = "srt tables"
  let ?all = "concat (map (\<lambda>t. concat (map (column_candidates ?ts t) (tb_Columns t))) ?ts)"
  let ?out = "InferRelationships srt srtc tables"
  have st: "set ?ts = set tables" using sorts_by_set[OF assms(1)] .
  have sc: "set (srtc ?all) = set ?all" using sorts_by_set[OF assms(2)] .
  have out: "?out = dedupe_loop [] (srtc ?all)" by (simp add: InferRelationships_def dedupeCandidates_def Let_def)
  have sub: "set ?out \<subseteq> set ?all" unfolding out sc[symmetric] by (rule set_dedupe_loop)
  have keys: "?dist" "candidate_key ` set ?out = candidate_key ` set ?all"
    using dedupe_loop_keys[of "[]" "srtc ?all"] by (simp_all add: out sc)
  have all: "k \<in> set ?all \<longleftrightarrow> (\<exists>t\<in>set tables. \<exists>c\<in>set (tb_Columns t). k \<in> set (column_candidates ?ts t c))" for k
    using st by auto
  have ?sound
  proof
    fix k assume "k \<in> set ?out"
    then obtain t c where tc: "t \<in> set tables" "c \<in> set (tb_Columns t)" "k \<in> set (column_candidates ?ts t c)"
      using sub all by blast
    from candidate_joinable[OF tc(3,2)] tc(1) show
      "\<exists>t\<in>set tables. \<exists>t'\<in>set tables. \<exists>c c'. joinable t c t' c' \<and> joins_over k t c t' c'"
      unfolding st by blast
  qed
  moreover have "\<exists>k\<in>set ?out. candidate_key k = tb_Name t @ ''|'' @ tb_Name t' @ ''|'' @ tc_Name c"
    if "t \<in> set tables" "t' \<in> set tables" "joinable t c t' c'" for t t' c c'
  proof -
    from joinable_candidate[OF that(3)] that(2) st obtain k where
      k: "k \<in> set (column_candidates ?ts t c)" "joins_over k t c t' c'" by blast
    have "c \<in> set (tb_Columns t)" using that(3) by (simp add: joinable_def)
    with k(1) that(1) have "k \<in> set ?all" using all by blast
    then have "candidate_key k \<in> candidate_key ` set ?out" unfolding keys(2) by (rule imageI)
    with joins_over_key[OF k(2)] show ?thesis by (auto simp: image_iff)
  qed
  ultimately show ?thesis using keys(1) by blast
qed

theorem InferRelationships_exact_witness:
  "\<exists>k\<in>set (InferRelationships (sort_key tb_Name) (sort_key r_Name) sample_tables).
     candidate_key k = ''orders|user|o_user_id''"
proof -
  have j: "joinable (sample_tables ! 0) (sample_column ''o_user_id'' ''bigint'') (sample_tables ! 1)
      (sample_column ''u_user_id'' ''bigint'')"
    by (simp add: joinable_def sample_tables_def sample_column_def keySuffix_def key_column_def ownsKey_def
        trim_suffix_def suffix_def)
  from InferRelationships_exact[OF sorts_by_sort_key sorts_by_sort_key, of sample_tables] j show ?thesis
    by (force simp: sample_tables_def sample_column_def)
qed

section \<open>Where the inference falls short\<close>

text \<open>Two tables that name the same key column alike are not joined: only the text up to the first
  underscore is cut off, so the suffix of \<open>customer_id\<close> is \<open>id\<close> and no longer names its table.\<close>

lemma exact_name_not_proposed:
  "InferRelationships (sort_key tb_Name) (sort_key r_Name)
     [\<lparr>tb_Name = ''customer'', tb_Columns = [sample_column ''customer_id'' ''bigint'']\<rparr>,
      \<lparr>tb_Name = ''orders'', tb_Columns = [sample_column ''customer_id'' ''bigint'']\<rparr>] = []"
  by code_simp

text \<open>Two columns of one table that refer to the same table get candidates of the same name, which the
  validator refuses when both are moved into the list.\<close>

definition two_users :: "Table list" where
  "two_users =
     [\<lparr>tb_Name = ''orders'', tb_Columns = [sample_column ''bill_user_id'' ''bigint'', sample_column ''ship_user_id'' ''bigint'']\<rparr>,
      \<lparr>tb_Name = ''user'', tb_Columns = [sample_column ''u_user_id'' ''bigint'']\<rparr>]"

definition with_relationships :: "SemanticModelSpec \<Rightarrow> CandidateRelationship list \<Rightarrow> SemanticModelSpec" where
  "with_relationships spec cs =
     spec\<lparr>s_Ossie := (s_Ossie spec)\<lparr>om_Relationships := map Relationship.truncate cs\<rparr>\<rparr>"

lemma candidates_share_name:
  "map r_Name (InferRelationships (sort_key tb_Name) (sort_key r_Name) two_users) = [''orders_to_user'', ''orders_to_user'']
   \<and> ValidateSpec [''orders''] (with_relationships
       (scaffold_spec (prepareTemplateData (sort_key tb_Name) (sort_key r_Name) sample_options two_users no_enrichment))
       (InferRelationships (sort_key tb_Name) (sort_key r_Name) two_users))
     = Some [DuplicateRelationship ''orders_to_user'']"
proof
  show "map r_Name (InferRelationships (sort_key tb_Name) (sort_key r_Name) two_users) = [''orders_to_user'', ''orders_to_user'']"
    by code_simp
  show "ValidateSpec [''orders''] (with_relationships
       (scaffold_spec (prepareTemplateData (sort_key tb_Name) (sort_key r_Name) sample_options two_users no_enrichment))
       (InferRelationships (sort_key tb_Name) (sort_key r_Name) two_users))
     = Some [DuplicateRelationship ''orders_to_user'']"
    by code_simp
qed

section \<open>Synonyms\<close>

text \<open>The synonyms of the metadata catalog reach the compiled model unchanged, when they are well-formed
  UTF-8: they are written as \<^verbatim>\<open>ai_context\<close> and read back from it.\<close>

lemma AIContextJSON_decoded:
  assumes "list_all utf8_ok synonyms" "synonyms \<noteq> []"
  shows "DecodeAIContext (Some (AIContextJSON synonyms)) = empty_AIContext\<lparr>ai_Synonyms := synonyms\<rparr>"
proof -
  have "list_all2 reads (map JStr synonyms) (map json_string synonyms)"
    using assms(1) by (auto simp: list_all2_map1 list_all2_map2 list_all2_same list_all_iff reads_string)
  then have r: "reads (JObj [(''synonyms'', JArr (map JStr synonyms))]) (AIContextJSON synonyms)"
    unfolding AIContextJSON_def using assms(2) by (intro reads_members) (simp add: reads_list utf8_ok_ascii byte_def)
  have "AIContextJSON synonyms \<noteq> []" by (simp add: AIContextJSON_def json_members_def)
  moreover have "decode_strings_at [] (map JStr ss) = ss" for ss by (induction ss) auto
  moreover have "equal_fold ''synonyms'' ''synonyms''" "\<not> equal_fold ''synonyms'' ''instructions''"
    by (simp_all add: equal_fold_def) code_simp
  ultimately show ?thesis
    using json_parse_reads[OF r] by (simp add: DecodeAIContext_def ai_member_def empty_AIContext_def)
qed

end
