(* ===== verification/Datahub.thy ===== *)
theory Datahub
  imports Catalog Plan "HOL-Library.AList"
begin

text \<open>
  \<^verbatim>\<open>internal/catalog/datahub\<close>: the enricher over a DataHub instance. The GraphQL server is a parameter
  that answers a request with a status and a body, and so is the decoding of a body; the structs it
  decodes into, their interpretation, the batch request and its fallback are modelled. The last
  section follows a classification from DataHub to the planner.
\<close>

section \<open>The response\<close>

text \<open>\<^verbatim>\<open>tagList\<close> and \<^verbatim>\<open>termList\<close>: for each entry the name in its properties, if it has any. A pointer is an option.\<close>

type_synonym tagList = "string option list"

record fieldInfo =
  fi_FieldPath :: string
  fi_Description :: string
  fi_GlobalTags :: "tagList option"
  fi_GlossaryTerms :: "tagList option"

record dataset =
  dh_Properties :: "string option"
  dh_EditableProperties :: "string option"
  dh_Deprecation :: "bool option"
  dh_GlobalTags :: "tagList option"
  dh_GlossaryTerms :: "tagList option"
  dh_SchemaMetadata :: "fieldInfo list option"
  dh_EditableSchemaMetadata :: "fieldInfo list option"

definition stub_dataset :: dataset where
  "stub_dataset = \<lparr>dh_Properties = None, dh_EditableProperties = None, dh_Deprecation = None, dh_GlobalTags = None,
     dh_GlossaryTerms = None, dh_SchemaMetadata = None, dh_EditableSchemaMetadata = None\<rparr>"

definition dataset_isEmpty :: "dataset \<Rightarrow> bool" where
  "dataset_isEmpty d \<longleftrightarrow>
     dh_Properties d = None \<and> dh_EditableProperties d = None \<and> dh_Deprecation d = None
     \<and> dh_GlobalTags d = None \<and> dh_GlossaryTerms d = None
     \<and> dh_SchemaMetadata d = None \<and> dh_EditableSchemaMetadata d = None"

definition tagNames :: "tagList option \<Rightarrow> string list" where
  "tagNames l =
     (case l of
        None \<Rightarrow> []
      | Some ts \<Rightarrow> concat (map (\<lambda>t. case t of None \<Rightarrow> [] | Some n \<Rightarrow> if n \<noteq> [] then [n] else []) ts))"

definition termNames :: "tagList option \<Rightarrow> string list" where
  "termNames l =
     (case l of
        None \<Rightarrow> []
      | Some ts \<Rightarrow> concat (map (\<lambda>t. case t of None \<Rightarrow> [] | Some n \<Rightarrow> if n \<noteq> [] then [n] else []) ts))"

section \<open>The client\<close>

record DataHubOptions =
  do_URL :: string
  do_Token :: string
  do_Platform :: string
  do_DatasetPrefix :: string
  do_Env :: string
  do_Timeout :: int
  do_SensitiveTags :: "string list"

record DataHubClient =
  dc_timeout :: int
  dc_url :: string
  dc_token :: string
  dc_platform :: string
  dc_prefix :: string
  dc_env :: string
  dc_sensitive :: "string list"

definition defaultSensitiveTags :: "string list" where
  "defaultSensitiveTags = [''pii'', ''sensitive'', ''confidential'', ''restricted'']"

definition datahub_New :: "DataHubOptions \<Rightarrow> (string, DataHubClient) result" where
  "datahub_New opts =
     (if do_URL opts = [] then Inl ''datahub: URL is required''
      else if do_Platform opts = [] then Inl ''datahub: platform is required (e.g. iceberg, trino, hive)''
      else
        let tags = (if do_SensitiveTags opts = [] then defaultSensitiveTags else do_SensitiveTags opts)
        in Inr \<lparr>dc_timeout = (if do_Timeout opts = 0 then 30 * 10 ^ 9 else do_Timeout opts),
             dc_url = trim_right_of (CHR ''/'') (do_URL opts), dc_token = do_Token opts,
             dc_platform = do_Platform opts,
             dc_prefix = trim_right_of (CHR ''.'') (dropWhile (\<lambda>x. x = CHR ''.'') (do_DatasetPrefix opts)),
             dc_env = (if do_Env opts = [] then ''PROD'' else do_Env opts),
             dc_sensitive = map (\<lambda>t. to_lower (trim_space t)) tags\<rparr>)"

definition urn :: "DataHubClient \<Rightarrow> string \<Rightarrow> string \<Rightarrow> string" where
  "urn c database table =
     (let path = database @ ''.'' @ table;
          full = (if dc_prefix c \<noteq> [] then dc_prefix c @ ''.'' @ path else path)
      in ''urn:li:dataset:(urn:li:dataPlatform:'' @ dc_platform c @ '','' @ full @ '','' @ dc_env c @ '')'')"

definition authHeader :: "string \<Rightarrow> string" where
  "authHeader token = (if prefix ''Bearer '' token \<or> prefix ''Basic '' token then token else ''Bearer '' @ token)"

definition anySensitive :: "DataHubClient \<Rightarrow> string list list \<Rightarrow> bool" where
  "anySensitive c groups \<longleftrightarrow> (\<exists>g\<in>set groups. \<exists>n\<in>set g. to_lower n \<in> set (dc_sensitive c))"

text \<open>What follows the last \<open>].\<close> of a path: the last piece of \<^verbatim>\<open>strings.Split\<close> at it.\<close>

fun last_piece :: "string \<Rightarrow> string \<Rightarrow> string" where
  "last_piece cur [] = cur"
| "last_piece cur [a] = cur"
| "last_piece cur (a # b # r) =
     (if a = CHR '']'' \<and> b = CHR ''.'' then last_piece r r else last_piece cur (b # r))"

definition columnName :: "string \<Rightarrow> string" where
  "columnName fieldPath =
     (if CHR ''['' \<notin> set fieldPath then
        (if CHR ''.'' \<in> set fieldPath then [] else fieldPath)
      else
        (let last = last_piece fieldPath fieldPath
         in if CHR ''.'' \<in> set last then [] else last))"

definition merge_field :: "DataHubClient \<Rightarrow> (string \<times> FieldMeta) list \<Rightarrow> fieldInfo \<Rightarrow> (string \<times> FieldMeta) list" where
  "merge_field c into f =
     (let name = columnName (fi_FieldPath f)
      in if name = [] then into
         else
           let cur = (case map_of into name of None \<Rightarrow> no_field_meta | Some fm \<Rightarrow> fm);
               cur1 = (if fi_Description f \<noteq> [] then cur\<lparr>fm_Description := fi_Description f\<rparr> else cur);
               terms = termNames (fi_GlossaryTerms f);
               cur2 = (if terms \<noteq> [] then cur1\<lparr>fm_Synonyms := terms\<rparr> else cur1);
               cur3 = (if anySensitive c [tagNames (fi_GlobalTags f), termNames (fi_GlossaryTerms f)]
                       then cur2\<lparr>fm_Sensitive := True\<rparr> else cur2)
           in AList.update name cur3 into)"

definition mergeFields :: "DataHubClient \<Rightarrow> (string \<times> FieldMeta) list \<Rightarrow> fieldInfo list \<Rightarrow> (string \<times> FieldMeta) list" where
  "mergeFields c into infos = foldl (merge_field c) into infos"

definition toTableMeta :: "DataHubClient \<Rightarrow> dataset \<Rightarrow> TableMeta" where
  "toTableMeta c ds =
     (let ingested = (case dh_Properties ds of None \<Rightarrow> [] | Some d \<Rightarrow> d);
          desc = (case dh_EditableProperties ds of
                    Some d \<Rightarrow> if d \<noteq> [] then d else ingested
                  | None \<Rightarrow> ingested);
          layer1 = (case dh_SchemaMetadata ds of None \<Rightarrow> [] | Some fs \<Rightarrow> mergeFields c [] fs);
          layer2 = (case dh_EditableSchemaMetadata ds of None \<Rightarrow> layer1 | Some fs \<Rightarrow> mergeFields c layer1 fs)
      in \<lparr>tm_Description = desc, tm_Synonyms = termNames (dh_GlossaryTerms ds),
          tm_Deprecated = (case dh_Deprecation ds of None \<Rightarrow> False | Some b \<Rightarrow> b), tm_Fields = layer2\<rparr>)"

section \<open>Fetching\<close>

text \<open>
  \<open>gs_http\<close> is the round trip of one request, up to the text of a transport error; \<open>gs_errors\<close> the
  messages of the GraphQL errors that a body decodes to, none when it does not decode;
  \<open>gs_batch\<close> and \<open>gs_single\<close> the data it decodes to, or the text of the decoding error.
\<close>

datatype gql_query = BatchQuery "string list" | DatasetQuery string

record GraphQL =
  gs_http :: "gql_query \<Rightarrow> (string, nat \<times> string) result"
  gs_errors :: "string \<Rightarrow> string list"
  gs_batch :: "string \<Rightarrow> (string, (string \<times> dataset) option list) result"
  gs_single :: "string \<Rightarrow> (string, dataset option) result"

definition maxResponseBytes :: nat where
  "maxResponseBytes = 64 * 2 ^ 20"

definition post :: "GraphQL \<Rightarrow> gql_query \<Rightarrow> (string \<Rightarrow> (string, 'a) result) \<Rightarrow> (string, 'a) result" where
  "post gs q decode =
     (case gs_http gs q of
        Inl e \<Rightarrow> Inl e
      | Inr (status, body) \<Rightarrow>
          if status \<noteq> 200 then Inl (''graphql returned HTTP '' @ nat_str status)
          else
            let raw = take maxResponseBytes body
            in (case gs_errors gs raw of
                  m # _ \<Rightarrow> Inl (''graphql error: '' @ m)
                | [] \<Rightarrow> decode raw))"

definition isUnsupportedQuery :: "string \<Rightarrow> bool" where
  "isUnsupportedQuery err \<longleftrightarrow>
     (let m = to_lower err
      in sublist ''validationerror'' m \<or> sublist (''field '' @ [quote_ch] @ ''entities'' @ [quote_ch]) m
         \<or> sublist ''unknown field'' m \<or> sublist ''cannot query field'' m)"

definition add_entity ::
  "DataHubClient \<Rightarrow> (string \<rightharpoonup> string) \<Rightarrow> (string \<times> TableMeta) list \<Rightarrow> (string \<times> dataset) option \<Rightarrow> (string \<times> TableMeta) list" where
  "add_entity c byURN meta ent =
     (case ent of
        None \<Rightarrow> meta
      | Some (u, ds) \<Rightarrow>
          (case byURN u of
             None \<Rightarrow> meta
           | Some table \<Rightarrow> if dataset_isEmpty ds then meta else AList.update table (toTableMeta c ds) meta))"

definition fetchBatch ::
  "DataHubClient \<Rightarrow> GraphQL \<Rightarrow> string list \<Rightarrow> (string \<rightharpoonup> string) \<Rightarrow> (string, (string \<times> TableMeta) list) result" where
  "fetchBatch c gs urns byURN =
     ebind (post gs (BatchQuery urns) (gs_batch gs)) (\<lambda>entities. Inr (foldl (add_entity c byURN) [] entities))"

definition fetchDataset :: "GraphQL \<Rightarrow> string \<Rightarrow> (string, dataset option) result" where
  "fetchDataset gs u = post gs (DatasetQuery u) (gs_single gs)"

fun describeOneByOne ::
  "DataHubClient \<Rightarrow> GraphQL \<Rightarrow> string \<Rightarrow> (string \<times> TableMeta) list \<Rightarrow> string list \<Rightarrow> (string, (string \<times> TableMeta) list) result" where
  "describeOneByOne c gs database out [] = Inr out"
| "describeOneByOne c gs database out (t # ts) =
     (case fetchDataset gs (urn c database t) of
        Inl e \<Rightarrow> Inl (''datahub: '' @ database @ ''.'' @ t @ '': '' @ e)
      | Inr None \<Rightarrow> describeOneByOne c gs database out ts
      | Inr (Some ds) \<Rightarrow> describeOneByOne c gs database (AList.update t (toTableMeta c ds) out) ts)"

definition DescribeTables ::
  "DataHubClient \<Rightarrow> GraphQL \<Rightarrow> string \<Rightarrow> string list \<Rightarrow> (string, (string \<times> TableMeta) list) result" where
  "DescribeTables c gs database tables =
     (if tables = [] then Inr []
      else
        let urns = map (urn c database) tables;
            byURN = map_of (rev (zip urns tables))
        in (case fetchBatch c gs urns byURN of
              Inr out \<Rightarrow> Inr out
            | Inl err \<Rightarrow>
                if \<not> isUnsupportedQuery err then Inl (''datahub: '' @ err)
                else describeOneByOne c gs database [] tables))"

text \<open>The client is an enricher of \<^verbatim>\<open>package catalog\<close>.\<close>

definition datahub_enricher :: "DataHubClient \<Rightarrow> GraphQL \<Rightarrow> Enricher" where
  "datahub_enricher c gs database tables =
     (case DescribeTables c gs database tables of Inl e \<Rightarrow> Inl e | Inr meta \<Rightarrow> Inr (Some meta))"

section \<open>What the metadata says\<close>

definition sensitive_in :: "(string \<times> FieldMeta) list \<Rightarrow> string \<Rightarrow> bool" where
  "sensitive_in m name = (case map_of m name of None \<Rightarrow> False | Some fm \<Rightarrow> fm_Sensitive fm)"

definition classified :: "DataHubClient \<Rightarrow> fieldInfo list \<Rightarrow> string \<Rightarrow> bool" where
  "classified c infos name \<longleftrightarrow> (\<exists>f\<in>set infos. columnName (fi_FieldPath f) = name
     \<and> anySensitive c [tagNames (fi_GlobalTags f), termNames (fi_GlossaryTerms f)])"

definition column_infos :: "dataset \<Rightarrow> fieldInfo list" where
  "column_infos ds =
     (case dh_SchemaMetadata ds of None \<Rightarrow> [] | Some fs \<Rightarrow> fs)
     @ (case dh_EditableSchemaMetadata ds of None \<Rightarrow> [] | Some fs \<Rightarrow> fs)"

lemma merge_field_sensitive:
  "name \<noteq> [] \<Longrightarrow> sensitive_in (merge_field c into f) name \<longleftrightarrow> sensitive_in into name \<or> classified c [f] name"
  by (cases "map_of into name")
    (auto simp: merge_field_def Let_def sensitive_in_def classified_def update_conv' no_field_meta_def)

lemma mergeFields_sensitive:
  "name \<noteq> [] \<Longrightarrow> sensitive_in (mergeFields c into fs) name \<longleftrightarrow> sensitive_in into name \<or> classified c fs name"
proof (induction fs arbitrary: into)
  case Nil
  then show ?case by (simp add: mergeFields_def classified_def)
next
  case (Cons f fs)
  have "classified c (f # fs) name \<longleftrightarrow> classified c [f] name \<or> classified c fs name"
    by (auto simp: classified_def)
  with Cons merge_field_sensitive[of name c into f] show ?case by (simp add: mergeFields_def)
qed

text \<open>A classification in either layer, ingested or edited, marks the column, and nothing unmarks it.\<close>

lemma toTableMeta_sensitive:
  "name \<noteq> [] \<Longrightarrow> sensitive_in (tm_Fields (toTableMeta c ds)) name \<longleftrightarrow> classified c (column_infos ds) name"
proof -
  assume n: "name \<noteq> []"
  have app: "classified c (xs @ ys) name \<longleftrightarrow> classified c xs name \<or> classified c ys name" for xs ys
    by (auto simp: classified_def)
  have nil: "\<not> sensitive_in [] name" "\<not> classified c [] name" by (simp_all add: sensitive_in_def classified_def)
  show ?thesis
    using n by (simp add: toTableMeta_def Let_def column_infos_def app nil mergeFields_sensitive split: option.split)
qed

section \<open>What is fetched\<close>

lemma urn_inject: "urn c db t = urn c db t' \<longleftrightarrow> t = t'"
  by (simp add: urn_def Let_def)

lemma zip_map_self: "zip (map f xs) xs = map (\<lambda>x. (f x, x)) xs"
  by (induction xs) auto

lemma byURN_lookup: "t \<in> set tables \<Longrightarrow> map_of (rev (zip (map (urn c db) tables) tables)) (urn c db t) = Some t"
proof -
  assume t: "t \<in> set tables"
  let ?m = "rev (zip (map (urn c db) tables) tables)"
  have m: "set ?m = {(urn c db x, x) |x. x \<in> set tables}"
    unfolding zip_map_self set_rev set_map by blast
  have "urn c db t \<in> fst ` set ?m"
    unfolding m by (rule image_eqI[of _ fst "(urn c db t, t)"]) (use t in auto)
  then have "map_of ?m (urn c db t) \<noteq> None" unfolding map_of_eq_None_iff by simp
  then obtain y where "map_of ?m (urn c db t) = Some y" by blast
  moreover from map_of_SomeD[OF this] m have "y = t" by (auto simp: urn_inject)
  ultimately show ?thesis by simp
qed

text \<open>What the server answers for one table: its entity of the batch, or of the single request once
  the batch request is refused.\<close>

definition answered :: "DataHubClient \<Rightarrow> GraphQL \<Rightarrow> string \<Rightarrow> string list \<Rightarrow> string \<Rightarrow> dataset \<Rightarrow> bool" where
  "answered c gs database tables t ds \<longleftrightarrow>
     (case post gs (BatchQuery (map (urn c database) tables)) (gs_batch gs) of
        Inr entities \<Rightarrow> Some (urn c database t, ds) \<in> set entities
          \<and> (\<forall>ds'. Some (urn c database t, ds') \<in> set entities \<longrightarrow> ds' = ds)
      | Inl _ \<Rightarrow> fetchDataset gs (urn c database t) = Inr (Some ds))"

lemma add_entities_lookup:
  assumes "byURN u = Some t" "\<forall>u'. byURN u' = Some t \<longrightarrow> u' = u"
    and "\<forall>ds'. Some (u, ds') \<in> set es \<longrightarrow> ds' = ds" "\<not> dataset_isEmpty ds"
    and "Some (u, ds) \<in> set es \<or> map_of meta t = Some (toTableMeta c ds)"
  shows "map_of (foldl (add_entity c byURN) meta es) t = Some (toTableMeta c ds)"
  using assms(3,5)
proof (induction es arbitrary: meta)
  case (Cons e es)
  have "Some (u, ds) \<in> set es \<or> map_of (add_entity c byURN meta e) t = Some (toTableMeta c ds)"
  proof (cases e)
    case None
    with Cons(3) show ?thesis by (auto simp: add_entity_def)
  next
    case (Some p)
    then obtain u' ds' where p: "e = Some (u', ds')" by (cases p) auto
    show ?thesis
    proof (cases "u' = u")
      case True
      with Cons(2) p have "ds' = ds" by simp
      then show ?thesis using True p assms(1,4) by (simp add: add_entity_def update_conv')
    next
      case False
      with assms(2) have "byURN u' \<noteq> Some t" by blast
      then have "map_of (add_entity c byURN meta e) t = map_of meta t"
        by (auto simp: p add_entity_def update_conv' split: option.splits)
      then show ?thesis using Cons(3) p False by auto
    qed
  qed
  with Cons(1)[of "add_entity c byURN meta e"] Cons(2) show ?case by simp
qed simp

lemma describeOneByOne_lookup:
  assumes "fetchDataset gs (urn c db t) = Inr (Some ds)" "describeOneByOne c gs db out ts = Inr meta"
    and "t \<in> set ts \<or> map_of out t = Some (toTableMeta c ds)"
  shows "map_of meta t = Some (toTableMeta c ds)"
  using assms(2,3)
proof (induction ts arbitrary: out)
  case (Cons x xs)
  from Cons(2) obtain o' where o: "fetchDataset gs (urn c db x) = Inr o'" by (auto split: sum.splits)
  show ?case
  proof (cases o')
    case None
    then have "x \<noteq> t" using o assms(1) by auto
    then show ?thesis using Cons(1)[of out] Cons(2,3) o None by simp
  next
    case (Some d)
    have "d = ds" if "x = t" using that o Some assms(1) by simp
    then show ?thesis
      using Cons(1)[of "AList.update x (toTableMeta c d) out"] Cons(2,3) o Some by (auto simp: update_conv')
  qed
qed simp

lemma DescribeTables_lookup:
  assumes d: "DescribeTables c gs db tables = Inr meta" "t \<in> set tables"
    and a: "answered c gs db tables t ds" "\<not> dataset_isEmpty ds"
  shows "map_of meta t = Some (toTableMeta c ds)"
proof -
  let ?byURN = "map_of (rev (zip (map (urn c db) tables) tables))"
  let ?p = "post gs (BatchQuery (map (urn c db) tables)) (gs_batch gs)"
  have ne: "tables \<noteq> []" using d(2) by auto
  show ?thesis
  proof (cases ?p)
    case (Inr es)
    then have "meta = foldl (add_entity c ?byURN) [] es"
      using d(1) ne by (simp add: DescribeTables_def fetchBatch_def Let_def)
    moreover have inj: "\<forall>u'. ?byURN u' = Some t \<longrightarrow> u' = urn c db t"
      unfolding zip_map_self by (auto dest!: map_of_SomeD)
    moreover have "map_of (foldl (add_entity c ?byURN) [] es) t = Some (toTableMeta c ds)"
    proof (rule add_entities_lookup[where u = "urn c db t"])
      show "?byURN (urn c db t) = Some t" by (rule byURN_lookup[OF d(2)])
    qed (rule inj, use a Inr in \<open>auto simp: answered_def\<close>)
    ultimately show ?thesis by (simp only:)
  next
    case (Inl err)
    then have "describeOneByOne c gs db [] tables = Inr meta"
      using d(1) ne by (simp add: DescribeTables_def fetchBatch_def Let_def split: if_splits)
    moreover have "fetchDataset gs (urn c db t) = Inr (Some ds)" using a(1) Inl by (simp add: answered_def)
    ultimately show ?thesis using describeOneByOne_lookup d(2) by blast
  qed
qed

section \<open>From a classification to the planner\<close>

lemma classified_not_empty: "classified c (column_infos ds) name \<Longrightarrow> \<not> dataset_isEmpty ds"
  by (auto simp: classified_def column_infos_def dataset_isEmpty_def)

text \<open>
  C16. A column that DataHub classifies as sensitive, in the ingested or in the edited layer, found by the
  batch request or by its fallback, is never read: no request over a model that keeps the derived
  governance is planned when it refers to the column, in a dimension, in a filter or inside a metric,
  whoever asks.
\<close>

theorem classified_columns_unreachable:
  assumes "DescribeTables client gs database (map tb_Name tables) = Inr meta"
    and "t \<in> set tables" "c \<in> set (tb_Columns t)" "tc_Name c \<noteq> []"
    and "answered client gs database (map tb_Name tables) (tb_Name t) ds" "classified client (column_infos ds) (tc_Name c)"
    and "cm_Governance cm = s_Governance (scaffold_spec (prepareTemplateData srt srtc opts tables (EnrichWith tables (Some meta))))"
    and "Build compile cm d req idn = Inr p"
  shows "\<forall>ref\<in>request_refs cm req. FieldRef_String ref \<noteq> tb_Name t @ ''.'' @ tc_Name c"
proof (intro ballI notI)
  fix ref assume r: "ref \<in> request_refs cm req" "FieldRef_String ref = tb_Name t @ ''.'' @ tc_Name c"
  have "tb_Name t \<in> set (map tb_Name tables)" using assms(2) by simp
  from DescribeTables_lookup[OF assms(1) this assms(5) classified_not_empty[OF assms(6)]]
  have m: "map_of meta (tb_Name t) = Some (toTableMeta client ds)" .
  from assms(6) obtain fm where fm: "map_of (tm_Fields (toTableMeta client ds)) (tc_Name c) = Some fm" "fm_Sensitive fm"
    unfolding toTableMeta_sensitive[OF assms(4), symmetric] by (auto simp: sensitive_in_def split: option.splits)
  from Build_authorization[OF assms(8)] obtain refs dec where
    a: "set refs = request_refs cm req"
      "Authorize compile (cm_Governance cm) idn (req_Metrics req) refs = (Inr dec :: (literal_error gov_error, Decision) result)"
    by blast
  have "ref \<in> set refs" using r(1) a(1) by simp
  from sensitive_columns_denied[OF assms(2,3) m fm this r(2)] a(2) show False
    unfolding assms(7) by (metis isOK_simps(1))
qed

text \<open>A server that knows one table of the shop example and classifies one of its columns.\<close>

definition sample_client :: DataHubClient where
  "sample_client = \<lparr>dc_timeout = 0, dc_url = ''u'', dc_token = [], dc_platform = ''iceberg'', dc_prefix = [], dc_env = ''PROD'',
     dc_sensitive = defaultSensitiveTags\<rparr>"

definition sample_entity :: dataset where
  "sample_entity = stub_dataset\<lparr>dh_EditableSchemaMetadata := Some
     [\<lparr>fi_FieldPath = ''[version=2.0].[type=struct].[type=string].v'', fi_Description = [],
       fi_GlobalTags = Some [Some ''PII''], fi_GlossaryTerms = None\<rparr>]\<rparr>"

definition sample_server :: GraphQL where
  "sample_server = \<lparr>gs_http = (\<lambda>q. Inr (200, ''{}'')), gs_errors = (\<lambda>b. []),
     gs_batch = (\<lambda>b. Inr [None, Some (urn sample_client ''db'' ''s'', sample_entity)]), gs_single = (\<lambda>b. Inr None)\<rparr>"

definition sample_table :: Table where
  "sample_table = \<lparr>tb_Name = ''s'', tb_Columns = [sample_column ''amt'' ''double'', sample_column ''v'' ''varchar'']\<rparr>"

definition classified_shop :: CompiledModel where
  "classified_shop = shop\<lparr>cm_Governance := s_Governance (scaffold_spec (prepareTemplateData (sort_key tb_Name) (sort_key r_Name)
     sample_options [sample_table]
     (EnrichWith [sample_table] (Some [(''s'', toTableMeta sample_client sample_entity)]))))\<rparr>"

lemma post_small:
  assumes "gs_http gs q = Inr (200, body)" "length body \<le> 1000"
  shows "post gs q decode = (case gs_errors gs body of m # _ \<Rightarrow> Inl (''graphql error: '' @ m) | [] \<Rightarrow> decode body)"
proof -
  have "take maxResponseBytes body = body" using assms(2) by (simp add: maxResponseBytes_def)
  then show ?thesis by (simp add: post_def assms(1))
qed

lemma guarded_plan: "\<exists>p. Build star_glob classified_shop trino by_city (Single ''analyst'') = Inr p"
  by (rule Build_isOK) code_simp

theorem classified_columns_unreachable_witness:
  "(\<exists>p. Build star_glob classified_shop trino by_city (Single ''analyst'') = Inr p)
   \<and> ''s.v'' \<notin> FieldRef_String ` request_refs classified_shop by_city"
proof -
  have p: "post sample_server q decode = decode ''{}''" for q and decode :: "string \<Rightarrow> (string, 'a) result"
    by (subst post_small[where body = "''{}''"]) (simp_all add: sample_server_def)
  have b: "gs_batch sample_server body = Inr [None, Some (urn sample_client ''db'' ''s'', sample_entity)]" for body
    by (simp add: sample_server_def)
  have e: "\<not> dataset_isEmpty sample_entity" by (simp add: dataset_isEmpty_def sample_entity_def)
  have d: "DescribeTables sample_client sample_server ''db'' (map tb_Name [sample_table])
      = Inr [(''s'', toTableMeta sample_client sample_entity)]"
    by (simp add: DescribeTables_def fetchBatch_def p b e sample_table_def add_entity_def)
  have a: "answered sample_client sample_server ''db'' (map tb_Name [sample_table]) (tb_Name sample_table) sample_entity"
    by (simp add: answered_def p b sample_table_def)
  have c: "classified sample_client (column_infos sample_entity) (tc_Name (sample_column ''v'' ''varchar''))"
    by code_simp
  have g: "cm_Governance classified_shop = s_Governance (scaffold_spec (prepareTemplateData (sort_key tb_Name) (sort_key r_Name)
     sample_options [sample_table]
     (EnrichWith [sample_table] (Some [(''s'', toTableMeta sample_client sample_entity)]))))"
    by (simp add: classified_shop_def)
  obtain p where p: "Build star_glob classified_shop trino by_city (Single ''analyst'') = Inr p"
    using guarded_plan by blast
  have "\<forall>ref\<in>request_refs classified_shop by_city.
      FieldRef_String ref \<noteq> tb_Name sample_table @ ''.'' @ tc_Name (sample_column ''v'' ''varchar'')"
    by (rule classified_columns_unreachable[OF d _ _ _ a c g p]) (simp_all add: sample_table_def sample_column_def)
  with p show ?thesis by (auto simp: sample_table_def sample_column_def)
qed

section \<open>Two divergences\<close>

text \<open>A nested field in the v2 encoding is taken for a column: only the path without types is
  recognized as nested, so what is recorded for the inner field is attached to the column that
  happens to have its name.\<close>

lemma nested_v2_path_taken_as_column:
  "columnName ''address.zip'' = []
   \<and> columnName ''[version=2.0].[type=struct].[type=struct].address.[type=string].zip'' = ''zip''"
  by code_simp

text \<open>The stub that stands for a dataset DataHub has never seen is skipped in the batch and counted by
  the fallback.\<close>

definition stub_server :: "bool \<Rightarrow> GraphQL" where
  "stub_server batch = \<lparr>gs_http = (\<lambda>q. Inr (200, (case q of BatchQuery us \<Rightarrow> ''b'' | DatasetQuery u \<Rightarrow> ''d''))),
     gs_errors = (\<lambda>b. if b = ''b'' \<and> \<not> batch then [''Unknown field entities''] else []),
     gs_batch = (\<lambda>b. Inr [Some (urn sample_client ''db'' ''s'', stub_dataset)]), gs_single = (\<lambda>b. Inr (Some stub_dataset))\<rparr>"

lemma fallback_counts_stubs:
  "DescribeTables sample_client (stub_server True) ''db'' [''s''] = Inr []
   \<and> DescribeTables sample_client (stub_server False) ''db'' [''s'']
     = Inr [(''s'', toTableMeta sample_client stub_dataset)]"
proof -
  have b: "post (stub_server k) (BatchQuery us) decode
      = (if k then decode ''b'' else Inl ''graphql error: Unknown field entities'')" for k us and decode :: "string \<Rightarrow> (string, 'a) result"
    by (subst post_small[where body = "''b''"]) (simp_all add: stub_server_def)
  have u: "isUnsupportedQuery ''graphql error: Unknown field entities''" by code_simp
  have s: "post (stub_server k) (DatasetQuery us) decode = decode ''d''" for k us and decode :: "string \<Rightarrow> (string, 'a) result"
    by (subst post_small[where body = "''d''"]) (simp_all add: stub_server_def)
  have stub: "dataset_isEmpty stub_dataset" by (simp add: dataset_isEmpty_def stub_dataset_def)
  show ?thesis
    by (simp add: DescribeTables_def fetchBatch_def fetchDataset_def b s u)
      (simp add: stub_server_def add_entity_def stub)
qed

end
