(* ===== verification/StrictJson.thy ===== *)
theory StrictJson
  imports Service Strconv "HOL-Library.AList"
begin

text \<open>
  \<^verbatim>\<open>json.Decoder\<close> with \<^verbatim>\<open>DisallowUnknownFields\<close>, as the clients of the policy providers and the REST
  adapter use it. Decoding stores into a destination that already holds a value: a null leaves a scalar
  and a struct as they are and empties a pointer, a slice or a map; a member may occur more than
  once. None is any error, of syntax, of type, or of an unknown member.
\<close>

section \<open>Names of members\<close>

text \<open>The members of a struct are found up to Unicode case folding. Of the characters outside ASCII
  only the long s and the Kelvin sign fold to ASCII letters.\<close>

definition long_s :: string where "long_s = [char_of (197::nat), char_of (191::nat)]"
definition kelvin :: string where "kelvin = [char_of (226::nat), char_of (132::nat), char_of (170::nat)]"

function fold_key :: "string \<Rightarrow> string" where
  "fold_key [] = []"
| "fold_key (c # cs) =
     (if prefix long_s (c # cs) then CHR ''S'' # fold_key (drop 1 cs)
      else if prefix kelvin (c # cs) then CHR ''K'' # fold_key (drop 2 cs)
      else upper_byte c # fold_key cs)"
  by pat_completeness auto
termination
  by (relation "measure length") auto

lemma fold_key_ascii: "\<forall>c\<in>set s. byte c < 128 \<Longrightarrow> fold_key s = map upper_byte s"
proof (induction s rule: fold_key.induct)
  case (2 c cs)
  have "\<not> prefix long_s (c # cs)" "\<not> prefix kelvin (c # cs)"
    using 2(4) by (auto simp: long_s_def kelvin_def byte_char_of)
  with 2 show ?case by simp
qed simp

definition same_key :: "string \<Rightarrow> string \<Rightarrow> bool" where
  "same_key k name \<longleftrightarrow> fold_key k = fold_key name"

lemma same_key_length:
  "same_key k m \<Longrightarrow> same_key k n \<Longrightarrow> \<forall>c\<in>set m \<union> set n. byte c < 128 \<Longrightarrow> length m = length n"
  unfolding same_key_def by (metis UnCI fold_key_ascii length_map)

lemma same_key_refl [simp]: "same_key k k"
  by (simp add: same_key_def)

lemma same_key_other: "length m \<noteq> length n \<Longrightarrow> \<forall>c\<in>set m \<union> set n. byte c < 128 \<Longrightarrow> \<not> same_key m n"
  using same_key_length[OF same_key_refl] by blast

section \<open>Values into destinations\<close>

type_synonym 'a decoder = "'a \<Rightarrow> json \<Rightarrow> 'a option"

definition d_string :: "string decoder" where
  "d_string old v = (case v of JStr s \<Rightarrow> Some s | JNull \<Rightarrow> Some old | _ \<Rightarrow> None)"

definition d_bool :: "bool decoder" where
  "d_bool old v = (case v of JBool b \<Rightarrow> Some b | JNull \<Rightarrow> Some old | _ \<Rightarrow> None)"

definition d_int :: "int decoder" where
  "d_int old v = (case v of JNum t \<Rightarrow> ParseInt10 t | JNull \<Rightarrow> Some old | _ \<Rightarrow> None)"

definition d_any :: "go_value decoder" where
  "d_any old v = any_value v"

definition d_ptr :: "'a \<Rightarrow> 'a decoder \<Rightarrow> 'a option decoder" where
  "d_ptr zero d old v =
     (if v = JNull then Some None
      else map_option Some (d (case old of None \<Rightarrow> zero | Some x \<Rightarrow> x) v))"

text \<open>The elements of a slice are decoded over those it had, further ones over the zero value.\<close>

fun d_elems :: "'a \<Rightarrow> 'a decoder \<Rightarrow> 'a list \<Rightarrow> json list \<Rightarrow> 'a list option" where
  "d_elems zero d old [] = Some []"
| "d_elems zero d old (v # vs) =
     (case d (case old of [] \<Rightarrow> zero | x # _ \<Rightarrow> x) v of
        None \<Rightarrow> None
      | Some y \<Rightarrow> map_option ((#) y) (d_elems zero d (tl old) vs))"

definition d_list :: "'a \<Rightarrow> 'a decoder \<Rightarrow> 'a list decoder" where
  "d_list zero d old v =
     (case v of JArr vs \<Rightarrow> d_elems zero d old vs | JNull \<Rightarrow> Some [] | _ \<Rightarrow> None)"

text \<open>A map gets its entries anew; None is the nil map.\<close>

fun d_entries :: "'a \<Rightarrow> 'a decoder \<Rightarrow> (string \<times> 'a) list \<Rightarrow> (string \<times> json) list \<Rightarrow> (string \<times> 'a) list option" where
  "d_entries zero d m [] = Some m"
| "d_entries zero d m ((k, v) # kvs) =
     (case d zero v of None \<Rightarrow> None | Some x \<Rightarrow> d_entries zero d (AList.update k x m) kvs)"

definition d_map :: "'a \<Rightarrow> 'a decoder \<Rightarrow> (string \<times> 'a) list option decoder" where
  "d_map zero d old v =
     (case v of
        JObj kvs \<Rightarrow> map_option Some (d_entries zero d (case old of None \<Rightarrow> [] | Some m \<Rightarrow> m) kvs)
      | JNull \<Rightarrow> Some None
      | _ \<Rightarrow> None)"

text \<open>A struct is given by its members; \<open>member name get set d\<close> decodes into one of them.\<close>

definition member :: "('r \<Rightarrow> 'a) \<Rightarrow> (('a \<Rightarrow> 'a) \<Rightarrow> 'r \<Rightarrow> 'r) \<Rightarrow> 'a decoder \<Rightarrow> 'r decoder" where
  "member get upd d r v = map_option (\<lambda>x. upd (\<lambda>_. x) r) (d (get r) v)"

definition field_decoder :: "(string \<times> 'r decoder) list \<Rightarrow> string \<Rightarrow> 'r decoder option" where
  "field_decoder fs k = map_option snd (find (\<lambda>f. same_key k (fst f)) fs)"

fun d_members :: "(string \<times> 'r decoder) list \<Rightarrow> 'r \<Rightarrow> (string \<times> json) list \<Rightarrow> 'r option" where
  "d_members fs r [] = Some r"
| "d_members fs r ((k, v) # kvs) =
     (case field_decoder fs k of
        None \<Rightarrow> None
      | Some d \<Rightarrow> (case d r v of None \<Rightarrow> None | Some r' \<Rightarrow> d_members fs r' kvs))"

definition d_struct :: "(string \<times> 'r decoder) list \<Rightarrow> 'r decoder" where
  "d_struct fs r v = (case v of JObj kvs \<Rightarrow> d_members fs r kvs | JNull \<Rightarrow> Some r | _ \<Rightarrow> None)"

section \<open>Documents\<close>

text \<open>One value and nothing but white space after it; the document null is refused.\<close>

definition decode_object :: "'a \<Rightarrow> 'a decoder \<Rightarrow> string \<Rightarrow> 'a option" where
  "decode_object zero d blob =
     (case json_parse blob of
        None \<Rightarrow> None
      | Some v \<Rightarrow> if v = JNull then None else d zero v)"

lemma decode_object_struct:
  "decode_object zero (d_struct fs) blob = Some r \<longleftrightarrow> (\<exists>kvs. json_parse blob = Some (JObj kvs) \<and> d_members fs zero kvs = Some r)"
  by (auto simp: decode_object_def d_struct_def split: option.splits json.splits)

text \<open>Decoding member by member preserves what every single member preserves.\<close>

lemma d_members_induct:
  assumes "d_members fs r kvs = Some r'" "P r"
    and "\<And>k d r v r'. P r \<Longrightarrow> (k, v) \<in> set kvs \<Longrightarrow> field_decoder fs k = Some d \<Longrightarrow> d r v = Some r' \<Longrightarrow> P r'"
  shows "P r'"
  using assms
proof (induction fs r kvs rule: d_members.induct)
  case (2 fs r k v kvs)
  from 2(2) obtain d r1 where d: "field_decoder fs k = Some d" "d r v = Some r1" "d_members fs r1 kvs = Some r'"
    by (auto split: option.splits)
  have "P r1" by (rule 2(4)[OF 2(3) _ d(1,2)]) simp
  then show ?case
  proof (rule 2(1)[OF d])
    fix k' d' r v' r'
    assume "P r" "(k', v') \<in> set kvs" "field_decoder fs k' = Some d'" "d' r v' = Some r'"
    then show "P r'" by (intro 2(4)[of r k' v' d' r']) simp_all
  qed
qed simp

section \<open>Control characters\<close>

text \<open>\<^verbatim>\<open>strings.IndexFunc(s, unicode.IsControl) >= 0\<close>: the ASCII controls and the two-byte encodings of
  U+0080 to U+009F.\<close>

fun has_c1 :: "string \<Rightarrow> bool" where
  "has_c1 (a # b # r) \<longleftrightarrow> byte a = 194 \<and> 128 \<le> byte b \<and> byte b \<le> 159 \<or> has_c1 (b # r)"
| "has_c1 _ \<longleftrightarrow> False"

definition containsControl :: "string \<Rightarrow> bool" where
  "containsControl s \<longleftrightarrow> (\<exists>c\<in>set s. byte c < 32 \<or> byte c = 127) \<or> has_c1 s"

end
