(* ===== verification/Opa.thy ===== *)
theory Opa
  imports StrictJson
begin

text \<open>
  \<^verbatim>\<open>internal/serving/authorization/opa/client.go\<close>: the policy provider that asks an OPA server. The text of
  the request, the transport limits and the reading of the answer are modelled; the HTTP client and
  the URL parser are parameters. \<open>input_json\<close> is the JSON of the authorization input, which the
  Ranger provider uses too.
\<close>

section \<open>The input as JSON\<close>

definition plain_request_json :: "Request \<Rightarrow> string option" where
  "plain_request_json r = json_struct
     [member_if True ''model'' (Some (json_string (req_Model r))),
      member_if True ''metrics'' (json_strings (req_Metrics r)),
      member_if (req_Dimensions r \<noteq> []) ''dimensions'' (json_strings (req_Dimensions r)),
      member_if (req_Filters r \<noteq> []) ''filters'' (json_array filter_json (req_Filters r)),
      member_if (req_MetricFilters r \<noteq> []) ''metricFilters'' (json_array metric_filter_json (req_MetricFilters r)),
      member_if (req_TimeGrain r \<noteq> []) ''timeGrain'' (Some (json_string (req_TimeGrain r))),
      member_if (req_OrderBy r \<noteq> []) ''orderBy'' (json_array order_json (req_OrderBy r)),
      member_if (req_Limit r \<noteq> 0) ''limit'' (Some (int_str (req_Limit r)))]"

text \<open>\<^verbatim>\<open>map[string]string\<close>: the members in the order of their names.\<close>

definition string_map_json :: "(string \<times> string) list \<Rightarrow> string" where
  "string_map_json m = json_members (map (\<lambda>k. (k, json_string (the (map_of m k)))) (sort (remdups (map fst m))))"

definition identity_json :: "Identity \<Rightarrow> string option" where
  "identity_json i = json_struct
     [member_if (id_Principal i \<noteq> []) ''principal'' (Some (json_string (id_Principal i))),
      member_if (id_Groups i \<noteq> []) ''groups'' (json_strings (id_Groups i)),
      member_if (id_Roles i \<noteq> []) ''roles'' (json_strings (id_Roles i)),
      member_if (id_Claims i \<noteq> []) ''claims'' (Some (string_map_json (id_Claims i)))]"

definition model_json :: "Model \<Rightarrow> string option" where
  "model_json m = json_struct
     [member_if True ''name'' (Some (json_string (am_Name m))),
      member_if True ''version'' (Some (json_string (am_Version m))),
      member_if (am_Namespace m \<noteq> []) ''namespace'' (Some (json_string (am_Namespace m))),
      member_if (am_Resource m \<noteq> []) ''resource'' (Some (json_string (am_Resource m)))]"

definition environment_json :: "Environment \<Rightarrow> string option" where
  "environment_json e = json_struct
     [member_if True ''accessTimeUnixMilli'' (Some (int_str (env_AccessTimeUnixMilli e))),
      member_if (env_Adapter e \<noteq> []) ''adapter'' (Some (json_string (env_Adapter e)))]"

definition input_json :: "Input \<Rightarrow> string option" where
  "input_json i = json_struct
     [member_if True ''apiVersion'' (Some (json_string (in_APIVersion i))),
      member_if True ''action'' (Some (json_string (in_Action i))),
      member_if True ''identity'' (identity_json (in_Identity i)),
      member_if True ''model'' (model_json (in_Model i)),
      member_if True ''request'' (plain_request_json (in_Request i)),
      member_if True ''environment'' (environment_json (in_Environment i))]"

section \<open>Transport\<close>

record URL =
  url_Scheme :: string
  url_Host :: string
  url_HasUser :: bool
  url_RawQuery :: string
  url_Fragment :: string
  url_Path :: string

text \<open>\<open>net_Parse\<close>, \<open>net_String\<close> and \<open>net_JoinPath\<close> are \<^verbatim>\<open>url.Parse\<close>, \<^verbatim>\<open>URL.String\<close> and \<^verbatim>\<open>url.JoinPath\<close>.\<close>

record NetURL =
  net_Parse :: "string \<Rightarrow> (string, URL) result"
  net_String :: "URL \<Rightarrow> string"
  net_JoinPath :: "string \<Rightarrow> string list \<Rightarrow> (string, string) result"

record HttpRequest =
  hq_URL :: string
  hq_Headers :: "(string \<times> string) list"
  hq_Body :: string
  hq_Timeout :: int

text \<open>A round trip fails, or answers with a status and a body whose reading may fail.\<close>

type_synonym transport = "HttpRequest \<Rightarrow> (provider_error, nat \<times> (provider_error, string) result) result"

definition defaultTimeout :: int where
  "defaultTimeout = 2 * 10 ^ 9"

definition defaultMaxResponseBytes :: int where
  "defaultMaxResponseBytes = 2 ^ 20"

section \<open>Construction\<close>

record OpaOptions =
  oo_URL :: string
  oo_DecisionPath :: string
  oo_BearerToken :: string
  oo_Timeout :: int
  oo_MaxResponseBytes :: int

record OpaClient =
  oc_decisionURL :: string
  oc_bearerToken :: string
  oc_timeout :: int
  oc_maxResponseBytes :: int

datatype opa_error =
    OpaBadURL string
  | OpaScheme string
  | OpaNoHost
  | OpaExtraParts
  | OpaPathLength
  | OpaPathInvalid string
  | OpaTokenNeedsHTTPS
  | OpaJoin string
  | OpaEncoding
  | OpaCalling provider_error
  | OpaReading provider_error
  | OpaTooLarge int
  | OpaStatus nat
  | OpaResponse
  | OpaResult
  | OpaMissingAllow
  | OpaRevisionLength
  | OpaRevisionControl

definition path_char :: "char \<Rightarrow> bool" where
  "path_char c \<longleftrightarrow> is_upper c \<or> is_lower c \<or> is_digit c \<or> c \<in> {CHR ''_'', CHR ''.'', CHR ''-''}"

definition decisionPathParts :: "string \<Rightarrow> (opa_error, string list) result" where
  "decisionPathParts p =
     (if p = [] \<or> length p > 512 then Inl OpaPathLength
      else
        let parts = split_at CHR ''/'' p
        in if \<exists>part\<in>set parts. part \<in> {[], ''.'', ''..''} \<or> \<not> list_all path_char part then Inl (OpaPathInvalid p)
           else Inr parts)"

definition opa_New :: "NetURL \<Rightarrow> OpaOptions \<Rightarrow> (opa_error, OpaClient) result" where
  "opa_New net opts =
     (case net_Parse net (oo_URL opts) of
        Inl e \<Rightarrow> Inl (OpaBadURL e)
      | Inr base \<Rightarrow>
          if url_Scheme base \<noteq> ''http'' \<and> url_Scheme base \<noteq> ''https'' then Inl (OpaScheme (url_Scheme base))
          else if url_Host base = [] then Inl OpaNoHost
          else if url_HasUser base \<or> url_RawQuery base \<noteq> [] \<or> url_Fragment base \<noteq> [] then Inl OpaExtraParts
          else if oo_BearerToken opts \<noteq> [] \<and> url_Scheme base \<noteq> ''https'' then Inl OpaTokenNeedsHTTPS
          else (case decisionPathParts (oo_DecisionPath opts) of
                  Inl e \<Rightarrow> Inl e
                | Inr parts \<Rightarrow>
                    (case net_JoinPath net (net_String net base) (''v1'' # ''data'' # parts) of
                       Inl e \<Rightarrow> Inl (OpaJoin e)
                     | Inr decisionURL \<Rightarrow> Inr
                         \<lparr>oc_decisionURL = decisionURL, oc_bearerToken = oo_BearerToken opts,
                          oc_timeout = (if oo_Timeout opts \<le> 0 then defaultTimeout else oo_Timeout opts),
                          oc_maxResponseBytes = (if oo_MaxResponseBytes opts \<le> 0 then defaultMaxResponseBytes
                            else oo_MaxResponseBytes opts)\<rparr>)))"

section \<open>Decisions\<close>

text \<open>\<^verbatim>\<open>envelope\<close>: the result is raw JSON, None when the member is missing.\<close>

record envelope =
  ev_DecisionID :: string
  ev_Result :: "json option"

record objectDecision =
  obj_Allow :: "bool option"
  obj_Revision :: string

definition d_envelope :: "envelope decoder" where
  "d_envelope = d_struct
     [(''decision_id'', member ev_DecisionID ev_DecisionID_update d_string),
      (''result'', member ev_Result ev_Result_update (\<lambda>old v. Some (Some v)))]"

definition d_objectDecision :: "objectDecision decoder" where
  "d_objectDecision = d_struct
     [(''allow'', member obj_Allow obj_Allow_update (d_ptr False d_bool)),
      (''revision'', member obj_Revision obj_Revision_update d_string)]"

definition object_decision :: "json \<Rightarrow> (opa_error, AuthzDecision) result" where
  "object_decision v =
     (case d_objectDecision \<lparr>obj_Allow = None, obj_Revision = []\<rparr> v of
        None \<Rightarrow> Inl OpaResult
      | Some dec \<Rightarrow>
          (case obj_Allow dec of
             None \<Rightarrow> Inl OpaMissingAllow
           | Some allow \<Rightarrow>
               if length (obj_Revision dec) > 256 then Inl OpaRevisionLength
               else if containsControl (obj_Revision dec) then Inl OpaRevisionControl
               else Inr \<lparr>ad_Allow = allow, ad_Revision = obj_Revision dec\<rparr>))"

definition decodeDecision :: "string \<Rightarrow> (opa_error, AuthzDecision) result" where
  "decodeDecision blob =
     (case decode_object \<lparr>ev_DecisionID = [], ev_Result = None\<rparr> d_envelope blob of
        None \<Rightarrow> Inl OpaResponse
      | Some env \<Rightarrow>
          (case ev_Result env of
             None \<Rightarrow> Inr \<lparr>ad_Allow = False, ad_Revision = []\<rparr>
           | Some JNull \<Rightarrow> Inr \<lparr>ad_Allow = False, ad_Revision = []\<rparr>
           | Some (JBool b) \<Rightarrow> Inr \<lparr>ad_Allow = b, ad_Revision = []\<rparr>
           | Some v \<Rightarrow> object_decision v))"

definition opa_request :: "OpaClient \<Rightarrow> string \<Rightarrow> HttpRequest" where
  "opa_request c body =
     \<lparr>hq_URL = oc_decisionURL c,
      hq_Headers = [(''Content-Type'', ''application/json''), (''Accept'', ''application/json'')]
        @ (if oc_bearerToken c = [] then [] else [(''Authorization'', ''Bearer '' @ oc_bearerToken c)]),
      hq_Body = body, hq_Timeout = oc_timeout c\<rparr>"

definition opa_Decide :: "transport \<Rightarrow> OpaClient \<Rightarrow> Input \<Rightarrow> (opa_error, AuthzDecision) result" where
  "opa_Decide http c input =
     (case input_json input of
        None \<Rightarrow> Inl OpaEncoding
      | Some t \<Rightarrow>
          (case http (opa_request c (json_members [(''input'', t)])) of
             Inl e \<Rightarrow> Inl (OpaCalling e)
           | Inr (status, reading) \<Rightarrow>
               (case reading of
                  Inl e \<Rightarrow> Inl (OpaReading e)
                | Inr blob \<Rightarrow>
                    if int (length blob) > oc_maxResponseBytes c then Inl (OpaTooLarge (oc_maxResponseBytes c))
                    else if status < 200 \<or> 300 \<le> status then Inl (OpaStatus status)
                    else decodeDecision blob)))"

text \<open>As the registry sees it: a cancelled context keeps its identity through the wrapping, everything
  else is a text.\<close>

definition opa_failure :: "(opa_error \<Rightarrow> string) \<Rightarrow> opa_error \<Rightarrow> provider_error" where
  "opa_failure words e =
     (case e of
        OpaCalling ContextCanceled \<Rightarrow> ContextCanceled
      | OpaReading ContextCanceled \<Rightarrow> ContextCanceled
      | _ \<Rightarrow> ProviderFailed (words e))"

definition opa_provider :: "(opa_error \<Rightarrow> string) \<Rightarrow> transport \<Rightarrow> OpaClient \<Rightarrow> Provider" where
  "opa_provider words http c input = emap_err (opa_failure words) (opa_Decide http c input)"

section \<open>Only a clear yes allows\<close>

text \<open>The value a member has in the end: that of its last occurrence, under any spelling.\<close>

definition last_member :: "string \<Rightarrow> (string \<times> json) list \<Rightarrow> json option" where
  "last_member name kvs = map_option snd (find (\<lambda>kv. same_key (fst kv) name) (rev kvs))"

lemma last_member_snoc [simp]:
  "last_member n [] = None"
  "last_member n (kvs @ [(k, v)]) = (if same_key k n then Some v else last_member n kvs)"
  by (simp_all add: last_member_def)

lemma d_members_append:
  "d_members fs r (xs @ ys) = (case d_members fs r xs of None \<Rightarrow> None | Some r' \<Rightarrow> d_members fs r' ys)"
  by (induction fs r xs rule: d_members.induct) (auto split: option.splits)

text \<open>A text member keeps its last value that is not null.\<close>

definition text_member :: "string \<Rightarrow> (string \<times> json) list \<Rightarrow> string" where
  "text_member name kvs =
     foldl (\<lambda>s kv. case snd kv of JStr t \<Rightarrow> if same_key (fst kv) name then t else s | _ \<Rightarrow> s) [] kvs"

definition textual :: "json \<Rightarrow> bool" where
  "textual v \<longleftrightarrow> v = JNull \<or> (\<exists>s. v = JStr s)"

definition object_typed :: "(string \<times> json) list \<Rightarrow> bool" where
  "object_typed ms \<longleftrightarrow> (\<forall>(k, v)\<in>set ms.
     same_key k ''allow'' \<and> (v = JNull \<or> (\<exists>b. v = JBool b)) \<or> same_key k ''revision'' \<and> textual v)"

definition envelope_typed :: "(string \<times> json) list \<Rightarrow> bool" where
  "envelope_typed kvs \<longleftrightarrow> (\<forall>(k, v)\<in>set kvs. same_key k ''decision_id'' \<and> textual v \<or> same_key k ''result'')"

lemma key_clashes:
  "\<not> (same_key k ''allow'' \<and> same_key k ''revision'')" "\<not> (same_key k ''decision_id'' \<and> same_key k ''result'')"
  using same_key_length[of k "''allow''" "''revision''"] same_key_length[of k "''decision_id''" "''result''"]
  by (auto simp: byte_def)

abbreviation object_fields :: "(string \<times> objectDecision decoder) list" where
  "object_fields \<equiv>
     [(''allow'', member obj_Allow obj_Allow_update (d_ptr False d_bool)),
      (''revision'', member obj_Revision obj_Revision_update d_string)]"

abbreviation envelope_fields :: "(string \<times> envelope decoder) list" where
  "envelope_fields \<equiv>
     [(''decision_id'', member ev_DecisionID ev_DecisionID_update d_string),
      (''result'', member ev_Result ev_Result_update (\<lambda>old v. Some (Some v)))]"

definition final_allow :: "(string \<times> json) list \<Rightarrow> bool option" where
  "final_allow ms = (case last_member ''allow'' ms of Some (JBool b) \<Rightarrow> Some b | _ \<Rightarrow> None)"

lemma object_step:
  "d_members object_fields r [(k, v)] =
     (if same_key k ''allow'' then
        (case v of JNull \<Rightarrow> Some (r\<lparr>obj_Allow := None\<rparr>) | JBool b \<Rightarrow> Some (r\<lparr>obj_Allow := Some b\<rparr>) | _ \<Rightarrow> None)
      else if same_key k ''revision'' then
        (case v of JNull \<Rightarrow> Some r | JStr s \<Rightarrow> Some (r\<lparr>obj_Revision := s\<rparr>) | _ \<Rightarrow> None)
      else None)"
  by (cases v) (simp_all add: field_decoder_def member_def d_ptr_def d_bool_def d_string_def)

lemma envelope_step:
  "d_members envelope_fields r [(k, v)] =
     (if same_key k ''decision_id'' then
        (case v of JNull \<Rightarrow> Some r | JStr s \<Rightarrow> Some (r\<lparr>ev_DecisionID := s\<rparr>) | _ \<Rightarrow> None)
      else if same_key k ''result'' then Some (r\<lparr>ev_Result := Some v\<rparr>) else None)"
  by (cases v) (simp_all add: field_decoder_def member_def d_string_def)

lemma object_members:
  "d_members object_fields \<lparr>obj_Allow = None, obj_Revision = []\<rparr> ms
   = (if object_typed ms then Some \<lparr>obj_Allow = final_allow ms, obj_Revision = text_member ''revision'' ms\<rparr> else None)"
proof (induction ms rule: rev_induct)
  case Nil
  then show ?case by (simp add: object_typed_def final_allow_def text_member_def)
next
  case (snoc kv ms)
  obtain k v where kv: "kv = (k, v)" by (cases kv)
  have typed: "object_typed (ms @ [(k, w)]) \<longleftrightarrow> object_typed ms
      \<and> (same_key k ''allow'' \<and> (w = JNull \<or> (\<exists>b. w = JBool b)) \<or> same_key k ''revision'' \<and> textual w)" for w
    by (auto simp: object_typed_def)
  show ?case
    using snoc key_clashes(1)[of k]
    by (cases v) (simp_all add: kv typed d_members_append object_step final_allow_def text_member_def textual_def
        del: d_members.simps)
qed

lemma envelope_members:
  "map_option ev_Result (d_members envelope_fields \<lparr>ev_DecisionID = [], ev_Result = None\<rparr> kvs)
   = (if envelope_typed kvs then Some (last_member ''result'' kvs) else None)"
proof (induction kvs rule: rev_induct)
  case Nil
  then show ?case by (simp add: envelope_typed_def)
next
  case (snoc kv ms)
  obtain k v where kv: "kv = (k, v)" by (cases kv)
  have typed: "envelope_typed (ms @ [(k, w)]) \<longleftrightarrow> envelope_typed ms
      \<and> (same_key k ''decision_id'' \<and> textual w \<or> same_key k ''result'')" for w
    by (auto simp: envelope_typed_def)
  show ?case
    using snoc key_clashes(2)[of k]
    by (cases v) (auto simp: kv typed d_members_append envelope_step textual_def
        simp del: d_members.simps split: if_splits option.splits)
qed

text \<open>The answers that allow: true, or an object that holds only an allow that is true and a short printable
  revision.\<close>

definition clear_yes :: "json option \<Rightarrow> string \<Rightarrow> bool" where
  "clear_yes v rv \<longleftrightarrow> v = Some (JBool True) \<and> rv = []
     \<or> (\<exists>ms. v = Some (JObj ms) \<and> object_typed ms \<and> last_member ''allow'' ms = Some (JBool True)
          \<and> rv = text_member ''revision'' ms \<and> length rv \<le> 256 \<and> \<not> containsControl rv)"

lemma object_decision_yes:
  "object_decision v = Inr d \<and> ad_Allow d \<longleftrightarrow>
     (\<exists>ms. v = JObj ms \<and> object_typed ms \<and> last_member ''allow'' ms = Some (JBool True)
        \<and> d = \<lparr>ad_Allow = True, ad_Revision = text_member ''revision'' ms\<rparr>
        \<and> length (text_member ''revision'' ms) \<le> 256 \<and> \<not> containsControl (text_member ''revision'' ms))"
proof (cases v)
  case (JObj ms)
  have "final_allow ms = Some True \<longleftrightarrow> last_member ''allow'' ms = Some (JBool True)"
    by (auto simp: final_allow_def split: option.splits json.splits)
  then show ?thesis
    by (auto simp: object_decision_def d_objectDecision_def d_struct_def object_members JObj split: option.splits if_splits)
qed (auto simp: object_decision_def d_objectDecision_def d_struct_def)

lemma decodeDecision_yes:
  "decodeDecision blob = Inr d \<and> ad_Allow d \<longleftrightarrow>
     ad_Allow d \<and> (\<exists>kvs. json_parse blob = Some (JObj kvs) \<and> envelope_typed kvs
       \<and> clear_yes (last_member ''result'' kvs) (ad_Revision d))"
proof (cases "\<exists>kvs. json_parse blob = Some (JObj kvs)")
  case True
  then obtain kvs where kvs: "json_parse blob = Some (JObj kvs)" by blast
  have e: "map_option ev_Result (decode_object \<lparr>ev_DecisionID = [], ev_Result = None\<rparr> d_envelope blob)
      = (if envelope_typed kvs then Some (last_member ''result'' kvs) else None)"
    using envelope_members[of kvs] by (simp add: decode_object_def kvs d_envelope_def d_struct_def)
  show ?thesis
  proof (cases "decode_object \<lparr>ev_DecisionID = [], ev_Result = None\<rparr> d_envelope blob")
    case None
    then show ?thesis using e kvs by (simp add: decodeDecision_def split: if_splits)
  next
    case (Some env)
    then have env: "envelope_typed kvs" "ev_Result env = last_member ''result'' kvs" using e by (auto split: if_splits)
    show ?thesis
    proof (cases "last_member ''result'' kvs")
      case None
      then show ?thesis using Some env kvs by (auto simp: decodeDecision_def clear_yes_def)
    next
      case (Some v)
      have dd: "decodeDecision blob = (case v of JNull \<Rightarrow> Inr \<lparr>ad_Allow = False, ad_Revision = []\<rparr>
          | JBool b \<Rightarrow> Inr \<lparr>ad_Allow = b, ad_Revision = []\<rparr> | _ \<Rightarrow> object_decision v)"
        using \<open>decode_object _ _ _ = Some env\<close> env Some by (simp add: decodeDecision_def split: json.splits)
      have rhs: "?thesis \<longleftrightarrow> (decodeDecision blob = Inr d \<and> ad_Allow d \<longleftrightarrow> ad_Allow d \<and> clear_yes (Some v) (ad_Revision d))"
        by (simp add: kvs env(1) Some)
      have yes: "ad_Allow d \<Longrightarrow> d = \<lparr>ad_Allow = True, ad_Revision = ad_Revision d\<rparr>" by (cases d) simp
      show ?thesis
      proof (cases v)
        case (JObj ms)
        then show ?thesis unfolding rhs unfolding dd JObj json.case object_decision_yes clear_yes_def using yes by auto
      next
        case (JBool b)
        have "Inr \<lparr>ad_Allow = b, ad_Revision = []\<rparr> = (Inr d :: (opa_error, AuthzDecision) result) \<longleftrightarrow> ad_Allow d = b \<and> ad_Revision d = []"
          by (cases d) auto
        then show ?thesis unfolding rhs unfolding dd JBool json.case clear_yes_def by auto
      next
        case JNull
        then show ?thesis unfolding rhs unfolding dd JNull json.case clear_yes_def by auto
      next
        case (JNum n)
        then show ?thesis unfolding rhs unfolding dd JNum json.case object_decision_yes clear_yes_def by simp
      next
        case (JStr n)
        then show ?thesis unfolding rhs unfolding dd JStr json.case object_decision_yes clear_yes_def by simp
      next
        case (JArr n)
        then show ?thesis unfolding rhs unfolding dd JArr json.case object_decision_yes clear_yes_def by simp
      qed
    qed
  qed
next
  case False
  then have "decode_object \<lparr>ev_DecisionID = [], ev_Result = None\<rparr> d_envelope blob = None"
    by (auto simp: decode_object_def d_envelope_def d_struct_def split: option.splits json.splits)
  with False show ?thesis by (simp add: decodeDecision_def)
qed

text \<open>
  C15. OPA allows a query only by a clear yes: the provider posted the input of this very query to the
  configured document and got, within the size limit and with a success status, one JSON object whose
  result is true, or an object with allow true and nothing the provider does not understand. An
  undefined document, a null, an unknown member, a second JSON value, a redirect or an error is never
  an allow; and every such clear yes is one.
\<close>

theorem opa_allow_exact:
  "(\<exists>d. opa_provider words http c input = Inr d \<and> ad_Allow d) \<longleftrightarrow>
     (\<exists>t status blob kvs rv. input_json input = Some t
        \<and> http (opa_request c (json_members [(''input'', t)])) = Inr (status, Inr blob)
        \<and> int (length blob) \<le> oc_maxResponseBytes c \<and> 200 \<le> status \<and> status < 300
        \<and> json_parse blob = Some (JObj kvs) \<and> envelope_typed kvs \<and> clear_yes (last_member ''result'' kvs) rv)"
  (is "?l \<longleftrightarrow> ?r")
proof
  assume ?l
  then obtain d where d: "opa_Decide http c input = Inr d" "ad_Allow d" by (auto simp: opa_provider_def result_simps)
  then obtain t status blob where t: "input_json input = Some t"
      "http (opa_request c (json_members [(''input'', t)])) = Inr (status, Inr blob)"
      "int (length blob) \<le> oc_maxResponseBytes c" "200 \<le> status" "status < 300" "decodeDecision blob = Inr d"
    by (auto simp: opa_Decide_def split: option.splits sum.splits if_splits)
  with decodeDecision_yes[of blob d] d(2) show ?r by blast
next
  assume ?r
  then obtain t status blob kvs rv where t: "input_json input = Some t"
      "http (opa_request c (json_members [(''input'', t)])) = Inr (status, Inr blob)"
      "int (length blob) \<le> oc_maxResponseBytes c" "200 \<le> status" "status < 300"
      "json_parse blob = Some (JObj kvs)" "envelope_typed kvs" "clear_yes (last_member ''result'' kvs) rv" by blast
  then have "decodeDecision blob = Inr \<lparr>ad_Allow = True, ad_Revision = rv\<rparr>"
    using decodeDecision_yes[of blob "\<lparr>ad_Allow = True, ad_Revision = rv\<rparr>"] by simp
  with t show ?l by (auto simp: opa_provider_def opa_Decide_def)
qed

end
