(* ===== verification/Ranger.thy ===== *)
theory Ranger
  imports Opa
begin

text \<open>
  The policy provider that asks an Apache Ranger decision point: the wire types and their strict
  decoding (\<^verbatim>\<open>ranger/model.go\<close>), the HTTP client (\<^verbatim>\<open>ranger/client.go\<close>) and the provider that maps a semantic
  request to a Ranger request and accepts only a complete, obligation-free ALLOW
  (\<^verbatim>\<open>ranger/provider/provider.go\<close>). As for OPA, the HTTP round trip and the URL parser are parameters.
\<close>

section \<open>Wire types of an answer\<close>

text \<open>An \<^verbatim>\<open>AccessDecision\<close> is a text; the empty one stands for a missing or null decision.\<close>

definition DecisionAllow :: string where "DecisionAllow = ''ALLOW''"
definition DecisionDeny :: string where "DecisionDeny = ''DENY''"
definition DecisionNotDetermined :: string where "DecisionNotDetermined = ''NOT_DETERMINED''"
definition DecisionPartial :: string where "DecisionPartial = ''PARTIAL''"

definition AccessDecision_Valid :: "string \<Rightarrow> bool" where
  "AccessDecision_Valid d \<longleftrightarrow> d \<in> {DecisionAllow, DecisionDeny, DecisionNotDetermined, DecisionPartial}"

definition d_AccessDecision :: "string decoder" where
  "d_AccessDecision old v =
     (case v of
        JNull \<Rightarrow> Some []
      | JStr s \<Rightarrow> if AccessDecision_Valid s then Some s else None
      | _ \<Rightarrow> None)"

record PolicyInfo =
  pi_ID :: "int option"
  pi_Version :: "int option"

record AccessResult =
  acc_Decision :: string
  acc_Policy :: "PolicyInfo option"

record DataMaskResult =
  dm_MaskType :: string
  dm_MaskedValue :: string
  dm_Policy :: "PolicyInfo option"

record RowFilterResult =
  rfr_FilterExpression :: string
  rfr_Policy :: "PolicyInfo option"

record ResultInfo =
  ri_Access :: "AccessResult option"
  ri_DataMask :: "DataMaskResult option"
  ri_RowFilter :: "RowFilterResult option"
  ri_AdditionalInfo :: "(string \<times> go_value) list option"

record PermissionResult =
  pr_Permission :: string
  pr_Access :: "AccessResult option"
  pr_DataMask :: "DataMaskResult option"
  pr_RowFilter :: "RowFilterResult option"
  pr_AdditionalInfo :: "(string \<times> go_value) list option"
  pr_SubResources :: "(string \<times> ResultInfo option) list option"

record AuthorizationResult =
  ar_RequestID :: string
  ar_Decision :: string
  ar_Permissions :: "(string \<times> PermissionResult option) list option"

definition zero_PolicyInfo :: PolicyInfo where
  "zero_PolicyInfo = \<lparr>pi_ID = None, pi_Version = None\<rparr>"

definition zero_AccessResult :: AccessResult where
  "zero_AccessResult = \<lparr>acc_Decision = [], acc_Policy = None\<rparr>"

definition zero_DataMask :: DataMaskResult where
  "zero_DataMask = \<lparr>dm_MaskType = [], dm_MaskedValue = [], dm_Policy = None\<rparr>"

definition zero_RowFilter :: RowFilterResult where
  "zero_RowFilter = \<lparr>rfr_FilterExpression = [], rfr_Policy = None\<rparr>"

definition zero_ResultInfo :: ResultInfo where
  "zero_ResultInfo = \<lparr>ri_Access = None, ri_DataMask = None, ri_RowFilter = None, ri_AdditionalInfo = None\<rparr>"

definition zero_Permission :: PermissionResult where
  "zero_Permission = \<lparr>pr_Permission = [], pr_Access = None, pr_DataMask = None, pr_RowFilter = None,
     pr_AdditionalInfo = None, pr_SubResources = None\<rparr>"

definition zero_Authorization :: AuthorizationResult where
  "zero_Authorization = \<lparr>ar_RequestID = [], ar_Decision = [], ar_Permissions = None\<rparr>"

definition d_PolicyInfo :: "PolicyInfo decoder" where
  "d_PolicyInfo = d_struct
     [(''id'', member pi_ID pi_ID_update (d_ptr 0 d_int)),
      (''version'', member pi_Version pi_Version_update (d_ptr 0 d_int))]"

definition d_AccessResult :: "AccessResult decoder" where
  "d_AccessResult = d_struct
     [(''decision'', member acc_Decision acc_Decision_update d_AccessDecision),
      (''policy'', member acc_Policy acc_Policy_update (d_ptr zero_PolicyInfo d_PolicyInfo))]"

definition d_DataMask :: "DataMaskResult decoder" where
  "d_DataMask = d_struct
     [(''maskType'', member dm_MaskType dm_MaskType_update d_string),
      (''maskedValue'', member dm_MaskedValue dm_MaskedValue_update d_string),
      (''policy'', member dm_Policy dm_Policy_update (d_ptr zero_PolicyInfo d_PolicyInfo))]"

definition d_RowFilter :: "RowFilterResult decoder" where
  "d_RowFilter = d_struct
     [(''filterExpr'', member rfr_FilterExpression rfr_FilterExpression_update d_string),
      (''policy'', member rfr_Policy rfr_Policy_update (d_ptr zero_PolicyInfo d_PolicyInfo))]"

definition d_ResultInfo :: "ResultInfo decoder" where
  "d_ResultInfo = d_struct
     [(''access'', member ri_Access ri_Access_update (d_ptr zero_AccessResult d_AccessResult)),
      (''dataMask'', member ri_DataMask ri_DataMask_update (d_ptr zero_DataMask d_DataMask)),
      (''rowFilter'', member ri_RowFilter ri_RowFilter_update (d_ptr zero_RowFilter d_RowFilter)),
      (''additionalInfo'', member ri_AdditionalInfo ri_AdditionalInfo_update (d_map VNil d_any))]"

definition d_Permission :: "PermissionResult decoder" where
  "d_Permission = d_struct
     [(''permission'', member pr_Permission pr_Permission_update d_string),
      (''access'', member pr_Access pr_Access_update (d_ptr zero_AccessResult d_AccessResult)),
      (''dataMask'', member pr_DataMask pr_DataMask_update (d_ptr zero_DataMask d_DataMask)),
      (''rowFilter'', member pr_RowFilter pr_RowFilter_update (d_ptr zero_RowFilter d_RowFilter)),
      (''additionalInfo'', member pr_AdditionalInfo pr_AdditionalInfo_update (d_map VNil d_any)),
      (''subResources'', member pr_SubResources pr_SubResources_update
         (d_map None (d_ptr zero_ResultInfo d_ResultInfo)))]"

definition d_Authorization :: "AuthorizationResult decoder" where
  "d_Authorization = d_struct
     [(''requestId'', member ar_RequestID ar_RequestID_update d_string),
      (''decision'', member ar_Decision ar_Decision_update d_AccessDecision),
      (''permissions'', member ar_Permissions ar_Permissions_update
         (d_map None (d_ptr zero_Permission d_Permission)))]"

section \<open>The client\<close>

record RangerOptions =
  ro_URL :: string
  ro_BearerToken :: string
  ro_Headers :: "(string \<times> string) list"
  ro_AllowInsecureHTTP :: bool
  ro_Timeout :: int
  ro_MaxResponseBytes :: int

record RangerClient =
  rg_authorizeURL :: string
  rg_bearerToken :: string
  rg_headers :: "(string \<times> string) list"
  rg_timeout :: int
  rg_maxResponseBytes :: int

datatype client_error =
    RangerBadURL string
  | RangerScheme string
  | RangerNoHost
  | RangerExtraParts
  | RangerTokenBreak
  | RangerNeedsHTTPS
  | RangerHeaderName string
  | RangerHeaderValue string
  | RangerHeaderManaged string
  | RangerHeaderTwice string
  | RangerJoin string
  | EncodingRequest
  | RangerCalling provider_error
  | RangerReading provider_error
  | RangerTooLarge int
  | RangerHTTPError nat string string
  | RangerDecoding

text \<open>\<^verbatim>\<open>httpguts.ValidHeaderFieldName\<close>: a token of RFC 7230; and its canonical spelling.\<close>

definition header_char :: "char \<Rightarrow> bool" where
  "header_char c \<longleftrightarrow> is_upper c \<or> is_lower c \<or> is_digit c \<or> c = quote_ch
     \<or> c \<in> set ''!#$%&*+-.^_|~'' \<or> c = backtick_ch"

definition validHeaderName :: "string \<Rightarrow> bool" where
  "validHeaderName s \<longleftrightarrow> s \<noteq> [] \<and> list_all header_char s"

fun canonical_from :: "bool \<Rightarrow> string \<Rightarrow> string" where
  "canonical_from up [] = []"
| "canonical_from up (c # cs) = (if up then upper_byte c else lower_byte c) # canonical_from (c = CHR ''-'') cs"

definition CanonicalHeaderKey :: "string \<Rightarrow> string" where
  "CanonicalHeaderKey s = canonical_from True s"

definition has_break :: "string \<Rightarrow> bool" where
  "has_break s \<longleftrightarrow> CHR 0x0D \<in> set s \<or> CHR 0x0A \<in> set s"

text \<open>The headers of the options in the order Go iterates their map.\<close>

fun client_headers :: "(string \<times> string) list \<Rightarrow> (string \<times> string) list \<Rightarrow> (client_error, (string \<times> string) list) result" where
  "client_headers acc [] = Inr acc"
| "client_headers acc ((name, value) # hs) =
     (let canon = CanonicalHeaderKey name
      in if \<not> validHeaderName name then Inl (RangerHeaderName name)
         else if has_break value then Inl (RangerHeaderValue name)
         else if canon \<in> {''Accept'', ''Authorization'', ''Content-Type'', ''Host''} then Inl (RangerHeaderManaged name)
         else if canon \<in> fst ` set acc then Inl (RangerHeaderTwice canon)
         else client_headers (acc @ [(canon, value)]) hs)"

text \<open>The endpoints for several accesses and for the permissions of a resource are built the same way
  and never called by the server.\<close>

definition ranger_New :: "NetURL \<Rightarrow> RangerOptions \<Rightarrow> (client_error, RangerClient) result" where
  "ranger_New net opts =
     (case net_Parse net (trim_space (ro_URL opts)) of
        Inl e \<Rightarrow> Inl (RangerBadURL e)
      | Inr base \<Rightarrow>
          if url_Scheme base \<noteq> ''http'' \<and> url_Scheme base \<noteq> ''https'' then Inl (RangerScheme (url_Scheme base))
          else if url_Host base = [] then Inl RangerNoHost
          else if url_HasUser base \<or> url_RawQuery base \<noteq> [] \<or> url_Fragment base \<noteq> [] then Inl RangerExtraParts
          else if has_break (ro_BearerToken opts) then Inl RangerTokenBreak
          else if (ro_BearerToken opts \<noteq> [] \<or> ro_Headers opts \<noteq> []) \<and> url_Scheme base \<noteq> ''https''
               \<and> \<not> ro_AllowInsecureHTTP opts then Inl RangerNeedsHTTPS
          else (case client_headers [] (ro_Headers opts) of
                  Inl e \<Rightarrow> Inl e
                | Inr headers \<Rightarrow>
                    (case net_JoinPath net (net_String net (base\<lparr>url_Path := trim_right_of (CHR ''/'') (url_Path base)\<rparr>)) [''authorize''] of
                       Inl e \<Rightarrow> Inl (RangerJoin e)
                     | Inr authorizeURL \<Rightarrow> Inr
                         \<lparr>rg_authorizeURL = authorizeURL, rg_bearerToken = ro_BearerToken opts, rg_headers = headers,
                          rg_timeout = (if ro_Timeout opts \<le> 0 then defaultTimeout else ro_Timeout opts),
                          rg_maxResponseBytes = (if ro_MaxResponseBytes opts \<le> 0 then defaultMaxResponseBytes
                            else ro_MaxResponseBytes opts)\<rparr>)))"

record ErrorBody =
  eb_Code :: string
  eb_Message :: string

definition d_ErrorBody :: "ErrorBody decoder" where
  "d_ErrorBody = d_struct
     [(''code'', member eb_Code eb_Code_update d_string), (''message'', member eb_Message eb_Message_update d_string)]"

definition decodeHTTPError :: "nat \<Rightarrow> string \<Rightarrow> client_error" where
  "decodeHTTPError status blob =
     (case decode_object \<lparr>eb_Code = [], eb_Message = []\<rparr> d_ErrorBody blob of
        None \<Rightarrow> RangerHTTPError status [] []
      | Some b \<Rightarrow> RangerHTTPError status (eb_Code b) (eb_Message b))"

definition ranger_request :: "RangerClient \<Rightarrow> string \<Rightarrow> HttpRequest" where
  "ranger_request c body =
     \<lparr>hq_URL = rg_authorizeURL c,
      hq_Headers = rg_headers c @ [(''Content-Type'', ''application/json''), (''Accept'', ''application/json'')]
        @ (if rg_bearerToken c = [] then [] else [(''Authorization'', ''Bearer '' @ rg_bearerToken c)]),
      hq_Body = body, hq_Timeout = rg_timeout c\<rparr>"

text \<open>\<^verbatim>\<open>Client.Authorize\<close>, on the text its payload is encoded to.\<close>

definition ranger_Authorize :: "transport \<Rightarrow> RangerClient \<Rightarrow> string option \<Rightarrow> (client_error, AuthorizationResult) result" where
  "ranger_Authorize http c payload =
     (case payload of
        None \<Rightarrow> Inl EncodingRequest
      | Some body \<Rightarrow>
          (case http (ranger_request c body) of
             Inl e \<Rightarrow> Inl (RangerCalling e)
           | Inr (status, reading) \<Rightarrow>
               (case reading of
                  Inl e \<Rightarrow> Inl (RangerReading e)
                | Inr blob \<Rightarrow>
                    if int (length blob) > rg_maxResponseBytes c then Inl (RangerTooLarge (rg_maxResponseBytes c))
                    else if status \<noteq> 200 then Inl (decodeHTTPError status blob)
                    else (case decode_object zero_Authorization d_Authorization blob of
                            None \<Rightarrow> Inl RangerDecoding
                          | Some r \<Rightarrow> Inr r))))"

section \<open>Attributes and templates\<close>

definition maxAttributeCount :: nat where "maxAttributeCount = 64"
definition maxAttributeKey :: nat where "maxAttributeKey = 128"
definition maxAttributeValue :: nat where "maxAttributeValue = 1024"
definition maxPrincipalSets :: nat where "maxPrincipalSets = 256"
definition maxPrincipalValue :: nat where "maxPrincipalValue = 256"
definition maxResourceName :: nat where "maxResourceName = 2048"

datatype attribute_error =
    TooManyAttributes
  | AttributeName string
  | AttributeManaged string
  | AttributeValue string

definition is_letter :: "char \<Rightarrow> bool" where
  "is_letter c \<longleftrightarrow> is_upper c \<or> is_lower c"

definition attributeKeyPattern :: "string \<Rightarrow> bool" where
  "attributeKeyPattern s =
     (case s of
        [] \<Rightarrow> False
      | c # cs \<Rightarrow> is_letter c \<and> list_all (\<lambda>x. is_letter x \<or> is_digit x \<or> x \<in> set ''_.-'') cs)"

text \<open>The attributes in the order Go iterates their map.\<close>

fun valid_attributes :: "(string \<times> string) list \<Rightarrow> (attribute_error, unit) result" where
  "valid_attributes [] = Inr ()"
| "valid_attributes ((name, value) # as) =
     (if name = [] \<or> length name > maxAttributeKey \<or> \<not> attributeKeyPattern name then Inl (AttributeName name)
      else if prefix ''semantic.'' name \<or> name = ''clientType'' \<or> name = ''requestData'' then Inl (AttributeManaged name)
      else if length value > maxAttributeValue \<or> containsControl value then Inl (AttributeValue name)
      else valid_attributes as)"

definition copyAndValidateAttributes :: "(string \<times> string) list \<Rightarrow> (attribute_error, (string \<times> string) list) result" where
  "copyAndValidateAttributes input =
     (if length input > maxAttributeCount then Inl TooManyAttributes
      else ebind (valid_attributes input) (\<lambda>_. Inr input))"

text \<open>A match of the placeholder expression at the front of a text: the match and the rest.\<close>

definition placeholder :: "string \<Rightarrow> (string \<times> string) option" where
  "placeholder s =
     (case s of
        [] \<Rightarrow> None
      | c # cs \<Rightarrow>
          (let name = takeWhile (\<lambda>x. is_letter x \<or> is_digit x) cs;
               rest = dropWhile (\<lambda>x. is_letter x \<or> is_digit x) cs
           in if c = CHR ''{'' \<and> name \<noteq> [] \<and> is_letter (hd name) \<and> rest \<noteq> [] \<and> hd rest = CHR ''}''
              then Some (c # name @ ''}'', tl rest) else None))"

lemma placeholder_shorter: "placeholder s = Some (m, r) \<Longrightarrow> length r < length s"
proof -
  assume a: "placeholder s = Some (m, r)"
  then obtain c cs where s: "s = c # cs" by (cases s) (auto simp: placeholder_def)
  with a have "r = tl (dropWhile (\<lambda>x. is_letter x \<or> is_digit x) cs)"
    by (auto simp: placeholder_def Let_def split: if_splits)
  then have "length r \<le> length cs" using length_dropWhile_le[of _ cs] by (simp add: le_diff_conv le_SucI)
  then show ?thesis by (simp add: s)
qed

text \<open>\<^verbatim>\<open>FindAllString\<close>, and what \<^verbatim>\<open>ReplaceAllString\<close> leaves.\<close>

function find_placeholders :: "string \<Rightarrow> string list \<times> string" where
  "find_placeholders [] = ([], [])"
| "find_placeholders (c # cs) =
     (case placeholder (c # cs) of
        Some (m, r) \<Rightarrow> (let (ms, without) = find_placeholders r in (m # ms, without))
      | None \<Rightarrow> (let (ms, without) = find_placeholders cs in (ms, c # without)))"
  by pat_completeness auto
termination
  by (relation "measure length") (auto dest: placeholder_shorter)

datatype template_error = TemplateNoPlaceholder | TemplateUnsupported string | TemplateMalformed

definition template_names :: "string list" where
  "template_names = [''{namespace}'', ''{name}'', ''{resource}'', ''{version}'']"

definition validateResourceTemplate :: "string \<Rightarrow> (template_error, unit) result" where
  "validateResourceTemplate template =
     (let (matches, without) = find_placeholders template
      in if matches = [] then Inl TemplateNoPlaceholder
         else (case find (\<lambda>m. m \<notin> set template_names) matches of
                 Some m \<Rightarrow> Inl (TemplateUnsupported m)
               | None \<Rightarrow>
                   if CHR ''{'' \<in> set without \<or> CHR ''}'' \<in> set without then Inl TemplateMalformed else Inr ()))"

text \<open>\<^verbatim>\<open>strings.NewReplacer\<close>: one pass from the left, the pairs tried in their order.\<close>

function replace_pairs :: "(string \<times> string) list \<Rightarrow> string \<Rightarrow> string" where
  "replace_pairs ps [] = []"
| "replace_pairs ps (c # cs) =
     (case find (\<lambda>p. fst p \<noteq> [] \<and> prefix (fst p) (c # cs)) ps of
        Some (old, new) \<Rightarrow> new @ replace_pairs ps (drop (length old) (c # cs))
      | None \<Rightarrow> c # replace_pairs ps cs)"
  by pat_completeness auto
termination
  by (relation "measure (\<lambda>(ps, s). length s)") (auto dest!: find_SomeD)

definition resource_pairs :: "Model \<Rightarrow> (string \<times> string) list" where
  "resource_pairs m =
     [(''{namespace}'', am_Namespace m), (''{name}'', am_Name m), (''{resource}'', am_Resource m), (''{version}'', am_Version m)]"

definition expandResource :: "string \<Rightarrow> Input \<Rightarrow> string" where
  "expandResource template input = replace_pairs (resource_pairs (in_Model input)) template"

section \<open>The provider\<close>

record RangerSettings =
  rs_ServiceType :: string
  rs_ServiceName :: string
  rs_ResourceTemplate :: string
  rs_Permission :: string
  rs_ContextAttributes :: "(string \<times> string) list"

record RangerProvider =
  rv_client :: RangerClient
  rv_serviceType :: string
  rv_serviceName :: string
  rv_resourceTemplate :: string
  rv_permission :: string
  rv_contextAttributes :: "(string \<times> string) list"
  rv_configurationScope :: string

datatype config_error =
    NilClient
  | FieldRequired string
  | FieldControl string
  | FieldTooLong
  | ResourceTooLong
  | BadTemplateSyntax template_error
  | ContextAttributes attribute_error

definition digestJSON :: "string option \<Rightarrow> string" where
  "digestJSON t = sha256_hex (case t of None \<Rightarrow> [] | Some b \<Rightarrow> b)"

definition scope_json :: "RangerSettings \<Rightarrow> string option" where
  "scope_json o' = json_struct
     [member_if True ''serviceType'' (Some (json_string (rs_ServiceType o'))),
      member_if True ''serviceName'' (Some (json_string (rs_ServiceName o'))),
      member_if True ''resource'' (Some (json_string (rs_ResourceTemplate o'))),
      member_if True ''permission'' (Some (json_string (rs_Permission o'))),
      member_if (rs_ContextAttributes o' \<noteq> []) ''contextAttributes'' (Some (string_map_json (rs_ContextAttributes o')))]"

fun required_settings :: "(string \<times> string) list \<Rightarrow> (config_error, unit) result" where
  "required_settings [] = Inr ()"
| "required_settings ((field, value) # fs) =
     (if trim_space value = [] then Inl (FieldRequired field)
      else if containsControl value then Inl (FieldControl field)
      else required_settings fs)"

text \<open>\<open>iter\<close> is the order in which Go iterates the map of the required settings.\<close>

definition ranger_provider_New ::
  "((string \<times> string) list \<Rightarrow> (string \<times> string) list) \<Rightarrow> RangerClient option \<Rightarrow> RangerSettings
     \<Rightarrow> (config_error, RangerProvider) result" where
  "ranger_provider_New iter client opts =
     (case client of
        None \<Rightarrow> Inl NilClient
      | Some c \<Rightarrow>
          ebind (required_settings (iter [(''serviceType'', rs_ServiceType opts), (''serviceName'', rs_ServiceName opts),
              (''resource'', rs_ResourceTemplate opts), (''permission'', rs_Permission opts)])) (\<lambda>_.
          if length (rs_ServiceType opts) > maxPrincipalValue \<or> length (rs_ServiceName opts) > maxPrincipalValue
             \<or> length (rs_Permission opts) > maxPrincipalValue then Inl FieldTooLong
          else if length (rs_ResourceTemplate opts) > maxResourceName then Inl ResourceTooLong
          else
            ebind (emap_err BadTemplateSyntax (validateResourceTemplate (rs_ResourceTemplate opts))) (\<lambda>_.
            ebind (emap_err ContextAttributes (copyAndValidateAttributes (rs_ContextAttributes opts))) (\<lambda>attributes.
            Inr \<lparr>rv_client = c, rv_serviceType = rs_ServiceType opts, rv_serviceName = rs_ServiceName opts,
              rv_resourceTemplate = rs_ResourceTemplate opts, rv_permission = rs_Permission opts,
              rv_contextAttributes = attributes,
              rv_configurationScope = digestJSON (scope_json (opts\<lparr>rs_ContextAttributes := attributes\<rparr>))\<rparr>))))"

section \<open>Deciding\<close>

datatype decide_error =
    BadAPIVersion string
  | NoPrincipal
  | BadPrincipal
  | TooManySets
  | BadSetValue string
  | SubjectAttributes attribute_error
  | BadAccessTime
  | BadAdapter
  | BadResource
  | EncodingRequestData
  | ClientFailed client_error
  | RequestIDMismatch string
  | NoAggregateDecision
  | PermissionCount nat
  | PermissionMissing
  | PermissionName string
  | NoAccessDecision
  | DecisionsDisagree string string
  | Obligations

definition bad_set_value :: "string \<Rightarrow> bool" where
  "bad_set_value v \<longleftrightarrow> v = [] \<or> length v > maxPrincipalValue \<or> containsControl v"

text \<open>\<open>iter\<close> is the order in which Go iterates the map of the two kinds of sets.\<close>

definition validateIdentity ::
  "((string \<times> string list) list \<Rightarrow> (string \<times> string list) list) \<Rightarrow> Identity \<Rightarrow> (decide_error, unit) result" where
  "validateIdentity iter idn =
     (if trim_space (id_Principal idn) = [] then Inl NoPrincipal
      else if length (id_Principal idn) > maxPrincipalValue \<or> containsControl (id_Principal idn) then Inl BadPrincipal
      else if length (id_Groups idn) > maxPrincipalSets \<or> length (id_Roles idn) > maxPrincipalSets then Inl TooManySets
      else (case find (\<lambda>kv. \<exists>v\<in>set (snd kv). bad_set_value v)
                   (iter [(''group'', id_Groups idn), (''role'', id_Roles idn)]) of
              Some kv \<Rightarrow> Inl (BadSetValue (fst kv))
            | None \<Rightarrow> emap_err SubjectAttributes (ebind (copyAndValidateAttributes (id_Claims idn)) (\<lambda>_. Inr ()))))"

definition requestDigest :: "Input \<Rightarrow> string" where
  "requestDigest input = take 32 (digestJSON (input_json input))"

text \<open>The context attributes cannot have the names the provider manages.\<close>

definition additional_info :: "RangerProvider \<Rightarrow> Input \<Rightarrow> string \<Rightarrow> (string \<times> string) list" where
  "additional_info p input requestData =
     [(''clientType'', env_Adapter (in_Environment input)), (''requestData'', requestData),
      (''semantic.apiVersion'', in_APIVersion input), (''semantic.model.name'', am_Name (in_Model input)),
      (''semantic.model.namespace'', am_Namespace (in_Model input)),
      (''semantic.model.resource'', am_Resource (in_Model input)),
      (''semantic.model.version'', am_Version (in_Model input))] @ rv_contextAttributes p"

definition user_json :: "Identity \<Rightarrow> string option" where
  "user_json idn = json_struct
     [member_if (id_Principal idn \<noteq> []) ''name'' (Some (json_string (id_Principal idn))),
      member_if (id_Claims idn \<noteq> []) ''attributes'' (Some (string_map_json (id_Claims idn))),
      member_if (id_Groups idn \<noteq> []) ''groups'' (json_strings (id_Groups idn)),
      member_if (id_Roles idn \<noteq> []) ''roles'' (json_strings (id_Roles idn))]"

definition access_json :: "RangerProvider \<Rightarrow> Input \<Rightarrow> string \<Rightarrow> string option" where
  "access_json p input resourceName = json_struct
     [member_if True ''resource'' (json_struct
        [member_if (resourceName \<noteq> []) ''name'' (Some (json_string resourceName)),
         member_if True ''nameMatchScope'' (Some (json_string ''SELF''))]),
      member_if (in_Action input \<noteq> []) ''action'' (Some (json_string (in_Action input))),
      member_if True ''permissions'' (json_strings [rv_permission p])]"

definition context_json :: "RangerProvider \<Rightarrow> Input \<Rightarrow> string \<Rightarrow> string option" where
  "context_json p input requestData = json_struct
     [member_if (rv_serviceType p \<noteq> []) ''serviceType'' (Some (json_string (rv_serviceType p))),
      member_if (rv_serviceName p \<noteq> []) ''serviceName'' (Some (json_string (rv_serviceName p))),
      member_if True ''accessTime'' (Some (int_str (env_AccessTimeUnixMilli (in_Environment input)))),
      member_if True ''additionalInfo'' (Some (string_map_json (additional_info p input requestData)))]"

definition authorization_request_json :: "RangerProvider \<Rightarrow> Input \<Rightarrow> string \<Rightarrow> string \<Rightarrow> string option" where
  "authorization_request_json p input resourceName requestData = json_struct
     [member_if (requestDigest input \<noteq> []) ''requestId'' (Some (json_string (requestDigest input))),
      member_if True ''user'' (user_json (in_Identity input)),
      member_if True ''access'' (access_json p input resourceName),
      member_if True ''context'' (context_json p input requestData)]"

definition map_len :: "'a list option \<Rightarrow> nat" where
  "map_len m = (case m of None \<Rightarrow> 0 | Some kvs \<Rightarrow> length kvs)"

definition policy_json :: "PolicyInfo \<Rightarrow> string option" where
  "policy_json pol = json_struct
     [member_if (pi_ID pol \<noteq> None) ''id'' (map_option int_str (pi_ID pol)),
      member_if (pi_Version pol \<noteq> None) ''version'' (map_option int_str (pi_Version pol))]"

definition revision_json :: "RangerProvider \<Rightarrow> PolicyInfo option \<Rightarrow> string option" where
  "revision_json p pol = json_struct
     [member_if True ''configuration'' (Some (json_string (rv_configurationScope p))),
      member_if (pol \<noteq> None) ''policy'' (Option.bind pol policy_json)]"

definition validateResult :: "RangerProvider \<Rightarrow> string \<Rightarrow> AuthorizationResult \<Rightarrow> (decide_error, AuthzDecision) result" where
  "validateResult p requestID res =
     (if ar_RequestID res \<noteq> requestID then Inl (RequestIDMismatch (ar_RequestID res))
      else if \<not> AccessDecision_Valid (ar_Decision res) then Inl NoAggregateDecision
      else if map_len (ar_Permissions res) \<noteq> 1 then Inl (PermissionCount (map_len (ar_Permissions res)))
      else (case Option.bind (ar_Permissions res) (\<lambda>m. Option.bind (map_of m (rv_permission p)) id) of
              None \<Rightarrow> Inl PermissionMissing
            | Some perm \<Rightarrow>
                if pr_Permission perm \<noteq> rv_permission p then Inl (PermissionName (pr_Permission perm))
                else (case pr_Access perm of
                        None \<Rightarrow> Inl NoAccessDecision
                      | Some acc \<Rightarrow>
                          if \<not> AccessDecision_Valid (acc_Decision acc) then Inl NoAccessDecision
                          else if acc_Decision acc \<noteq> ar_Decision res then Inl (DecisionsDisagree (ar_Decision res) (acc_Decision acc))
                          else if pr_DataMask perm \<noteq> None \<or> pr_RowFilter perm \<noteq> None
                               \<or> map_len (pr_AdditionalInfo perm) \<noteq> 0 \<or> map_len (pr_SubResources perm) \<noteq> 0
                          then Inl Obligations
                          else if ar_Decision res \<noteq> DecisionAllow then Inr \<lparr>ad_Allow = False, ad_Revision = []\<rparr>
                          else Inr \<lparr>ad_Allow = True, ad_Revision = digestJSON (revision_json p (acc_Policy acc))\<rparr>)))"

definition ranger_Decide ::
  "((string \<times> string list) list \<Rightarrow> (string \<times> string list) list) \<Rightarrow> transport \<Rightarrow> RangerProvider \<Rightarrow> Input
     \<Rightarrow> (decide_error, AuthzDecision) result" where
  "ranger_Decide iter http p input =
     (if in_APIVersion input \<noteq> InputAPIVersion then Inl (BadAPIVersion (in_APIVersion input))
      else ebind (validateIdentity iter (in_Identity input)) (\<lambda>_.
        let environment = in_Environment input; resourceName = expandResource (rv_resourceTemplate p) input
        in if env_AccessTimeUnixMilli environment \<le> 0 then Inl BadAccessTime
           else if trim_space (env_Adapter environment) = [] \<or> containsControl (env_Adapter environment) then Inl BadAdapter
           else if resourceName = [] \<or> length resourceName > maxResourceName \<or> containsControl resourceName then Inl BadResource
           else (case plain_request_json (in_Request input) of
                   None \<Rightarrow> Inl EncodingRequestData
                 | Some requestData \<Rightarrow>
                     ebind (emap_err ClientFailed (ranger_Authorize http (rv_client p)
                         (authorization_request_json p input resourceName requestData))) (\<lambda>res.
                       validateResult p (requestDigest input) res))))"

definition ranger_failure :: "(decide_error \<Rightarrow> string) \<Rightarrow> decide_error \<Rightarrow> provider_error" where
  "ranger_failure words e =
     (case e of
        ClientFailed (RangerCalling ContextCanceled) \<Rightarrow> ContextCanceled
      | ClientFailed (RangerReading ContextCanceled) \<Rightarrow> ContextCanceled
      | _ \<Rightarrow> ProviderFailed (words e))"

definition ranger_provider ::
  "(decide_error \<Rightarrow> string) \<Rightarrow> ((string \<times> string list) list \<Rightarrow> (string \<times> string list) list) \<Rightarrow> transport \<Rightarrow> RangerProvider
     \<Rightarrow> Provider" where
  "ranger_provider words iter http p input = emap_err (ranger_failure words) (ranger_Decide iter http p input)"

section \<open>Only an obligation-free ALLOW allows\<close>

definition no_obligations :: "PermissionResult \<Rightarrow> bool" where
  "no_obligations perm \<longleftrightarrow> pr_DataMask perm = None \<and> pr_RowFilter perm = None
     \<and> pr_AdditionalInfo perm \<in> {None, Some []} \<and> pr_SubResources perm \<in> {None, Some []}"

text \<open>The answer repeats the identifier of the request and allows its one permission, in the aggregate
  and in itself, without obligations.\<close>

definition clean_allow :: "RangerProvider \<Rightarrow> string \<Rightarrow> AuthorizationResult \<Rightarrow> bool" where
  "clean_allow p requestID res \<longleftrightarrow> ar_RequestID res = requestID \<and> ar_Decision res = DecisionAllow
     \<and> (\<exists>perm acc. ar_Permissions res = Some [(rv_permission p, Some perm)] \<and> pr_Permission perm = rv_permission p
          \<and> pr_Access perm = Some acc \<and> acc_Decision acc = DecisionAllow \<and> no_obligations perm)"

lemma map_len_0: "map_len m = 0 \<longleftrightarrow> m \<in> {None, Some []}"
  by (auto simp: map_len_def split: option.splits)

lemma map_len_1: "map_len m = 1 \<longleftrightarrow> (\<exists>k v. m = Some [(k, v)])"
  by (auto simp: map_len_def length_Suc_conv split: option.splits)

lemma validateResult_yes: "(\<exists>d. validateResult p rid res = Inr d \<and> ad_Allow d) \<longleftrightarrow> clean_allow p rid res"
proof
  assume "\<exists>d. validateResult p rid res = Inr d \<and> ad_Allow d"
  then obtain d where d: "validateResult p rid res = Inr d" "ad_Allow d" by blast
  from d(1) have c: "ar_RequestID res = rid" "map_len (ar_Permissions res) = 1"
    by (auto simp: validateResult_def split: if_splits)
  from c(2) obtain k v where kv: "ar_Permissions res = Some [(k, v)]" unfolding map_len_1 by blast
  from d(1) c kv obtain perm acc where perm: "k = rv_permission p" "v = Some perm" "pr_Permission perm = rv_permission p"
      "pr_Access perm = Some acc" "acc_Decision acc = ar_Decision res"
    by (auto simp: validateResult_def split: if_splits option.splits)
  moreover have "ar_Decision res = DecisionAllow" "no_obligations perm"
    using d c kv perm by (auto simp: validateResult_def no_obligations_def map_len_0 split: if_splits)
  ultimately show "clean_allow p rid res" using c(1) kv by (simp add: clean_allow_def)
next
  assume "clean_allow p rid res"
  then obtain perm acc where c: "ar_RequestID res = rid" "ar_Decision res = DecisionAllow"
      "ar_Permissions res = Some [(rv_permission p, Some perm)]" "pr_Permission perm = rv_permission p"
      "pr_Access perm = Some acc" "acc_Decision acc = DecisionAllow" "no_obligations perm"
    by (auto simp: clean_allow_def)
  then have "map_len (pr_AdditionalInfo perm) = 0" "map_len (pr_SubResources perm) = 0" "pr_DataMask perm = None"
      "pr_RowFilter perm = None"
    unfolding map_len_0 no_obligations_def by blast+
  with c show "\<exists>d. validateResult p rid res = Inr d \<and> ad_Allow d"
    by (simp add: validateResult_def AccessDecision_Valid_def map_len_def[of "Some _"])
qed

text \<open>What the provider checks of an input before it asks.\<close>

definition askable :: "RangerProvider \<Rightarrow> Input \<Rightarrow> bool" where
  "askable p input \<longleftrightarrow> in_APIVersion input = InputAPIVersion
     \<and> isOK (validateIdentity id (in_Identity input))
     \<and> 0 < env_AccessTimeUnixMilli (in_Environment input)
     \<and> trim_space (env_Adapter (in_Environment input)) \<noteq> [] \<and> \<not> containsControl (env_Adapter (in_Environment input))
     \<and> expandResource (rv_resourceTemplate p) input \<noteq> []
     \<and> length (expandResource (rv_resourceTemplate p) input) \<le> maxResourceName
     \<and> \<not> containsControl (expandResource (rv_resourceTemplate p) input)"

lemma validateIdentity_order:
  assumes "\<And>xs. mset (iter xs) = mset xs"
  shows "isOK (validateIdentity iter idn) \<longleftrightarrow> isOK (validateIdentity id idn)"
proof -
  have none: "find P xs = None \<longleftrightarrow> (\<forall>x\<in>set xs. \<not> P x)" for P and xs :: "(string \<times> string list) list"
    by (auto simp: find_None_iff)
  have "set (iter xs) = set xs" for xs using assms by (metis set_mset_mset)
  then have eq: "find P (iter xs) = None \<longleftrightarrow> find P xs = None" for P xs by (simp add: none)
  have "isOK (validateIdentity it idn) \<longleftrightarrow> trim_space (id_Principal idn) \<noteq> []
      \<and> \<not> (length (id_Principal idn) > maxPrincipalValue \<or> containsControl (id_Principal idn))
      \<and> \<not> (length (id_Groups idn) > maxPrincipalSets \<or> length (id_Roles idn) > maxPrincipalSets)
      \<and> find (\<lambda>kv. \<exists>v\<in>set (snd kv). bad_set_value v) (it [(''group'', id_Groups idn), (''role'', id_Roles idn)]) = None
      \<and> isOK (emap_err SubjectAttributes (ebind (copyAndValidateAttributes (id_Claims idn)) (\<lambda>_. Inr ())))" for it
    by (auto simp: validateIdentity_def split: option.split)
  then show ?thesis by (simp only: eq id_apply)
qed

text \<open>
  C14. Ranger allows a query only by a clean ALLOW: an input the provider accepts was sent, as the request of
  this very user, resource and permission, to the configured endpoint, and the answer, complete and within the size
  limit, has status 200, decodes without unknown members, repeats the request's identifier, and
  allows the one permission asked for, both in the aggregate and in itself, with no mask, row filter or
  other obligation. A partial, undetermined or contradictory answer is never an allow.
\<close>

theorem ranger_allow_exact:
  assumes "\<And>xs. mset (iter xs) = mset xs"
  shows "(\<exists>d. ranger_provider words iter http p input = Inr d \<and> ad_Allow d) \<longleftrightarrow>
     askable p input
     \<and> (\<exists>requestData body blob res.
          plain_request_json (in_Request input) = Some requestData
          \<and> authorization_request_json p input (expandResource (rv_resourceTemplate p) input) requestData = Some body
          \<and> http (ranger_request (rv_client p) body) = Inr (200, Inr blob)
          \<and> int (length blob) \<le> rg_maxResponseBytes (rv_client p)
          \<and> decode_object zero_Authorization d_Authorization blob = Some res
          \<and> clean_allow p (requestDigest input) res)"
proof -
  have ask: "(\<exists>res. ranger_Authorize http c payload = Inr res \<and> Q res) \<longleftrightarrow>
      (\<exists>body blob res. payload = Some body \<and> http (ranger_request c body) = Inr (200, Inr blob)
        \<and> int (length blob) \<le> rg_maxResponseBytes c \<and> decode_object zero_Authorization d_Authorization blob = Some res \<and> Q res)"
    for c payload and Q :: "AuthorizationResult \<Rightarrow> bool"
    by (auto simp: ranger_Authorize_def split: option.splits sum.splits if_splits)
  have "(\<exists>d. ranger_provider words iter http p input = Inr d \<and> ad_Allow d) \<longleftrightarrow>
      askable p input \<and> (\<exists>requestData. plain_request_json (in_Request input) = Some requestData
        \<and> (\<exists>res. ranger_Authorize http (rv_client p)
              (authorization_request_json p input (expandResource (rv_resourceTemplate p) input) requestData) = Inr res
            \<and> (\<exists>d. validateResult p (requestDigest input) res = Inr d \<and> ad_Allow d)))"
    unfolding ranger_provider_def ranger_Decide_def askable_def validateIdentity_order[OF assms, symmetric]
    by (auto simp: result_simps Let_def isOK_iff split: option.splits)
  then show ?thesis unfolding validateResult_yes ask by blast
qed

section \<open>The resource a request is judged on\<close>

text \<open>A template as a sequence of characters and placeholders.\<close>

fun render_piece :: "Model \<Rightarrow> char + string \<Rightarrow> string" where
  "render_piece m (Inl c) = [c]"
| "render_piece m (Inr name) =
     (case map_of (resource_pairs m) name of Some v \<Rightarrow> v | None \<Rightarrow> name)"

fun piece_text :: "char + string \<Rightarrow> string" where
  "piece_text (Inl c) = [c]"
| "piece_text (Inr name) = name"

lemma placeholder_text: "placeholder s = Some (m, r) \<Longrightarrow> s = m @ r"
proof -
  assume a: "placeholder s = Some (m, r)"
  then obtain c cs where s: "s = c # cs" by (cases s) (auto simp: placeholder_def)
  let ?P = "\<lambda>x. is_letter x \<or> is_digit x"
  from a s have m: "m = c # takeWhile ?P cs @ ''}''" "r = tl (dropWhile ?P cs)" "dropWhile ?P cs \<noteq> []" "hd (dropWhile ?P cs) = CHR ''}''"
    by (auto simp: placeholder_def Let_def split: if_splits)
  then have "''}'' @ r = dropWhile ?P cs" by (metis append_Cons append_Nil list.collapse)
  then show ?thesis using m(1) s by (metis append_Cons append_assoc takeWhile_dropWhile_id)
qed

lemma template_name_prefix:
  assumes "n \<in> set template_names" "n' \<in> set template_names" "prefix n (n' @ r)"
  shows "n = n'"
  using assms by (auto simp: template_names_def)

lemma expand_pieces:
  assumes "find_placeholders t = (ms, without)" "set ms \<subseteq> set template_names"
    "CHR ''{'' \<notin> set without"
  shows "\<exists>ps. replace_pairs (resource_pairs m) t = concat (map (render_piece m) ps)
      \<and> {n. Inr n \<in> set ps} = set ms \<and> {c. Inl c \<in> set ps} = set without \<and> t = concat (map piece_text ps)"
  using assms
proof (induction t arbitrary: ms without rule: find_placeholders.induct)
  case 1
  then show ?case by (intro exI[of _ "[]"]) simp
next
  case (2 c cs)
  show ?case
  proof (cases "placeholder (c # cs)")
    case None
    from 2(3) None obtain w where w: "find_placeholders cs = (ms, w)" "without = c # w"
      by (auto split: prod.splits)
    then have c: "c \<noteq> CHR ''{''" "CHR ''{'' \<notin> set w" using 2(5) by auto
    from 2(1)[OF None w(1) 2(4) c(2)] obtain ps where
      ps: "replace_pairs (resource_pairs m) cs = concat (map (render_piece m) ps)" "{n. Inr n \<in> set ps} = set ms"
        "{c. Inl c \<in> set ps} = set w" "cs = concat (map piece_text ps)" by blast
    have "find (\<lambda>p. fst p \<noteq> [] \<and> prefix (fst p) (c # cs)) (resource_pairs m) = None"
      using c(1) by (simp add: resource_pairs_def)
    then have "replace_pairs (resource_pairs m) (c # cs) = c # replace_pairs (resource_pairs m) cs" by simp
    with ps w(2) show ?thesis by (intro exI[of _ "Inl c # ps"]) auto
  next
    case (Some mr)
    then obtain n r where n: "placeholder (c # cs) = Some (n, r)" by (cases mr) auto
    from 2(3) n obtain ms' where ms: "find_placeholders r = (ms', without)" "ms = n # ms'"
      by (auto split: prod.splits)
    from 2(2)[OF n refl ms(1) _ 2(5)] ms(2) 2(4) obtain ps where
      ps: "replace_pairs (resource_pairs m) r = concat (map (render_piece m) ps)" "{n. Inr n \<in> set ps} = set ms'"
        "{c. Inl c \<in> set ps} = set without" "r = concat (map piece_text ps)" by auto
    have t: "c # cs = n @ r" using placeholder_text[OF n] .
    have nn: "n \<in> set template_names" using 2(4) ms(2) by simp
    obtain v where v: "find (\<lambda>p. fst p \<noteq> [] \<and> prefix (fst p) (n @ r)) (resource_pairs m) = Some (n, v)"
        "map_of (resource_pairs m) n = Some v"
      using nn by (auto simp: template_names_def resource_pairs_def)
    have "replace_pairs (resource_pairs m) (c # cs) = v @ replace_pairs (resource_pairs m) r"
    proof -
      have "drop (length n) (c # cs) = r" unfolding t by simp
      then show ?thesis unfolding replace_pairs.simps(2) v(1)[folded t] by simp
    qed
    with ps ms(2) v(2) t show ?thesis by (intro exI[of _ "Inr n # ps"]) auto
  qed
qed

text \<open>
  The resource a request is judged on is the configured template with every placeholder replaced once
  by the attribute of the model: what an attribute contains is never read as a placeholder again,
  no brace of the template is left over, and at least one attribute occurs in it.
\<close>

lemma expandResource_exact:
  assumes "validateResourceTemplate t = Inr u"
  shows "\<exists>ps. expandResource t input = concat (map (render_piece (in_Model input)) ps)
     \<and> t = concat (map piece_text ps) \<and> {n. Inr n \<in> set ps} \<subseteq> set template_names \<and> {n. Inr n \<in> set ps} \<noteq> {}
     \<and> {c. Inl c \<in> set ps} \<inter> {CHR ''{'', CHR ''}''} = {}"
proof -
  obtain ms w where f: "find_placeholders t = (ms, w)" by (cases "find_placeholders t")
  with assms have v: "ms \<noteq> []" "\<forall>m\<in>set ms. m \<in> set template_names" "CHR ''{'' \<notin> set w" "CHR ''}'' \<notin> set w"
    by (auto simp: validateResourceTemplate_def find_None_iff split: if_splits option.splits)
  then have "set ms \<subseteq> set template_names" by blast
  from expand_pieces[OF f this v(3)] obtain ps where
    ps: "replace_pairs (resource_pairs (in_Model input)) t = concat (map (render_piece (in_Model input)) ps)"
      "{n. Inr n \<in> set ps} = set ms" "{c. Inl c \<in> set ps} = set w" "t = concat (map piece_text ps)"
    by blast
  then show ?thesis using v by (intro exI[of _ ps]) (auto simp: expandResource_def)
qed

definition sample_input :: Input where
  "sample_input = NewQueryInput shop by_city (no_identity\<lparr>id_Principal := ''ann'', id_Roles := [''b'']\<rparr>)
     \<lparr>env_AccessTimeUnixMilli = 1, env_Adapter = ''rest''\<rparr>"

definition sample_answer :: string where
  "sample_answer = json_members
     [(''requestId'', json_string (requestDigest sample_input)), (''decision'', json_string ''ALLOW''),
      (''permissions'', json_members [(''read'', json_members
         [(''permission'', json_string ''read''), (''access'', json_members [(''decision'', json_string ''ALLOW'')])])])]"

text \<open>The limit on answers is exactly the length of this one.\<close>

definition sample_ranger :: RangerProvider where
  "sample_ranger = \<lparr>rv_client = \<lparr>rg_authorizeURL = ''u'', rg_bearerToken = [], rg_headers = [], rg_timeout = 1,
       rg_maxResponseBytes = int (length sample_answer)\<rparr>,
     rv_serviceType = ''t'', rv_serviceName = ''n'', rv_resourceTemplate = ''{name}'', rv_permission = ''read'',
     rv_contextAttributes = [], rv_configurationScope = ''s''\<rparr>"

lemma utf8_ok_requestDigest: "utf8_ok (requestDigest input)"
proof (rule utf8_ok_ascii, rule ballI)
  fix c assume "c \<in> set (requestDigest input)"
  then have "c \<in> set (sha256_hex (case input_json input of None \<Rightarrow> [] | Some b \<Rightarrow> b))"
    unfolding requestDigest_def digestJSON_def by (rule in_set_takeD)
  then show "byte c < 128"
    unfolding sha256_hex_def using hex_str_ascii sha256_bytes by blast
qed

lemma sample_answer_reads:
  "reads (JObj [(''requestId'', JStr (requestDigest sample_input)), (''decision'', JStr ''ALLOW''),
     (''permissions'', JObj [(''read'', JObj [(''permission'', JStr ''read''), (''access'', JObj [(''decision'', JStr ''ALLOW'')])])])])
   sample_answer"
proof -
  have t: "utf8_ok ''requestId''" "utf8_ok ''decision''" "utf8_ok ''permissions''" "utf8_ok ''read''" "utf8_ok ''permission''"
    "utf8_ok ''access''" "utf8_ok ''ALLOW''"
    by (simp_all add: utf8_ok_ascii byte_def)
  show ?thesis
    unfolding sample_answer_def
    by (intro reads_members) (simp add: t reads_string utf8_ok_requestDigest reads_members)
qed

lemma sample_answer_decoded:
  "decode_object zero_Authorization d_Authorization sample_answer = Some
     \<lparr>ar_RequestID = requestDigest sample_input, ar_Decision = ''ALLOW'',
      ar_Permissions = Some [(''read'', Some (zero_Permission\<lparr>pr_Permission := ''read'',
        pr_Access := Some \<lparr>acc_Decision = ''ALLOW'', acc_Policy = None\<rparr>\<rparr>))]\<rparr>"
proof -
  have keys: "\<not> same_key ''decision'' ''requestId''" "\<not> same_key ''permissions'' ''requestId''"
    "\<not> same_key ''permissions'' ''decision''" "\<not> same_key ''access'' ''permission''"
    by (rule same_key_other; simp add: byte_def)+
  have allow: "d_AccessDecision old (JStr ''ALLOW'') = Some ''ALLOW''" for old
    by (simp add: d_AccessDecision_def AccessDecision_Valid_def DecisionAllow_def)
  have acc: "d_AccessResult zero_AccessResult (JObj [(''decision'', JStr ''ALLOW'')]) = Some \<lparr>acc_Decision = ''ALLOW'', acc_Policy = None\<rparr>"
    by (simp add: d_AccessResult_def d_struct_def field_decoder_def member_def allow zero_AccessResult_def)
  have perm: "d_Permission zero_Permission (JObj [(''permission'', JStr ''read''), (''access'', JObj [(''decision'', JStr ''ALLOW'')])])
      = Some (zero_Permission\<lparr>pr_Permission := ''read'', pr_Access := Some \<lparr>acc_Decision = ''ALLOW'', acc_Policy = None\<rparr>\<rparr>)"
    by (simp add: d_Permission_def d_struct_def field_decoder_def member_def keys d_string_def d_ptr_def acc zero_Permission_def)
  show ?thesis
    unfolding decode_object_def json_parse_reads[OF sample_answer_reads]
    by (simp add: d_Authorization_def d_struct_def field_decoder_def member_def keys d_string_def allow d_map_def d_ptr_def perm
        zero_Authorization_def)
qed

lemma sample_askable: "askable sample_ranger sample_input"
proof -
  have r: "expandResource ''{name}'' sample_input = ''shop''"
    by (simp add: expandResource_def resource_pairs_def sample_input_def NewQueryInput_def shop_def Let_def)
  have "trim_space ''ann'' = ''ann''" "trim_space ''rest'' = ''rest''" by code_simp+
  then show ?thesis
    by (simp add: askable_def r sample_ranger_def)
      (simp add: sample_input_def NewQueryInput_def Let_def shop_def two_roles_def no_identity_def validateIdentity_def
        maxPrincipalValue_def maxPrincipalSets_def maxResourceName_def containsControl_def byte_def bad_set_value_def
        copyAndValidateAttributes_def)
qed

lemma json_struct_Some: "\<forall>m\<in>set ms. m \<noteq> None \<Longrightarrow> json_struct ms \<noteq> None"
proof -
  assume "\<forall>m\<in>set ms. m \<noteq> None"
  then have "option_list ms \<noteq> None" by (induction ms) auto
  then show ?thesis by (auto simp: json_struct_def)
qed

lemma member_if_Some: "t \<noteq> None \<Longrightarrow> member_if b k t \<noteq> None"
  by (simp add: member_if_def)

theorem ranger_allow_exact_witness:
  "\<exists>d. ranger_provider (\<lambda>e. []) id (\<lambda>q. Inr (200, Inr sample_answer)) sample_ranger sample_input = Inr d \<and> ad_Allow d"
proof -
  have "plain_request_json (in_Request sample_input) \<noteq> None"
    unfolding plain_request_json_def by (rule json_struct_Some)
      (simp add: member_if_def json_strings_def sample_input_def NewQueryInput_def Let_def by_city_def empty_Request_def)
  then obtain rd where rd: "plain_request_json (in_Request sample_input) = Some rd" by blast
  have "authorization_request_json sample_ranger sample_input rn rd \<noteq> None" for rn
    unfolding authorization_request_json_def user_json_def access_json_def context_json_def
    by (intro json_struct_Some) (simp add: member_if_def json_strings_def json_struct_def)
  then obtain body where body:
    "authorization_request_json sample_ranger sample_input (expandResource (rv_resourceTemplate sample_ranger) sample_input) rd
       = Some body" by blast
  have len: "int (length sample_answer) \<le> rg_maxResponseBytes (rv_client sample_ranger)"
    by (simp add: sample_ranger_def)
  have clean: "clean_allow sample_ranger (requestDigest sample_input)
     \<lparr>ar_RequestID = requestDigest sample_input, ar_Decision = ''ALLOW'',
      ar_Permissions = Some [(''read'', Some (zero_Permission\<lparr>pr_Permission := ''read'',
        pr_Access := Some \<lparr>acc_Decision = ''ALLOW'', acc_Policy = None\<rparr>\<rparr>))]\<rparr>"
    by (simp add: clean_allow_def sample_ranger_def no_obligations_def zero_Permission_def DecisionAllow_def)
  have perm: "mset (id xs) = mset xs" for xs :: "(string \<times> string list) list" by simp
  show ?thesis
    unfolding ranger_allow_exact[OF perm]
    using sample_askable rd body len sample_answer_decoded clean by blast
qed

end
