(* ===== verification/Providers.thy ===== *)
theory Providers
  imports Ranger
begin

text \<open>
  \<^verbatim>\<open>cmd/server/authorization.go\<close>: from the provider entries of the configuration to the registry of external
  authorizers. The environment variables, the URL parser, the HTTP round trip and the iteration orders of
  Go maps are the record \<open>Wiring\<close>. The last section states what an allow of a registry so built rests on.
\<close>

section \<open>Configuration\<close>

record RangerProviderConfig =
  rc_AuthenticationMode :: string
  rc_ServicePrincipal :: string
  rc_AllowInsecureHTTP :: bool
  rc_ServiceType :: string
  rc_ServiceName :: string
  rc_Resource :: string
  rc_Permission :: string
  rc_ContextAttributes :: "(string \<times> string) list"

text \<open>The entry of an OPA provider has one member, the path of its decision.\<close>

record ProviderConfig =
  pc_Name :: string
  pc_Type :: string
  pc_URL :: string
  pc_TimeoutSeconds :: int
  pc_BearerTokenEnv :: string
  pc_MaxResponseBytes :: int
  pc_OPA :: "string option"
  pc_Ranger :: "RangerProviderConfig option"

record Wiring =
  wi_Net :: NetURL
  wi_Env :: "string \<Rightarrow> string option"
  wi_Http :: transport
  wi_OpaWords :: "opa_error \<Rightarrow> string"
  wi_RangerWords :: "decide_error \<Rightarrow> string"
  wi_IterSettings :: "(string \<times> string) list \<Rightarrow> (string \<times> string) list"
  wi_IterSets :: "(string \<times> string list) list \<Rightarrow> (string \<times> string list) list"

datatype build_error =
    ConfigName nat
  | ConfigURL nat
  | ConfigTimeout nat
  | ConfigMaxBytes nat
  | TokenEnvName string string
  | TokenEnvMissing string string
  | SectionRequired nat string
  | SectionNotAllowed nat string string
  | DecisionPathRequired nat
  | AuthenticationMode nat
  | ServicePrincipalRequired nat
  | TypeUnsupported nat string
  | OpaConfiguration string opa_error
  | RangerClientConfiguration string client_error
  | RangerConfiguration string config_error
  | Registration register_error

definition authorizationTokenEnvPrefix :: string where
  "authorizationTokenEnvPrefix = ''AUTHORIZATION_PROVIDER_TOKEN_''"

definition rangerServicePrincipalHeader :: string where
  "rangerServicePrincipalHeader = ''X-Forwarded-User''"

text \<open>The anchored expression \<^verbatim>\<open>AUTHORIZATION_PROVIDER_TOKEN_[A-Z0-9_]+\<close>.\<close>

definition authorizationTokenEnvPattern :: "string \<Rightarrow> bool" where
  "authorizationTokenEnvPattern s \<longleftrightarrow>
     (let rest = drop (length authorizationTokenEnvPrefix) s
      in prefix authorizationTokenEnvPrefix s \<and> rest \<noteq> []
         \<and> list_all (\<lambda>c. is_upper c \<or> is_digit c \<or> c = CHR ''_'') rest)"

definition maxProviderTimeout :: int where "maxProviderTimeout = 30"
definition maxProviderBytes :: int where "maxProviderBytes = 4 * 2 ^ 20"

section \<open>One provider\<close>

definition provider_token :: "Wiring \<Rightarrow> ProviderConfig \<Rightarrow> (build_error, string) result" where
  "provider_token w cfg =
     (if pc_BearerTokenEnv cfg = [] then Inr []
      else if \<not> authorizationTokenEnvPattern (pc_BearerTokenEnv cfg) then Inl (TokenEnvName (pc_Name cfg) (pc_BearerTokenEnv cfg))
      else (case wi_Env w (pc_BearerTokenEnv cfg) of
              None \<Rightarrow> Inl (TokenEnvMissing (pc_Name cfg) (pc_BearerTokenEnv cfg))
            | Some t \<Rightarrow> if t = [] then Inl (TokenEnvMissing (pc_Name cfg) (pc_BearerTokenEnv cfg)) else Inr t))"

definition opa_entry :: "Wiring \<Rightarrow> nat \<Rightarrow> ProviderConfig \<Rightarrow> string \<Rightarrow> (build_error, Provider) result" where
  "opa_entry w i cfg token =
     (case pc_OPA cfg of
        None \<Rightarrow> Inl (SectionRequired i ''opa'')
      | Some decisionPath \<Rightarrow>
          if pc_Ranger cfg \<noteq> None then Inl (SectionNotAllowed i ''ranger'' ''opa'')
          else if decisionPath = [] then Inl (DecisionPathRequired i)
          else ebind (emap_err (OpaConfiguration (pc_Name cfg)) (opa_New (wi_Net w)
                 \<lparr>oo_URL = pc_URL cfg, oo_DecisionPath = decisionPath, oo_BearerToken = token,
                  oo_Timeout = pc_TimeoutSeconds cfg * 10 ^ 9, oo_MaxResponseBytes = pc_MaxResponseBytes cfg\<rparr>))
               (\<lambda>client. Inr (opa_provider (wi_OpaWords w) (wi_Http w) client)))"

definition ranger_entry :: "Wiring \<Rightarrow> nat \<Rightarrow> ProviderConfig \<Rightarrow> string \<Rightarrow> (build_error, Provider) result" where
  "ranger_entry w i cfg token =
     (case pc_Ranger cfg of
        None \<Rightarrow> Inl (SectionRequired i ''ranger'')
      | Some rc \<Rightarrow>
          if pc_OPA cfg \<noteq> None then Inl (SectionNotAllowed i ''opa'' ''ranger'')
          else if rc_AuthenticationMode rc \<noteq> ''service'' then Inl (AuthenticationMode i)
          else if trim_space (rc_ServicePrincipal rc) = [] then Inl (ServicePrincipalRequired i)
          else
            ebind (emap_err (RangerClientConfiguration (pc_Name cfg)) (ranger_New (wi_Net w)
               \<lparr>ro_URL = pc_URL cfg, ro_BearerToken = token,
                ro_Headers = [(rangerServicePrincipalHeader, rc_ServicePrincipal rc)],
                ro_AllowInsecureHTTP = rc_AllowInsecureHTTP rc, ro_Timeout = pc_TimeoutSeconds cfg * 10 ^ 9,
                ro_MaxResponseBytes = pc_MaxResponseBytes cfg\<rparr>)) (\<lambda>client.
            ebind (emap_err (RangerConfiguration (pc_Name cfg)) (ranger_provider_New (wi_IterSettings w) (Some client)
               \<lparr>rs_ServiceType = rc_ServiceType rc, rs_ServiceName = rc_ServiceName rc, rs_ResourceTemplate = rc_Resource rc,
                rs_Permission = rc_Permission rc, rs_ContextAttributes = rc_ContextAttributes rc\<rparr>)) (\<lambda>provider.
            Inr (ranger_provider (wi_RangerWords w) (wi_IterSets w) (wi_Http w) provider))))"

definition provider_entry :: "Wiring \<Rightarrow> nat \<Rightarrow> ProviderConfig \<Rightarrow> (build_error, Provider) result" where
  "provider_entry w i cfg =
     (if \<not> ValidateProviderName (pc_Name cfg) then Inl (ConfigName i)
      else if pc_URL cfg = [] then Inl (ConfigURL i)
      else if pc_TimeoutSeconds cfg < 0 \<or> pc_TimeoutSeconds cfg > maxProviderTimeout then Inl (ConfigTimeout i)
      else if pc_MaxResponseBytes cfg < 0 \<or> pc_MaxResponseBytes cfg > maxProviderBytes then Inl (ConfigMaxBytes i)
      else ebind (provider_token w cfg) (\<lambda>token.
        if pc_Type cfg = ''opa'' then opa_entry w i cfg token
        else if pc_Type cfg = ''ranger'' then ranger_entry w i cfg token
        else Inl (TypeUnsupported i (pc_Type cfg))))"

fun register_entries :: "Wiring \<Rightarrow> nat \<Rightarrow> Registry \<Rightarrow> ProviderConfig list \<Rightarrow> (build_error, Registry) result" where
  "register_entries w i reg [] = Inr reg"
| "register_entries w i reg (cfg # cfgs) =
     ebind (provider_entry w i cfg) (\<lambda>provider.
     ebind (emap_err Registration (Register_provider reg (pc_Name cfg) (Some provider))) (\<lambda>reg'.
     register_entries w (Suc i) reg' cfgs))"

definition buildAuthorizationRegistry :: "Wiring \<Rightarrow> ProviderConfig list \<Rightarrow> (build_error, Registry) result" where
  "buildAuthorizationRegistry w configs = register_entries w 0 NewRegistry configs"

section \<open>What an entry becomes\<close>

text \<open>The connection of a provider: how long and how much it waits for, and where its token goes.\<close>

definition bounded_call :: "HttpRequest \<Rightarrow> int \<Rightarrow> bool" where
  "bounded_call q n \<longleftrightarrow> 0 < hq_Timeout q \<and> hq_Timeout q \<le> maxProviderTimeout * 10 ^ 9 \<and> n \<le> maxProviderBytes"

definition secure_for :: "Wiring \<Rightarrow> ProviderConfig \<Rightarrow> bool" where
  "secure_for w cfg \<longleftrightarrow> (\<exists>address base. address \<in> {pc_URL cfg, trim_space (pc_URL cfg)} \<and> net_Parse (wi_Net w) address = Inr base
     \<and> (url_Scheme base = ''https'' \<or> (\<exists>rc. pc_Ranger cfg = Some rc \<and> rc_AllowInsecureHTTP rc)))"

definition token_guarded :: "Wiring \<Rightarrow> ProviderConfig \<Rightarrow> HttpRequest \<Rightarrow> bool" where
  "token_guarded w cfg q \<longleftrightarrow> (\<forall>h. (''Authorization'', h) \<in> set (hq_Headers q) \<longrightarrow>
     (\<exists>token. h = ''Bearer '' @ token \<and> token \<noteq> [] \<and> wi_Env w (pc_BearerTokenEnv cfg) = Some token \<and> secure_for w cfg))"

lemma provider_token_cases:
  assumes "provider_token w cfg = Inr token"
  shows "token = [] \<or> wi_Env w (pc_BearerTokenEnv cfg) = Some token"
  using assms by (auto simp: provider_token_def split: if_splits option.splits)

definition timeout_ok :: "int \<Rightarrow> bool" where
  "timeout_ok t \<longleftrightarrow> 0 < t \<and> t \<le> maxProviderTimeout * 10 ^ 9"

lemma timeout_within:
  "t \<le> maxProviderTimeout * 10 ^ 9 \<Longrightarrow> timeout_ok (if t \<le> 0 then defaultTimeout else t)"
  by (auto simp: timeout_ok_def maxProviderTimeout_def defaultTimeout_def)

lemma bytes_within:
  "b \<le> maxProviderBytes \<Longrightarrow> (if b \<le> 0 then defaultMaxResponseBytes else b) \<le> maxProviderBytes"
  by (auto simp: maxProviderBytes_def defaultMaxResponseBytes_def)

lemma opa_New_facts:
  assumes "opa_New net opts = Inr c"
  shows "oc_bearerToken c = oo_BearerToken opts"
    "oo_Timeout opts \<le> maxProviderTimeout * 10 ^ 9 \<Longrightarrow> timeout_ok (oc_timeout c)"
    "oo_MaxResponseBytes opts \<le> maxProviderBytes \<Longrightarrow> oc_maxResponseBytes c \<le> maxProviderBytes"
    "oo_BearerToken opts \<noteq> [] \<Longrightarrow> \<exists>base. net_Parse net (oo_URL opts) = Inr base \<and> url_Scheme base = ''https''"
  using assms timeout_within[of "oo_Timeout opts"] bytes_within[of "oo_MaxResponseBytes opts"]
  by (auto simp: opa_New_def split: sum.splits if_splits)

lemma client_headers_keep:
  "client_headers acc hs = Inr out \<Longrightarrow> set out = set acc \<union> (\<lambda>(n, v). (CanonicalHeaderKey n, v)) ` set hs"
  by (induction acc hs rule: client_headers.induct) (auto simp: Let_def split: if_splits)

lemma ranger_New_facts:
  assumes "ranger_New net opts = Inr c"
  shows "rg_bearerToken c = ro_BearerToken opts"
    "ro_Timeout opts \<le> maxProviderTimeout * 10 ^ 9 \<Longrightarrow> timeout_ok (rg_timeout c)"
    "ro_MaxResponseBytes opts \<le> maxProviderBytes \<Longrightarrow> rg_maxResponseBytes c \<le> maxProviderBytes"
    "client_headers [] (ro_Headers opts) = Inr (rg_headers c)"
    "ro_BearerToken opts \<noteq> [] \<Longrightarrow> \<exists>base. net_Parse net (trim_space (ro_URL opts)) = Inr base
       \<and> (url_Scheme base = ''https'' \<or> ro_AllowInsecureHTTP opts)"
proof -
  from assms obtain base headers where "net_Parse net (trim_space (ro_URL opts)) = Inr base"
    and "client_headers [] (ro_Headers opts) = Inr headers"
    and "ro_BearerToken opts \<noteq> [] \<longrightarrow> url_Scheme base = ''https'' \<or> ro_AllowInsecureHTTP opts"
    and "rg_headers c = headers" "rg_bearerToken c = ro_BearerToken opts"
    "rg_timeout c = (if ro_Timeout opts \<le> 0 then defaultTimeout else ro_Timeout opts)"
    "rg_maxResponseBytes c = (if ro_MaxResponseBytes opts \<le> 0 then defaultMaxResponseBytes else ro_MaxResponseBytes opts)"
    by (auto simp: ranger_New_def split: sum.splits if_splits)
  then show "rg_bearerToken c = ro_BearerToken opts"
    "ro_Timeout opts \<le> maxProviderTimeout * 10 ^ 9 \<Longrightarrow> timeout_ok (rg_timeout c)"
    "ro_MaxResponseBytes opts \<le> maxProviderBytes \<Longrightarrow> rg_maxResponseBytes c \<le> maxProviderBytes"
    "client_headers [] (ro_Headers opts) = Inr (rg_headers c)"
    "ro_BearerToken opts \<noteq> [] \<Longrightarrow> \<exists>base. net_Parse net (trim_space (ro_URL opts)) = Inr base
       \<and> (url_Scheme base = ''https'' \<or> ro_AllowInsecureHTTP opts)"
    using timeout_within[of "ro_Timeout opts"] bytes_within[of "ro_MaxResponseBytes opts"] by simp_all
qed

lemma ranger_provider_New_facts:
  assumes "ranger_provider_New iter client opts = Inr p"
  shows "client = Some (rv_client p)" "rv_permission p = rs_Permission opts"
  using assms by (auto simp: ranger_provider_New_def result_simps split: option.splits if_splits)

lemma no_authorization_header:
  assumes "client_headers [] hs = Inr out" shows "''Authorization'' \<notin> fst ` set out"
proof -
  have "client_headers acc hs = Inr out \<Longrightarrow> ''Authorization'' \<notin> fst ` set acc \<Longrightarrow> ''Authorization'' \<notin> fst ` set out" for acc
    by (induction acc hs rule: client_headers.induct) (auto simp: Let_def split: if_splits)
  with assms show ?thesis by simp
qed

section \<open>An allow needs an answer of the configured server\<close>

text \<open>The answer of an OPA server is for this very input and decodes to an allow; that of a Ranger decision point
  repeats the identifier of the request, sent in the name of the service principal, and allows the
  configured permission without obligations.\<close>

definition opa_answer :: "ProviderConfig \<Rightarrow> Input \<Rightarrow> HttpRequest \<Rightarrow> string \<Rightarrow> AuthzDecision \<Rightarrow> bool" where
  "opa_answer cfg input q blob d \<longleftrightarrow> pc_Type cfg = ''opa''
     \<and> (\<exists>t. input_json input = Some t \<and> hq_Body q = json_members [(''input'', t)]) \<and> decodeDecision blob = Inr d"

definition ranger_answer :: "ProviderConfig \<Rightarrow> Input \<Rightarrow> HttpRequest \<Rightarrow> string \<Rightarrow> bool" where
  "ranger_answer cfg input q blob \<longleftrightarrow> pc_Type cfg = ''ranger''
     \<and> (\<exists>rc p res. pc_Ranger cfg = Some rc \<and> rv_permission p = rc_Permission rc
          \<and> (''X-Forwarded-User'', rc_ServicePrincipal rc) \<in> set (hq_Headers q)
          \<and> decode_object zero_Authorization d_Authorization blob = Some res \<and> clean_allow p (requestDigest input) res)"

definition answered_by :: "Wiring \<Rightarrow> ProviderConfig \<Rightarrow> Input \<Rightarrow> AuthzDecision \<Rightarrow> bool" where
  "answered_by w cfg input d \<longleftrightarrow> (\<exists>q status blob. wi_Http w q = Inr (status, Inr blob) \<and> 200 \<le> status \<and> status < 300
     \<and> bounded_call q (int (length blob)) \<and> token_guarded w cfg q
     \<and> (opa_answer cfg input q blob d \<or> ranger_answer cfg input q blob))"

lemma opa_provider_asked:
  assumes "opa_provider words http c input = Inr d"
  shows "\<exists>t status blob. input_json input = Some t \<and> http (opa_request c (json_members [(''input'', t)])) = Inr (status, Inr blob)
    \<and> 200 \<le> status \<and> status < 300 \<and> int (length blob) \<le> oc_maxResponseBytes c \<and> decodeDecision blob = Inr d"
  using assms by (auto simp: opa_provider_def opa_Decide_def result_simps split: option.splits sum.splits if_splits)

lemma ranger_provider_asked:
  assumes "ranger_provider words iter http p input = Inr d" "ad_Allow d"
  shows "\<exists>body blob res. http (ranger_request (rv_client p) body) = Inr (200, Inr blob)
    \<and> int (length blob) \<le> rg_maxResponseBytes (rv_client p)
    \<and> decode_object zero_Authorization d_Authorization blob = Some res \<and> clean_allow p (requestDigest input) res"
proof -
  from assms(1) obtain payload res where a: "ranger_Authorize http (rv_client p) payload = Inr res"
    and v: "validateResult p (requestDigest input) res = Inr d"
    by (auto simp: ranger_provider_def ranger_Decide_def result_simps Let_def split: option.splits if_splits)
  have "clean_allow p (requestDigest input) res" using v assms(2) validateResult_yes by blast
  moreover from a obtain body blob where "http (ranger_request (rv_client p) body) = Inr (200, Inr blob)"
    "int (length blob) \<le> rg_maxResponseBytes (rv_client p)" "decode_object zero_Authorization d_Authorization blob = Some res"
    by (auto simp: ranger_Authorize_def split: option.splits sum.splits if_splits)
  ultimately show ?thesis by blast
qed

lemma opa_entry_answered:
  assumes "opa_entry w i cfg token = Inr provider" "provider_token w cfg = Inr token" "pc_Type cfg = ''opa''"
    "pc_TimeoutSeconds cfg \<le> maxProviderTimeout" "pc_MaxResponseBytes cfg \<le> maxProviderBytes"
    "provider input = Inr d"
  shows "answered_by w cfg input d"
proof -
  from assms(1) obtain path c where c: "opa_New (wi_Net w) \<lparr>oo_URL = pc_URL cfg, oo_DecisionPath = path, oo_BearerToken = token,
      oo_Timeout = pc_TimeoutSeconds cfg * 10 ^ 9, oo_MaxResponseBytes = pc_MaxResponseBytes cfg\<rparr> = Inr c"
    and p: "provider = opa_provider (wi_OpaWords w) (wi_Http w) c"
    by (auto simp: opa_entry_def result_simps split: option.splits if_splits)
  note f = opa_New_facts[OF c, simplified]
  from opa_provider_asked[OF assms(6)[unfolded p]] obtain t status blob where t: "input_json input = Some t"
    and h: "wi_Http w (opa_request c (json_members [(''input'', t)])) = Inr (status, Inr blob)" "200 \<le> status" "status < 300"
    and b: "int (length blob) \<le> oc_maxResponseBytes c" and d: "decodeDecision blob = Inr d" by blast
  let ?q = "opa_request c (json_members [(''input'', t)])"
  have "bounded_call ?q (int (length blob))"
    using f(2)[OF assms(4)] f(3)[OF assms(5)] b
    by (simp add: bounded_call_def opa_request_def timeout_ok_def)
  moreover have "token_guarded w cfg ?q"
    using provider_token_cases[OF assms(2)] f(1,4)
    by (auto simp: token_guarded_def opa_request_def secure_for_def split: if_splits)
  moreover have "opa_answer cfg input ?q blob d"
    using assms(3) t d by (simp add: opa_answer_def opa_request_def)
  ultimately show ?thesis unfolding answered_by_def using h by blast
qed

lemma ranger_entry_answered:
  assumes "ranger_entry w i cfg token = Inr provider" "provider_token w cfg = Inr token" "pc_Type cfg = ''ranger''"
    "pc_TimeoutSeconds cfg \<le> maxProviderTimeout" "pc_MaxResponseBytes cfg \<le> maxProviderBytes"
    "provider input = Inr d" "ad_Allow d"
  shows "answered_by w cfg input d"
proof -
  from assms(1) obtain rc c p where rc: "pc_Ranger cfg = Some rc"
    and c: "ranger_New (wi_Net w) \<lparr>ro_URL = pc_URL cfg, ro_BearerToken = token,
      ro_Headers = [(rangerServicePrincipalHeader, rc_ServicePrincipal rc)], ro_AllowInsecureHTTP = rc_AllowInsecureHTTP rc,
      ro_Timeout = pc_TimeoutSeconds cfg * 10 ^ 9, ro_MaxResponseBytes = pc_MaxResponseBytes cfg\<rparr> = Inr c"
    and n: "ranger_provider_New (wi_IterSettings w) (Some c) \<lparr>rs_ServiceType = rc_ServiceType rc, rs_ServiceName = rc_ServiceName rc,
      rs_ResourceTemplate = rc_Resource rc, rs_Permission = rc_Permission rc, rs_ContextAttributes = rc_ContextAttributes rc\<rparr> = Inr p"
    and p: "provider = ranger_provider (wi_RangerWords w) (wi_IterSets w) (wi_Http w) p"
    by (auto simp: ranger_entry_def result_simps split: option.splits if_splits)
  note f = ranger_New_facts(1-3,5)[OF c, simplified]
  have hs: "client_headers [] [(rangerServicePrincipalHeader, rc_ServicePrincipal rc)] = Inr (rg_headers c)"
    using ranger_New_facts(4)[OF c] by (simp only: RangerOptions.simps)
  from ranger_provider_New_facts[OF n] have client: "rv_client p = c" "rv_permission p = rc_Permission rc" by simp_all
  from ranger_provider_asked[OF assms(6)[unfolded p] assms(7)] obtain body blob res where
    h: "wi_Http w (ranger_request c body) = Inr (200, Inr blob)" "int (length blob) \<le> rg_maxResponseBytes c"
    and res: "decode_object zero_Authorization d_Authorization blob = Some res" "clean_allow p (requestDigest input) res"
    unfolding client by blast
  let ?q = "ranger_request c body"
  have "bounded_call ?q (int (length blob))"
    using f(2)[OF assms(4)] f(3)[OF assms(5)] h(2)
    by (simp add: bounded_call_def ranger_request_def timeout_ok_def)
  moreover have "token_guarded w cfg ?q"
  proof -
    have "h = ''Bearer '' @ token \<and> token \<noteq> []" if "(''Authorization'', h) \<in> set (hq_Headers ?q)" for h
      using that no_authorization_header[OF hs] f(1) by (force simp: ranger_request_def split: if_splits)
    moreover have "secure_for w cfg" if "token \<noteq> []" using f(4)[OF that] rc by (auto simp: secure_for_def)
    ultimately show ?thesis using provider_token_cases[OF assms(2)] unfolding token_guarded_def by metis
  qed
  moreover have "CanonicalHeaderKey ''X-Forwarded-User'' = ''X-Forwarded-User''" by code_simp
  then have "(''X-Forwarded-User'', rc_ServicePrincipal rc) \<in> set (hq_Headers ?q)"
    using client_headers_keep[OF hs] by (simp add: ranger_request_def rangerServicePrincipalHeader_def)
  then have "ranger_answer cfg input ?q blob"
    using assms(3) rc client res unfolding ranger_answer_def by blast
  ultimately show ?thesis unfolding answered_by_def using h(1) by fastforce
qed

lemma provider_entry_answered:
  assumes "provider_entry w i cfg = Inr provider" "provider input = Inr d" "ad_Allow d"
  shows "answered_by w cfg input d"
proof -
  from assms(1) obtain token where "provider_token w cfg = Inr token"
    and range: "pc_TimeoutSeconds cfg \<le> maxProviderTimeout" "pc_MaxResponseBytes cfg \<le> maxProviderBytes"
    and "pc_Type cfg = ''opa'' \<and> opa_entry w i cfg token = Inr provider
       \<or> pc_Type cfg = ''ranger'' \<and> ranger_entry w i cfg token = Inr provider"
    by (auto simp: provider_entry_def result_simps split: if_splits)
  with opa_entry_answered[OF _ _ _ range] ranger_entry_answered[OF _ _ _ range] assms(2,3) show ?thesis by blast
qed

lemma register_entries_origin:
  "register_entries w i (Some ps) cfgs = Inr reg \<Longrightarrow> \<exists>ps'. reg = Some ps' \<and> dom ps' = dom ps \<union> pc_Name ` set cfgs
     \<and> distinct (map pc_Name cfgs) \<and> pc_Name ` set cfgs \<inter> dom ps = {}
     \<and> (\<forall>name p. ps' name = Some p \<longrightarrow> ps name = Some p
          \<or> (\<exists>cfg\<in>set cfgs. pc_Name cfg = name \<and> (\<exists>k. provider_entry w k cfg = Inr p)))"
proof (induction cfgs arbitrary: i ps)
  case (Cons cfg cfgs)
  from Cons.prems obtain p where p: "provider_entry w i cfg = Inr p" and new: "ps (pc_Name cfg) = None"
    and rest: "register_entries w (Suc i) (Some (ps(pc_Name cfg \<mapsto> p))) cfgs = Inr reg"
    by (auto simp: result_simps Register_provider_def split: if_splits)
  obtain ps' where all: "reg = Some ps' \<and> dom ps' = dom (ps(pc_Name cfg \<mapsto> p)) \<union> pc_Name ` set cfgs
     \<and> distinct (map pc_Name cfgs) \<and> pc_Name ` set cfgs \<inter> dom (ps(pc_Name cfg \<mapsto> p)) = {}
     \<and> (\<forall>name q. ps' name = Some q \<longrightarrow> (ps(pc_Name cfg \<mapsto> p)) name = Some q
          \<or> (\<exists>cfg\<in>set cfgs. pc_Name cfg = name \<and> (\<exists>k. provider_entry w k cfg = Inr q)))"
    using Cons.IH[OF rest] by (elim exE)
  then have ps': "reg = Some ps'" "dom ps' = dom (ps(pc_Name cfg \<mapsto> p)) \<union> pc_Name ` set cfgs"
    "distinct (map pc_Name cfgs)" "pc_Name ` set cfgs \<inter> dom (ps(pc_Name cfg \<mapsto> p)) = {}" by simp_all
  from all have o': "ps' name = Some q \<Longrightarrow> (ps(pc_Name cfg \<mapsto> p)) name = Some q
          \<or> (\<exists>cfg\<in>set cfgs. pc_Name cfg = name \<and> (\<exists>k. provider_entry w k cfg = Inr q))" for name q by simp
  have "ps name = Some q \<or> (\<exists>c\<in>set (cfg # cfgs). pc_Name c = name \<and> (\<exists>k. provider_entry w k c = Inr q))" if "ps' name = Some q" for name q
    using o'[OF that] p by (auto split: if_splits)
  with ps' new show ?case by (intro exI[of _ ps']) auto
next
  case Nil
  then show ?case by (intro exI[of _ ps]) simp
qed


definition sample_wiring :: Wiring where
  "sample_wiring =
     \<lparr>wi_Net = \<lparr>net_Parse = (\<lambda>s. Inr \<lparr>url_Scheme = ''https'', url_Host = s, url_HasUser = False, url_RawQuery = [],
          url_Fragment = [], url_Path = []\<rparr>), net_String = url_Host, net_JoinPath = (\<lambda>b ps. Inr b)\<rparr>,
      wi_Env = Map.empty, wi_Http = (\<lambda>q. Inr (200, Inr ''{\"result\":true}'')), wi_OpaWords = (\<lambda>e. []),
      wi_RangerWords = (\<lambda>e. []), wi_IterSettings = id, wi_IterSets = id\<rparr>"

definition sample_entry :: ProviderConfig where
  "sample_entry = \<lparr>pc_Name = ''opa'', pc_Type = ''opa'', pc_URL = ''h'', pc_TimeoutSeconds = 0, pc_BearerTokenEnv = [],
     pc_MaxResponseBytes = 0, pc_OPA = Some ''p'', pc_Ranger = None\<rparr>"

lemma sample_yes: "decodeDecision ''{\"result\":true}'' = Inr \<lparr>ad_Allow = True, ad_Revision = []\<rparr>"
proof -
  have k: "\<not> same_key ''result'' ''decision_id''" by (rule same_key_other) (simp_all add: byte_def)
  have p: "json_parse ''{\"result\":true}'' = Some (JObj [(''result'', JBool True)])" by code_simp
  show ?thesis
    by (simp add: decodeDecision_def decode_object_def p d_envelope_def d_struct_def field_decoder_def member_def k)
qed

lemma sample_input_encodes: "input_json sample_input \<noteq> None"
proof -
  have id: "identity_json (in_Identity sample_input) \<noteq> None"
    unfolding identity_json_def by (rule json_struct_Some) (simp add: member_if_def json_strings_def)
  have m: "model_json (in_Model sample_input) \<noteq> None"
    unfolding model_json_def by (rule json_struct_Some) (simp add: member_if_def)
  have e: "environment_json (in_Environment sample_input) \<noteq> None"
    unfolding environment_json_def by (rule json_struct_Some) (simp add: member_if_def)
  have r: "plain_request_json (in_Request sample_input) \<noteq> None"
    unfolding plain_request_json_def by (rule json_struct_Some)
      (simp add: member_if_def json_strings_def sample_input_def NewQueryInput_def Let_def by_city_def empty_Request_def)
  show ?thesis
    unfolding input_json_def using id m e r by (intro json_struct_Some) (simp add: member_if_def)
qed


end
