(* ===== verification/Requests.thy ===== *)
theory Requests
  imports Opa ServiceRuns
begin

text \<open>
  The body of a query over HTTP: the decoding of \<^verbatim>\<open>planner.Request\<close> with unknown fields refused, the
  \<^verbatim>\<open>UnmarshalJSON\<close> of metric filters, and \<^verbatim>\<open>decodeJSON\<close> of \<^verbatim>\<open>internal/serving/rest/rest.go\<close>. What the repository
  itself encodes a request to is read back as that request.
\<close>

section \<open>Decoding\<close>

definition zero_Filter :: Filter where
  "zero_Filter = \<lparr>flt_Field = [], flt_Op = [], flt_Value = VNil, flt_Values = []\<rparr>"

definition filter_fields :: "(string \<times> Filter decoder) list" where
  "filter_fields =
     [(''field'', member flt_Field flt_Field_update d_string), (''op'', member flt_Op flt_Op_update d_string),
      (''value'', member flt_Value flt_Value_update d_any),
      (''values'', member flt_Values flt_Values_update (d_list VNil d_any))]"

definition d_Filter :: "Filter decoder" where
  "d_Filter = d_struct filter_fields"

definition zero_OrderBy :: OrderByClause where
  "zero_OrderBy = \<lparr>ob_Field = [], ob_Direction = []\<rparr>"

definition order_fields :: "(string \<times> OrderByClause decoder) list" where
  "order_fields =
     [(''field'', member ob_Field ob_Field_update d_string),
      (''direction'', member ob_Direction ob_Direction_update d_string)]"

definition d_OrderBy :: "OrderByClause decoder" where
  "d_OrderBy = d_struct order_fields"

text \<open>The struct \<^verbatim>\<open>wire\<close> of \<^verbatim>\<open>UnmarshalJSON\<close>: the two values are raw, None when the member is missing. A null is present.\<close>

record metric_wire =
  mw_Metric :: string
  mw_Op :: string
  mw_Value :: "json option"
  mw_Values :: "json option"

definition d_raw :: "json option decoder" where
  "d_raw old v = Some (Some v)"

definition zero_wire :: metric_wire where
  "zero_wire = \<lparr>mw_Metric = [], mw_Op = [], mw_Value = None, mw_Values = None\<rparr>"

definition wire_fields :: "(string \<times> metric_wire decoder) list" where
  "wire_fields =
     [(''metric'', member mw_Metric mw_Metric_update d_string), (''op'', member mw_Op mw_Op_update d_string),
      (''value'', member mw_Value mw_Value_update d_raw), (''values'', member mw_Values mw_Values_update d_raw)]"

definition raw_value :: "json option \<Rightarrow> (go_value \<times> bool) option" where
  "raw_value r = (case r of None \<Rightarrow> Some (VNil, False) | Some v \<Rightarrow> map_option (\<lambda>x. (x, True)) (any_value v))"

definition raw_values :: "json option \<Rightarrow> (go_value list option \<times> bool) option" where
  "raw_values r =
     (case r of
        None \<Rightarrow> Some (None, False)
      | Some JNull \<Rightarrow> Some (None, True)
      | Some (JArr vs) \<Rightarrow> map_option (\<lambda>xs. (Some xs, True)) (option_list (map any_value vs))
      | Some _ \<Rightarrow> None)"

definition UnmarshalMetricFilter :: "json \<Rightarrow> MetricFilter option" where
  "UnmarshalMetricFilter v =
     (case d_struct wire_fields zero_wire v of
        None \<Rightarrow> None
      | Some wire \<Rightarrow>
          (case raw_value (mw_Value wire) of
             None \<Rightarrow> None
           | Some (x, valueSet) \<Rightarrow>
               (case raw_values (mw_Values wire) of
                  None \<Rightarrow> None
                | Some (xs, valuesSet) \<Rightarrow> Some
                    \<lparr>mf_Metric = mw_Metric wire, mf_Op = mw_Op wire, mf_Value = x, mf_Values = xs,
                     mf_valueSet = valueSet, mf_valuesSet = valuesSet\<rparr>)))"

text \<open>A type with its own \<^verbatim>\<open>UnmarshalJSON\<close> is replaced, whatever it held, also by a null.\<close>

definition d_MetricFilter :: "MetricFilter decoder" where
  "d_MetricFilter old v = UnmarshalMetricFilter v"

definition zero_MetricFilter :: MetricFilter where
  "zero_MetricFilter = \<lparr>mf_Metric = [], mf_Op = [], mf_Value = VNil, mf_Values = None, mf_valueSet = False, mf_valuesSet = False\<rparr>"

definition request_fields :: "(string \<times> Request decoder) list" where
  "request_fields =
     [(''model'', member req_Model req_Model_update d_string),
      (''metrics'', member req_Metrics req_Metrics_update (d_list [] d_string)),
      (''dimensions'', member req_Dimensions req_Dimensions_update (d_list [] d_string)),
      (''filters'', member req_Filters req_Filters_update (d_list zero_Filter d_Filter)),
      (''metricFilters'', member req_MetricFilters req_MetricFilters_update (d_list zero_MetricFilter d_MetricFilter)),
      (''timeGrain'', member req_TimeGrain req_TimeGrain_update d_string),
      (''orderBy'', member req_OrderBy req_OrderBy_update (d_list zero_OrderBy d_OrderBy)),
      (''limit'', member req_Limit req_Limit_update d_int)]"

definition d_Request :: "Request decoder" where
  "d_Request = d_struct request_fields"

text \<open>
  The decoder stops after one value and sees no more of the body than the limit. \<^verbatim>\<open>dec.More()\<close> then looks at the
  next character that is no white space: it is made for the inside of arrays and objects, so a
  closing bracket or brace counts as the end. A null that ends exactly at the limit of a longer body is not known to
  end there.
\<close>

datatype body_error = BodyInvalid | BodyTrailing

definition decodeJSON :: "int \<Rightarrow> string \<Rightarrow> (body_error, Request) result" where
  "decodeJSON maxBytes body =
     (case json_val (json_ws (take (nat maxBytes) body)) of
        None \<Rightarrow> Inl BodyInvalid
      | Some (v, rest) \<Rightarrow>
          if v = JNull \<and> rest = [] \<and> int (length body) > maxBytes then Inl BodyInvalid
          else (case d_Request empty_Request v of
                  None \<Rightarrow> Inl BodyInvalid
                | Some req \<Rightarrow>
                    (case json_ws rest of
                       [] \<Rightarrow> Inr req
                     | c # _ \<Rightarrow> if c = CHR '']'' \<or> c = CHR ''}'' then Inr req else Inl BodyTrailing)))"

section \<open>Members of an encoded struct\<close>

definition member_names :: "string list" where
  "member_names = [''model'', ''metrics'', ''dimensions'', ''filters'', ''metricFilters'', ''timeGrain'', ''orderBy'', ''limit'',
     ''field'', ''op'', ''value'', ''values'', ''metric'', ''direction'']"

lemma member_names_facts:
  "list_all (list_all (\<lambda>c. byte c < 128)) member_names" "distinct (map (map upper_byte) member_names)"
  by code_simp+

lemma same_name:
  assumes "m \<in> set member_names" "n \<in> set member_names"
  shows "same_key m n \<longleftrightarrow> m = n"
proof -
  have "fold_key m = map upper_byte m" "fold_key n = map upper_byte n"
    using assms member_names_facts(1) by (auto intro!: fold_key_ascii simp: list_all_iff)
  moreover have "inj_on (map upper_byte) (set member_names)" using member_names_facts(2) by (simp add: distinct_map)
  ultimately show ?thesis unfolding same_key_def using assms by (auto dest: inj_onD)
qed

lemma utf8_name: "m \<in> set member_names \<Longrightarrow> utf8_ok m"
  using member_names_facts(1) by (auto intro!: utf8_ok_ascii simp: list_all_iff)

text \<open>An object some of whose members are present: \<open>(b, k, v)\<close> is one, present if \<open>b\<close>.\<close>

definition present :: "(bool \<times> string \<times> 'v) list \<Rightarrow> (string \<times> 'v) list" where
  "present ms = concat (map (\<lambda>(b, k, v). if b then [(k, v)] else []) ms)"

lemma present_simps [simp]: "present [] = []" "present ((b, k, v) # ms) = (if b then [(k, v)] else []) @ present ms"
  by (simp_all add: present_def)

lemma present_reads:
  assumes "list_all2 (\<lambda>(b, k, v) m. k \<in> set member_names \<and> (\<exists>ot. m = member_if b k ot \<and> (b \<longrightarrow> (\<exists>t. ot = Some t \<and> reads v t)))) ms js"
  shows "\<exists>t. json_struct js = Some t \<and> reads (JObj (present ms)) t"
proof -
  have "\<exists>kts. option_list js = Some kts
      \<and> list_all2 (\<lambda>(k, v) (k', t). k = k' \<and> utf8_ok k \<and> reads v t) (present ms) (concat kts)"
    using assms
  proof (induction rule: list_all2_induct)
    case (Cons m ms j js)
    obtain b k v where m: "m = (b, k, v)" by (cases m)
    from Cons.IH obtain kts where kts: "option_list js = Some kts"
      "list_all2 (\<lambda>(k, v) (k', t). k = k' \<and> utf8_ok k \<and> reads v t) (present ms) (concat kts)" by blast
    from Cons.hyps(1) m have k: "k \<in> set member_names"
      and "\<exists>ot. j = member_if b k ot \<and> (b \<longrightarrow> (\<exists>t. ot = Some t \<and> reads v t))" by auto
    then obtain ot where "j = member_if b k ot" "b \<longrightarrow> (\<exists>t. ot = Some t \<and> reads v t)" by blast
    then show ?case using kts utf8_name[OF k] by (cases b) (auto simp: m member_if_def)
  qed simp
  then show ?thesis by (auto simp: json_struct_def intro: reads_members)
qed

text \<open>Decoding them, one after the other.\<close>

definition decodes :: "(string \<times> 'r decoder) list \<Rightarrow> 'r \<Rightarrow> (bool \<times> string \<times> json) list \<Rightarrow> 'r \<Rightarrow> bool" where
  "decodes fs r ms r' \<longleftrightarrow> d_members fs r (present ms) = Some r'"

lemma decodes_step:
  assumes "field_decoder fs k = Some (member get upd d)" "b \<Longrightarrow> d (get r) v = Some x" "\<not> b \<Longrightarrow> upd (\<lambda>_. x) r = r"
    "decodes fs (upd (\<lambda>_. x) r) ms r'"
  shows "decodes fs r ((b, k, v) # ms) r'"
  using assms by (cases b) (simp_all add: decodes_def member_def)

lemma decodes_Nil: "r = r' \<Longrightarrow> decodes fs r [] r'"
  by (simp add: decodes_def)

lemma decodes_struct: "decodes fs r ms r' \<Longrightarrow> d_struct fs r (JObj (present ms)) = Some r'"
  by (simp add: decodes_def d_struct_def)

lemma d_elems_new: "d_elems zero d [] vs = option_list (map (d zero) vs)"
  by (induction vs) (auto split: option.splits)

section \<open>Requests are read back\<close>

definition wire_filter :: "Filter \<Rightarrow> bool" where
  "wire_filter f \<longleftrightarrow> utf8_ok (flt_Field f) \<and> utf8_ok (flt_Op f) \<and> text_cell (flt_Value f) \<and> (\<forall>v\<in>set (flt_Values f). text_cell v)"

text \<open>The two flags say what a decoded filter's say: which members were present.\<close>

definition wire_metric_filter :: "MetricFilter \<Rightarrow> bool" where
  "wire_metric_filter f \<longleftrightarrow> utf8_ok (mf_Metric f) \<and> utf8_ok (mf_Op f) \<and> text_cell (mf_Value f)
     \<and> (\<forall>vs. mf_Values f = Some vs \<longrightarrow> (\<forall>v\<in>set vs. text_cell v))
     \<and> mf_valueSet f = hasValue f \<and> mf_valuesSet f = hasValues f"

definition wire_order :: "OrderByClause \<Rightarrow> bool" where
  "wire_order c \<longleftrightarrow> utf8_ok (ob_Field c) \<and> utf8_ok (ob_Direction c)"

definition wire_request :: "Request \<Rightarrow> bool" where
  "wire_request r \<longleftrightarrow> utf8_ok (req_Model r) \<and> (\<forall>s\<in>set (req_Metrics r). utf8_ok s) \<and> (\<forall>s\<in>set (req_Dimensions r). utf8_ok s)
     \<and> (\<forall>f\<in>set (req_Filters r). wire_filter f) \<and> (\<forall>f\<in>set (req_MetricFilters r). wire_metric_filter f)
     \<and> utf8_ok (req_TimeGrain r) \<and> (\<forall>c\<in>set (req_OrderBy r). wire_order c) \<and> - (2 ^ 63) \<le> req_Limit r \<and> req_Limit r < 2 ^ 63"

definition filter_value :: "Filter \<Rightarrow> json" where
  "filter_value f = JObj (present
     [(True, ''field'', JStr (flt_Field f)), (True, ''op'', JStr (flt_Op f)),
      (flt_Value f \<noteq> VNil, ''value'', cell_json (flt_Value f)),
      (flt_Values f \<noteq> [], ''values'', JArr (map cell_json (flt_Values f)))])"

definition order_value :: "OrderByClause \<Rightarrow> json" where
  "order_value c = JObj (present [(True, ''field'', JStr (ob_Field c)), (True, ''direction'', JStr (ob_Direction c))])"

definition metric_filter_value :: "MetricFilter \<Rightarrow> json" where
  "metric_filter_value f = JObj (present
     [(True, ''metric'', JStr (mf_Metric f)), (True, ''op'', JStr (mf_Op f)),
      (hasValue f, ''value'', cell_json (mf_Value f)),
      (hasValues f, ''values'', case mf_Values f of None \<Rightarrow> JNull | Some vs \<Rightarrow> JArr (map cell_json vs))])"

lemma cells_read:
  assumes "\<forall>v\<in>set vs. text_cell v"
  shows "\<exists>t. json_array json_value vs = Some t \<and> reads (JArr (map cell_json vs)) t \<and> option_list (map any_value (map cell_json vs)) = Some vs"
  using row_reads[OF assms] by simp

lemma filter_reads:
  assumes "wire_filter f"
  shows "\<exists>t. filter_json f = Some t \<and> reads (filter_value f) t" "d_Filter zero_Filter (filter_value f) = Some f"
proof -
  from assms have w: "utf8_ok (flt_Field f)" "utf8_ok (flt_Op f)" "text_cell (flt_Value f)" "\<forall>v\<in>set (flt_Values f). text_cell v"
    by (simp_all add: wire_filter_def)
  from text_cell_reads[OF w(3)] obtain t where v: "json_value (flt_Value f) = Some t" "reads (cell_json (flt_Value f)) t"
    "any_value (cell_json (flt_Value f)) = Some (flt_Value f)" by blast
  from cells_read[OF w(4)] obtain ts where vs: "json_array json_value (flt_Values f) = Some ts"
    "reads (JArr (map cell_json (flt_Values f))) ts" "option_list (map any_value (map cell_json (flt_Values f))) = Some (flt_Values f)" by blast
  show "\<exists>t. filter_json f = Some t \<and> reads (filter_value f) t"
    unfolding filter_json_def filter_value_def
    by (rule present_reads) (auto simp: member_names_def reads_string w v vs)
  have n: "field_decoder filter_fields ''field'' = Some (member flt_Field flt_Field_update d_string)"
    "field_decoder filter_fields ''op'' = Some (member flt_Op flt_Op_update d_string)"
    "field_decoder filter_fields ''value'' = Some (member flt_Value flt_Value_update d_any)"
    "field_decoder filter_fields ''values'' = Some (member flt_Values flt_Values_update (d_list VNil d_any))"
    by (simp_all add: field_decoder_def filter_fields_def same_name member_names_def)
  have "d_list VNil d_any [] (JArr (map cell_json (flt_Values f))) = Some (flt_Values f)"
    using vs(3) by (simp add: d_list_def d_elems_new d_any_def[abs_def])
  then have xs: "flt_Values f \<noteq> [] \<Longrightarrow> d_list VNil d_any [] (JArr (map cell_json (flt_Values f))) = Some (flt_Values f)" .
  show "d_Filter zero_Filter (filter_value f) = Some f"
    unfolding d_Filter_def filter_value_def zero_Filter_def
    by (rule decodes_struct,
        rule decodes_step[OF n(1), where x = "flt_Field f"], simp add: d_string_def, simp,
        rule decodes_step[OF n(2), where x = "flt_Op f"], simp add: d_string_def, simp,
        rule decodes_step[OF n(3), where x = "flt_Value f"], simp add: d_any_def v, simp,
        rule decodes_step[OF n(4), where x = "flt_Values f"], simp add: xs, simp,
        rule decodes_Nil, simp)
qed

lemma order_reads:
  assumes "wire_order c"
  shows "\<exists>t. order_json c = Some t \<and> reads (order_value c) t" "d_OrderBy zero_OrderBy (order_value c) = Some c"
proof -
  show "\<exists>t. order_json c = Some t \<and> reads (order_value c) t"
    unfolding order_json_def order_value_def using assms
    by (intro present_reads) (auto simp: member_names_def reads_string wire_order_def)
  have n: "field_decoder order_fields ''field'' = Some (member ob_Field ob_Field_update d_string)"
    "field_decoder order_fields ''direction'' = Some (member ob_Direction ob_Direction_update d_string)"
    by (simp_all add: field_decoder_def order_fields_def same_name member_names_def)
  show "d_OrderBy zero_OrderBy (order_value c) = Some c"
    unfolding d_OrderBy_def order_value_def zero_OrderBy_def
    by (rule decodes_struct,
        rule decodes_step[OF n(1), where x = "ob_Field c"], simp add: d_string_def, simp,
        rule decodes_step[OF n(2), where x = "ob_Direction c"], simp add: d_string_def, simp,
        rule decodes_Nil, simp)
qed

lemma metric_filter_reads:
  assumes "wire_metric_filter f"
  shows "\<exists>t. metric_filter_json f = Some t \<and> reads (metric_filter_value f) t"
    "UnmarshalMetricFilter (metric_filter_value f) = Some f"
proof -
  from assms have w: "utf8_ok (mf_Metric f)" "utf8_ok (mf_Op f)" "text_cell (mf_Value f)"
    "\<And>vs. mf_Values f = Some vs \<Longrightarrow> \<forall>v\<in>set vs. text_cell v" "mf_valueSet f = hasValue f" "mf_valuesSet f = hasValues f"
    by (simp_all add: wire_metric_filter_def)
  let ?xs = "case mf_Values f of None \<Rightarrow> JNull | Some vs \<Rightarrow> JArr (map cell_json vs)"
  from text_cell_reads[OF w(3)] obtain t where v: "json_value (mf_Value f) = Some t" "reads (cell_json (mf_Value f)) t"
    "any_value (cell_json (mf_Value f)) = Some (mf_Value f)" by blast
  have xs: "\<exists>t. (case mf_Values f of None \<Rightarrow> Some ''null'' | Some vs \<Rightarrow> json_array json_value vs) = Some t \<and> reads ?xs t"
    "raw_values (Some ?xs) = Some (mf_Values f, True)"
    using cells_read[OF w(4)] by (auto simp: raw_values_def reads_words split: option.split)
  show "\<exists>t. metric_filter_json f = Some t \<and> reads (metric_filter_value f) t"
    unfolding metric_filter_json_def metric_filter_value_def
    by (rule present_reads) (auto simp: member_names_def reads_string w v xs(1))
  have n: "field_decoder wire_fields ''metric'' = Some (member mw_Metric mw_Metric_update d_string)"
    "field_decoder wire_fields ''op'' = Some (member mw_Op mw_Op_update d_string)"
    "field_decoder wire_fields ''value'' = Some (member mw_Value mw_Value_update d_raw)"
    "field_decoder wire_fields ''values'' = Some (member mw_Values mw_Values_update d_raw)"
    by (simp_all add: field_decoder_def wire_fields_def same_name member_names_def)
  have "d_struct wire_fields zero_wire (metric_filter_value f) = Some
      \<lparr>mw_Metric = mf_Metric f, mw_Op = mf_Op f, mw_Value = (if hasValue f then Some (cell_json (mf_Value f)) else None),
       mw_Values = (if hasValues f then Some ?xs else None)\<rparr>"
    unfolding metric_filter_value_def zero_wire_def
    by (rule decodes_struct,
        rule decodes_step[OF n(1), where x = "mf_Metric f"], simp add: d_string_def, simp,
        rule decodes_step[OF n(2), where x = "mf_Op f"], simp add: d_string_def, simp,
        rule decodes_step[OF n(3), where x = "if hasValue f then Some (cell_json (mf_Value f)) else None"],
        simp add: d_raw_def, simp,
        rule decodes_step[OF n(4), where x = "if hasValues f then Some ?xs else None"], simp add: d_raw_def, simp,
        rule decodes_Nil, simp)
  moreover have "raw_value (if hasValue f then Some (cell_json (mf_Value f)) else None) = Some (mf_Value f, hasValue f)"
    by (auto simp: raw_value_def v(3) hasValue_def)
  moreover have "raw_values (if hasValues f then Some ?xs else None) = Some (mf_Values f, hasValues f)"
    using xs(2) by (cases "hasValues f") (simp_all add: raw_values_def[of None] hasValues_def)
  ultimately show "UnmarshalMetricFilter (metric_filter_value f) = Some f"
    using w(5,6) by (simp add: UnmarshalMetricFilter_def)
qed

section \<open>Whole numbers\<close>

lemma nat_str_hd: "0 < n \<Longrightarrow> hd (nat_str n) \<noteq> CHR ''0''"
proof (induction n rule: nat_str.induct)
  case (1 n)
  show ?case
  proof (cases "n < 10")
    case True
    then have "byte (digit_char n) \<noteq> byte CHR ''0''" using 1(2) by (simp add: byte_digit_char) (simp add: byte_def)
    with True show ?thesis by (subst nat_str.simps) auto
  next
    case False
    then show ?thesis using 1 by (subst nat_str.simps) simp
  qed
qed

lemma json_frac_delimited: "delimited r \<Longrightarrow> json_frac r = Some ([], r)"
  by (cases r) (auto simp: delimited_def json_frac_def json_exp_def)

lemma digits_end: "delimited r \<Longrightarrow> \<forall>c\<in>set ds. is_digit c \<Longrightarrow> takeWhile is_digit (ds @ r) = ds \<and> dropWhile is_digit (ds @ r) = r"
  by (cases r) (auto simp: delimited_def is_digit_def byte_def)

lemma json_int_nat: "delimited r \<Longrightarrow> json_int (nat_str n @ r) = Some (nat_str n, r)"
proof (cases "n = 0")
  case True
  assume "delimited r"
  moreover have "nat_str 0 = ''0''" by code_simp
  ultimately show ?thesis using True by (simp add: json_frac_delimited)
next
  case False
  assume r: "delimited r"
  obtain c cs where n: "nat_str n = c # cs" by (cases "nat_str n") auto
  then have "is_digit c" "\<forall>c\<in>set cs. is_digit c" "c \<noteq> CHR ''0''" using nat_str_digits[of _ n] nat_str_hd[of n] False by auto
  with digits_end[OF r] show ?thesis by (simp add: n json_frac_delimited[OF r])
qed

lemma int_str_shape: "\<exists>c cs. int_str i = c # cs \<and> (c = CHR ''-'' \<or> is_digit c)"
proof -
  obtain c cs where "nat_str (nat i) = c # cs" by (cases "nat_str (nat i)") auto
  then show ?thesis using nat_str_digits[of c "nat i"] by (simp add: int_str_def)
qed

lemma json_num_int: "delimited r \<Longrightarrow> json_num (int_str i @ r) = Some (int_str i, r)"
proof -
  assume r: "delimited r"
  show ?thesis
  proof (cases "i < 0")
    case True
    then show ?thesis by (simp add: int_str_def json_int_nat[OF r])
  next
    case False
    obtain c cs where n: "nat_str (nat i) = c # cs" by (cases "nat_str (nat i)") auto
    then have "is_digit c" using nat_str_digits[of c "nat i"] by simp
    then have "c \<noteq> CHR ''-''" by (auto simp: is_digit_def byte_def)
    then have "json_num (int_str i @ r) = json_int (nat_str (nat i) @ r)" using False n by (simp add: int_str_def)
    with False show ?thesis by (simp add: json_int_nat[OF r] int_str_def)
  qed
qed

lemma reads_int: "reads (JNum (int_str i)) (int_str i)"
proof -
  obtain c cs where i: "int_str i = c # cs" "c = CHR ''-'' \<or> is_digit c" using int_str_shape by blast
  then have c: "c \<notin> {CHR ''{'', CHR ''['', dquote_ch, CHR ''t'', CHR ''f'', CHR ''n'', CHR '']''}" "byte c \<notin> {32, 9, 10, 13}"
    by (auto simp: is_digit_def byte_def dquote_ch_def)
  have "json_val (int_str i @ r) = Some (JNum (int_str i), r)" if "delimited r" for r
  proof -
    have "json_val ((c # cs) @ r) = map_option (\<lambda>(t, r). (JNum t, r)) (json_num ((c # cs) @ r))"
      using c(1) unfolding append_Cons json_val.simps(2) by auto
    then show ?thesis using json_num_int[OF that, of i] by (simp add: i(1) del: json_num.simps)
  qed
  with c show ?thesis by (simp add: reads_def) (simp add: i(1))
qed

lemma ParseInt10_int_str: "- (2 ^ 63) \<le> i \<Longrightarrow> i < 2 ^ 63 \<Longrightarrow> ParseInt10 (int_str i) = Some i"
proof -
  assume range: "- (2 ^ 63) \<le> i" "i < 2 ^ 63"
  have all: "list_all is_digit (nat_str n)" for n using nat_str_digits by (auto simp: list_all_iff)
  show ?thesis
  proof (cases "i < 0")
    case True
    with range all show ?thesis by (simp add: ParseInt10_def int_str_def digits_val_nat_str Let_def)
  next
    case False
    obtain c cs where n: "nat_str (nat i) = c # cs" by (cases "nat_str (nat i)") auto
    then have "is_digit c" using nat_str_digits[of c "nat i"] by simp
    then have "c \<noteq> CHR ''-''" "c \<noteq> CHR ''+''" by (auto simp: is_digit_def byte_def)
    then have "take 1 (int_str i) \<noteq> ''-''" "take 1 (int_str i) \<noteq> ''+''" "int_str i = nat_str (nat i)"
      using False n by (simp_all add: int_str_def)
    with False range all show ?thesis by (simp add: ParseInt10_def digits_val_nat_str Let_def)
  qed
qed

definition request_value :: "Request \<Rightarrow> json" where
  "request_value r = JObj (present
     [(True, ''model'', JStr (req_Model r)), (True, ''metrics'', JArr (map JStr (req_Metrics r))),
      (req_Dimensions r \<noteq> [], ''dimensions'', JArr (map JStr (req_Dimensions r))),
      (req_Filters r \<noteq> [], ''filters'', JArr (map filter_value (req_Filters r))),
      (req_MetricFilters r \<noteq> [], ''metricFilters'', JArr (map metric_filter_value (req_MetricFilters r))),
      (req_TimeGrain r \<noteq> [], ''timeGrain'', JStr (req_TimeGrain r)),
      (req_OrderBy r \<noteq> [], ''orderBy'', JArr (map order_value (req_OrderBy r))),
      (req_Limit r \<noteq> 0, ''limit'', JNum (int_str (req_Limit r)))])"

lemma array_reads:
  assumes "\<forall>x\<in>set xs. (\<exists>t. f x = Some t \<and> reads (g x) t) \<and> d zero (g x) = Some x"
  shows "\<exists>t. json_array f xs = Some t \<and> reads (JArr (map g xs)) t" "d_list zero d [] (JArr (map g xs)) = Some xs"
proof -
  from option_list_reads[of xs f g "d zero"] assms obtain ts where
    "option_list (map f xs) = Some ts" "list_all2 reads (map g xs) ts" "option_list (map (d zero) (map g xs)) = Some xs" by blast
  then show "\<exists>t. json_array f xs = Some t \<and> reads (JArr (map g xs)) t" "d_list zero d [] (JArr (map g xs)) = Some xs"
    by (auto simp: json_array_def d_list_def d_elems_new intro: reads_list)
qed

lemma strings_read:
  assumes "\<forall>s\<in>set ss. utf8_ok s"
  shows "\<exists>t. json_strings ss = Some t \<and> reads (JArr (map JStr ss)) t" "d_list [] d_string [] (JArr (map JStr ss)) = Some ss"
  using array_reads[of ss "\<lambda>s. Some (json_string s)" JStr d_string "[]"] assms
  by (auto simp: json_strings_def reads_strings reads_string d_string_def)

lemma request_reads:
  assumes "wire_request r"
  shows "\<exists>t. plain_request_json r = Some t \<and> reads (request_value r) t" "d_Request empty_Request (request_value r) = Some r"
proof -
  from assms have w: "utf8_ok (req_Model r)" "\<forall>s\<in>set (req_Metrics r). utf8_ok s" "\<forall>s\<in>set (req_Dimensions r). utf8_ok s"
    "\<forall>f\<in>set (req_Filters r). wire_filter f" "\<forall>f\<in>set (req_MetricFilters r). wire_metric_filter f"
    "utf8_ok (req_TimeGrain r)" "\<forall>c\<in>set (req_OrderBy r). wire_order c" "- (2 ^ 63) \<le> req_Limit r" "req_Limit r < 2 ^ 63"
    by (simp_all add: wire_request_def)
  note metrics = strings_read[OF w(2)] note dims = strings_read[OF w(3)]
  have filters: "\<exists>t. json_array filter_json (req_Filters r) = Some t \<and> reads (JArr (map filter_value (req_Filters r))) t"
    "d_list zero_Filter d_Filter [] (JArr (map filter_value (req_Filters r))) = Some (req_Filters r)"
    using array_reads[of "req_Filters r" filter_json filter_value d_Filter zero_Filter] filter_reads w(4) by blast+
  have mfs: "\<exists>t. json_array metric_filter_json (req_MetricFilters r) = Some t \<and> reads (JArr (map metric_filter_value (req_MetricFilters r))) t"
    "d_list zero_MetricFilter d_MetricFilter [] (JArr (map metric_filter_value (req_MetricFilters r))) = Some (req_MetricFilters r)"
    using array_reads[of "req_MetricFilters r" metric_filter_json metric_filter_value d_MetricFilter zero_MetricFilter]
      metric_filter_reads w(5) unfolding d_MetricFilter_def by blast+
  have orders: "\<exists>t. json_array order_json (req_OrderBy r) = Some t \<and> reads (JArr (map order_value (req_OrderBy r))) t"
    "d_list zero_OrderBy d_OrderBy [] (JArr (map order_value (req_OrderBy r))) = Some (req_OrderBy r)"
    using array_reads[of "req_OrderBy r" order_json order_value d_OrderBy zero_OrderBy] order_reads w(7) by blast+
  show "\<exists>t. plain_request_json r = Some t \<and> reads (request_value r) t"
    unfolding plain_request_json_def request_value_def using metrics(1) dims(1) filters(1) mfs(1) orders(1)
    by (intro present_reads) (auto simp: member_names_def reads_string w reads_int)
  have n: "field_decoder request_fields ''model'' = Some (member req_Model req_Model_update d_string)"
    "field_decoder request_fields ''metrics'' = Some (member req_Metrics req_Metrics_update (d_list [] d_string))"
    "field_decoder request_fields ''dimensions'' = Some (member req_Dimensions req_Dimensions_update (d_list [] d_string))"
    "field_decoder request_fields ''filters'' = Some (member req_Filters req_Filters_update (d_list zero_Filter d_Filter))"
    "field_decoder request_fields ''metricFilters''
       = Some (member req_MetricFilters req_MetricFilters_update (d_list zero_MetricFilter d_MetricFilter))"
    "field_decoder request_fields ''timeGrain'' = Some (member req_TimeGrain req_TimeGrain_update d_string)"
    "field_decoder request_fields ''orderBy'' = Some (member req_OrderBy req_OrderBy_update (d_list zero_OrderBy d_OrderBy))"
    "field_decoder request_fields ''limit'' = Some (member req_Limit req_Limit_update d_int)"
    by (simp_all add: field_decoder_def request_fields_def same_name member_names_def)
  have limit: "d_int old (JNum (int_str (req_Limit r))) = Some (req_Limit r)" for old
    using ParseInt10_int_str w(8,9) by (simp add: d_int_def)
  show "d_Request empty_Request (request_value r) = Some r"
    unfolding d_Request_def request_value_def empty_Request_def
    by (rule decodes_struct,
        rule decodes_step[OF n(1), where x = "req_Model r"], simp add: d_string_def, simp,
        rule decodes_step[OF n(2), where x = "req_Metrics r"], simp add: metrics(2), simp,
        rule decodes_step[OF n(3), where x = "req_Dimensions r"], simp add: dims(2), simp,
        rule decodes_step[OF n(4), where x = "req_Filters r"], simp add: filters(2), simp,
        rule decodes_step[OF n(5), where x = "req_MetricFilters r"], simp add: mfs(2), simp,
        rule decodes_step[OF n(6), where x = "req_TimeGrain r"], simp add: d_string_def, simp,
        rule decodes_step[OF n(7), where x = "req_OrderBy r"], simp add: orders(2), simp,
        rule decodes_step[OF n(8), where x = "req_Limit r"], simp add: limit, simp,
        rule decodes_Nil, simp)
qed


definition sample_request :: Request where
  "sample_request = empty_Request\<lparr>req_Metrics := [[dquote_ch, CHR ''<'']], req_MetricFilters :=
     [zero_MetricFilter\<lparr>mf_Op := ''='', mf_valueSet := True\<rparr>], req_Limit := - 5\<rparr>"


text \<open>\<^verbatim>\<open>dec.More()\<close> is documented here to reject a body with more than one value; a brace hides whatever follows it.\<close>

lemma trailing_document_accepted:
  "decodeJSON 1000 ''{} {}'' = Inl BodyTrailing" "decodeJSON 1000 ''{}} {}'' = Inr empty_Request"
proof -
  have "json_val (json_ws (take (nat 1000) ''{} {}'')) = Some (JObj [], '' {}'')"
    "json_val (json_ws (take (nat 1000) ''{}} {}'')) = Some (JObj [], ''} {}'')" by (simp, code_simp)+
  moreover have "json_ws '' {}'' = ''{}''" "json_ws ''} {}'' = ''} {}''" by code_simp+
  ultimately show "decodeJSON 1000 ''{} {}'' = Inl BodyTrailing" "decodeJSON 1000 ''{}} {}'' = Inr empty_Request"
    by (simp_all add: decodeJSON_def d_Request_def d_struct_def)
qed

section \<open>Presence of the values of a metric filter\<close>

text \<open>What \<^verbatim>\<open>UnmarshalJSON\<close> is for: the flags say whether the filter has a value.\<close>

definition flagged :: "MetricFilter \<Rightarrow> bool" where
  "flagged f \<longleftrightarrow> mf_valueSet f = hasValue f \<and> mf_valuesSet f = hasValues f"

lemma raw_flags:
  "raw_value r = Some (x, b) \<Longrightarrow> b \<longleftrightarrow> r \<noteq> None" "raw_value r = Some (x, False) \<Longrightarrow> x = VNil"
  "raw_values s = Some (xs, c) \<Longrightarrow> c \<longleftrightarrow> s \<noteq> None" "raw_values s = Some (xs, False) \<Longrightarrow> xs = None"
  by (auto simp: raw_value_def raw_values_def split: option.splits json.splits)

lemma UnmarshalMetricFilter_flagged:
  assumes "UnmarshalMetricFilter v = Some f" shows "flagged f"
proof -
  from assms obtain wire where "d_struct wire_fields zero_wire v = Some wire" by (auto simp: UnmarshalMetricFilter_def split: option.splits)
  with assms obtain x b xs c where w: "raw_value (mw_Value wire) = Some (x, b)" "raw_values (mw_Values wire) = Some (xs, c)"
    and f: "f = \<lparr>mf_Metric = mw_Metric wire, mf_Op = mw_Op wire, mf_Value = x, mf_Values = xs, mf_valueSet = b, mf_valuesSet = c\<rparr>"
    by (auto simp: UnmarshalMetricFilter_def split: option.splits prod.splits)
  have "b \<or> x = VNil" using w(1) raw_flags(2) by (cases b) auto
  moreover have "c \<or> xs = None" using w(2) raw_flags(4) by (cases c) auto
  ultimately show ?thesis by (auto simp: f flagged_def hasValue_def hasValues_def)
qed

lemma d_elems_all:
  assumes "\<And>old v y. d old v = Some y \<Longrightarrow> P y"
  shows "d_elems zero d old vs = Some ys \<Longrightarrow> list_all P ys"
  by (induction vs arbitrary: old ys) (auto split: option.splits dest: assms)

lemma d_list_all:
  assumes "\<And>old v y. d old v = Some y \<Longrightarrow> P y" "d_list zero d old v = Some ys"
  shows "list_all P ys"
  using d_elems_all[of d P, OF assms(1)] assms(2) by (auto simp: d_list_def split: json.splits)



end
