(* ===== verification/Adapters.thy ===== *)
theory Adapters
  imports Requests Discovery Exchange
begin

text \<open>
  \<^verbatim>\<open>internal/serving/rest/rest.go\<close> and \<^verbatim>\<open>internal/serving/mcp/mcp.go\<close>: the two ways into the service. A reply
  of the REST adapter is a status and a value, whose encoding is left to the JSON library; a tool of
  the MCP server is a function of its decoded input and the caller, the protocol around it being the
  SDK's. Both return with their answer what the service did outside the process.
\<close>

section \<open>Callers\<close>

text \<open>\<^verbatim>\<open>CredentialResolver\<close>: from the token, the engine user and the expiry of the caller.\<close>

type_synonym resolver = "string \<Rightarrow> string \<Rightarrow> int option \<Rightarrow> (string, EngineCredential) result"

record Adapter =
  ap_Service :: Service
  ap_Authenticator :: "Authenticator option"
  ap_Parser :: token_parser
  ap_Resolver :: resolver
  ap_Globs :: glob_compiler

text \<open>Without an authenticator, header mode with one role.\<close>

definition authenticate :: "Adapter \<Rightarrow> request_header \<Rightarrow> (auth_error, Authenticated) result" where
  "authenticate a h =
     (case ap_Authenticator a of
        None \<Rightarrow>
          (let principal = trim_space (h PrincipalHeader)
           in if principal = [] then Inl NoPrincipalHeader
              else Inr \<lparr>ad_Identity = (Single (h RoleHeader))\<lparr>id_Principal := principal\<rparr>, ad_Token = [], ad_Expiry = None,
                        ad_EngineUser = []\<rparr>)
      | Some authn \<Rightarrow> Authenticate (ap_Parser a) authn h)"

section \<open>REST\<close>

datatype adapter_error =
    NotAuthenticated auth_error
  | BadBody body_error
  | NoCredential string
  | ServiceError service_error

datatype payload =
    ModelsReply "ModelInfo list"
  | MetricsReply string "MetricInfo list"
  | DimensionsReply string "DimensionInfo list"
  | PlanReply QueryPlan bool
  | ResultReply QueryResult
  | ErrorReply adapter_error

type_synonym rest_reply = "nat \<times> payload"

text \<open>Which errors of the service wrap \<^verbatim>\<open>authorization.ErrUnavailable\<close> and \<^verbatim>\<open>governance.ErrUnauthorized\<close>.\<close>

definition is_unavailable :: "service_error \<Rightarrow> bool" where
  "is_unavailable e =
     (case e of NoAuthorizer _ _ \<Rightarrow> True | AuthzError (Unavailable _ _) \<Rightarrow> True | _ \<Rightarrow> False)"

definition is_unauthorized :: "service_error \<Rightarrow> bool" where
  "is_unauthorized e =
     (case e of
        GovernanceRefused (ErrUnauthorized _) \<Rightarrow> True
      | PlanFailed (GovernanceError (ErrUnauthorized _)) \<Rightarrow> True
      | AuthzError (Denied _ _) \<Rightarrow> True
      | _ \<Rightarrow> False)"

definition error_status :: "adapter_error \<Rightarrow> nat" where
  "error_status err =
     (case err of
        NotAuthenticated _ \<Rightarrow> 401
      | BadBody _ \<Rightarrow> 400
      | NoCredential _ \<Rightarrow> 400
      | ServiceError e \<Rightarrow>
          if is_unavailable e then 503
          else if is_unauthorized e then 403
          else (case e of ErrUnknownModel _ \<Rightarrow> 404 | _ \<Rightarrow> 400))"

definition writeErr :: "adapter_error \<Rightarrow> rest_reply" where
  "writeErr err = (error_status err, ErrorReply err)"

text \<open>\<^verbatim>\<open>resolve\<close>: the caller first, then the model.\<close>

definition rest_resolve :: "Adapter \<Rightarrow> string \<Rightarrow> request_header \<Rightarrow> (adapter_error, CompiledModel \<times> Authenticated) result" where
  "rest_resolve a name h =
     ebind (emap_err NotAuthenticated (authenticate a h)) (\<lambda>ac.
     ebind (emap_err ServiceError (Resolve (ap_Globs a) (ap_Service a) name (ad_Identity ac))) (\<lambda>m. Inr (m, ac)))"

definition reply_of :: "('a \<Rightarrow> payload) \<Rightarrow> (adapter_error, 'a) result \<Rightarrow> rest_reply" where
  "reply_of f r = (case r of Inl e \<Rightarrow> writeErr e | Inr x \<Rightarrow> (200, f x))"

definition caller_credential :: "Adapter \<Rightarrow> Authenticated \<Rightarrow> (adapter_error, EngineCredential) result" where
  "caller_credential a ac = emap_err NoCredential (ap_Resolver a (ad_Token ac) (ad_EngineUser ac) (ad_Expiry ac))"

definition handleQuery :: "Adapter \<Rightarrow> World \<Rightarrow> bool \<Rightarrow> string \<Rightarrow> request_header \<Rightarrow> string \<Rightarrow> rest_reply \<times> event list" where
  "handleQuery a w execute name h body =
     (case rest_resolve a name h of
        Inl e \<Rightarrow> (writeErr e, [])
      | Inr (m, ac) \<Rightarrow>
          (case decodeJSON (Service_MaxRequestBytes (ap_Service a)) body of
             Inl e \<Rightarrow> ((400, ErrorReply (BadBody e)), [])
           | Inr req \<Rightarrow>
               (case caller_credential a ac of
                  Inl e \<Rightarrow> (writeErr e, [])
                | Inr cred \<Rightarrow>
                    if \<not> execute then
                      (let (r, es) = Service_Plan (ap_Globs a) (ap_Service a) w ''rest'' m req (ad_Identity ac)
                       in (reply_of (\<lambda>(p, cached). PlanReply p cached) (emap_err ServiceError r), es))
                    else
                      (let (r, es) = Service_Query (ap_Globs a) (ap_Service a) w ''rest'' m req (ad_Identity ac) cred
                       in (reply_of ResultReply (emap_err ServiceError r), es)))))"

datatype route = GetModels | GetMetrics string | GetDimensions string | PostQuery string | PostSQL string

record HttpCall =
  hc_Route :: route
  hc_Header :: request_header
  hc_Body :: string

definition rest_Handler :: "Adapter \<Rightarrow> World \<Rightarrow> HttpCall \<Rightarrow> rest_reply \<times> event list" where
  "rest_Handler a w c =
     (case hc_Route c of
        GetModels \<Rightarrow>
          (reply_of ModelsReply (ebind (emap_err NotAuthenticated (authenticate a (hc_Header c))) (\<lambda>ac.
             Inr (Models (ap_Globs a) (ap_Service a) (ad_Identity ac)))), [])
      | GetMetrics name \<Rightarrow>
          (reply_of (\<lambda>(n, ms). MetricsReply n ms) (ebind (rest_resolve a name (hc_Header c)) (\<lambda>(m, ac).
             ebind (emap_err ServiceError (ListMetrics (ap_Globs a) (ap_Service a) m (ad_Identity ac))) (\<lambda>ms.
             Inr (cm_Name m, ms)))), [])
      | GetDimensions name \<Rightarrow>
          (reply_of (\<lambda>(n, ds). DimensionsReply n ds) (ebind (rest_resolve a name (hc_Header c)) (\<lambda>(m, ac).
             ebind (emap_err ServiceError (ListDimensions (ap_Globs a) m (ad_Identity ac))) (\<lambda>ds.
             Inr (cm_Name m, ds)))), [])
      | PostQuery name \<Rightarrow> handleQuery a w True name (hc_Header c) (hc_Body c)
      | PostSQL name \<Rightarrow> handleQuery a w False name (hc_Header c) (hc_Body c))"

section \<open>MCP\<close>

record filterIn =
  fin_Field :: string
  fin_Op :: string
  fin_Value :: go_value
  fin_Values :: "go_value list"

record orderByIn =
  oin_Field :: string
  oin_Direction :: string

record queryIn =
  qi_Model :: string
  qi_Metrics :: "string list"
  qi_Dimensions :: "string list"
  qi_Filters :: "filterIn list"
  qi_MetricFilters :: "MetricFilter list"
  qi_Grain :: string
  qi_OrderBy :: "orderByIn list"
  qi_Limit :: int

definition plannerRequest :: "queryIn \<Rightarrow> Request" where
  "plannerRequest q =
     \<lparr>req_Model = [], req_Metrics = qi_Metrics q, req_Dimensions = qi_Dimensions q,
      req_Filters = map (\<lambda>f. \<lparr>flt_Field = fin_Field f, flt_Op = fin_Op f, flt_Value = fin_Value f, flt_Values = fin_Values f\<rparr>) (qi_Filters q),
      req_MetricFilters = qi_MetricFilters q, req_TimeGrain = qi_Grain q,
      req_OrderBy = map (\<lambda>c. \<lparr>ob_Field = oin_Field c, ob_Direction = oin_Direction c\<rparr>) (qi_OrderBy q),
      req_Limit = qi_Limit q\<rparr>"

record queryOut =
  qo_Columns :: "string list"
  qo_Rows :: "go_value list list"
  qo_RowCount :: nat
  qo_SQL :: string
  qo_Model :: string
  qo_ModelVersion :: string
  qo_RequestHash :: string
  qo_AuthorizationFingerprint :: string

definition query_out :: "QueryResult \<Rightarrow> queryOut" where
  "query_out r =
     \<lparr>qo_Columns = qr_Columns r, qo_Rows = qr_Rows r, qo_RowCount = qr_RowCount r, qo_SQL = qr_SQL r, qo_Model = qr_Model r,
      qo_ModelVersion = qr_ModelVersion r, qo_RequestHash = qr_RequestHash r,
      qo_AuthorizationFingerprint = qr_AuthorizationFingerprint r\<rparr>"

datatype tool_call = ListModelsTool | ListMetricsTool string | ListDimensionsTool string | QueryMetricTool queryIn

datatype tool_reply =
    ToolModels "ModelInfo list"
  | ToolMetrics string "MetricInfo list"
  | ToolDimensions string "DimensionInfo list"
  | ToolResult queryOut

text \<open>The identity and the caller of the request context are those of \<open>ac\<close>.\<close>

definition mcp_tool :: "Adapter \<Rightarrow> World \<Rightarrow> Authenticated \<Rightarrow> tool_call \<Rightarrow> (adapter_error, tool_reply) result \<times> event list" where
  "mcp_tool a w ac call =
     (let idn = ad_Identity ac;
          resolved = (\<lambda>name. emap_err ServiceError (Resolve (ap_Globs a) (ap_Service a) name idn))
      in case call of
           ListModelsTool \<Rightarrow> (Inr (ToolModels (Models (ap_Globs a) (ap_Service a) idn)), [])
         | ListMetricsTool name \<Rightarrow>
             (ebind (resolved name) (\<lambda>m.
              ebind (emap_err ServiceError (ListMetrics (ap_Globs a) (ap_Service a) m idn)) (\<lambda>ms.
              Inr (ToolMetrics (cm_Name m) ms))), [])
         | ListDimensionsTool name \<Rightarrow>
             (ebind (resolved name) (\<lambda>m.
              ebind (emap_err ServiceError (ListDimensions (ap_Globs a) m idn)) (\<lambda>ds.
              Inr (ToolDimensions (cm_Name m) ds))), [])
         | QueryMetricTool q \<Rightarrow>
             (case resolved (qi_Model q) of
                Inl e \<Rightarrow> (Inl e, [])
              | Inr m \<Rightarrow>
                  (case caller_credential a ac of
                     Inl e \<Rightarrow> (Inl e, [])
                   | Inr cred \<Rightarrow>
                       (let (r, es) = Service_Query (ap_Globs a) (ap_Service a) w ''mcp'' m (plannerRequest q) idn cred
                        in (ebind (emap_err ServiceError r) (\<lambda>res. Inr (ToolResult (query_out res))), es)))))"

text \<open>\<open>None\<close> is an HTTP 401 before the MCP server sees anything.\<close>

definition mcp_Handler :: "Adapter \<Rightarrow> World \<Rightarrow> request_header \<Rightarrow> tool_call \<Rightarrow> ((adapter_error, tool_reply) result \<times> event list) option" where
  "mcp_Handler a w h call =
     (case authenticate a h of Inl e \<Rightarrow> None | Inr ac \<Rightarrow> Some (mcp_tool a w ac call))"

section \<open>Nothing without a caller\<close>

lemma error_status_service: "error_status (ServiceError e) \<in> {400, 403, 404, 503}"
  by (auto simp: error_status_def split: service_error.split)

lemma reply_status: "fst (reply_of f (Inr x)) = 200" "fst (reply_of f (Inl e)) = error_status e"
  by (simp_all add: reply_of_def writeErr_def)

definition later_error :: "adapter_error \<Rightarrow> bool" where
  "later_error e \<longleftrightarrow> (\<forall>x. e \<noteq> NotAuthenticated x)"

lemma error_status_401: "later_error e \<Longrightarrow> error_status e \<noteq> 401"
proof (cases e)
  case (ServiceError x)
  then show ?thesis using error_status_service[of x] by auto
qed (simp_all add: later_error_def error_status_def)

lemma later_error_simps [simp]: "later_error (ServiceError e)" "later_error (NoCredential t)" "later_error (BadBody b)"
  by (simp_all add: later_error_def)

lemma reply_not_401: "\<forall>e. r = Inl e \<longrightarrow> later_error e \<Longrightarrow> fst (reply_of f r) \<noteq> 401"
  using error_status_401 by (cases r) (auto simp: reply_status)

lemma service_reply: "fst (reply_of f (emap_err ServiceError r)) \<noteq> 401" "fst (writeErr (ServiceError e)) \<noteq> 401"
  "fst (writeErr (NoCredential t)) \<noteq> 401"
proof -
  note e = error_status_401[OF later_error_simps(1)] error_status_401[OF later_error_simps(2)]
  show "fst (reply_of f (emap_err ServiceError r)) \<noteq> 401" by (cases r) (simp_all add: reply_status e)
  show "fst (writeErr (ServiceError e)) \<noteq> 401" "fst (writeErr (NoCredential t)) \<noteq> 401" by (simp_all add: writeErr_def e)
qed

lemma listing_reply:
  assumes "authenticate a h = Inr ac"
  shows "fst (reply_of f (ebind (rest_resolve a n h) (\<lambda>(m, ac). ebind (emap_err ServiceError (g m ac)) (\<lambda>x. Inr (k m x))))) \<noteq> 401"
  by (rule reply_not_401) (auto simp: rest_resolve_def assms result_simps split: prod.splits)

lemma handleQuery_401: "fst (fst (handleQuery a w x name h body)) = 401 \<longleftrightarrow> (\<exists>e. authenticate a h = Inl e)"
proof (cases "authenticate a h")
  case (Inl e)
  then show ?thesis by (simp add: handleQuery_def rest_resolve_def writeErr_def error_status_def)
next
  case (Inr ac)
  then show ?thesis using service_reply
    by (auto simp: handleQuery_def rest_resolve_def caller_credential_def result_simps service_reply split: sum.splits prod.splits)
qed

text \<open>
  C6. A caller who is not authenticated learns nothing. The REST adapter answers 401 exactly to requests the
  authenticator refuses, and then its answer is the same on every route, for every model name, body and
  state of the service, and nothing happens outside the process; the MCP server is not even
  reached. In particular the names of published models cannot be probed.
\<close>

theorem unauthenticated_learns_nothing:
  "(fst (fst (rest_Handler a w c)) = 401 \<longleftrightarrow> (\<exists>e. authenticate a (hc_Header c) = Inl e))
   \<and> (\<forall>e svc route body call. authenticate a h = Inl e \<longrightarrow>
        rest_Handler (a\<lparr>ap_Service := svc\<rparr>) w \<lparr>hc_Route = route, hc_Header = h, hc_Body = body\<rparr> = ((401, ErrorReply (NotAuthenticated e)), [])
        \<and> mcp_Handler (a\<lparr>ap_Service := svc\<rparr>) w h call = None)"
proof (intro conjI allI impI)
  let ?r = "authenticate a (hc_Header c)"
  show "fst (fst (rest_Handler a w c)) = 401 \<longleftrightarrow> (\<exists>e. ?r = Inl e)"
  proof (cases ?r)
    case (Inl e)
    then show ?thesis
      by (cases "hc_Route c") (simp_all add: rest_Handler_def handleQuery_401 rest_resolve_def reply_status error_status_def)
  next
    case (Inr ac)
    then show ?thesis by (cases "hc_Route c") (simp_all add: rest_Handler_def handleQuery_401 Inr reply_status listing_reply[OF Inr])
  qed
next
  fix e svc route body call
  assume e: "authenticate a h = Inl e"
  then have u: "authenticate (a\<lparr>ap_Service := svc\<rparr>) h = Inl e" by (cases "ap_Authenticator a") (simp_all add: authenticate_def)
  then show "rest_Handler (a\<lparr>ap_Service := svc\<rparr>) w \<lparr>hc_Route = route, hc_Header = h, hc_Body = body\<rparr> = ((401, ErrorReply (NotAuthenticated e)), [])"
    by (cases route) (simp_all add: rest_Handler_def handleQuery_def rest_resolve_def reply_of_def writeErr_def error_status_def)
  show "mcp_Handler (a\<lparr>ap_Service := svc\<rparr>) w h call = None" by (simp add: mcp_Handler_def u)
qed

definition anonymous :: request_header where
  "anonymous = (\<lambda>name. [])"

definition ann_header :: request_header where
  "ann_header = (\<lambda>name. if name = PrincipalHeader then ''ann'' else if name = RoleHeader then ''b'' else [])"

definition shop_adapter :: Adapter where
  "shop_adapter = \<lparr>ap_Service = open_service\<lparr>svc_Store := NewStore\<lparr>st_cms := [(''c'', shop)]\<rparr>\<rparr>, ap_Authenticator = None,
     ap_Parser = (\<lambda>restrictions keys token. Inl []), ap_Resolver = (\<lambda>t u e. Inr no_credential), ap_Globs = star_glob\<rparr>"

theorem unauthenticated_learns_nothing_witness:
  "rest_Handler shop_adapter quiet_world \<lparr>hc_Route = GetMetrics ''shop'', hc_Header = anonymous, hc_Body = []\<rparr>
     = ((401, ErrorReply (NotAuthenticated NoPrincipalHeader)), [])"
proof -
  have "authenticate shop_adapter anonymous = Inl NoPrincipalHeader"
    by (simp add: authenticate_def shop_adapter_def anonymous_def) code_simp
  moreover have "shop_adapter = shop_adapter\<lparr>ap_Service := ap_Service shop_adapter\<rparr>" by simp
  ultimately show ?thesis using unauthenticated_learns_nothing[of shop_adapter quiet_world _ anonymous] by metis
qed

section \<open>What an answered query went through\<close>

lemma Resolve_Inr:
  assumes "Resolve globs svc name idn = Inr m"
  shows "m \<in> stored_models svc \<and> (name \<noteq> [] \<longrightarrow> cm_Name m = name)"
proof (cases "name = []")
  case False
  with assms have "resolve_name svc name = Some (Inr m)" by (auto simp: Resolve_def split: option.splits)
  then show ?thesis using resolve_name_cases(1) by blast
next
  case True
  show ?thesis
  proof (cases "Single_model (svc_Store svc)")
    case (Some x)
    then have "x \<in> stored_models svc"
      by (auto simp: Single_model_def stored_models_def split: list.splits if_splits)
    with Some True assms show ?thesis by (simp add: Resolve_def)
  next
    case None
    with True assms obtain n where "resolve_name svc n = Some (Inr m)"
      by (auto simp: Resolve_def Let_def split: option.splits list.splits if_splits)
    then show ?thesis using True resolve_name_cases(1) by blast
  qed
qed


definition ann :: Identity where
  "ann = (Single ''b'')\<lparr>id_Principal := ''ann''\<rparr>"

definition by_city_body :: string where
  "by_city_body = ''{\"metrics\":[\"rev\"],\"dimensions\":[\"c.city\"]}''"

lemma by_city_decoded: "decodeJSON (Service_MaxRequestBytes (ap_Service shop_adapter)) by_city_body = Inr by_city"
proof -
  have max: "Service_MaxRequestBytes (ap_Service shop_adapter) = 2 ^ 20"
    by (simp add: Service_MaxRequestBytes_def shop_adapter_def open_service_def denying_service_def no_limits_defaults DefaultLimits_def)
  have take: "take (nat (2 ^ 20)) by_city_body = by_city_body" by (simp add: by_city_body_def)
  have p: "json_val (json_ws by_city_body) = Some (JObj [(''metrics'', JArr [JStr ''rev'']), (''dimensions'', JArr [JStr ''c.city''])], [])"
    by code_simp
  have f: "field_decoder request_fields ''metrics'' = Some (member req_Metrics req_Metrics_update (d_list [] d_string))"
    "field_decoder request_fields ''dimensions'' = Some (member req_Dimensions req_Dimensions_update (d_list [] d_string))"
    by (simp_all add: field_decoder_def request_fields_def same_name member_names_def)
  have "json_ws [] = []" by code_simp
  then show ?thesis unfolding decodeJSON_def max take p
    by (simp add: d_Request_def d_struct_def f member_def d_list_def d_string_def empty_Request_def by_city_def)
qed

lemma ann_authenticated:
  "authenticate shop_adapter ann_header = Inr \<lparr>ad_Identity = ann, ad_Token = [], ad_Expiry = None, ad_EngineUser = []\<rparr>"
proof -
  have "trim_space ''ann'' = ''ann''" by code_simp
  moreover have "PrincipalHeader \<noteq> RoleHeader" by (simp add: PrincipalHeader_def RoleHeader_def)
  ultimately show ?thesis by (simp add: authenticate_def shop_adapter_def ann_header_def ann_def)
qed

lemma shop_resolved: "Resolve star_glob (ap_Service shop_adapter) (cm_Name shop) ann = Inr shop" "cm_Name shop \<noteq> []"
  by (simp_all add: Resolve_def resolve_name_def ModelStore.Get_def byName_def shop_adapter_def shop_def NewStore_def)

lemma shop_queried:
  "\<exists>res es. Service_Query star_glob (ap_Service shop_adapter) quiet_world adapter shop by_city ann no_credential = (Inr res, es)"
proof -
  have "\<exists>p. Build star_glob shop trino (by_city\<lparr>req_Limit := 1001\<rparr>) ann = Inr p"
    by (rule Build_isOK) code_simp
  then obtain p where p: "Build star_glob shop trino (by_city\<lparr>req_Limit := 1001\<rparr>) ann = Inr p" by blast
  have sel: "svc_Limits (ap_Service shop_adapter) = no_limits" "svc_Cache (ap_Service shop_adapter) = None"
    "svc_Dialect (ap_Service shop_adapter) = trino" "Option.bind (cm_Governance shop) g_External = None"
    by (simp_all add: shop_adapter_def open_service_def denying_service_def shop_def two_roles_def)
  have w: "w_db quiet_world c q = Inr ([], None)" for c q by (simp add: quiet_world_def)
  have "result_json [] [] = Some ''{\"columns\":[],\"rows\":[]}''" by code_simp
  then show ?thesis
    by (simp add: Service_Query_def Service_Plan_def sel by_city_limited external_decision_def plan_scoped_def Let_def outcome_def
        look_up_def does_def cached_plan_def GetPlan_def cache_get_def p SetPlan_def cache_set_def writes_def
        run_plan_def w cached_result_def GetResult_def deliver_def incomplete_def SetResult_def no_limits_defaults DefaultLimits_def)
qed

lemma shop_answered:
  "\<exists>res es. rest_Handler shop_adapter quiet_world \<lparr>hc_Route = PostQuery (cm_Name shop), hc_Header = ann_header, hc_Body = by_city_body\<rparr>
     = ((200, ResultReply res), es)"
proof -
  have r: "rest_resolve shop_adapter (cm_Name shop) ann_header
      = Inr (shop, \<lparr>ad_Identity = ann, ad_Token = [], ad_Expiry = None, ad_EngineUser = []\<rparr>)"
    using shop_resolved by (simp add: rest_resolve_def ann_authenticated) (simp add: shop_adapter_def)
  obtain res es where "Service_Query star_glob (ap_Service shop_adapter) quiet_world ''rest'' shop by_city ann no_credential = (Inr res, es)"
    using shop_queried by blast
  moreover have "ap_Globs shop_adapter = star_glob" "ap_Resolver shop_adapter t u e = Inr no_credential" for t u e
    by (simp_all add: shop_adapter_def)
  ultimately show ?thesis
    by (simp add: rest_Handler_def handleQuery_def r by_city_decoded caller_credential_def reply_of_def)
qed


section \<open>Two ways to the same answer\<close>

lemma Service_Query_adapter:
  assumes "Option.bind (cm_Governance m) g_External = None"
  shows "Service_Query globs s w x m req idn cred = Service_Query globs s w y m req idn cred"
  using assms by (simp add: Service_Query_def Service_Plan_def external_decision_def)


definition by_city_tool :: queryIn where
  "by_city_tool = \<lparr>qi_Model = cm_Name shop, qi_Metrics = req_Metrics by_city, qi_Dimensions = req_Dimensions by_city, qi_Filters = [],
     qi_MetricFilters = [], qi_Grain = [], qi_OrderBy = [], qi_Limit = 0\<rparr>"


section \<open>A result that cannot be encoded\<close>

text \<open>A cell that is no number has no JSON text. Such a result passes the size check, which is skipped when the text cannot be
  built, and is answered with status 200; the adapter then fails to write it and the body stays empty.\<close>

definition nan_cell :: go_value where
  "nan_cell = VFloat64 0x7FF8000000000001"

definition nan_world :: World where
  "nan_world = quiet_world\<lparr>w_db := (\<lambda>c q. Inr ([''x''], Some [[nan_cell]]))\<rparr>"

lemma nan_unencodable: "result_json [''x''] [[nan_cell]] = None"
proof -
  have "float64 0x7FF8000000000001 = FNaN" by (simp add: float64_def decode_float_def Let_def)
  then have "json_value nan_cell = None" by (simp add: nan_cell_def json_float_def)
  then show ?thesis by (simp add: result_json_def json_array_def)
qed

lemma unencodable_result_answered:
  "\<exists>res es. rest_Handler shop_adapter nan_world \<lparr>hc_Route = PostQuery (cm_Name shop), hc_Header = ann_header, hc_Body = by_city_body\<rparr>
     = ((200, ResultReply res), es) \<and> result_json (qr_Columns res) (qr_Rows res) = None"
proof -
  have "\<exists>p. Build star_glob shop trino (by_city\<lparr>req_Limit := 1001\<rparr>) ann = Inr p"
    by (rule Build_isOK) code_simp
  then obtain p where p: "Build star_glob shop trino (by_city\<lparr>req_Limit := 1001\<rparr>) ann = Inr p" by blast
  have sel: "svc_Limits (ap_Service shop_adapter) = no_limits" "svc_Cache (ap_Service shop_adapter) = None"
    "svc_Dialect (ap_Service shop_adapter) = trino" "Option.bind (cm_Governance shop) g_External = None"
    by (simp_all add: shop_adapter_def open_service_def denying_service_def shop_def two_roles_def)
  have w: "w_db nan_world c q = Inr ([''x''], Some [[nan_cell]])" for c q by (simp add: nan_world_def)
  note j = nan_unencodable
  have "\<exists>res es. Service_Query star_glob (ap_Service shop_adapter) nan_world ''rest'' shop by_city ann no_credential = (Inr res, es)
      \<and> qr_Columns res = [''x''] \<and> qr_Rows res = [[nan_cell]]"
    by (simp add: Service_Query_def Service_Plan_def sel by_city_limited external_decision_def plan_scoped_def Let_def outcome_def
        look_up_def does_def cached_plan_def GetPlan_def cache_get_def p SetPlan_def cache_set_def writes_def
        run_plan_def w cached_result_def GetResult_def deliver_def incomplete_def no_limits_defaults DefaultLimits_def j plan_result_def)
  then obtain res es where q: "Service_Query star_glob (ap_Service shop_adapter) nan_world ''rest'' shop by_city ann no_credential = (Inr res, es)"
    "qr_Columns res = [''x'']" "qr_Rows res = [[nan_cell]]" by blast
  have r: "rest_resolve shop_adapter (cm_Name shop) ann_header
      = Inr (shop, \<lparr>ad_Identity = ann, ad_Token = [], ad_Expiry = None, ad_EngineUser = []\<rparr>)"
    using shop_resolved by (simp add: rest_resolve_def ann_authenticated) (simp add: shop_adapter_def)
  have "ap_Globs shop_adapter = star_glob" "ap_Resolver shop_adapter t u e = Inr no_credential" for t u e
    by (simp_all add: shop_adapter_def)
  with q(1) have "rest_Handler shop_adapter nan_world \<lparr>hc_Route = PostQuery (cm_Name shop), hc_Header = ann_header, hc_Body = by_city_body\<rparr>
     = ((200, ResultReply res), es)"
    by (simp add: rest_Handler_def handleQuery_def r by_city_decoded caller_credential_def reply_of_def)
  with q j show ?thesis by simp
qed

end
