(* ===== verification/Engines.thy ===== *)
theory Engines
  imports Scan Adapters Controller
begin

text \<open>
  \<^verbatim>\<open>internal/dbclient/dbclient.go\<close>, \<^verbatim>\<open>internal/starrocks/client.go\<close> and \<^verbatim>\<open>internal/trino/client.go\<close>: under whose login a
  statement reaches the engine, and what the engine says of a table. The drivers behind \<^verbatim>\<open>database/sql\<close>
  are a parameter: whether a login can be opened, and what a statement under it is answered with.
  Each query returns with its answer the statements it sent and the login of each. Timeouts are
  left to the driver, which may answer any statement with an error.
\<close>

section \<open>Configuration and registry\<close>

record EngineConfig =
  eng_Host :: string
  eng_Port :: int
  eng_User :: string
  eng_Password :: string
  eng_QueryTimeout :: int
  eng_MaxResultBytes :: int
  eng_TLSEnabled :: bool
  eng_TLSInsecureSkipVerify :: bool

definition firstEnv :: "(string \<Rightarrow> string) \<Rightarrow> string list \<Rightarrow> string" where
  "firstEnv env keys = (case find (\<lambda>k. env k \<noteq> []) keys of Some k \<Rightarrow> env k | None \<Rightarrow> [])"

text \<open>No letter outside ASCII has one of the letters of these words as its lower case.\<close>

definition env_true :: "string \<Rightarrow> bool" where
  "env_true v \<longleftrightarrow> to_lower v \<in> {''true'', ''1'', ''yes''}"

datatype env_error = EngineHostRequired | BadEnginePort string

definition EnvConfig :: "(string \<Rightarrow> string) \<Rightarrow> (env_error, EngineConfig) result" where
  "EnvConfig env =
     (let host = firstEnv env [''ENGINE_HOST'', ''STARROCKS_HOST'']; v = firstEnv env [''ENGINE_PORT'', ''STARROCKS_PORT'']
      in if host = [] then Inl EngineHostRequired
         else ebind (if v = [] then Inr 0 else case ParseInt10 v of None \<Rightarrow> Inl (BadEnginePort v) | Some n \<Rightarrow> Inr n) (\<lambda>port. Inr
           \<lparr>eng_Host = host, eng_Port = port, eng_User = firstEnv env [''ENGINE_USER'', ''STARROCKS_USER''],
            eng_Password = firstEnv env [''ENGINE_PASSWORD'', ''STARROCKS_PASSWORD''], eng_QueryTimeout = 0,
            eng_MaxResultBytes = 0, eng_TLSEnabled = env_true (env ''ENGINE_TLS_ENABLED''),
            eng_TLSInsecureSkipVerify = env_true (env ''ENGINE_TLS_INSECURE_SKIP_VERIFY'')\<rparr>))"

datatype engine_error =
    EngineError string
  | ScanFailed scan_error
  | TokenExpired
  | NoEngineUser
  | TLSRequired
  | UnexpectedColumns "string list"
  | TableNotFound string string string
  | NoDDL string string string
  | IndexOutOfRange
  | UnknownEngine string "string list"

definition RegisterEngine :: "(string \<times> 'f) list \<Rightarrow> string \<Rightarrow> 'f \<Rightarrow> (string \<times> 'f) list" where
  "RegisterEngine registry name f = AList.update name f registry"

definition Registered :: "(string \<times> 'f) list \<Rightarrow> string list" where
  "Registered registry = sort (map fst registry)"

definition OpenEngine ::
  "(string \<times> (EngineConfig \<Rightarrow> (engine_error, 'client) result)) list \<Rightarrow> string \<Rightarrow> EngineConfig \<Rightarrow> (engine_error, 'client) result" where
  "OpenEngine registry name cfg =
     (case map_of registry name of None \<Rightarrow> Inl (UnknownEngine name (Registered registry)) | Some f \<Rightarrow> f cfg)"

section \<open>Drivers\<close>

text \<open>\<open>drv_connect\<close>: the error of building a connector or a pool for a login; \<open>drv_query\<close>: the scanner of a
  result, with the error of closing it.\<close>

record 'login driver =
  drv_connect :: "'login \<Rightarrow> string option"
  drv_query :: "'login \<Rightarrow> string \<Rightarrow> (string, RowScanner \<times> string option) result"

type_synonym rows_result = "(engine_error, string list \<times> go_value list list) result"

definition runQuery :: "'login driver \<Rightarrow> 'login \<Rightarrow> int \<Rightarrow> string \<Rightarrow> rows_result" where
  "runQuery d login maxBytes sql =
     (case drv_query d login sql of
        Inl e \<Rightarrow> Inl (EngineError e)
      | Inr (rows, closed) \<Rightarrow>
          ebind (emap_err ScanFailed (ScanRows rows maxBytes)) (\<lambda>r.
            case closed of Some e \<Rightarrow> Inl (EngineError e) | None \<Rightarrow> Inr r))"

text \<open>The common shape of \<^verbatim>\<open>Query\<close>: the static pool is open already, a login for the caller is opened for this
  statement and closed after it.\<close>

definition run_under :: "'login driver \<Rightarrow> (engine_error, 'login) result \<Rightarrow> bool \<Rightarrow> int \<Rightarrow> string
    \<Rightarrow> rows_result \<times> ('login \<times> string) list" where
  "run_under d login pooled maxBytes sql =
     (case login of
        Inl e \<Rightarrow> (Inl e, [])
      | Inr l \<Rightarrow>
          (case (if pooled then None else drv_connect d l) of
             Some e \<Rightarrow> (Inl (EngineError e), [])
           | None \<Rightarrow> (runQuery d l maxBytes sql, [(l, sql)])))"

definition expired :: "int \<Rightarrow> EngineCredential \<Rightarrow> bool" where
  "expired now cred \<longleftrightarrow> ec_Expiry cred \<noteq> zero_time \<and> ec_Expiry cred < now"

definition default_timeout :: "int \<Rightarrow> int" where
  "default_timeout t = (if t = 0 then 60 * 10 ^ 9 else t)"

definition default_bytes :: "int \<Rightarrow> int" where
  "default_bytes n = (if n \<le> 0 then int DefaultMaxResultBytes else n)"

section \<open>StarRocks\<close>

record tls_config =
  tls_ServerName :: string
  tls_InsecureSkipVerify :: bool

record mysql_config =
  my_Addr :: string
  my_User :: string
  my_Passwd :: string
  my_InterpolateParams :: bool
  my_ParseTime :: bool
  my_Timeout :: int
  my_TLS :: "tls_config option"

definition baseConfig :: "string \<Rightarrow> string \<Rightarrow> string \<Rightarrow> tls_config option \<Rightarrow> mysql_config" where
  "baseConfig addr user passwd tls =
     \<lparr>my_Addr = addr, my_User = user, my_Passwd = passwd, my_InterpolateParams = True, my_ParseTime = True,
      my_Timeout = 10 * 10 ^ 9, my_TLS = tls\<rparr>"

record StarRocksClient =
  sr_db :: mysql_config
  sr_addr :: string
  sr_timeout :: int
  sr_maxBytes :: int
  sr_tls :: "tls_config option"

definition starrocks_Open :: "mysql_config driver \<Rightarrow> EngineConfig \<Rightarrow> (engine_error, StarRocksClient) result" where
  "starrocks_Open d cfg =
     (let port = (if eng_Port cfg = 0 then 9030 else eng_Port cfg);
          user = (if eng_User cfg = [] then ''root'' else eng_User cfg);
          addr = eng_Host cfg @ '':'' @ int_str port;
          tls = (if eng_TLSEnabled cfg \<or> eng_TLSInsecureSkipVerify cfg
                 then Some \<lparr>tls_ServerName = eng_Host cfg, tls_InsecureSkipVerify = eng_TLSInsecureSkipVerify cfg\<rparr> else None);
          base = baseConfig addr user (eng_Password cfg) tls
      in case drv_connect d base of
           Some e \<Rightarrow> Inl (EngineError e)
         | None \<Rightarrow> Inr \<lparr>sr_db = base, sr_addr = addr, sr_timeout = default_timeout (eng_QueryTimeout cfg),
                       sr_maxBytes = default_bytes (eng_MaxResultBytes cfg), sr_tls = tls\<rparr>)"

text \<open>Whose login runs a statement.\<close>

definition starrocks_login :: "StarRocksClient \<Rightarrow> int \<Rightarrow> EngineCredential \<Rightarrow> (engine_error, mysql_config) result" where
  "starrocks_login c now cred =
     (if cred_IsZero cred then Inr (sr_db c)
      else if expired now cred then Inl TokenExpired
      else if ec_EngineUser cred = [] then Inl NoEngineUser
      else if sr_tls c = None then Inl TLSRequired
      else Inr (baseConfig (sr_addr c) (ec_EngineUser cred) (ec_Token cred) (sr_tls c)))"

definition starrocks_Query :: "mysql_config driver \<Rightarrow> StarRocksClient \<Rightarrow> int \<Rightarrow> EngineCredential \<Rightarrow> string
    \<Rightarrow> rows_result \<times> (mysql_config \<times> string) list" where
  "starrocks_Query d c now cred sql =
     run_under d (starrocks_login c now cred) (cred_IsZero cred) (sr_maxBytes c) sql"

text \<open>\<^verbatim>\<open>fmt.Sprint\<close> of a value a driver returned; instants are in UTC.\<close>

primrec sprint :: "go_value \<Rightarrow> string" where
  "sprint VNil = ''<nil>''"
| "sprint (VString s) = s"
| "sprint (VBool b) = (if b then ''true'' else ''false'')"
| "sprint (VInt i) = int_str i"
| "sprint (VInt32 i) = int_str i"
| "sprint (VInt64 i) = int_str i"
| "sprint (VFloat32 w) = fmt_g (float32 w)"
| "sprint (VFloat64 w) = fmt_g (float64 w)"
| "sprint (VTime t) = time_str t @ '' +0000 UTC''"
| "sprint (VArray vs) = ''['' @ join '' '' (map sprint vs) @ '']''"
| "sprint (VObject kvs) =
     ''map['' @ join '' '' (map (\<lambda>(k, s). k @ '':'' @ s) (sort_key fst (map (map_prod id sprint) kvs))) @ '']''"

text \<open>Indexing a row panics beyond its end.\<close>

definition cell :: "go_value list \<Rightarrow> nat \<Rightarrow> (engine_error, string) result" where
  "cell r i = (if i < length r then Inr (sprint (r ! i)) else Inl IndexOutOfRange)"

definition row_column :: "nat \<Rightarrow> nat \<Rightarrow> go_value list \<Rightarrow> (engine_error, Column) result" where
  "row_column i j r = ebind (cell r i) (\<lambda>n. ebind (cell r j) (\<lambda>t. Inr \<lparr>col_Name = n, col_Type = t\<rparr>))"

text \<open>The last of the columns of a name wins.\<close>

fun last_index :: "string \<Rightarrow> string list \<Rightarrow> nat option" where
  "last_index x [] = None"
| "last_index x (c # cs) =
     (case last_index x cs of Some i \<Rightarrow> Some (Suc i) | None \<Rightarrow> if c = x then Some 0 else None)"

definition backquoted :: "string \<Rightarrow> string" where
  "backquoted s = [backtick_ch] @ s @ [backtick_ch]"

definition table_path :: "string \<Rightarrow> string \<Rightarrow> string \<Rightarrow> string" where
  "table_path catalog database table = backquoted catalog @ ''.'' @ backquoted database @ ''.'' @ backquoted table"

text \<open>The credential of the operator's own reads is the zero value.\<close>

definition zero_credential :: EngineCredential where
  "zero_credential = \<lparr>ec_Token = [], ec_EngineUser = [], ec_Expiry = zero_time\<rparr>"

definition starrocks_DescribeTable ::
  "mysql_config driver \<Rightarrow> StarRocksClient \<Rightarrow> int \<Rightarrow> string \<Rightarrow> string \<Rightarrow> string \<Rightarrow> (engine_error, Column list) result" where
  "starrocks_DescribeTable d c now catalog database table =
     ebind (fst (starrocks_Query d c now zero_credential (''DESC '' @ table_path catalog database table))) (\<lambda>(cols, rows).
       case (last_index ''Field'' cols, last_index ''Type'' cols) of
         (Some i, Some j) \<Rightarrow> emap (row_column i j) rows
       | _ \<Rightarrow> Inl (UnexpectedColumns cols))"

definition ddl_column :: "string list \<Rightarrow> nat" where
  "ddl_column cols =
     (case find (\<lambda>i. cols ! i = ''Create Table'' \<or> cols ! i = ''Create View'') [0..<length cols] of
        Some i \<Rightarrow> i | None \<Rightarrow> length cols - 1)"

definition ShowCreateTable ::
  "mysql_config driver \<Rightarrow> StarRocksClient \<Rightarrow> int \<Rightarrow> string \<Rightarrow> string \<Rightarrow> string \<Rightarrow> (engine_error, string) result" where
  "ShowCreateTable d c now catalog database table =
     ebind (fst (starrocks_Query d c now zero_credential (''SHOW CREATE TABLE '' @ table_path catalog database table))) (\<lambda>(cols, rows).
       case rows of
         [] \<Rightarrow> Inl (NoDDL catalog database table)
       | r # rs \<Rightarrow> if cols = [] then Inl IndexOutOfRange else cell r (ddl_column cols))"

section \<open>Trino\<close>

datatype userinfo = User string | UserPassword string string

text \<open>What goes into a DSN; its text is made by the driver and \<^verbatim>\<open>net/url\<close>.\<close>

record trino_dsn =
  dsn_Scheme :: string
  dsn_Host :: string
  dsn_User :: userinfo
  dsn_Source :: string
  dsn_AccessToken :: string
  dsn_CustomClient :: string

record TrinoClient =
  tr_db :: trino_dsn
  tr_host :: string
  tr_port :: int
  tr_scheme :: string
  tr_timeout :: int
  tr_customClient :: string
  tr_maxBytes :: int

definition make_dsn :: "string \<Rightarrow> string \<Rightarrow> int \<Rightarrow> string \<Rightarrow> userinfo \<Rightarrow> string \<Rightarrow> trino_dsn" where
  "make_dsn scheme host port custom user token =
     \<lparr>dsn_Scheme = scheme, dsn_Host = host @ '':'' @ int_str port, dsn_User = user, dsn_Source = ''semantic-operator'',
      dsn_AccessToken = token, dsn_CustomClient = custom\<rparr>"

text \<open>\<open>register\<close> is \<^verbatim>\<open>RegisterCustomClient\<close>.\<close>

definition trino_Open :: "(string \<Rightarrow> string option) \<Rightarrow> trino_dsn driver \<Rightarrow> EngineConfig \<Rightarrow> (engine_error, TrinoClient) result" where
  "trino_Open register d cfg =
     (let port = (if eng_Port cfg = 0 then 8080 else eng_Port cfg);
          user = (if eng_User cfg = [] then ''semantic-operator'' else eng_User cfg);
          scheme = (if eng_TLSEnabled cfg \<or> eng_Password cfg \<noteq> [] then ''https'' else ''http'');
          key = (if scheme = ''https'' \<and> eng_TLSInsecureSkipVerify cfg
                 then ''semantic-insecure-'' @ eng_Host cfg @ ''-'' @ int_str port else []);
          info = (if scheme = ''https'' \<and> eng_Password cfg \<noteq> [] then UserPassword user (eng_Password cfg) else User user);
          dsn = make_dsn scheme (eng_Host cfg) port key info []
      in case (if key = [] then None else register key) of
           Some e \<Rightarrow> Inl (EngineError e)
         | None \<Rightarrow>
             (case drv_connect d dsn of
                Some e \<Rightarrow> Inl (EngineError e)
              | None \<Rightarrow> Inr \<lparr>tr_db = dsn, tr_host = eng_Host cfg, tr_port = port, tr_scheme = scheme,
                            tr_timeout = default_timeout (eng_QueryTimeout cfg), tr_customClient = key,
                            tr_maxBytes = default_bytes (eng_MaxResultBytes cfg)\<rparr>))"

definition trino_login :: "TrinoClient \<Rightarrow> int \<Rightarrow> EngineCredential \<Rightarrow> (engine_error, trino_dsn) result" where
  "trino_login c now cred =
     (if cred_IsZero cred then Inr (tr_db c)
      else if expired now cred then Inl TokenExpired
      else if ec_EngineUser cred = [] then Inl NoEngineUser
      else Inr (make_dsn (tr_scheme c) (tr_host c) (tr_port c) (tr_customClient c) (User (ec_EngineUser cred)) (ec_Token cred)))"

definition trino_Query :: "trino_dsn driver \<Rightarrow> TrinoClient \<Rightarrow> int \<Rightarrow> EngineCredential \<Rightarrow> string
    \<Rightarrow> rows_result \<times> (trino_dsn \<times> string) list" where
  "trino_Query d c now cred sql =
     run_under d (trino_login c now cred) (cred_IsZero cred) (tr_maxBytes c) sql"

definition trino_quoteString :: "string \<Rightarrow> string" where
  "trino_quoteString s = quote_with quote_ch s"

definition describeQuery :: "string \<Rightarrow> string \<Rightarrow> string \<Rightarrow> string" where
  "describeQuery catalog database table =
     ''SELECT column_name, data_type FROM '' @ quote_with dquote_ch catalog @ ''.information_schema.columns WHERE table_schema = ''
     @ trino_quoteString database @ '' AND table_name = '' @ trino_quoteString table @ '' ORDER BY ordinal_position''"

definition trino_DescribeTable ::
  "trino_dsn driver \<Rightarrow> TrinoClient \<Rightarrow> int \<Rightarrow> string \<Rightarrow> string \<Rightarrow> string \<Rightarrow> (engine_error, Column list) result" where
  "trino_DescribeTable d c now catalog database table =
     ebind (fst (trino_Query d c now zero_credential (describeQuery catalog database table))) (\<lambda>(cols, rows).
       if length cols < 2 then Inl (UnexpectedColumns cols)
       else if rows = [] then Inl (TableNotFound catalog database table)
       else emap (row_column 0 1) rows)"

section \<open>Under whose login a statement runs\<close>

text \<open>What both clients promise of \<^verbatim>\<open>Query\<close>: without a caller's credential the static login, otherwise a
  login as the caller with the caller's token, or none at all.\<close>

locale engine_client =
  fixes login :: "'client \<Rightarrow> int \<Rightarrow> EngineCredential \<Rightarrow> (engine_error, 'login) result"
    and pool :: "'client \<Rightarrow> 'login" and ceiling :: "'client \<Rightarrow> int"
    and user :: "'login \<Rightarrow> string" and secret :: "'login \<Rightarrow> string"
  assumes static: "cred_IsZero cred \<Longrightarrow> login c now cred = Inr (pool c)"
    and caller: "\<not> cred_IsZero cred \<Longrightarrow> login c now cred = Inr l \<Longrightarrow>
      user l = ec_EngineUser cred \<and> user l \<noteq> [] \<and> secret l = ec_Token cred \<and> \<not> expired now cred"
begin

lemma sent_one:
  assumes "run_under d (login c now cred) (cred_IsZero cred) (ceiling c) sql = (r, sent)"
  shows "sent = [] \<or> (\<exists>l. sent = [(l, sql)] \<and> login c now cred = Inr l)"
  using assms by (auto simp: run_under_def split: sum.splits option.splits if_splits)

lemma sent_static:
  assumes "run_under d (login c now cred) (cred_IsZero cred) (ceiling c) sql = (r, sent)" "cred_IsZero cred"
  shows "sent = [(pool c, sql)] \<and> r = runQuery d (pool c) (ceiling c) sql"
  using assms static[OF assms(2)] by (auto simp: run_under_def)

lemma sent_as_caller:
  assumes "run_under d (login c now cred) (cred_IsZero cred) (ceiling c) sql = (r, sent)" "\<not> cred_IsZero cred" "(l, s) \<in> set sent"
  shows "s = sql \<and> user l = ec_EngineUser cred \<and> user l \<noteq> [] \<and> secret l = ec_Token cred \<and> \<not> expired now cred"
proof -
  from sent_one[OF assms(1)] assms(3) have "login c now cred = Inr l" "s = sql" by auto
  with caller[OF assms(2), of c now l] show ?thesis by blast
qed

lemma answered_sent:
  assumes "run_under d (login c now cred) (cred_IsZero cred) (ceiling c) sql = (Inr x, sent)"
  shows "\<exists>l. sent = [(l, sql)] \<and> login c now cred = Inr l \<and> runQuery d l (ceiling c) sql = Inr x"
  using assms by (auto simp: run_under_def split: sum.splits option.splits if_splits)

end

primrec dsn_session :: "userinfo \<Rightarrow> string" where
  "dsn_session (User u) = u"
| "dsn_session (UserPassword u p) = u"

interpretation starrocks_client: engine_client starrocks_login sr_db sr_maxBytes my_User my_Passwd
  by unfold_locales (auto simp: starrocks_login_def baseConfig_def split: if_splits)

interpretation trino_client: engine_client trino_login tr_db tr_maxBytes "\<lambda>l. dsn_session (dsn_User l)" dsn_AccessToken
  by unfold_locales (auto simp: trino_login_def make_dsn_def split: if_splits)

lemma zero_credential_IsZero: "cred_IsZero zero_credential"
  by (simp add: cred_IsZero_def zero_credential_def)

text \<open>StarRocks refuses to send a token in the clear; the Trino client forwards it over plain HTTP.\<close>

lemma starrocks_login_tls: "\<not> cred_IsZero cred \<Longrightarrow> starrocks_login c now cred = Inr l \<Longrightarrow> my_TLS l \<noteq> None"
  by (auto simp: starrocks_login_def baseConfig_def split: if_splits)

definition plain_engine :: EngineConfig where
  "plain_engine = \<lparr>eng_Host = ''t'', eng_Port = 0, eng_User = [], eng_Password = [], eng_QueryTimeout = 0, eng_MaxResultBytes = 0,
     eng_TLSEnabled = False, eng_TLSInsecureSkipVerify = True\<rparr>"

definition ann_credential :: EngineCredential where
  "ann_credential = \<lparr>ec_Token = ''tok'', ec_EngineUser = ''ann'', ec_Expiry = 9\<rparr>"

definition quiet_driver :: "'login driver" where
  "quiet_driver = \<lparr>drv_connect = (\<lambda>l. None), drv_query = (\<lambda>l q. Inr (\<lparr>rows_Columns = Inr [], rows_Scan = [], rows_Err = None\<rparr>, None))\<rparr>"

lemma token_over_plain_http:
  "\<exists>c l. trino_Open (\<lambda>k. None) quiet_driver plain_engine = Inr c
     \<and> trino_Query quiet_driver c 0 ann_credential ''SELECT 1'' = (Inr ([], []), [(l, ''SELECT 1'')])
     \<and> dsn_Scheme l = ''http'' \<and> dsn_AccessToken l = ''tok''"
  by (simp add: trino_Open_def quiet_driver_def plain_engine_def trino_Query_def run_under_def trino_login_def ann_credential_def
      cred_IsZero_def expired_def make_dsn_def runQuery_def ScanRows_def Let_def)

text \<open>A password alone does not make the StarRocks client use TLS.\<close>

lemma starrocks_password_in_clear:
  assumes "starrocks_Open d cfg = Inr c" "\<not> eng_TLSEnabled cfg" "\<not> eng_TLSInsecureSkipVerify cfg"
  shows "my_Passwd (sr_db c) = eng_Password cfg \<and> my_TLS (sr_db c) = None"
  using assms by (auto simp: starrocks_Open_def Let_def baseConfig_def split: option.splits)

section \<open>Reading the schema of a table\<close>

lemma starrocks_describe_ambiguous:
  "table_path ''a`.`b'' ''c'' ''d'' = table_path ''a'' ''b`.`c'' ''d''"
  by (simp add: table_path_def backquoted_def backtick_ch_def)

text \<open>
  The statement by which the Trino client reads a table's columns names that table and no other: two
  statements are equal only for the same catalog, database and table, whatever quotes the names contain.
\<close>

theorem describe_query_faithful:
  "describeQuery c s t = describeQuery c' s' t' \<longleftrightarrow> c = c' \<and> s = s' \<and> t = t'"
proof
  assume e: "describeQuery c s t = describeQuery c' s' t'"
  have st: "stops dquote_ch (''.'' @ x)" "stops quote_ch ('' '' @ x)" for x by (simp_all add: stops_def special_chars)
  have q: "quote_with dquote_ch = trino_QuoteIdent" by (simp add: trino_QuoteIdent_def[abs_def] fun_eq_iff)
  let ?r = "\<lambda>s t. ''.information_schema.columns WHERE table_schema = '' @ trino_quoteString s @ '' AND table_name = '' @ trino_quoteString t
    @ '' ORDER BY ordinal_position''"
  from e have "trino_QuoteIdent c @ ''.'' @ tl (?r s t) = trino_QuoteIdent c' @ ''.'' @ tl (?r s' t')" by (simp add: describeQuery_def q)
  from trino_ident.quote_prefix_free[OF this st(1) st(1)] have c: "c = c'"
    and r: "quote_with quote_ch s @ '' '' @ ''AND table_name = '' @ trino_quoteString t @ '' ORDER BY ordinal_position''
      = quote_with quote_ch s' @ '' '' @ ''AND table_name = '' @ trino_quoteString t' @ '' ORDER BY ordinal_position''"
    by (simp_all add: trino_quoteString_def)
  from trino_lit.quote_prefix_free[OF r st(2) st(2)] have s: "s = s'" and t: "quote_with quote_ch t = quote_with quote_ch t'"
    by (simp_all add: trino_quoteString_def)
  with c trino_lit.quote_inject show "c = c' \<and> s = s' \<and> t = t'" by blast
qed simp

definition fills_rows :: "'login driver \<Rightarrow> bool" where
  "fills_rows d \<longleftrightarrow> (\<forall>l q rows closed cols row. drv_query d l q = Inr (rows, closed) \<longrightarrow> rows_Columns rows = Inr cols \<longrightarrow>
     Inr row \<in> set (rows_Scan rows) \<longrightarrow> length row = length cols)"

lemma runQuery_filled:
  assumes "fills_rows d" "runQuery d l m sql = Inr (cols, rows)" "r \<in> set rows"
  shows "length r = length cols"
proof -
  from assms(2) obtain sc closed where q: "drv_query d l sql = Inr (sc, closed)" "ScanRows sc m = Inr (cols, rows)"
    by (auto simp: runQuery_def result_simps split: sum.splits option.splits)
  then have c: "rows_Columns sc = Inr cols" and "\<exists>n. scan_loop n (rows_Scan sc) [] 0 = Inr rows"
    by (auto simp: ScanRows_def Let_def result_simps split: sum.splits option.splits)
  then obtain scans where "rows_Scan sc = map Inr scans" "rows = map (map copied) scans" using scan_loop_Inr by fastforce
  with assms(1,3) q(1) c show ?thesis unfolding fills_rows_def by fastforce
qed

lemma row_columns:
  assumes "\<And>r. r \<in> set rows \<Longrightarrow> i < length r \<and> j < length r"
  shows "emap (row_column i j) rows = Inr (map (\<lambda>r. \<lparr>col_Name = sprint (r ! i), col_Type = sprint (r ! j)\<rparr>) rows)"
proof -
  have "emap (row_column i j) rows = emap (\<lambda>r. Inr \<lparr>col_Name = sprint (r ! i), col_Type = sprint (r ! j)\<rparr>) rows"
    by (rule emap_cong) (simp add: row_column_def cell_def assms)
  then show ?thesis by (simp add: emap_Inr_map)
qed

lemma last_index_Some: "last_index x cs = Some i \<Longrightarrow> i < length cs \<and> cs ! i = x"
  by (induction cs arbitrary: i) (auto split: option.splits if_splits)

lemma static_query:
  "fst (starrocks_Query d c now zero_credential sql) = runQuery d (sr_db c) (sr_maxBytes c) sql"
  "fst (trino_Query e t now zero_credential sql) = runQuery e (tr_db t) (tr_maxBytes t) sql"
proof -
  note z = zero_credential_IsZero
  show "fst (starrocks_Query d c now zero_credential sql) = runQuery d (sr_db c) (sr_maxBytes c) sql"
    using starrocks_client.sent_static[OF _ z, of d c now sql] by (metis starrocks_Query_def prod.collapse)
  show "fst (trino_Query e t now zero_credential sql) = runQuery e (tr_db t) (tr_maxBytes t) sql"
    using trino_client.sent_static[OF _ z, of e t now sql] by (metis trino_Query_def prod.collapse)
qed

lemma runQuery_error: "runQuery d l m sql \<noteq> Inl IndexOutOfRange"
  by (auto simp: runQuery_def result_simps split: sum.splits option.splits)

text \<open>
  What the clients report of a table is what the engine answered. With a driver that fills every column
  of a row, neither client indexes a row out of range; the columns they report are the rows of one
  statement run under the static login, in order; and Trino never reports a table without
  columns, so that a missing table is an error and not an empty schema.
\<close>

theorem described_columns:
  assumes "fills_rows d" "fills_rows e"
  shows "starrocks_DescribeTable d c now catalog database table \<noteq> Inl IndexOutOfRange
    \<and> trino_DescribeTable e t now catalog database table \<noteq> Inl IndexOutOfRange
    \<and> (\<forall>cols. starrocks_DescribeTable d c now catalog database table = Inr cols \<longrightarrow>
        (\<exists>names rows i j. runQuery d (sr_db c) (sr_maxBytes c) (''DESC '' @ table_path catalog database table) = Inr (names, rows)
          \<and> i < length names \<and> names ! i = ''Field'' \<and> j < length names \<and> names ! j = ''Type''
          \<and> cols = map (\<lambda>r. \<lparr>col_Name = sprint (r ! i), col_Type = sprint (r ! j)\<rparr>) rows))
    \<and> (\<forall>cols. trino_DescribeTable e t now catalog database table = Inr cols \<longrightarrow> cols \<noteq> []
        \<and> (\<exists>names rows. runQuery e (tr_db t) (tr_maxBytes t) (describeQuery catalog database table) = Inr (names, rows)
          \<and> cols = map (\<lambda>r. \<lparr>col_Name = sprint (r ! 0), col_Type = sprint (r ! 1)\<rparr>) rows))"
proof -
  have s: "emap (row_column i j) rows = Inr (map (\<lambda>r. \<lparr>col_Name = sprint (r ! i), col_Type = sprint (r ! j)\<rparr>) rows)"
    if "runQuery d l m sql = Inr (names, rows)" "i < length names" "j < length names" for l m sql names rows i j
    by (rule row_columns) (use runQuery_filled[OF assms(1) that(1)] that in auto)
  have u: "emap (row_column 0 1) rows = Inr (map (\<lambda>r. \<lparr>col_Name = sprint (r ! 0), col_Type = sprint (r ! 1)\<rparr>) rows)"
    if "runQuery e l m sql = Inr (names, rows)" "2 \<le> length names" for l m sql names rows
    by (rule row_columns) (use runQuery_filled[OF assms(2) that(1)] that in auto)
  let ?s = "runQuery d (sr_db c) (sr_maxBytes c) (''DESC '' @ table_path catalog database table)"
  let ?t = "runQuery e (tr_db t) (tr_maxBytes t) (describeQuery catalog database table)"
  have 1: "starrocks_DescribeTable d c now catalog database table \<noteq> Inl IndexOutOfRange
    \<and> (\<forall>cols. starrocks_DescribeTable d c now catalog database table = Inr cols \<longrightarrow>
        (\<exists>names rows i j. ?s = Inr (names, rows) \<and> i < length names \<and> names ! i = ''Field'' \<and> j < length names \<and> names ! j = ''Type''
          \<and> cols = map (\<lambda>r. \<lparr>col_Name = sprint (r ! i), col_Type = sprint (r ! j)\<rparr>) rows))"
  proof (cases ?s)
    case (Inl x)
    then show ?thesis using runQuery_error[of d] unfolding starrocks_DescribeTable_def static_query by auto
  next
    case (Inr nr)
    obtain names rows where nr: "nr = (names, rows)" by (cases nr)
    show ?thesis
      using last_index_Some[of "''Field''" names] last_index_Some[of "''Type''" names] s[OF Inr[unfolded nr]]
      unfolding starrocks_DescribeTable_def static_query Inr nr by (auto split: option.split)
  qed
  have 2: "trino_DescribeTable e t now catalog database table \<noteq> Inl IndexOutOfRange
    \<and> (\<forall>cols. trino_DescribeTable e t now catalog database table = Inr cols \<longrightarrow> cols \<noteq> []
        \<and> (\<exists>names rows. ?t = Inr (names, rows) \<and> cols = map (\<lambda>r. \<lparr>col_Name = sprint (r ! 0), col_Type = sprint (r ! 1)\<rparr>) rows))"
  proof (cases ?t)
    case (Inl x)
    then show ?thesis using runQuery_error[of e] unfolding trino_DescribeTable_def static_query by auto
  next
    case (Inr nr)
    obtain names rows where nr: "nr = (names, rows)" by (cases nr)
    show ?thesis using u[OF Inr[unfolded nr]] unfolding trino_DescribeTable_def static_query Inr nr by auto
  qed
  from 1 2 show ?thesis by blast
qed

definition desc_driver :: "string list \<Rightarrow> 'login driver" where
  "desc_driver names = \<lparr>drv_connect = (\<lambda>l. None),
     drv_query = (\<lambda>l q. Inr (\<lparr>rows_Columns = Inr names, rows_Scan = [Inr (map (\<lambda>n. Bytes (''a'' @ n)) names)], rows_Err = None\<rparr>, None))\<rparr>"

theorem described_columns_witness:
  "\<exists>c t. starrocks_Open quiet_driver (plain_engine\<lparr>eng_MaxResultBytes := 100\<rparr>) = Inr c \<and> trino_Open (\<lambda>k. None) quiet_driver (plain_engine\<lparr>eng_MaxResultBytes := 100\<rparr>) = Inr t
     \<and> starrocks_DescribeTable (desc_driver [''Type'', ''Field'']) c 0 ''l'' ''d'' ''t'' = Inr [\<lparr>col_Name = ''aField'', col_Type = ''aType''\<rparr>]
     \<and> trino_DescribeTable (desc_driver [''Type'']) t 0 ''l'' ''d'' ''t'' \<noteq> Inl IndexOutOfRange"
proof -
  obtain c t where o: "starrocks_Open quiet_driver (plain_engine\<lparr>eng_MaxResultBytes := 100\<rparr>) = Inr c" "trino_Open (\<lambda>k. None) quiet_driver (plain_engine\<lparr>eng_MaxResultBytes := 100\<rparr>) = Inr t"
    "sr_maxBytes c = 100"
    by (simp add: starrocks_Open_def trino_Open_def quiet_driver_def Let_def plain_engine_def default_bytes_def)
  have f: "fills_rows (desc_driver names)" for names :: "string list" by (auto simp: fills_rows_def desc_driver_def)
  have b: "jsonStringLen ''aType'' = 7" "jsonStringLen ''aField'' = 8" by code_simp+
  have "runQuery (desc_driver [''Type'', ''Field'']) l (100) q = Inr ([''Type'', ''Field''], [[VString ''aType'', VString ''aField'']])"
    for l :: mysql_config and q
    using b by (simp add: runQuery_def desc_driver_def ScanRows_def copied_def Let_def)
  then have s: "starrocks_DescribeTable (desc_driver [''Type'', ''Field'']) c 0 ''l'' ''d'' ''t'' = Inr [\<lparr>col_Name = ''aField'', col_Type = ''aType''\<rparr>]"
    by (simp add: starrocks_DescribeTable_def static_query o(3) row_column_def cell_def)
  note described_columns[OF f[of "[''Type'', ''Field'']"] f[of "[''Type'']"], of c 0 "''l''" "''d''" "''t''" t]
  then have "trino_DescribeTable (desc_driver [''Type'']) t 0 ''l'' ''d'' ''t'' \<noteq> Inl IndexOutOfRange" by (elim conjE)
  with s o(1,2) show ?thesis by blast
qed

end
