(* ===== verification/Server.thy ===== *)
theory Server
  imports Providers Engines
begin

text \<open>
  \<^verbatim>\<open>cmd/server\<close>: the configuration with its defaults (\<^verbatim>\<open>config.go\<close>, \<^verbatim>\<open>config_load.go\<close>), its mapping onto the options of
  the components (\<^verbatim>\<open>mapping.go\<close>), and \<^verbatim>\<open>run\<close> of \<^verbatim>\<open>main.go\<close>, which builds the server from its parts or refuses to
  start. What the components take from libraries is the record \<open>Platform\<close>. Reading the file and the
  environment, log lines, metrics, signals and the listener are left out.
\<close>

section \<open>Configuration\<close>

record ServerConfig =
  sc_ListenAddr :: string
  sc_ReadHeaderTimeout :: int
  sc_ReadTimeout :: int
  sc_IdleTimeout :: int
  sc_RESTTimeout :: int
  sc_MaxHeaderBytes :: int

record ConnectionConfig =
  con_Host :: string
  con_Port :: int
  con_User :: string
  con_Password :: string
  con_QueryTimeout :: int
  con_TLSEnabled :: bool
  con_TLSInsecureSkipVerify :: bool

record ExchangeConfig =
  xcf_TokenURL :: string
  xcf_ClientID :: string
  xcf_ClientSecret :: string
  xcf_AllowInsecureHTTP :: bool

record EngineIdentityConfig =
  eid_Mode :: string
  eid_Exchange :: ExchangeConfig

record EngineSection =
  ecf_Dialect :: string
  ecf_Connection :: ConnectionConfig
  ecf_Identity :: EngineIdentityConfig

record AuthConfig =
  acf_Mode :: string
  acf_JWKSURL :: string
  acf_Issuer :: string
  acf_Audience :: string
  acf_PrincipalClaim :: string
  acf_RoleClaim :: string
  acf_GroupsClaim :: string
  acf_ClaimsToCopy :: "string list"
  acf_EngineUserClaim :: string

record CacheConfig =
  ccf_Addr :: string
  ccf_Password :: string
  ccf_DB :: int
  ccf_PlanTTL :: int
  ccf_ResultTTL :: int

record QueryConfig =
  qcf_DefaultRowLimit :: int
  qcf_MaxRowLimit :: int
  qcf_MaxMetrics :: int
  qcf_MaxDimensions :: int
  qcf_MaxFilters :: int
  qcf_MaxFilterValues :: int
  qcf_MaxResultBytes :: int
  qcf_MaxCacheEntryBytes :: int
  qcf_MaxRequestBytes :: int
  qcf_MaxConcurrent :: int
  qcf_QueueWait :: int

record StoreConfig =
  scf_WatchNamespace :: string
  scf_ExposeMetricExpressions :: bool

record Config =
  cfg_LogLevel :: string
  cfg_Server :: ServerConfig
  cfg_Engine :: EngineSection
  cfg_Auth :: AuthConfig
  cfg_Cache :: CacheConfig
  cfg_Query :: QueryConfig
  cfg_Providers :: "ProviderConfig list"
  cfg_OTLPEndpoint :: string
  cfg_Store :: StoreConfig

definition second :: int where "second = 10 ^ 9"

definition config_defaults :: Config where
  "config_defaults =
     \<lparr>cfg_LogLevel = ''info'',
      cfg_Server = \<lparr>sc_ListenAddr = '':8090'', sc_ReadHeaderTimeout = 10 * second, sc_ReadTimeout = 30 * second,
        sc_IdleTimeout = 120 * second, sc_RESTTimeout = 60 * second, sc_MaxHeaderBytes = 2 ^ 20\<rparr>,
      cfg_Engine = \<lparr>ecf_Dialect = ''starrocks'',
        ecf_Connection = \<lparr>con_Host = [], con_Port = 0, con_User = [], con_Password = [], con_QueryTimeout = 0, con_TLSEnabled = False,
          con_TLSInsecureSkipVerify = False\<rparr>,
        ecf_Identity = \<lparr>eid_Mode = ''static'',
          eid_Exchange = \<lparr>xcf_TokenURL = [], xcf_ClientID = [], xcf_ClientSecret = [], xcf_AllowInsecureHTTP = False\<rparr>\<rparr>\<rparr>,
      cfg_Auth = \<lparr>acf_Mode = ''header'', acf_JWKSURL = [], acf_Issuer = [], acf_Audience = [], acf_PrincipalClaim = [], acf_RoleClaim = [],
        acf_GroupsClaim = [], acf_ClaimsToCopy = [], acf_EngineUserClaim = []\<rparr>,
      cfg_Cache = \<lparr>ccf_Addr = [], ccf_Password = [], ccf_DB = 0, ccf_PlanTTL = 24 * 3600 * second, ccf_ResultTTL = 60 * second\<rparr>,
      cfg_Query = \<lparr>qcf_DefaultRowLimit = 0, qcf_MaxRowLimit = 0, qcf_MaxMetrics = 0, qcf_MaxDimensions = 0, qcf_MaxFilters = 0,
        qcf_MaxFilterValues = 0, qcf_MaxResultBytes = 0, qcf_MaxCacheEntryBytes = 0, qcf_MaxRequestBytes = 0, qcf_MaxConcurrent = 0,
        qcf_QueueWait = 5 * second\<rparr>,
      cfg_Providers = [], cfg_OTLPEndpoint = [],
      cfg_Store = \<lparr>scf_WatchNamespace = ''semantic-system'', scf_ExposeMetricExpressions = False\<rparr>\<rparr>"

section \<open>Mapping\<close>

definition toLimits :: "QueryConfig \<Rightarrow> Limits" where
  "toLimits q =
     \<lparr>DefaultRowLimit = qcf_DefaultRowLimit q, MaxRowLimit = qcf_MaxRowLimit q, MaxMetrics = qcf_MaxMetrics q,
      MaxDimensions = qcf_MaxDimensions q, MaxFilters = qcf_MaxFilters q, MaxFilterValues = qcf_MaxFilterValues q,
      MaxResultBytes = qcf_MaxResultBytes q, MaxCacheEntryBytes = qcf_MaxCacheEntryBytes q,
      MaxRequestBytes = qcf_MaxRequestBytes q, MaxConcurrentQueries = qcf_MaxConcurrent q\<rparr>"

definition toEngineConfig :: "EngineSection \<Rightarrow> QueryConfig \<Rightarrow> EngineConfig" where
  "toEngineConfig e q =
     (let c = ecf_Connection e
      in \<lparr>eng_Host = con_Host c, eng_Port = con_Port c, eng_User = con_User c, eng_Password = con_Password c,
          eng_QueryTimeout = con_QueryTimeout c, eng_MaxResultBytes = qcf_MaxResultBytes q,
          eng_TLSEnabled = con_TLSEnabled c, eng_TLSInsecureSkipVerify = con_TLSInsecureSkipVerify c\<rparr>)"

definition toAuthOptions :: "AuthConfig \<Rightarrow> Auth.Options" where
  "toAuthOptions a =
     \<lparr>ao_Mode = acf_Mode a, ao_JWKSURL = acf_JWKSURL a, ao_Issuer = acf_Issuer a, ao_Audience = acf_Audience a,
      ao_PrincipalClaim = acf_PrincipalClaim a, ao_RoleClaim = acf_RoleClaim a, ao_GroupsClaim = acf_GroupsClaim a,
      ao_ClaimsToCopy = acf_ClaimsToCopy a, ao_EngineUserClaim = acf_EngineUserClaim a\<rparr>"

definition toCacheOptions :: "CacheConfig \<Rightarrow> Cache.Options" where
  "toCacheOptions c =
     \<lparr>opt_Addr = ccf_Addr c, opt_Password = ccf_Password c, opt_DB = ccf_DB c, opt_PlanTTL = ccf_PlanTTL c,
      opt_ResultTTL = ccf_ResultTTL c\<rparr>"

text \<open>The client secret goes to the HTTP client of the exchanger.\<close>

definition toExchangeOptions :: "ExchangeConfig \<Rightarrow> ExchangeOptions" where
  "toExchangeOptions e =
     \<lparr>eo_TokenURL = xcf_TokenURL e, eo_ClientID = xcf_ClientID e, eo_AllowInsecureHTTP = xcf_AllowInsecureHTTP e\<rparr>"

section \<open>Engines\<close>

datatype engine = StarRocksEngine StarRocksClient | TrinoEngine TrinoClient

text \<open>\<open>pl_Exchange\<close> answers the exchange of a token under a key, from the cache or the authorization server.\<close>

record Platform =
  pl_Keys :: "string \<Rightarrow> string option"
  pl_Parser :: token_parser
  pl_Globs :: glob_compiler
  pl_URLScheme :: "string \<Rightarrow> (string, string) result"
  pl_Exchange :: "string \<Rightarrow> string \<Rightarrow> (exchange_error, token_entry) result"
  pl_ExchangeWords :: "exchange_error \<Rightarrow> string"
  pl_Wiring :: Wiring
  pl_MySQL :: "mysql_config driver"
  pl_Trino :: "trino_dsn driver"
  pl_RegisterCustomClient :: "string \<Rightarrow> string option"
  pl_Tracer :: "string \<Rightarrow> string option"

definition dialect_registry :: "string \<rightharpoonup> dialect" where
  "dialect_registry = Register (Register Map.empty starrocks) trino"

definition engine_registry :: "Platform \<Rightarrow> (string \<times> (EngineConfig \<Rightarrow> (engine_error, engine) result)) list" where
  "engine_registry pf =
     RegisterEngine
       (RegisterEngine [] ''starrocks'' (\<lambda>cfg. ebind (starrocks_Open (pl_MySQL pf) cfg) (\<lambda>c. Inr (StarRocksEngine c))))
       ''trino'' (\<lambda>cfg. ebind (trino_Open (pl_RegisterCustomClient pf) (pl_Trino pf) cfg) (\<lambda>c. Inr (TrinoEngine c)))"

text \<open>What a login amounts to, whatever the protocol.\<close>

record login =
  lg_User :: string
  lg_Secret :: string
  lg_Encrypted :: bool

definition mysql_login :: "mysql_config \<Rightarrow> login" where
  "mysql_login l = \<lparr>lg_User = my_User l, lg_Secret = my_Passwd l, lg_Encrypted = (my_TLS l \<noteq> None)\<rparr>"

definition trino_session :: "trino_dsn \<Rightarrow> login" where
  "trino_session l =
     \<lparr>lg_User = dsn_session (dsn_User l),
      lg_Secret = (case dsn_User l of UserPassword u p \<Rightarrow> p | User u \<Rightarrow> dsn_AccessToken l),
      lg_Encrypted = (dsn_Scheme l = ''https'')\<rparr>"

definition engine_Query :: "Platform \<Rightarrow> engine \<Rightarrow> int \<Rightarrow> EngineCredential \<Rightarrow> string \<Rightarrow> rows_result \<times> (login \<times> string) list" where
  "engine_Query pf e now cred sql =
     (case e of
        StarRocksEngine c \<Rightarrow> (let (r, sent) = starrocks_Query (pl_MySQL pf) c now cred sql in (r, map (map_prod mysql_login id) sent))
      | TrinoEngine c \<Rightarrow> (let (r, sent) = trino_Query (pl_Trino pf) c now cred sql in (r, map (map_prod trino_session id) sent)))"

definition static_login :: "engine \<Rightarrow> login" where
  "static_login e = (case e of StarRocksEngine c \<Rightarrow> mysql_login (sr_db c) | TrinoEngine c \<Rightarrow> trino_session (tr_db c))"

definition engine_ceiling :: "engine \<Rightarrow> int" where
  "engine_ceiling e = (case e of StarRocksEngine c \<Rightarrow> sr_maxBytes c | TrinoEngine c \<Rightarrow> tr_maxBytes c)"

text \<open>Both clients carry the marker method.\<close>

definition SupportsPerRequestIdentity :: "engine \<Rightarrow> bool" where
  "SupportsPerRequestIdentity e = (case e of StarRocksEngine c \<Rightarrow> True | TrinoEngine c \<Rightarrow> True)"

section \<open>Starting\<close>

datatype start_error =
    NoDialect emitter_error
  | EngineHostMissing
  | EngineUnusable engine_error
  | TracingUnusable string
  | ProvidersUnusable build_error
  | AuthUnusable auth_error
  | IdentityNeedsJWT
  | IdentityNeedsClaim
  | IdentityNeedsEngine string
  | ExchangeUnusable exchange_error
  | UnknownIdentityMode string

definition requireEngineIdentity :: "Authenticator \<Rightarrow> engine \<Rightarrow> string \<Rightarrow> string \<Rightarrow> (start_error, unit) result" where
  "requireEngineIdentity authn e dialect engineUserClaim =
     ebind (eguard (au_mode authn = ''jwt'') IdentityNeedsJWT) (\<lambda>_.
     ebind (eguard (engineUserClaim \<noteq> []) IdentityNeedsClaim) (\<lambda>_.
     eguard (SupportsPerRequestIdentity e) (IdentityNeedsEngine dialect)))"

definition expiry_of :: "int option \<Rightarrow> int" where
  "expiry_of x = (case x of None \<Rightarrow> zero_time | Some t \<Rightarrow> t)"

definition identity_resolver :: "Platform \<Rightarrow> Config \<Rightarrow> Authenticator \<Rightarrow> engine \<Rightarrow> (start_error, resolver) result" where
  "identity_resolver pf cfg authn e =
     (let mode = eid_Mode (ecf_Identity (cfg_Engine cfg)); claim = acf_EngineUserClaim (cfg_Auth cfg);
          required = requireEngineIdentity authn e (ecf_Dialect (cfg_Engine cfg)) claim
      in if mode = ''static'' then Inr (\<lambda>token engineUser expiry. Inr (StaticResolver token engineUser (expiry_of expiry)))
         else if mode = ''passthrough'' then
           ebind required (\<lambda>_. Inr (\<lambda>token engineUser expiry. Inr (PassthroughResolver token engineUser (expiry_of expiry))))
         else if mode = ''exchange'' then
           ebind required (\<lambda>_.
           ebind (emap_err ExchangeUnusable (NewExchanger (pl_URLScheme pf) (toExchangeOptions (eid_Exchange (ecf_Identity (cfg_Engine cfg)))))) (\<lambda>_.
           Inr (\<lambda>token engineUser expiry.
             emap_err (pl_ExchangeWords pf) (same_subject claim engineUser (pl_Exchange pf engineUser token)))))
         else Inl (UnknownIdentityMode mode))"

record Server =
  sv_Adapter :: Adapter
  sv_Engine :: engine
  sv_Limiter :: Limiter
  sv_RESTTimeout :: int

definition run :: "Platform \<Rightarrow> Config \<Rightarrow> (start_error, Server) result" where
  "run pf cfg =
     ebind (emap_err NoDialect (Emitter.Get dialect_registry (ecf_Dialect (cfg_Engine cfg)))) (\<lambda>dialect.
     let engineCfg = toEngineConfig (cfg_Engine cfg) (cfg_Query cfg) in
     ebind (eguard (eng_Host engineCfg \<noteq> []) EngineHostMissing) (\<lambda>_.
     ebind (emap_err EngineUnusable (OpenEngine (engine_registry pf) (ecf_Dialect (cfg_Engine cfg)) engineCfg)) (\<lambda>client.
     ebind (case pl_Tracer pf (cfg_OTLPEndpoint cfg) of None \<Rightarrow> Inr () | Some e \<Rightarrow> Inl (TracingUnusable e)) (\<lambda>_.
     ebind (emap_err ProvidersUnusable (buildAuthorizationRegistry (pl_Wiring pf) (cfg_Providers cfg))) (\<lambda>authorizers.
     let svc = \<lparr>svc_Store = NewStore, svc_Dialect = dialect, svc_Cache = NewCache (toCacheOptions (cfg_Cache cfg)),
                svc_Authorization = Some authorizers, svc_ExposeExpressions = scf_ExposeMetricExpressions (cfg_Store cfg),
                svc_Limits = toLimits (cfg_Query cfg)\<rparr> in
     ebind (emap_err AuthUnusable (NewAuthenticator (pl_Keys pf) (toAuthOptions (cfg_Auth cfg)))) (\<lambda>authn.
     ebind (identity_resolver pf cfg authn client) (\<lambda>resolver. Inr
       \<lparr>sv_Adapter = \<lparr>ap_Service = svc, ap_Authenticator = Some authn, ap_Parser = pl_Parser pf, ap_Resolver = resolver,
                     ap_Globs = pl_Globs pf\<rparr>,
        sv_Engine = client,
        sv_Limiter = NewLimiter (MaxConcurrentQueries (withDefaults (svc_Limits svc))) (qcf_QueueWait (cfg_Query cfg)),
        sv_RESTTimeout = sc_RESTTimeout (cfg_Server cfg)\<rparr>)))))))"

text \<open>\<open>unreachable\<close> is the error of the engine's ping.\<close>

definition readyz :: "Store \<Rightarrow> string option \<Rightarrow> nat" where
  "readyz st unreachable = (if \<not> Synced st then 503 else if unreachable \<noteq> None then 503 else 200)"

section \<open>Whose statement it is\<close>

lemma deliver_no_engine: "AskEngine c s \<notin> set (snd (deliver svc m req cred p b reply))"
  by (auto simp: deliver_def outcome_def does_def writes_def Let_def split: sum.splits option.splits if_splits)

lemma run_plan_asks: "AskEngine c s \<in> set (snd (run_plan svc w m req cred pc)) \<Longrightarrow> c = cred"
  using deliver_no_engine[of c s svc m req cred]
  by (auto simp: run_plan_def Let_def look_up_def does_def outcome_def split: prod.splits if_splits option.splits)
     (metis snd_conv)+

lemma Service_Plan_asks: "AskEngine c s \<notin> set (snd (Service_Plan compile svc w adapter m req idn))"
proof
  assume "AskEngine c s \<in> set (snd (Service_Plan compile svc w adapter m req idn))"
  then have "AskEngine c s \<in> set (filter is_engine_event (snd (Service_Plan compile svc w adapter m req idn)))"
    by (simp add: is_engine_event_def del: plan_no_engine)
  then show False by simp
qed

lemma Service_Query_asks:
  "AskEngine c s \<in> set (snd (Service_Query compile svc w adapter m req idn cred)) \<Longrightarrow> c = cred"
  using Service_Plan_asks run_plan_asks by (auto simp: Service_Query_def sbind_def split: sum.splits prod.splits) (metis snd_conv)+

text \<open>Whatever an adapter does: a statement is run only for an authenticated caller, under the credential resolved for it.\<close>

definition asked_by :: "Adapter \<Rightarrow> World \<Rightarrow> request_header \<Rightarrow> event list \<Rightarrow> bool" where
  "asked_by a w h es \<longleftrightarrow>
     (\<exists>r body. es = snd (rest_Handler a w \<lparr>hc_Route = r, hc_Header = h, hc_Body = body\<rparr>))
     \<or> (\<exists>q reply. mcp_Handler a w h q = Some (reply, es))"

lemma asked_credential:
  assumes "asked_by a w h es" "AskEngine cred sql \<in> set es"
  shows "\<exists>ac. authenticate a h = Inr ac \<and> caller_credential a ac = Inr cred"
proof -
  from assms(1) consider (rest) r body where "es = snd (rest_Handler a w \<lparr>hc_Route = r, hc_Header = h, hc_Body = body\<rparr>)"
    | (mcp) q reply where "mcp_Handler a w h q = Some (reply, es)" by (auto simp: asked_by_def)
  then show ?thesis
  proof cases
    case rest
    obtain name ex where h: "es = snd (handleQuery a w ex name h body)"
      using rest assms(2) by (cases r) (auto simp: rest_Handler_def)
    with assms(2) obtain m ac where r: "rest_resolve a name h = Inr (m, ac)" by (auto simp: handleQuery_def split: sum.splits)
    with h assms(2) obtain req where d: "decodeJSON (Service_MaxRequestBytes (ap_Service a)) body = Inr req"
      by (auto simp: handleQuery_def split: sum.splits)
    with h r assms(2) obtain cred' where c: "caller_credential a ac = Inr cred'" by (auto simp: handleQuery_def split: sum.splits)
    have "cred = cred'"
      using h assms(2) Service_Plan_asks Service_Query_asks
      by (auto simp: handleQuery_def r d c split: if_splits prod.splits) (metis snd_conv)+
    moreover from r have "authenticate a h = Inr ac" by (auto simp: rest_resolve_def result_simps)
    ultimately show ?thesis using c by blast
  next
    case mcp
    then obtain ac where a: "authenticate a h = Inr ac" and t: "mcp_tool a w ac q = (reply, es)"
      by (auto simp: mcp_Handler_def split: sum.splits)
    from t assms(2) obtain x where q: "q = QueryMetricTool x" by (cases q) (auto simp: mcp_tool_def Let_def)
    with t assms(2) obtain m cred' where m: "Resolve (ap_Globs a) (ap_Service a) (qi_Model x) (ad_Identity ac) = Inr m"
      and c: "caller_credential a ac = Inr cred'"
      by (auto simp: mcp_tool_def Let_def result_simps split: sum.splits)
    have "cred = cred'" using t assms(2) Service_Query_asks
      by (auto simp: mcp_tool_def Let_def q m c split: prod.splits) (metis snd_conv)+
    with a c show ?thesis by blast
  qed
qed

lemma starrocks_sent:
  assumes "(l, s) \<in> set (snd (starrocks_Query d c now cred sql))"
  shows "s = sql \<and> (if cred_IsZero cred then l = sr_db c else my_User l = ec_EngineUser cred \<and> my_User l \<noteq> []
    \<and> my_Passwd l = ec_Token cred \<and> \<not> expired now cred \<and> my_TLS l \<noteq> None)"
proof -
  obtain r sent where q: "run_under d (starrocks_login c now cred) (cred_IsZero cred) (sr_maxBytes c) sql = (r, sent)" by fastforce
  then have m: "(l, s) \<in> set sent" using assms by (simp add: starrocks_Query_def)
  show ?thesis
  proof (cases "cred_IsZero cred")
    case True
    with starrocks_client.sent_static[OF q] m show ?thesis by simp
  next
    case False
    from starrocks_client.sent_one[OF q] m have "starrocks_login c now cred = Inr l" by auto
    from starrocks_login_tls[OF False this] starrocks_client.sent_as_caller[OF q False m] show ?thesis
      unfolding if_not_P[OF False] by blast
  qed
qed

lemma trino_sent:
  assumes "(l, s) \<in> set (snd (trino_Query d c now cred sql))"
  shows "s = sql \<and> (if cred_IsZero cred then l = tr_db c else dsn_User l = User (ec_EngineUser cred) \<and> ec_EngineUser cred \<noteq> []
    \<and> dsn_AccessToken l = ec_Token cred \<and> \<not> expired now cred)"
proof -
  obtain r sent where q: "run_under d (trino_login c now cred) (cred_IsZero cred) (tr_maxBytes c) sql = (r, sent)" by fastforce
  then have m: "(l, s) \<in> set sent" using assms by (simp add: trino_Query_def)
  show ?thesis
  proof (cases "cred_IsZero cred")
    case True
    with trino_client.sent_static[OF q] m show ?thesis by simp
  next
    case False
    from trino_client.sent_one[OF q] m have "trino_login c now cred = Inr l" by auto
    with False have "\<exists>u. dsn_User l = User u" by (auto simp: trino_login_def make_dsn_def split: if_splits)
    with False trino_client.sent_as_caller[OF q False m] show ?thesis by auto
  qed
qed

lemma engine_sent:
  assumes "(l, s) \<in> set (snd (engine_Query pf e now cred sql))"
  shows "s = sql \<and> (if cred_IsZero cred then l = static_login e else lg_User l = ec_EngineUser cred \<and> ec_EngineUser cred \<noteq> []
    \<and> lg_Secret l = ec_Token cred \<and> \<not> expired now cred \<and> (\<forall>c. e = StarRocksEngine c \<longrightarrow> lg_Encrypted l))"
proof (cases e)
  case (StarRocksEngine c)
  with assms obtain l' where l: "l = mysql_login l'" and "(l', s) \<in> set (snd (starrocks_Query (pl_MySQL pf) c now cred sql))"
    by (auto simp: engine_Query_def split: prod.splits)
  from starrocks_sent[OF this(2)] show ?thesis by (auto simp: l StarRocksEngine static_login_def mysql_login_def)
next
  case (TrinoEngine c)
  with assms obtain l' where l: "l = trino_session l'" and "(l', s) \<in> set (snd (trino_Query (pl_Trino pf) c now cred sql))"
    by (auto simp: engine_Query_def split: prod.splits)
  from trino_sent[OF this(2)] show ?thesis by (auto simp: l TrinoEngine static_login_def trino_session_def)
qed

lemma run_parts:
  assumes "run pf cfg = Inr sv"
  obtains authn resolver where "NewAuthenticator (pl_Keys pf) (toAuthOptions (cfg_Auth cfg)) = Inr authn"
    "identity_resolver pf cfg authn (sv_Engine sv) = Inr resolver"
    "OpenEngine (engine_registry pf) (ecf_Dialect (cfg_Engine cfg)) (toEngineConfig (cfg_Engine cfg) (cfg_Query cfg)) = Inr (sv_Engine sv)"
    "ap_Authenticator (sv_Adapter sv) = Some authn" "ap_Parser (sv_Adapter sv) = pl_Parser pf" "ap_Resolver (sv_Adapter sv) = resolver"
    "svc_Limits (ap_Service (sv_Adapter sv)) = toLimits (cfg_Query cfg)"
    "sv_Limiter sv = NewLimiter (MaxConcurrentQueries (withDefaults (toLimits (cfg_Query cfg)))) (qcf_QueueWait (cfg_Query cfg))"
  using assms by (auto simp: run_def Let_def result_simps)

text \<open>
  C9. No query is silently run as somebody else. Take a server that has started, whatever models it holds, and a
  statement one of its adapters has run on the engine, where empty text is no token. Then the caller was
  authenticated, and every login under which the engine saw the statement is the one the
  configuration asks for: in static mode the server's own; in the other modes never the server's
  but one as the caller's engine user, which is not empty, with a token that has not expired: the very token
  of the Authorization header (passthrough), or one issued in exchange for it that names the same user
  (exchange). StarRocks gets such a token over TLS only.
\<close>

theorem statements_run_as_configured:
  assumes "run pf cfg = Inr sv" "\<And>po keys. \<exists>e. pl_Parser pf po keys [] = Inl e"
    and "asked_by (sv_Adapter sv\<lparr>ap_Service := svc\<rparr>) w h es" "AskEngine cred sql \<in> set es"
    and "(l, s) \<in> set (snd (engine_Query pf (sv_Engine sv) now cred sql))"
  shows "\<exists>ac. authenticate (sv_Adapter sv) h = Inr ac \<and> s = sql
    \<and> (if eid_Mode (ecf_Identity (cfg_Engine cfg)) = ''static'' then l = static_login (sv_Engine sv)
       else bearerToken h = Inr (ad_Token ac) \<and> lg_User l = ad_EngineUser ac \<and> ad_EngineUser ac \<noteq> [] \<and> \<not> expired now cred
         \<and> (if eid_Mode (ecf_Identity (cfg_Engine cfg)) = ''passthrough'' then lg_Secret l = ad_Token ac
            else eid_Mode (ecf_Identity (cfg_Engine cfg)) = ''exchange''
              \<and> (\<exists>expiry. pl_Exchange pf (ad_EngineUser ac) (ad_Token ac) = Inr (lg_Secret l, expiry))
              \<and> jwtClaimString (lg_Secret l) (split_at CHR ''.'' (acf_EngineUserClaim (cfg_Auth cfg))) = Some (lg_User l))
         \<and> (ecf_Dialect (cfg_Engine cfg) = ''starrocks'' \<longrightarrow> lg_Encrypted l))"
proof -
  let ?mode = "eid_Mode (ecf_Identity (cfg_Engine cfg))"
  obtain authn resolver where authn: "NewAuthenticator (pl_Keys pf) (toAuthOptions (cfg_Auth cfg)) = Inr authn"
    and res: "identity_resolver pf cfg authn (sv_Engine sv) = Inr resolver"
    and eng: "OpenEngine (engine_registry pf) (ecf_Dialect (cfg_Engine cfg)) (toEngineConfig (cfg_Engine cfg) (cfg_Query cfg)) = Inr (sv_Engine sv)"
    and ad: "ap_Authenticator (sv_Adapter sv) = Some authn" "ap_Parser (sv_Adapter sv) = pl_Parser pf" "ap_Resolver (sv_Adapter sv) = resolver"
    using run_parts[OF assms(1)] by metis
  from asked_credential[OF assms(3,4)] obtain ac where a: "Authenticate (pl_Parser pf) authn h = Inr ac"
    and c: "resolver (ad_Token ac) (ad_EngineUser ac) (ad_Expiry ac) = Inr cred"
    by (auto simp: authenticate_def caller_credential_def ad result_simps)
  from a have auth: "authenticate (sv_Adapter sv) h = Inr ac" by (simp add: authenticate_def ad)
  note sent = engine_sent[OF assms(5)]
  show ?thesis
  proof (cases "?mode = ''static''")
    case True
    with res c have "cred_IsZero cred" by (auto simp: identity_resolver_def Let_def StaticResolver_def cred_IsZero_def)
    with True sent auth show ?thesis by auto
  next
    case False
    then have m: "?mode = ''passthrough'' \<or> ?mode = ''exchange''" and req: "au_mode authn = ''jwt''"
      using res by (auto simp: identity_resolver_def requireEngineIdentity_def Let_def result_simps split: if_splits)
    from a req obtain x where b: "bearerToken h = Inr (ad_Token ac)" and p: "pl_Parser pf (au_parser authn) (au_keys authn) (ad_Token ac) = Inr x"
      by (auto simp: Authenticate_def result_simps)
    with assms(2)[of "au_parser authn" "au_keys authn"] have t: "ad_Token ac \<noteq> []" by auto
    have sr: "\<exists>c. sv_Engine sv = StarRocksEngine c" if "ecf_Dialect (cfg_Engine cfg) = ''starrocks''"
      using eng that by (auto simp: OpenEngine_def engine_registry_def RegisterEngine_def result_simps dest!: sym[of _ "sv_Engine sv"])
    from m show ?thesis
    proof
      assume pt: "?mode = ''passthrough''"
      with res c have cr: "ec_Token cred = ad_Token ac" "ec_EngineUser cred = ad_EngineUser ac"
        by (auto simp: identity_resolver_def Let_def PassthroughResolver_def result_simps)
      with t have "\<not> cred_IsZero cred" by (simp add: cred_IsZero_def)
      with sent cr pt auth b sr show ?thesis by auto
    next
      assume ex: "?mode = ''exchange''"
      with res c obtain expiry where cr: "pl_Exchange pf (ad_EngineUser ac) (ad_Token ac) = Inr (ec_Token cred, expiry)"
        "jwtClaimString (ec_Token cred) (split_at CHR ''.'' (acf_EngineUserClaim (cfg_Auth cfg))) = Some (ad_EngineUser ac)"
        "ec_EngineUser cred = ad_EngineUser ac"
        by (auto simp: identity_resolver_def Let_def same_subject_def result_simps split: if_splits)
      from cr(2) have "ec_Token cred \<noteq> []" by (auto simp: jwtClaimString_def)
      then have "\<not> cred_IsZero cred" by (simp add: cred_IsZero_def)
      with sent cr ex auth b sr show ?thesis by auto
    qed
  qed
qed

lemma shop_asked:
  "\<exists>res es sql. Service_Query star_glob (ap_Service shop_adapter) quiet_world ''rest'' shop by_city ann cred = (Inr res, es)
     \<and> AskEngine cred sql \<in> set es"
proof -
  have "\<exists>p. Build star_glob shop trino (by_city\<lparr>req_Limit := 1001\<rparr>) ann = Inr p"
    by (rule Build_isOK) code_simp
  then obtain p where p: "Build star_glob shop trino (by_city\<lparr>req_Limit := 1001\<rparr>) ann = Inr p" by blast
  have sel: "svc_Limits (ap_Service shop_adapter) = no_limits" "svc_Cache (ap_Service shop_adapter) = None"
    "svc_Dialect (ap_Service shop_adapter) = trino" "Option.bind (cm_Governance shop) g_External = None"
    by (simp_all add: shop_adapter_def open_service_def denying_service_def shop_def two_roles_def)
  have w: "w_db quiet_world c q = Inr ([], None)" for c q by (simp add: quiet_world_def)
  have "result_json [] [] = Some ''{\"columns\":[],\"rows\":[]}''" by code_simp
  then show ?thesis
    by (simp add: Service_Query_def Service_Plan_def sel by_city_limited external_decision_def plan_scoped_def Let_def outcome_def
        look_up_def does_def cached_plan_def GetPlan_def cache_get_def p SetPlan_def cache_set_def writes_def
        run_plan_def w cached_result_def GetResult_def deliver_def incomplete_def SetResult_def no_limits_defaults DefaultLimits_def)
qed

definition checking_parser :: token_parser where
  "checking_parser po keys raw =
     (if raw = [] then Inl ''empty'' else Inr ([(''sub'', VString ''ann''), (''role'', VString ''b''), (''db'', VString ''ann_db'')], Some 9))"

definition sample_platform :: Platform where
  "sample_platform = \<lparr>pl_Keys = (\<lambda>url. None), pl_Parser = checking_parser, pl_Globs = star_glob, pl_URLScheme = (\<lambda>url. Inr ''https''),
     pl_Exchange = (\<lambda>key token. Inl NoAccessToken), pl_ExchangeWords = (\<lambda>e. []), pl_Wiring = sample_wiring, pl_MySQL = quiet_driver,
     pl_Trino = quiet_driver, pl_RegisterCustomClient = (\<lambda>k. None), pl_Tracer = (\<lambda>endpoint. None)\<rparr>"

definition passthrough_config :: Config where
  "passthrough_config = config_defaults
     \<lparr>cfg_Engine := \<lparr>ecf_Dialect = ''starrocks'',
        ecf_Connection = \<lparr>con_Host = ''fe'', con_Port = 0, con_User = [], con_Password = ''secret'', con_QueryTimeout = 0, con_TLSEnabled = True,
          con_TLSInsecureSkipVerify = False\<rparr>,
        ecf_Identity = \<lparr>eid_Mode = ''passthrough'',
          eid_Exchange = \<lparr>xcf_TokenURL = [], xcf_ClientID = [], xcf_ClientSecret = [], xcf_AllowInsecureHTTP = False\<rparr>\<rparr>\<rparr>,
      cfg_Auth := \<lparr>acf_Mode = ''jwt'', acf_JWKSURL = ''https://i/keys'', acf_Issuer = ''i'', acf_Audience = ''semantic'', acf_PrincipalClaim = [],
        acf_RoleClaim = [], acf_GroupsClaim = [], acf_ClaimsToCopy = [], acf_EngineUserClaim = ''db''\<rparr>\<rparr>"

lemma passthrough_started:
  "\<exists>sv c. run sample_platform passthrough_config = Inr sv \<and> sv_Engine sv = StarRocksEngine c \<and> sr_tls c \<noteq> None
     \<and> authenticate (sv_Adapter sv\<lparr>ap_Service := svc\<rparr>) ann_request
       = Inr \<lparr>ad_Identity = ann, ad_Token = ''tok'', ad_Expiry = Some 9, ad_EngineUser = ''ann_db''\<rparr>
     \<and> ap_Globs (sv_Adapter sv) = star_glob
     \<and> (\<forall>t u. ap_Resolver (sv_Adapter sv) t u (Some 9) = Inr \<lparr>ec_Token = t, ec_EngineUser = u, ec_Expiry = 9\<rparr>)"
  proof -
  have b: "bearerToken ann_request = Inr ''tok''" by code_simp
  have i: "dedupe [''b''] = [''b'']" "dedupe [] = []" "trim_space ''ann'' = ''ann''" by code_simp+
  show ?thesis
    by (simp add: run_def sample_platform_def passthrough_config_def config_defaults_def Emitter.Get_def dialect_registry_def Register_def
        starrocks_def trino_def toEngineConfig_def OpenEngine_def engine_registry_def RegisterEngine_def starrocks_Open_def quiet_driver_def Let_def
        buildAuthorizationRegistry_def NewAuthenticator_def toAuthOptions_def text_or_def optional_path_def identity_resolver_def
        requireEngineIdentity_def SupportsPerRequestIdentity_def PassthroughResolver_def expiry_of_def authenticate_def Authenticate_def b
        checking_parser_def token_identity_def stringClaim_def listClaim_def i ann_def Single_def no_identity_def copied_claims_def)
qed

lemma authenticate_service: "authenticate (a\<lparr>ap_Service := svc\<rparr>) h = authenticate a h"
  by (cases "ap_Authenticator a") (simp_all add: authenticate_def)

theorem statements_run_as_configured_witness:
  "\<exists>sv cred es sql l. run sample_platform passthrough_config = Inr sv
     \<and> asked_by (sv_Adapter sv\<lparr>ap_Service := ap_Service shop_adapter\<rparr>) quiet_world ann_request es \<and> AskEngine cred sql \<in> set es
     \<and> snd (engine_Query sample_platform (sv_Engine sv) 0 cred sql) = [(l, sql)]
     \<and> lg_User l = ''ann_db'' \<and> lg_Secret l = ''tok'' \<and> lg_Encrypted l"
proof -
  let ?ac = "\<lparr>ad_Identity = ann, ad_Token = ''tok'', ad_Expiry = Some 9, ad_EngineUser = ''ann_db''\<rparr>"
  let ?cred = "\<lparr>ec_Token = ''tok'', ec_EngineUser = ''ann_db'', ec_Expiry = 9\<rparr>"
  obtain sv c where run: "run sample_platform passthrough_config = Inr sv" and e: "sv_Engine sv = StarRocksEngine c" "sr_tls c \<noteq> None"
    and a: "authenticate (sv_Adapter sv\<lparr>ap_Service := ap_Service shop_adapter\<rparr>) ann_request = Inr ?ac"
    and g: "ap_Globs (sv_Adapter sv) = star_glob"
    and r: "ap_Resolver (sv_Adapter sv) ''tok'' ''ann_db'' (Some 9) = Inr ?cred"
    using passthrough_started by metis
  let ?a = "sv_Adapter sv\<lparr>ap_Service := ap_Service shop_adapter\<rparr>"
  obtain res es sql where q: "Service_Query star_glob (ap_Service shop_adapter) quiet_world ''rest'' shop by_city ann ?cred = (Inr res, es)"
    "AskEngine ?cred sql \<in> set es" using shop_asked by blast
  have "rest_resolve ?a (cm_Name shop) ann_request = Inr (shop, ?ac)" using shop_resolved by (simp add: rest_resolve_def a g)
  then have "es = snd (rest_Handler ?a quiet_world \<lparr>hc_Route = PostQuery (cm_Name shop), hc_Header = ann_request, hc_Body = by_city_body\<rparr>)"
    by (simp add: rest_Handler_def handleQuery_def by_city_decoded caller_credential_def r g q(1))
  then have asked: "asked_by ?a quiet_world ann_request es" by (auto simp: asked_by_def)
  have p: "\<exists>e. pl_Parser sample_platform po keys [] = Inl e" for po keys by (simp add: sample_platform_def checking_parser_def)
  obtain l where l: "snd (engine_Query sample_platform (sv_Engine sv) 0 ?cred sql) = [(l, sql)]" "lg_Encrypted l"
    using e by (auto simp: engine_Query_def starrocks_Query_def run_under_def starrocks_login_def cred_IsZero_def expired_def
        sample_platform_def quiet_driver_def baseConfig_def mysql_login_def)
  have m: "eid_Mode (ecf_Identity (cfg_Engine passthrough_config)) = ''passthrough''" by (simp add: passthrough_config_def)
  have "(l, sql) \<in> set (snd (engine_Query sample_platform (sv_Engine sv) 0 ?cred sql))" using l by simp
  from statements_run_as_configured[OF run p asked q(2) this] m a have "lg_User l = ''ann_db''" "lg_Secret l = ''tok''"
    by (auto simp: authenticate_service)
  with run asked q(2) l show ?thesis by blast
qed

text \<open>The client and the service share one ceiling, and the limiter admits what the configuration says.\<close>

lemma server_bounds:
  assumes "run pf cfg = Inr sv"
  defines "lim \<equiv> withDefaults (svc_Limits (ap_Service (sv_Adapter sv)))"
  shows "engine_ceiling (sv_Engine sv) = MaxResultBytes lim"
    and "int (lim_cap (sv_Limiter sv)) = MaxConcurrentQueries lim" "0 < lim_cap (sv_Limiter sv)" "lim_held (sv_Limiter sv) = 0"
proof -
  have eng: "OpenEngine (engine_registry pf) (ecf_Dialect (cfg_Engine cfg)) (toEngineConfig (cfg_Engine cfg) (cfg_Query cfg)) = Inr (sv_Engine sv)"
    and lim: "lim = withDefaults (toLimits (cfg_Query cfg))"
    and l: "sv_Limiter sv = NewLimiter (MaxConcurrentQueries lim) (qcf_QueueWait (cfg_Query cfg))"
    using run_parts[OF assms(1)] by (metis lim_def)+
  have "engine_ceiling (sv_Engine sv) = default_bytes (qcf_MaxResultBytes (cfg_Query cfg))"
    using eng by (auto simp: OpenEngine_def engine_registry_def RegisterEngine_def result_simps starrocks_Open_def trino_Open_def Let_def
        engine_ceiling_def toEngineConfig_def split: if_splits option.splits dest!: sym[of _ "sv_Engine sv"])
  then show "engine_ceiling (sv_Engine sv) = MaxResultBytes lim"
    by (simp add: lim withDefaults_def Let_def toLimits_def default_bytes_def or_default_def DefaultLimits_def DefaultMaxResultBytes_def)
  show "int (lim_cap (sv_Limiter sv)) = MaxConcurrentQueries lim" "0 < lim_cap (sv_Limiter sv)" "lim_held (sv_Limiter sv) = 0"
    by (auto simp: l NewLimiter_def lim withDefaults_def Let_def toLimits_def or_default_def DefaultLimits_def)
qed

end
