(* ===== verification/MysqlWire.thy ===== *)
theory MysqlWire
  imports Emitter "HOL-Library.Word"
begin

unbundle bit_operations_syntax

text \<open>
  \<^verbatim>\<open>internal/starrocks/mysqldriver\<close>, the MySQL driver carried in the repository with one plugin of its own: integers
  and strings of the protocol (\<^verbatim>\<open>utils.go\<close>), packets, the handshake (\<^verbatim>\<open>packets.go\<close>, \<^verbatim>\<open>connector.go\<close>) and the
  authentication plugins (\<^verbatim>\<open>auth.go\<close>), for an uncompressed connection and up to the end of authentication. A connection holds the bytes the
  server will have sent and records every write with whether it was encrypted. Asymmetric
  cryptography and SHA-1 are parameters. Where Go would index out of range the model fails with
  \<open>Panics\<close>; a slice of a received packet is bounded by its length, not by its capacity.
\<close>

section \<open>Bytes and integers\<close>

type_synonym bytes = "8 word list"

definition of_text :: "string \<Rightarrow> bytes" where
  "of_text s = map (\<lambda>c. of_nat (byte c)) s"

definition to_text :: "bytes \<Rightarrow> string" where
  "to_text bs = map (\<lambda>b. char_of (unat b)) bs"

datatype wire_error =
    ErrInvalidConn
  | ErrPktSync
  | ErrPktSyncMul
  | ErrMalformPkt
  | ErrPktTooLarge
  | UnexpectedEOF
  | ServerError nat string string
  | UnsupportedProtocol nat
  | ErrOldProtocol
  | ErrNoTLS
  | TLSFailed string
  | ErrOldPassword
  | ErrCleartextPassword
  | ErrNativePassword
  | ErrUnknownPlugin string
  | TokenRequired
  | EncryptionFailed string
  | NoPublicKey
  | UnexpectedReply
  | LocalFileRefused string
  | Panics

definition iOK :: "8 word" where "iOK = 0x00"
definition iAuthMoreData :: "8 word" where "iAuthMoreData = 0x01"
definition iEOF :: "8 word" where "iEOF = 0xfe"
definition iERR :: "8 word" where "iERR = 0xff"

text \<open>Little-endian integers.\<close>

primrec le_bytes :: "nat \<Rightarrow> 64 word \<Rightarrow> bytes" where
  "le_bytes 0 n = []"
| "le_bytes (Suc k) n = ucast n # le_bytes k (drop_bit 8 n)"

primrec le_val :: "bytes \<Rightarrow> 64 word" where
  "le_val [] = 0"
| "le_val (b # bs) = ucast b OR push_bit 8 (le_val bs)"

definition slice_of :: "nat \<Rightarrow> nat \<Rightarrow> 'a list \<Rightarrow> (wire_error, 'a list) result" where
  "slice_of i j xs = (if i \<le> j \<and> j \<le> length xs then Inr (drop i (take j xs)) else Inl Panics)"

definition putUint24 :: "nat \<Rightarrow> bytes" where
  "putUint24 n = le_bytes 3 (of_nat n)"

definition getUint24 :: "bytes \<Rightarrow> nat" where
  "getUint24 bs = unat (le_val (take 3 bs))"

section \<open>Length-encoded integers and strings\<close>

definition appendLengthEncodedInteger :: "64 word \<Rightarrow> bytes" where
  "appendLengthEncodedInteger n =
     (if n \<le> 250 then [ucast n]
      else if n \<le> 0xffff then 0xfc # le_bytes 2 n
      else if n \<le> 0xffffff then 0xfd # le_bytes 3 n
      else 0xfe # le_bytes 8 n)"

definition appendLengthEncodedString :: "bytes \<Rightarrow> bytes" where
  "appendLengthEncodedString s = appendLengthEncodedInteger (of_nat (length s)) @ s"

text \<open>The number, whether it stands for NULL, and the bytes read.\<close>

definition readLengthEncodedInteger :: "bytes \<Rightarrow> (wire_error, 64 word \<times> bool \<times> nat) result" where
  "readLengthEncodedInteger b =
     (case b of
        [] \<Rightarrow> Inr (0, True, 1)
      | c # cs \<Rightarrow>
          if c = 0xfb then Inr (0, True, 1)
          else if c = 0xfc then ebind (slice_of 0 2 cs) (\<lambda>x. Inr (le_val x, False, 3))
          else if c = 0xfd then ebind (slice_of 0 3 cs) (\<lambda>x. Inr (le_val x, False, 4))
          else if c = 0xfe then ebind (slice_of 0 8 cs) (\<lambda>x. Inr (le_val x, False, 9))
          else Inr (ucast c, False, 1))"

text \<open>The length is converted to an \<^verbatim>\<open>int\<close>, and the sum with the bytes read wraps.\<close>

definition readLengthEncodedString :: "bytes \<Rightarrow> (wire_error, bytes \<times> bool \<times> nat) result" where
  "readLengthEncodedString b =
     ebind (readLengthEncodedInteger b) (\<lambda>(num, isNull, n).
       if num < 1 then Inr ([], isNull, n)
       else let m = sint (of_nat n + num)
            in if m \<le> int (length b) then ebind (if m < int n then Inl Panics else slice_of n (nat m) b) (\<lambda>s. Inr (s, False, nat m))
               else Inl UnexpectedEOF)"

definition skipLengthEncodedString :: "bytes \<Rightarrow> (wire_error, nat) result" where
  "skipLengthEncodedString b =
     ebind (readLengthEncodedInteger b) (\<lambda>(num, isNull, n).
       if num < 1 then Inr n
       else let m = sint (of_nat n + num)
            in if m \<le> int (length b) then (if m < 0 then Inl Panics else Inr (nat m)) else Inl UnexpectedEOF)"

section \<open>Connections\<close>

record conn =
  c_sequence :: "8 word"
  c_in :: bytes
  c_out :: "(bool \<times> bytes) list"
  c_tls :: bool

type_synonym 'a wire = "conn \<Rightarrow> (wire_error, 'a) result \<times> conn"

definition wreturn :: "(wire_error, 'a) result \<Rightarrow> 'a wire" where
  "wreturn r c = (r, c)"

definition wbind :: "'a wire \<Rightarrow> ('a \<Rightarrow> 'b wire) \<Rightarrow> 'b wire" where
  "wbind m f c = (case m c of (Inl e, c') \<Rightarrow> (Inl e, c') | (Inr x, c') \<Rightarrow> f x c')"

definition maxPacketSize :: nat where
  "maxPacketSize = 2 ^ 24 - 1"

text \<open>\<open>prev\<close> is what came in the packets before this one, \<open>invalid\<close> whether a sequence number was wrong.
  Reading from a stream that has ended closes the connection.\<close>

function read_packets :: "bytes \<Rightarrow> bool \<Rightarrow> 8 word \<Rightarrow> bytes \<Rightarrow> (wire_error, bytes) result \<times> 8 word \<times> bytes" where
  "read_packets prev invalid sq s =
     (if length s < 4 then (Inl ErrInvalidConn, sq, [])
      else
        (let n = getUint24 s; q = s ! 3; body = drop 4 s; invalid' = (invalid \<or> q \<noteq> sq)
         in if q \<noteq> sq \<and> prev \<noteq> [] then (Inl ErrPktSyncMul, sq, body)
            else if n = 0 then (if prev = [] then (Inl ErrInvalidConn, q + 1, body) else (Inr prev, q + 1, body))
            else if length body < n then (Inl ErrInvalidConn, q + 1, [])
            else if n < maxPacketSize then
              (let data = prev @ take n body
               in if invalid' \<and> hd data \<noteq> iERR then (Inl ErrPktSync, q + 1, drop n body)
                  else (Inr data, q + 1, drop n body))
            else read_packets (prev @ take n body) invalid' (q + 1) (drop n body)))"
  by pat_completeness auto
termination
  by (relation "measure (\<lambda>(prev, invalid, sq, s). length s)") auto

declare read_packets.simps [simp del]

definition readPacket :: "bytes wire" where
  "readPacket c =
     (let (r, sq, s) = read_packets [] False (c_sequence c) (c_in c) in (r, c\<lparr>c_sequence := sq, c_in := s\<rparr>))"

text \<open>The frames of a payload: a frame of the maximal size is followed by another one, which may be empty.\<close>

function frames :: "8 word \<Rightarrow> bytes \<Rightarrow> bytes list" where
  "frames sq p =
     (let n = min maxPacketSize (length p); f = putUint24 n @ [sq] @ take n p
      in if n \<noteq> maxPacketSize then [f] else f # frames (sq + 1) (drop n p))"
  by pat_completeness auto
termination
  by (relation "measure (\<lambda>(sq, p). length p)") (auto simp: maxPacketSize_def)

declare frames.simps [simp del]

definition writePacket :: "nat \<Rightarrow> bytes \<Rightarrow> unit wire" where
  "writePacket maxAllowed payload c =
     (if length payload > maxAllowed then (Inl ErrPktTooLarge, c)
      else let fs = frames (c_sequence c) payload
           in (Inr (), c\<lparr>c_sequence := c_sequence c + of_nat (length fs), c_out := c_out c @ map (Pair (c_tls c)) fs\<rparr>))"

section \<open>Configuration and cryptography\<close>

text \<open>Encrypting with RSA-OAEP under a key, parsing a PEM public key, signing with Ed25519, and the TLS
  handshake are library code.\<close>

record Crypto =
  cr_SHA1 :: "bytes \<Rightarrow> bytes"
  cr_OAEP :: "bytes \<Rightarrow> bytes \<Rightarrow> (string, bytes) result"
  cr_PublicKey :: "bytes \<Rightarrow> bytes option"
  cr_Ed25519 :: "bytes \<Rightarrow> bytes \<Rightarrow> (string, bytes) result"
  cr_TLS :: "bytes \<Rightarrow> string option"

record wire_config =
  wc_User :: bytes
  wc_Passwd :: bytes
  wc_TLS :: bool
  wc_AllowFallbackToPlaintext :: bool
  wc_AllowNativePasswords :: bool
  wc_AllowCleartextPasswords :: bool
  wc_AllowOldPasswords :: bool
  wc_Unix :: bool
  wc_DBName :: bytes
  wc_PubKey :: "bytes option"
  wc_ClientFoundRows :: bool
  wc_MultiStatements :: bool
  wc_Attributes :: bytes

definition SHA256 :: "bytes \<Rightarrow> bytes" where
  "SHA256 b = map of_nat (sha256 (to_text b))"

section \<open>Scrambled passwords\<close>

definition xor_bytes :: "bytes \<Rightarrow> bytes \<Rightarrow> bytes" where
  "xor_bytes xs ys = map (\<lambda>(x, y). x XOR y) (zip xs ys)"

definition myRndMaxVal :: "32 word" where "myRndMaxVal = 0x3FFFFFFF"

definition NextByte :: "32 word \<times> 32 word \<Rightarrow> 8 word \<times> 32 word \<times> 32 word" where
  "NextByte r =
     (let s1 = (fst r * 3 + snd r) mod myRndMaxVal; s2 = (s1 + snd r + 33) mod myRndMaxVal
      in (ucast ((ucast s1 :: 64 word) * 31 div ucast myRndMaxVal), s1, s2))"

primrec next_bytes :: "nat \<Rightarrow> 32 word \<times> 32 word \<Rightarrow> bytes \<times> 32 word \<times> 32 word" where
  "next_bytes 0 r = ([], r)"
| "next_bytes (Suc k) r = (let (b, r') = NextByte r; (bs, r'') = next_bytes k r' in (b # bs, r''))"

definition pwHash_step :: "32 word \<times> 32 word \<times> 32 word \<Rightarrow> 8 word \<Rightarrow> 32 word \<times> 32 word \<times> 32 word" where
  "pwHash_step st c =
     (let (a, b, add) = st
      in if c = 0x20 \<or> c = 0x09 then st
         else let tmp = ucast c; a' = a XOR ((((a AND 63) + add) * tmp) + push_bit 8 a); b' = b + (push_bit 8 b XOR a')
              in (a', b', add + tmp))"

definition pwHash :: "bytes \<Rightarrow> 32 word \<times> 32 word" where
  "pwHash pw = (let (a, b, add) = foldl pwHash_step (1345345333, 0x12345671, 7) pw in (a AND 0x7FFFFFFF, b AND 0x7FFFFFFF))"

definition scrambleOldPassword :: "bytes \<Rightarrow> bytes \<Rightarrow> bytes" where
  "scrambleOldPassword scramble password =
     (let hp = pwHash password; hs = pwHash (take 8 scramble);
          r = ((fst hp XOR fst hs) mod myRndMaxVal, (snd hp XOR snd hs) mod myRndMaxVal);
          (out, r') = next_bytes 8 r; (mask, r'') = NextByte r'
      in map (\<lambda>b. (b + 64) XOR mask) out)"

definition scramblePassword :: "Crypto \<Rightarrow> bytes \<Rightarrow> bytes \<Rightarrow> bytes" where
  "scramblePassword k scramble password =
     (if password = [] then []
      else let stage1 = cr_SHA1 k password in xor_bytes (cr_SHA1 k (scramble @ cr_SHA1 k stage1)) stage1)"

definition scrambleSHA256Password :: "bytes \<Rightarrow> bytes \<Rightarrow> bytes" where
  "scrambleSHA256Password scramble password =
     (if password = [] then []
      else let message1 = SHA256 password in xor_bytes message1 (SHA256 (SHA256 message1 @ scramble)))"

definition encryptPassword :: "Crypto \<Rightarrow> bytes \<Rightarrow> bytes \<Rightarrow> bytes \<Rightarrow> (wire_error, bytes) result" where
  "encryptPassword k password seed key =
     (if seed = [] then Inl Panics
      else emap_err EncryptionFailed
        (cr_OAEP k key (map (\<lambda>(i, b). b XOR seed ! (i mod length seed)) (zip [0..<length password + 1] (password @ [0])))))"

section \<open>Authentication plugins\<close>

text \<open>\<^verbatim>\<open>auth\<close>: the response to a challenge. The last plugin but one is the repository's own.\<close>

definition auth :: "Crypto \<Rightarrow> wire_config \<Rightarrow> bytes \<Rightarrow> string \<Rightarrow> (wire_error, bytes) result" where
  "auth k cfg authData plugin =
     (let pw = wc_Passwd cfg
      in if plugin = ''caching_sha2_password'' then Inr (scrambleSHA256Password authData pw)
         else if plugin = ''mysql_old_password'' then
           (if \<not> wc_AllowOldPasswords cfg then Inl ErrOldPassword
            else if pw = [] then Inr []
            else ebind (slice_of 0 8 authData) (\<lambda>s. Inr (scrambleOldPassword s pw @ [0])))
         else if plugin = ''mysql_clear_password'' then
           (if \<not> wc_AllowCleartextPasswords cfg then Inl ErrCleartextPassword else Inr (pw @ [0]))
         else if plugin = ''authentication_openid_connect_client'' then
           (if pw = [] then Inl TokenRequired
            else Inr (0x01 # appendLengthEncodedInteger (of_nat (length pw)) @ pw))
         else if plugin = ''mysql_native_password'' then
           (if \<not> wc_AllowNativePasswords cfg then Inl ErrNativePassword
            else ebind (slice_of 0 20 authData) (\<lambda>s. Inr (scramblePassword k s pw)))
         else if plugin = ''sha256_password'' then
           (if pw = [] then Inr [0]
            else if wc_TLS cfg then Inr (pw @ [0])
            else (case wc_PubKey cfg of None \<Rightarrow> Inr [1] | Some key \<Rightarrow> encryptPassword k pw authData key))
         else if plugin = ''client_ed25519'' then
           (if length authData \<noteq> 32 then Inl ErrMalformPkt else emap_err EncryptionFailed (cr_Ed25519 k authData pw))
         else Inl (ErrUnknownPlugin plugin))"

section \<open>The handshake\<close>

definition clientMySQL :: "32 word" where "clientMySQL = 0x1"
definition clientFoundRows :: "32 word" where "clientFoundRows = 0x2"
definition clientLongFlag :: "32 word" where "clientLongFlag = 0x4"
definition clientConnectWithDB :: "32 word" where "clientConnectWithDB = 0x8"
definition clientLocalFiles :: "32 word" where "clientLocalFiles = 0x80"
definition clientProtocol41 :: "32 word" where "clientProtocol41 = 0x200"
definition clientSSL :: "32 word" where "clientSSL = 0x800"
definition clientTransactions :: "32 word" where "clientTransactions = 0x2000"
definition clientSecureConn :: "32 word" where "clientSecureConn = 0x8000"
definition clientMultiStatements :: "32 word" where "clientMultiStatements = 0x10000"
definition clientMultiResults :: "32 word" where "clientMultiResults = 0x20000"
definition clientPluginAuth :: "32 word" where "clientPluginAuth = 0x80000"
definition clientConnectAttrs :: "32 word" where "clientConnectAttrs = 0x100000"
definition clientPluginAuthLenEncClientData :: "32 word" where "clientPluginAuthLenEncClientData = 0x200000"
definition clientDeprecateEOF :: "32 word" where "clientDeprecateEOF = 0x1000000"
definition clientCacheMetadata :: "32 word" where "clientCacheMetadata = 0x10"

text \<open>The error packet; a connection that may reject read-only servers is not configured here.\<close>

definition error_packet :: "bytes \<Rightarrow> wire_error" where
  "error_packet data =
     (if data = [] then Panics
      else if hd data \<noteq> iERR then ErrMalformPkt
      else if length data < 4 then Panics
      else if data ! 3 = 0x23 then
        (if length data < 9 then Panics
         else ServerError (unat (le_val (take 2 (drop 1 data)))) (to_text (take 5 (drop 4 data))) (to_text (drop 9 data)))
      else ServerError (unat (le_val (take 2 (drop 1 data)))) [] (to_text (drop 3 data)))"

definition until_nul :: "bytes \<Rightarrow> bytes" where
  "until_nul bs = takeWhile (\<lambda>b. b \<noteq> 0) bs"

text \<open>From the position of a search that found nothing, minus one, the code goes on.\<close>

definition after_version :: "bytes \<Rightarrow> nat" where
  "after_version data = (let v = until_nul (tl data) in if length v < length (tl data) then 1 + length v + 5 else 5)"

record greeting =
  gr_AuthData :: bytes
  gr_Capabilities :: "32 word"
  gr_ExtCapabilities :: "32 word"
  gr_Plugin :: string
  gr_TLS :: bool

text \<open>\<open>gr_TLS\<close> is whether TLS is still wanted: a server without it makes the connection fail, or fall back.\<close>

definition parse_greeting :: "wire_config \<Rightarrow> bytes \<Rightarrow> (wire_error, greeting) result" where
  "parse_greeting cfg data =
     (if hd data = iERR then Inl (error_packet data)
      else if unat (hd data) < 10 then Inl (UnsupportedProtocol (unat (hd data)))
      else
        (let pos = after_version data
         in ebind (slice_of pos (pos + 8) data) (\<lambda>part1.
            ebind (slice_of (pos + 9) (pos + 11) data) (\<lambda>caps.
            let lower = ucast (le_val caps) :: 32 word
            in if lower AND clientProtocol41 = 0 then Inl ErrOldProtocol
               else if lower AND clientSSL = 0 \<and> wc_TLS cfg \<and> \<not> wc_AllowFallbackToPlaintext cfg then Inl ErrNoTLS
               else
                 (let tls = (wc_TLS cfg \<and> lower AND clientSSL \<noteq> 0)
                  in if length data \<le> pos + 11 then
                       Inr \<lparr>gr_AuthData = part1, gr_Capabilities = lower, gr_ExtCapabilities = 0, gr_Plugin = [], gr_TLS = tls\<rparr>
                     else
                       ebind (slice_of (pos + 14) (pos + 16) data) (\<lambda>upper.
                       let full = lower OR push_bit 16 (ucast (le_val upper))
                       in ebind (if full AND clientMySQL = 0 then slice_of (pos + 23) (pos + 27) data else Inr []) (\<lambda>ext.
                          ebind (slice_of (pos + 27) (pos + 39) data) (\<lambda>part2.
                          ebind (slice_of (pos + 40) (length data) data) (\<lambda>rest.
                          Inr \<lparr>gr_AuthData = part1 @ part2, gr_Capabilities = full, gr_ExtCapabilities = ucast (le_val ext),
                               gr_Plugin = to_text (until_nul rest), gr_TLS = tls\<rparr>)))))))))"

definition initCapabilities :: "wire_config \<Rightarrow> greeting \<Rightarrow> 32 word" where
  "initCapabilities cfg g =
     (clientMySQL OR clientLongFlag OR clientProtocol41 OR clientSecureConn OR clientTransactions
      OR clientPluginAuthLenEncClientData OR clientLocalFiles OR clientPluginAuth OR clientMultiResults OR clientConnectAttrs
      OR clientDeprecateEOF
      OR (if wc_ClientFoundRows cfg then clientFoundRows else 0)
      OR (if gr_TLS g then clientSSL else 0)
      OR (if wc_MultiStatements cfg then clientMultiStatements else 0)
      OR (if wc_DBName cfg \<noteq> [] then clientConnectWithDB else 0)) AND gr_Capabilities g"

text \<open>The fixed part of the response, which is also the whole of the request for TLS. The default collation has number 45.\<close>

definition response_prefix :: "32 word \<Rightarrow> 32 word \<Rightarrow> bytes" where
  "response_prefix caps ext =
     le_bytes 4 (ucast caps) @ [0, 0, 0, 0] @ [45]
     @ (if caps AND clientMySQL = 0 then replicate 19 0 @ le_bytes 4 (ucast ext) else replicate 23 0)"

definition response_body :: "wire_config \<Rightarrow> 32 word \<Rightarrow> bytes \<Rightarrow> string \<Rightarrow> bytes" where
  "response_body cfg caps authResp plugin =
     wc_User cfg @ [0] @ appendLengthEncodedString authResp
     @ (if caps AND clientConnectWithDB \<noteq> 0 then wc_DBName cfg @ [0] else [])
     @ of_text plugin @ [0]
     @ (if caps AND clientConnectAttrs \<noteq> 0 then appendLengthEncodedString (wc_Attributes cfg) else [])"

definition switch_to_tls :: "Crypto \<Rightarrow> unit wire" where
  "switch_to_tls k c =
     (case cr_TLS k (c_in c) of Some e \<Rightarrow> (Inl (TLSFailed e), c) | None \<Rightarrow> (Inr (), c\<lparr>c_tls := True\<rparr>))"

definition writeHandshakeResponse :: "Crypto \<Rightarrow> wire_config \<Rightarrow> greeting \<Rightarrow> bytes \<Rightarrow> string \<Rightarrow> unit wire" where
  "writeHandshakeResponse k cfg g authResp plugin =
     (let caps = initCapabilities cfg g; prefix = response_prefix caps (clientCacheMetadata AND gr_ExtCapabilities g)
      in wbind (if gr_TLS g then wbind (writePacket maxPacketSize prefix) (\<lambda>_. switch_to_tls k) else wreturn (Inr ())) (\<lambda>_.
         writePacket maxPacketSize (prefix @ response_body cfg caps authResp plugin)))"

text \<open>The answer to a response: accepted, more data, or another plugin with another challenge.\<close>

definition ok_packet :: "bytes \<Rightarrow> (wire_error, unit) result" where
  "ok_packet data =
     ebind (readLengthEncodedInteger (drop 1 data)) (\<lambda>(affected, _, n).
     ebind (if length data < 1 + n then Inl Panics else readLengthEncodedInteger (drop (1 + n) data)) (\<lambda>(insertId, _, m).
     ebind (slice_of (1 + n + m) (1 + n + m + 2) data) (\<lambda>status. Inr ())))"

definition auth_result :: "bytes \<Rightarrow> (wire_error, bytes option \<times> string) result" where
  "auth_result data =
     (if hd data = iOK then ebind (ok_packet data) (\<lambda>_. Inr (None, []))
      else if hd data = iAuthMoreData then Inr (Some (tl data), [])
      else if hd data = iEOF then
        (if length data = 1 then Inr (None, ''mysql_old_password'')
         else let p = until_nul data
              in if length p = length data then Inl ErrMalformPkt
                 else let d = drop (length p + 1) data
                      in Inr (Some (if d \<noteq> [] \<and> last d = 0 then butlast d else d), to_text (tl p)))
      else Inl (error_packet data))"

definition readAuthResult :: "(bytes option \<times> string) wire" where
  "readAuthResult = wbind readPacket (\<lambda>data. wreturn (auth_result data))"

definition readResultOK :: "unit wire" where
  "readResultOK = wbind readPacket (\<lambda>data. wreturn (if hd data = iOK then ok_packet data else Inl (error_packet data)))"

definition sendEncryptedPassword :: "Crypto \<Rightarrow> wire_config \<Rightarrow> bytes \<Rightarrow> bytes \<Rightarrow> unit wire" where
  "sendEncryptedPassword k cfg seed key =
     wbind (wreturn (encryptPassword k (wc_Passwd cfg) seed key)) (\<lambda>enc. writePacket maxPacketSize enc)"

text \<open>Full authentication of \<^verbatim>\<open>caching_sha2_password\<close>; \<open>tls\<close> is whether the connection is encrypted.\<close>

definition full_authentication :: "Crypto \<Rightarrow> wire_config \<Rightarrow> bool \<Rightarrow> bytes \<Rightarrow> unit wire" where
  "full_authentication k cfg tls seed =
     wbind (if tls \<or> wc_Unix cfg then writePacket maxPacketSize (wc_Passwd cfg @ [0])
            else wbind
              (case wc_PubKey cfg of
                 Some key \<Rightarrow> wreturn (Inr key)
               | None \<Rightarrow>
                   wbind (writePacket maxPacketSize [2]) (\<lambda>_.
                   wbind readPacket (\<lambda>data.
                   wreturn (if hd data \<noteq> iAuthMoreData then Inl UnexpectedReply
                            else case cr_PublicKey k (tl data) of None \<Rightarrow> Inl NoPublicKey | Some key \<Rightarrow> Inr key))))
              (\<lambda>key. sendEncryptedPassword k cfg seed key))
       (\<lambda>_. readResultOK)"

definition finish_auth :: "Crypto \<Rightarrow> wire_config \<Rightarrow> bool \<Rightarrow> bytes \<Rightarrow> string \<Rightarrow> bytes \<Rightarrow> unit wire" where
  "finish_auth k cfg tls seed plugin authData =
     (if plugin = ''caching_sha2_password'' then
        (if authData = [] then wreturn (Inr ())
         else if authData = [3] then readResultOK
         else if authData = [4] then full_authentication k cfg tls seed
         else wreturn (Inl ErrMalformPkt))
      else if plugin = ''sha256_password'' then
        (if authData = [] then wreturn (Inr ())
         else case cr_PublicKey k authData of
                None \<Rightarrow> wreturn (Inl NoPublicKey)
              | Some key \<Rightarrow> wbind (sendEncryptedPassword k cfg seed key) (\<lambda>_. readResultOK))
      else wreturn (Inr ()))"

definition data_of :: "bytes option \<Rightarrow> bytes" where
  "data_of d = (case d of None \<Rightarrow> [] | Some x \<Rightarrow> x)"

text \<open>A new challenge overwrites the old one from its start.\<close>

definition overwrite :: "bytes \<Rightarrow> bytes \<Rightarrow> bytes" where
  "overwrite old new = take (length old) new @ drop (length new) old"

definition handleAuthResult :: "Crypto \<Rightarrow> wire_config \<Rightarrow> bool \<Rightarrow> bytes \<Rightarrow> string \<Rightarrow> unit wire" where
  "handleAuthResult k cfg tls oldAuthData plugin =
     wbind readAuthResult (\<lambda>(authData, newPlugin).
       if newPlugin = [] then finish_auth k cfg tls oldAuthData plugin (data_of authData)
       else
         (let challenge = (case authData of None \<Rightarrow> oldAuthData | Some d \<Rightarrow> d);
              seed = (case authData of None \<Rightarrow> oldAuthData | Some d \<Rightarrow> overwrite oldAuthData d)
          in wbind (wreturn (auth k (cfg\<lparr>wc_TLS := tls\<rparr>) challenge newPlugin)) (\<lambda>authResp.
             wbind (writePacket maxPacketSize authResp) (\<lambda>_.
             wbind readAuthResult (\<lambda>(authData', plugin').
               if plugin' \<noteq> [] then wreturn (Inl ErrMalformPkt)
               else finish_auth k cfg tls seed newPlugin (data_of authData'))))))"

definition defaultAuthPlugin :: string where
  "defaultAuthPlugin = ''mysql_native_password''"

text \<open>An error of the plugin the server asks for leads to the default plugin; a panic is not an error.\<close>

definition first_response :: "Crypto \<Rightarrow> wire_config \<Rightarrow> greeting \<Rightarrow> (wire_error, bytes \<times> string) result" where
  "first_response k cfg g =
     (let plugin = (if gr_Plugin g = [] then defaultAuthPlugin else gr_Plugin g)
      in case auth k cfg (gr_AuthData g) plugin of
           Inr r \<Rightarrow> Inr (r, plugin)
         | Inl Panics \<Rightarrow> Inl Panics
         | Inl e \<Rightarrow> ebind (auth k cfg (gr_AuthData g) defaultAuthPlugin) (\<lambda>r. Inr (r, defaultAuthPlugin)))"

definition Connect :: "Crypto \<Rightarrow> wire_config \<Rightarrow> unit wire" where
  "Connect k cfg =
     wbind readPacket (\<lambda>data.
     wbind (wreturn (parse_greeting cfg data)) (\<lambda>g.
     let cfg' = cfg\<lparr>wc_TLS := gr_TLS g\<rparr> in
     wbind (wreturn (first_response k cfg' g)) (\<lambda>(authResp, plugin).
     wbind (writeHandshakeResponse k cfg' g authResp plugin) (\<lambda>_.
     handleAuthResult k cfg' (gr_TLS g) (gr_AuthData g) plugin))))"

section \<open>Reading back what was written\<close>

lemma length_le_bytes [simp]: "length (le_bytes k n) = k"
  by (induction k arbitrary: n) auto

lemma le_val_bytes: "le_val (le_bytes k n) = take_bit (8 * k) n"
proof (induction k arbitrary: n)
  case (Suc k)
  show ?case
  proof (rule bit_eqI)
    fix i
    show "bit (le_val (le_bytes (Suc k) n)) i \<longleftrightarrow> bit (take_bit (8 * Suc k) n) i"
      by (auto simp: Suc bit_or_iff bit_push_bit_iff bit_take_bit_iff bit_ucast_iff bit_drop_bit_eq dest: bit_imp_le_length)
  qed
qed simp

lemma le_val_append_bytes: "le_val (take k (le_bytes k n @ rest)) = take_bit (8 * k) n"
  by (simp add: le_val_bytes)

lemma take_bit_small: "unat n < 2 ^ k \<Longrightarrow> take_bit k (n :: 64 word) = n"
  by (metis take_bit_nat_eq_self unsigned_take_bit_eq word_unat_eq_iff)

lemma readLengthEncodedInteger_append:
  "readLengthEncodedInteger (appendLengthEncodedInteger n @ rest) = Inr (n, False, length (appendLengthEncodedInteger n))"
proof -
  consider "n \<le> 250" | "250 < n" "n \<le> 0xffff" | "0xffff < n" "n \<le> 0xffffff" | "0xffffff < n" by fastforce
  then show ?thesis
  proof cases
    case 1
    then have "take_bit 8 n = n" by (intro take_bit_small) (simp add: word_le_nat_alt)
    then have "ucast (ucast n :: 8 word) = n" by (simp add: unsigned_ucast_eq)
    moreover have "(ucast n :: 8 word) \<notin> {0xfb, 0xfc, 0xfd, 0xfe}"
    proof -
      have "unat (ucast n :: 8 word) = unat n" using 1 by (simp add: unsigned_ucast_eq take_bit_nat_eq_self word_le_nat_alt)
      then have "unat (ucast n :: 8 word) \<le> 250" using 1 by (simp add: word_le_nat_alt)
      then show ?thesis by auto
    qed
    ultimately show ?thesis using 1 by (simp add: appendLengthEncodedInteger_def readLengthEncodedInteger_def)
  next
    case 2
    have ne: "\<not> n \<le> 250" using 2 by (auto simp: word_le_nat_alt word_less_nat_alt)
    have bits: "take_bit 16 n = n" using 2(2) by (intro take_bit_small) (auto simp: word_less_nat_alt word_le_nat_alt)
    have "appendLengthEncodedInteger n = 0xfc # le_bytes 2 n" unfolding appendLengthEncodedInteger_def by (simp only: ne 2(2) if_False if_True)
    with bits show ?thesis by (simp add: readLengthEncodedInteger_def slice_of_def le_val_bytes)
  next
    case 3
    have ne: "\<not> n \<le> 250" "\<not> n \<le> 0xffff" using 3 by (auto simp: word_le_nat_alt word_less_nat_alt)
    have bits: "take_bit 24 n = n" using 3(2) by (intro take_bit_small) (auto simp: word_less_nat_alt word_le_nat_alt)
    have "appendLengthEncodedInteger n = 0xfd # le_bytes 3 n" unfolding appendLengthEncodedInteger_def by (simp only: ne 3(2) if_False if_True)
    with bits show ?thesis by (simp add: readLengthEncodedInteger_def slice_of_def le_val_bytes)
  next
    case 4
    have ne: "\<not> n \<le> 250" "\<not> n \<le> 0xffff" "\<not> n \<le> 0xffffff" using 4 by (auto simp: word_le_nat_alt word_less_nat_alt)
    have bits: "take_bit 64 n = n" by (simp add: take_bit_word_eq_self)
    have "appendLengthEncodedInteger n = 0xfe # le_bytes 8 n" unfolding appendLengthEncodedInteger_def by (simp only: ne if_False if_True)
    with bits show ?thesis by (simp add: readLengthEncodedInteger_def slice_of_def le_val_bytes)
  qed
qed

lemma length_appendLengthEncodedInteger: "length (appendLengthEncodedInteger n) \<in> {1, 3, 4, 9}"
  by (simp add: appendLengthEncodedInteger_def)

lemma readLengthEncodedString_append:
  assumes "int (length s) < 2 ^ 62"
  shows "readLengthEncodedString (appendLengthEncodedString s @ rest) = Inr (s, False, length (appendLengthEncodedString s))"
proof (cases "s = []")
  case True
  then show ?thesis
    using readLengthEncodedInteger_append[of 0 rest] by (simp add: readLengthEncodedString_def appendLengthEncodedString_def)
next
  case False
  let ?n = "of_nat (length s) :: 64 word" and ?k = "length (appendLengthEncodedInteger (of_nat (length s)))"
  have k: "?k \<le> 9" using length_appendLengthEncodedInteger[of ?n] by auto
  have "unat ?n = length s" using assms by (simp add: unsigned_of_nat take_bit_nat_eq_self)
  then have pos: "\<not> ?n < 1" using False by (simp add: word_less_nat_alt)
  have w: "sint (word_of_int x :: 64 word) = x" if "0 \<le> x" "x < 2 ^ 63" for x
    using that by (simp add: signed_of_int signed_take_bit_int_eq_self)
  have "of_nat ?k + ?n = (word_of_int (int ?k + int (length s)) :: 64 word)" by simp
  moreover have "0 \<le> int ?k + int (length s)" "int ?k + int (length s) < 2 ^ 63" using k assms by simp_all
  ultimately have "sint (of_nat ?k + ?n) = int ?k + int (length s)" using w by metis
  moreover have "readLengthEncodedInteger (appendLengthEncodedString s @ rest) = Inr (?n, False, ?k)"
    using readLengthEncodedInteger_append[of ?n "s @ rest"] by (simp add: appendLengthEncodedString_def)
  ultimately show ?thesis
    using pos by (simp add: readLengthEncodedString_def slice_of_def appendLengthEncodedString_def Let_def nat_add_distrib del: of_nat_add)
qed

text \<open>StarRocks reads one capability byte and then a length-encoded token.\<close>

lemma token_response_read:
  assumes "wc_Passwd cfg \<noteq> []" "int (length (wc_Passwd cfg)) < 2 ^ 62"
  shows "\<exists>resp. auth k cfg d ''authentication_openid_connect_client'' = Inr (0x01 # resp)
    \<and> readLengthEncodedString resp = Inr (wc_Passwd cfg, False, length resp)"
proof -
  have "auth k cfg d ''authentication_openid_connect_client'' = Inr (0x01 # appendLengthEncodedString (wc_Passwd cfg))"
    using assms(1) by (simp add: auth_def appendLengthEncodedString_def Let_def)
  with readLengthEncodedString_append[OF assms(2), of "[]"] show ?thesis by auto
qed

lemma getUint24_put: "n < 2 ^ 24 \<Longrightarrow> getUint24 (putUint24 n @ r) = n"
proof -
  assume n: "n < 2 ^ 24"
  have "getUint24 (putUint24 n @ r) = unat (take_bit 24 (of_nat n :: 64 word))"
    by (simp add: getUint24_def putUint24_def le_val_bytes)
  also have "\<dots> = n" using n by (simp add: unsigned_take_bit_eq unsigned_of_nat take_bit_nat_eq_self)
  finally show ?thesis .
qed

lemma length_putUint24 [simp]: "length (putUint24 n) = 3"
  by (simp add: putUint24_def)

lemma maxPacketSize_bounds: "0 < maxPacketSize" "maxPacketSize < 2 ^ 24"
  by (simp_all add: maxPacketSize_def)

lemma read_frames:
  "p \<noteq> [] \<or> prev \<noteq> [] \<Longrightarrow>
   read_packets prev False sq (concat (frames sq p) @ rest) = (Inr (prev @ p), sq + of_nat (length (frames sq p)), rest)"
proof (induction sq p arbitrary: prev rule: frames.induct)
  case (1 sq p)
  define n where "n = min maxPacketSize (length p)"
  have n: "n < 2 ^ 24" "n \<le> length p" using maxPacketSize_bounds by (auto simp: n_def)
  define tail where "tail = (if n \<noteq> maxPacketSize then [] else frames (sq + 1) (drop n p))"
  have fr: "frames sq p = (putUint24 n @ [sq] @ take n p) # tail"
    by (subst frames.simps) (simp add: n_def tail_def Let_def)
  let ?s = "putUint24 n @ [sq] @ take n p @ concat tail @ rest"
  have h: "getUint24 ?s = n" "?s ! 3 = sq" "drop 4 ?s = take n p @ concat tail @ rest" "\<not> length ?s < 4"
    using n by (simp_all add: getUint24_put nth_append)
  show ?case
  proof (cases "n = maxPacketSize")
    case False
    then have all: "n = length p" "tail = []" by (simp_all add: n_def tail_def)
    have "n < maxPacketSize" using False by (simp add: n_def)
    moreover have "read_packets prev False sq ?s = (Inr (prev @ p), sq + 1, rest)"
      using "1.prems" calculation h all by (subst read_packets.simps) (auto simp: Let_def)
    ultimately show ?thesis by (simp add: fr all)
  next
    case True
    then have p: "p \<noteq> []" and t: "tail = frames (sq + 1) (drop n p)" using n maxPacketSize_bounds by (auto simp: tail_def)
    have "read_packets prev False sq ?s = read_packets (prev @ take n p) False (sq + 1) (concat tail @ rest)"
      using h n True maxPacketSize_bounds by (subst read_packets.simps) (auto simp: Let_def)
    also have "\<dots> = (Inr ((prev @ take n p) @ drop n p), sq + 1 + of_nat (length tail), rest)"
      unfolding t by (rule "1.IH") (use True p maxPacketSize_bounds in \<open>auto simp: n_def\<close>)
    finally show ?thesis by (simp add: fr add.assoc add.commute)
  qed
qed


definition fresh_conn :: "bytes \<Rightarrow> conn" where
  "fresh_conn s = \<lparr>c_sequence = 0, c_in = s, c_out = [], c_tls = False\<rparr>"


section \<open>What travels in the clear\<close>

text \<open>Once a connection is encrypted, a computation keeps it so and sends nothing in the clear.\<close>

named_theorems encrypts_intros

definition encrypts :: "'a wire \<Rightarrow> bool" where
  "encrypts m \<longleftrightarrow> (\<forall>c. c_tls c \<longrightarrow> c_tls (snd (m c)) \<and> (\<exists>ms. c_out (snd (m c)) = c_out c @ ms \<and> list_all fst ms))"

lemma encrypts_return [encrypts_intros]: "encrypts (wreturn r)"
  by (simp add: encrypts_def wreturn_def)

lemma encrypts_bind [encrypts_intros]:
  assumes "encrypts m" "\<And>x. encrypts (f x)"
  shows "encrypts (wbind m f)"
  unfolding encrypts_def
proof (intro allI impI)
  fix c :: conn
  assume c: "c_tls c"
  obtain r c1 where m: "m c = (r, c1)" by fastforce
  from assms(1) c m obtain ms where ms: "c_tls c1" "c_out c1 = c_out c @ ms" "list_all fst ms" unfolding encrypts_def by (metis snd_conv)
  show "c_tls (snd (wbind m f c)) \<and> (\<exists>ms. c_out (snd (wbind m f c)) = c_out c @ ms \<and> list_all fst ms)"
  proof (cases r)
    case (Inl e)
    with m ms show ?thesis by (simp add: wbind_def)
  next
    case (Inr x)
    from assms(2)[of x] ms(1) obtain ns where "c_tls (snd (f x c1))" "c_out (snd (f x c1)) = c_out c1 @ ns" "list_all fst ns"
      unfolding encrypts_def by blast
    with m ms Inr show ?thesis by (simp add: wbind_def)
  qed
qed

lemma encrypts_write [encrypts_intros]: "encrypts (writePacket n p)"
  by (auto simp: encrypts_def writePacket_def Let_def list_all_iff)

lemma readPacket_out: "c_out (snd (readPacket c)) = c_out c" "c_tls (snd (readPacket c)) = c_tls c"
  by (simp_all add: readPacket_def Let_def split: prod.split)

lemma encrypts_read [encrypts_intros]: "encrypts readPacket"
  by (simp add: encrypts_def readPacket_out)

lemma encrypts_cases [encrypts_intros]:
  "(b \<Longrightarrow> encrypts m) \<Longrightarrow> (\<not> b \<Longrightarrow> encrypts n) \<Longrightarrow> encrypts (if b then m else n)"
  "(r = None \<Longrightarrow> encrypts m) \<Longrightarrow> (\<And>x. r = Some x \<Longrightarrow> encrypts (g x)) \<Longrightarrow> encrypts (case r of None \<Rightarrow> m | Some x \<Rightarrow> g x)"
  "(\<And>x y. p = (x, y) \<Longrightarrow> encrypts (h x y)) \<Longrightarrow> encrypts (case p of (x, y) \<Rightarrow> h x y)"
  "(\<And>x. x = a \<Longrightarrow> encrypts (k x)) \<Longrightarrow> encrypts (let x = a in k x)"
  by (auto split: option.split prod.split)

lemma encrypts_auth: "encrypts (handleAuthResult k cfg tls seed plugin)"
  unfolding handleAuthResult_def finish_auth_def full_authentication_def sendEncryptedPassword_def readAuthResult_def readResultOK_def
  by (intro encrypts_intros)

definition in_clear :: "conn \<Rightarrow> bytes list" where
  "in_clear c = map snd (filter (\<lambda>m. \<not> fst m) (c_out c))"

lemma encrypts_clear: "encrypts m \<Longrightarrow> c_tls c \<Longrightarrow> in_clear (snd (m c)) = in_clear c"
proof -
  assume "encrypts m" "c_tls c"
  then obtain ms where ms: "c_out (snd (m c)) = c_out c @ ms" "list_all fst ms" unfolding encrypts_def by blast
  then have "filter (\<lambda>m. \<not> fst m) ms = []" by (auto simp: list_all_iff filter_empty_conv)
  with ms show ?thesis by (simp add: in_clear_def)
qed

lemma wbind_return: "wbind (wreturn r) f c = (case r of Inl e \<Rightarrow> (Inl e, c) | Inr x \<Rightarrow> f x c)"
  by (simp add: wbind_def wreturn_def split: sum.split)

lemma greeting_tls: "parse_greeting cfg data = Inr g \<Longrightarrow> wc_TLS cfg \<Longrightarrow> \<not> wc_AllowFallbackToPlaintext cfg \<Longrightarrow> gr_TLS g"
  by (auto simp: parse_greeting_def Let_def result_simps split: if_splits)

lemma length_response_prefix [simp]: "length (response_prefix caps ext) = 32"
  by (simp add: response_prefix_def)

lemma one_frame: "length p < maxPacketSize \<Longrightarrow> frames sq p = [putUint24 (length p) @ [sq] @ p]"
  by (subst frames.simps) (simp add: Let_def)

lemma request_then_encrypted:
  assumes "\<not> c_tls c" "c_out c = []" "encrypts m"
  shows "in_clear (snd (wbind (wbind (writePacket maxPacketSize (response_prefix caps ext)) (\<lambda>_. switch_to_tls k)) (\<lambda>_. m) c))
    = [putUint24 32 @ [c_sequence c] @ response_prefix caps ext]"
proof -
  let ?p = "response_prefix caps ext"
  have "frames (c_sequence c) ?p = [putUint24 32 @ [c_sequence c] @ ?p]"
    using one_frame[of ?p "c_sequence c"] by (simp add: maxPacketSize_def)
  then obtain c2 where w: "writePacket maxPacketSize ?p c = (Inr (), c2)" and o: "in_clear c2 = [putUint24 32 @ [c_sequence c] @ ?p]"
    using assms(1,2) by (simp add: writePacket_def Let_def in_clear_def maxPacketSize_def)
  show ?thesis
  proof (cases "cr_TLS k (c_in c2)")
    case (Some e)
    with w o show ?thesis by (simp add: wbind_def switch_to_tls_def)
  next
    case None
    let ?c3 = "c2\<lparr>c_tls := True\<rparr>"
    have "in_clear (snd (m ?c3)) = in_clear ?c3" by (rule encrypts_clear[OF assms(3)]) simp
    also have "\<dots> = in_clear c2" by (simp add: in_clear_def)
    finally show ?thesis using w o None by (simp add: wbind_def switch_to_tls_def)
  qed
qed

lemma Connect_greeted:
  assumes "readPacket c0 = (Inr data, c1)" "parse_greeting cfg data = Inr g"
    "first_response k (cfg\<lparr>wc_TLS := gr_TLS g\<rparr>) g = Inr (authResp, plugin)"
  shows "Connect k cfg c0 = wbind (writeHandshakeResponse k (cfg\<lparr>wc_TLS := gr_TLS g\<rparr>) g authResp plugin)
    (\<lambda>_. handleAuthResult k (cfg\<lparr>wc_TLS := gr_TLS g\<rparr>) (gr_TLS g) (gr_AuthData g) plugin) c1"
  using assms by (simp add: Connect_def wbind_def wreturn_def Let_def)

lemma Connect_tls:
  assumes "readPacket c0 = (Inr data, c1)" "parse_greeting cfg data = Inr g"
    "first_response k (cfg\<lparr>wc_TLS := gr_TLS g\<rparr>) g = Inr (authResp, plugin)" "gr_TLS g" "\<not> c_tls c1" "c_out c1 = []"
  shows "\<exists>caps ext. in_clear (snd (Connect k cfg c0)) = [putUint24 32 @ [c_sequence c1] @ response_prefix caps ext]"
proof -
  let ?cfg = "cfg\<lparr>wc_TLS := gr_TLS g\<rparr>"
  let ?caps = "initCapabilities ?cfg g" and ?ext = "clientCacheMetadata AND gr_ExtCapabilities g"
  let ?m = "wbind (writePacket maxPacketSize (response_prefix ?caps ?ext @ response_body ?cfg ?caps authResp plugin))
    (\<lambda>_. handleAuthResult k ?cfg (gr_TLS g) (gr_AuthData g) plugin)"
  have "Connect k cfg c0
      = wbind (wbind (writePacket maxPacketSize (response_prefix ?caps ?ext)) (\<lambda>_. switch_to_tls k)) (\<lambda>_. ?m) c1"
    using assms(4) by (simp add: Connect_greeted[OF assms(1-3)] wbind_def writeHandshakeResponse_def Let_def split: prod.split sum.split)
  moreover have "encrypts ?m" by (intro encrypts_intros encrypts_auth)
  ultimately show ?thesis using request_then_encrypted[OF assms(5,6)] by metis
qed

text \<open>
  C10. With TLS configured, no secret travels in the clear. Whatever bytes the server sends, and whether the
  connection comes about or not, the only message that leaves the client unencrypted is the fixed
  request for TLS of 32 bytes, in which neither user nor password nor token occurs: all responses to
  challenges, of every plugin, come after it and encrypted. A server that offers no TLS gets nothing at all.
\<close>

theorem only_tls_request_in_clear:
  assumes "wc_TLS cfg" "\<not> wc_AllowFallbackToPlaintext cfg" "Connect k cfg (fresh_conn s) = (r, c')"
  shows "in_clear c' = [] \<or> (\<exists>sq caps ext. in_clear c' = [putUint24 32 @ [sq] @ response_prefix caps ext])"
proof -
  obtain r1 c1 where rd: "readPacket (fresh_conn s) = (r1, c1)" by fastforce
  then have c1: "c_out c1 = []" "\<not> c_tls c1" using readPacket_out[of "fresh_conn s"] by (simp_all add: fresh_conn_def)
  then have quiet: "in_clear c1 = []" by (simp add: in_clear_def)
  show ?thesis
  proof (cases r1)
    case (Inl e)
    with rd assms(3) have "c' = c1" by (simp add: Connect_def wbind_def)
    with quiet show ?thesis by simp
  next
    case data: (Inr data)
    show ?thesis
    proof (cases "parse_greeting cfg data")
      case (Inl e)
      with rd data assms(3) have "c' = c1" by (simp add: Connect_def wbind_def wreturn_def)
      with quiet show ?thesis by simp
    next
      case g: (Inr g)
      then have tls: "gr_TLS g" using greeting_tls assms(1,2) by blast
      let ?cfg = "cfg\<lparr>wc_TLS := gr_TLS g\<rparr>"
      show ?thesis
      proof (cases "first_response k ?cfg g")
        case (Inl e)
        with rd data g assms(3) have "c' = c1" by (simp add: Connect_def wbind_def wreturn_def Let_def)
        with quiet show ?thesis by simp
      next
        case (Inr ap)
        obtain authResp plugin where "ap = (authResp, plugin)" by (cases ap)
        with Connect_tls[OF rd[unfolded data] g _ tls c1(2,1)] Inr assms(3) show ?thesis by (metis snd_conv)
      qed
    qed
  qed
qed

definition plain_config :: wire_config where
  "plain_config = \<lparr>wc_User = of_text ''root'', wc_Passwd = of_text ''secret'', wc_TLS = False, wc_AllowFallbackToPlaintext = False,
     wc_AllowNativePasswords = True, wc_AllowCleartextPasswords = False, wc_AllowOldPasswords = False, wc_Unix = False, wc_DBName = [],
     wc_PubKey = None, wc_ClientFoundRows = False, wc_MultiStatements = False, wc_Attributes = []\<rparr>"

definition no_crypto :: Crypto where
  "no_crypto = \<lparr>cr_SHA1 = (\<lambda>b. []), cr_OAEP = (\<lambda>key p. Inl []), cr_PublicKey = (\<lambda>d. None), cr_Ed25519 = (\<lambda>a p. Inl []), cr_TLS = (\<lambda>s. None)\<rparr>"

text \<open>A server that offers TLS and asks for a token.\<close>

definition token_greeting :: bytes where
  "token_greeting = [10, 53, 0, 0, 0, 0, 0] @ replicate 8 1 @ [0, 0x01, 0x0a, 0, 0, 0, 0, 0] @ replicate 11 0 @ replicate 12 1 @ [0]
     @ of_text ''authentication_openid_connect_client'' @ [0]"

definition greeted :: conn where
  "greeted = fresh_conn (concat (frames 0 token_greeting))"

lemma greeting_read: "readPacket greeted = (Inr token_greeting, greeted\<lparr>c_sequence := 1, c_in := []\<rparr>)"
proof -
  have "length token_greeting = 84" by (simp add: token_greeting_def of_text_def)
  then have "frames 0 token_greeting = [putUint24 84 @ [0] @ token_greeting]" by (subst one_frame) (simp_all add: maxPacketSize_def)
  moreover have "token_greeting \<noteq> []" by (simp add: token_greeting_def)
  ultimately show ?thesis using read_frames[of token_greeting "[]" 0 "[]"] by (simp add: readPacket_def greeted_def fresh_conn_def)
qed

definition token_challenge :: "bool \<Rightarrow> greeting" where
  "token_challenge tls = \<lparr>gr_AuthData = replicate 20 1, gr_Capabilities = 0xa01, gr_ExtCapabilities = 0,
     gr_Plugin = ''authentication_openid_connect_client'', gr_TLS = tls\<rparr>"

lemma greeting_parsed: "parse_greeting (plain_config\<lparr>wc_TLS := tls\<rparr>) token_greeting = Inr (token_challenge tls)"
proof -
  have v: "after_version token_greeting = 7" by (simp add: after_version_def until_nul_def token_greeting_def)
  have l: "length token_greeting = 84" by (simp add: token_greeting_def of_text_def)
  have s: "slice_of 7 15 token_greeting = Inr (replicate 8 1)" "slice_of 16 18 token_greeting = Inr [0x01, 0x0a]"
    "slice_of 21 23 token_greeting = Inr [0, 0]" "slice_of 34 46 token_greeting = Inr (replicate 12 1)"
    "slice_of 47 84 token_greeting = Inr (of_text ''authentication_openid_connect_client'' @ [0])"
    by (simp_all add: slice_of_def l) (simp_all add: token_greeting_def of_text_def numeral_eq_Suc)
  have u: "to_text (until_nul (of_text ''authentication_openid_connect_client'' @ [0])) = ''authentication_openid_connect_client''" by code_simp
  have h: "hd token_greeting = 10" by (simp add: token_greeting_def)
  show ?thesis
    by (simp add: parse_greeting_def v l s u h iERR_def Let_def token_challenge_def plain_config_def clientProtocol41_def clientSSL_def
        clientMySQL_def replicate_add[symmetric])
qed

lemma token_response:
  "first_response no_crypto (plain_config\<lparr>wc_TLS := tls\<rparr>) (token_challenge b)
     = Inr (0x01 # 6 # of_text ''secret'', ''authentication_openid_connect_client'')"
  by (simp add: first_response_def token_challenge_def auth_def plain_config_def of_text_def appendLengthEncodedInteger_def)

theorem only_tls_request_in_clear_witness:
  "\<exists>sq caps ext. in_clear (snd (Connect no_crypto (plain_config\<lparr>wc_TLS := True\<rparr>) greeted)) = [putUint24 32 @ [sq] @ response_prefix caps ext]"
proof -
  let ?cfg = "plain_config\<lparr>wc_TLS := True\<rparr>"
  obtain r c' where c: "Connect no_crypto ?cfg greeted = (r, c')" by fastforce
  have g: "gr_TLS (token_challenge True)" by (simp add: token_challenge_def)
  have "\<not> c_tls (greeted\<lparr>c_sequence := 1, c_in := []\<rparr>)" "c_out (greeted\<lparr>c_sequence := 1, c_in := []\<rparr>) = []"
    by (simp_all add: greeted_def fresh_conn_def)
  then have "in_clear c' \<noteq> []"
    using Connect_tls[OF greeting_read greeting_parsed _ g, of no_crypto "0x01 # 6 # of_text ''secret''" "''authentication_openid_connect_client''"]
      token_response[of True True] g c by auto
  with only_tls_request_in_clear[of ?cfg no_crypto _ r c'] c show ?thesis by (auto simp: plain_config_def greeted_def)
qed

text \<open>Without TLS a server gets the password in the clear by asking for a token, where asking for a password is refused.\<close>

lemma password_sent_as_token:
  "auth no_crypto plain_config d ''mysql_clear_password'' = Inl ErrCleartextPassword
   \<and> (\<exists>a b. in_clear (snd (Connect no_crypto plain_config greeted)) = [a @ wc_Passwd plain_config @ b])"
proof -
  let ?cfg = "plain_config\<lparr>wc_TLS := False\<rparr>" and ?c = "greeted\<lparr>c_sequence := 1, c_in := []\<rparr>"
  have p: "?cfg = plain_config" by (simp add: plain_config_def)
  let ?caps = "initCapabilities plain_config (token_challenge False)"
  let ?payload = "response_prefix ?caps (clientCacheMetadata AND 0) @ response_body plain_config ?caps
    (0x01 # 6 # of_text ''secret'') ''authentication_openid_connect_client''"
  have parts: "parse_greeting plain_config token_greeting = Inr (token_challenge False)"
    "first_response no_crypto (plain_config\<lparr>wc_TLS := gr_TLS (token_challenge False)\<rparr>) (token_challenge False)
      = Inr (0x01 # 6 # of_text ''secret'', ''authentication_openid_connect_client'')"
    using greeting_parsed[of False] token_response[of False False] by (simp_all add: p token_challenge_def)
  have "?caps = 0x201" by code_simp
  then have len: "length ?payload < maxPacketSize"
    by (simp add: response_body_def appendLengthEncodedString_def appendLengthEncodedInteger_def plain_config_def of_text_def maxPacketSize_def
        clientConnectWithDB_def clientConnectAttrs_def)
  have "Connect no_crypto plain_config greeted
    = wbind (writePacket maxPacketSize ?payload) (\<lambda>_. handleAuthResult no_crypto plain_config False (replicate 20 1) ''authentication_openid_connect_client'') ?c"
    unfolding Connect_greeted[OF greeting_read parts] using p
    by (simp add: writeHandshakeResponse_def Let_def wbind_def wreturn_def token_challenge_def)
  also have "\<dots> = (Inl ErrInvalidConn, ?c\<lparr>c_sequence := 2, c_out := [(False, putUint24 (length ?payload) @ [1] @ ?payload)]\<rparr>)"
    using len one_frame[OF len, of 1]
    by (simp add: wbind_def writePacket_def Let_def handleAuthResult_def readAuthResult_def readPacket_def read_packets.simps[of _ _ _ "[]"]
        greeted_def fresh_conn_def)
  finally have "in_clear (snd (Connect no_crypto plain_config greeted)) = [putUint24 (length ?payload) @ [1] @ ?payload]"
    by (simp add: in_clear_def)
  moreover have "\<exists>a b. putUint24 (length ?payload) @ [1] @ ?payload = a @ wc_Passwd plain_config @ b"
  proof (intro exI)
    let ?s = "0x01 # 6 # of_text ''secret'' :: bytes"
    have "wc_Passwd plain_config = of_text ''secret''" by (simp add: plain_config_def)
    then show "putUint24 (length ?payload) @ [1] @ ?payload
      = (putUint24 (length ?payload) @ [1] @ response_prefix ?caps (clientCacheMetadata AND 0) @ wc_User plain_config @ [0]
          @ appendLengthEncodedInteger (of_nat (length ?s)) @ [0x01, 6]) @ wc_Passwd plain_config
        @ (if ?caps AND clientConnectWithDB \<noteq> 0 then wc_DBName plain_config @ [0] else [])
        @ of_text ''authentication_openid_connect_client'' @ [0]
        @ (if ?caps AND clientConnectAttrs \<noteq> 0 then appendLengthEncodedString (wc_Attributes plain_config) else [])"
      by (simp only: response_body_def appendLengthEncodedString_def append_assoc append_Cons append_Nil)
  qed
  ultimately show ?thesis by (simp add: auth_def plain_config_def)
qed

end
