(* ===== verification/MysqlRows.thy ===== *)
theory MysqlRows
  imports MysqlWire Strconv
begin

text \<open>
  The result side of \<^verbatim>\<open>internal/starrocks/mysqldriver\<close>: column definitions and text rows (\<^verbatim>\<open>packets.go\<close>), dates and
  times (\<^verbatim>\<open>utils.go\<close>), and a whole query as the StarRocks client issues it (\<^verbatim>\<open>connection.go\<close>): without arguments, with
  no local file registered, reading one result, under a connection that has agreed on packets that end a
  result with OK and not on cached metadata. Times are in the time zone UTC and the name of a column's table is not kept.
  The conversion of a decimal text to a 32-bit float is a parameter.
\<close>

section \<open>Dates and times\<close>

text \<open>What \<^verbatim>\<open>time.Date\<close> is given; the zero time stands for the zero date of MySQL.\<close>

record datetime =
  dt_year :: nat
  dt_month :: nat
  dt_day :: nat
  dt_hour :: nat
  dt_min :: nat
  dt_sec :: nat
  dt_nsec :: nat

datatype time_error = NotADigit | BadSeparator char | InvalidTimeBytes

definition bToi :: "char \<Rightarrow> (time_error, nat) result" where
  "bToi b = (if is_digit b then Inr (byte b - 48) else Inl NotADigit)"

fun weighted :: "nat \<Rightarrow> string \<Rightarrow> (time_error, nat) result" where
  "weighted n [] = Inr 0"
| "weighted n (b # bs) = ebind (bToi b) (\<lambda>v. ebind (weighted (n div 10) bs) (\<lambda>r. Inr (v * n + r)))"

definition parseByteYear :: "string \<Rightarrow> (time_error, nat) result" where
  "parseByteYear b = weighted 1000 (take 4 b)"

definition parseByte2Digits :: "char \<Rightarrow> char \<Rightarrow> (time_error, nat) result" where
  "parseByte2Digits b1 b2 = ebind (bToi b1) (\<lambda>d1. ebind (bToi b2) (\<lambda>d2. Inr (d1 * 10 + d2)))"

definition parseByteNanoSec :: "string \<Rightarrow> (time_error, nat) result" where
  "parseByteNanoSec b = ebind (weighted 100000 b) (\<lambda>ns. Inr (ns * 1000))"

definition expect_char :: "char \<Rightarrow> char \<Rightarrow> (time_error, unit) result" where
  "expect_char c b = eguard (b = c) (BadSeparator b)"

text \<open>None is the zero time.\<close>

definition parseDateTime :: "string \<Rightarrow> (time_error, datetime option) result" where
  "parseDateTime b =
     (if length b \<notin> {10, 19, 21, 22, 23, 24, 25, 26} then Inl InvalidTimeBytes
      else if b = take (length b) ''0000-00-00 00:00:00.000000'' then Inr None
      else
        ebind (parseByteYear b) (\<lambda>year.
        ebind (expect_char CHR ''-'' (b ! 4)) (\<lambda>_.
        ebind (parseByte2Digits (b ! 5) (b ! 6)) (\<lambda>month.
        ebind (expect_char CHR ''-'' (b ! 7)) (\<lambda>_.
        ebind (parseByte2Digits (b ! 8) (b ! 9)) (\<lambda>day.
        if length b = 10 then Inr (Some \<lparr>dt_year = year, dt_month = month, dt_day = day, dt_hour = 0, dt_min = 0, dt_sec = 0, dt_nsec = 0\<rparr>)
        else
          ebind (expect_char CHR '' '' (b ! 10)) (\<lambda>_.
          ebind (parseByte2Digits (b ! 11) (b ! 12)) (\<lambda>hour.
          ebind (expect_char CHR '':'' (b ! 13)) (\<lambda>_.
          ebind (parseByte2Digits (b ! 14) (b ! 15)) (\<lambda>mi.
          ebind (expect_char CHR '':'' (b ! 16)) (\<lambda>_.
          ebind (parseByte2Digits (b ! 17) (b ! 18)) (\<lambda>sec.
          if length b = 19 then
            Inr (Some \<lparr>dt_year = year, dt_month = month, dt_day = day, dt_hour = hour, dt_min = mi, dt_sec = sec, dt_nsec = 0\<rparr>)
          else
            ebind (expect_char CHR ''.'' (b ! 19)) (\<lambda>_.
            ebind (parseByteNanoSec (drop 20 b)) (\<lambda>nsec. Inr (Some
              \<lparr>dt_year = year, dt_month = month, dt_day = day, dt_hour = hour, dt_min = mi, dt_sec = sec, dt_nsec = nsec\<rparr>)))))))))))))))"

definition two_digits :: "nat \<Rightarrow> string" where
  "two_digits n = [digit_char (n div 10), digit_char (n mod 10)]"

definition trim_zeros :: "string \<Rightarrow> string" where
  "trim_zeros s = rev (dropWhile (\<lambda>c. c = CHR ''0'') (rev s))"

text \<open>The text of an instant; None where the year does not have four digits.\<close>

definition appendDateTime :: "datetime \<Rightarrow> string option" where
  "appendDateTime t =
     (if dt_year t < 1 \<or> dt_year t > 9999 then None
      else
        (let date = two_digits (dt_year t div 100) @ two_digits (dt_year t mod 100) @ ''-'' @ two_digits (dt_month t) @ ''-'' @ two_digits (dt_day t);
             clock = '' '' @ two_digits (dt_hour t) @ '':'' @ two_digits (dt_min t) @ '':'' @ two_digits (dt_sec t);
             n = dt_nsec t
         in if dt_hour t = 0 \<and> dt_min t = 0 \<and> dt_sec t = 0 \<and> n = 0 then Some date
            else if n = 0 then Some (date @ clock)
            else Some (trim_zeros (date @ clock @ ''.'' @ [digit_char (n div 100000000)] @ two_digits (n div 1000000 mod 100)
              @ two_digits (n div 10000 mod 100) @ two_digits (n div 100 mod 100) @ two_digits (n mod 100)))))"

section \<open>Dates read back\<close>

definition valid_datetime :: "datetime \<Rightarrow> bool" where
  "valid_datetime t \<longleftrightarrow> 1 \<le> dt_year t \<and> dt_year t \<le> 9999 \<and> dt_month t < 100 \<and> dt_day t < 100 \<and> dt_hour t < 100 \<and> dt_min t < 100
     \<and> dt_sec t < 100 \<and> dt_nsec t < 10 ^ 9 \<and> dt_nsec t mod 1000 = 0"

lemma digit_char_facts: "d < 10 \<Longrightarrow> is_digit (digit_char d) \<and> byte (digit_char d) - 48 = d"
  by (simp add: is_digit_digit_char byte_digit_char)

lemma bToi_digit [simp]: "d < 10 \<Longrightarrow> bToi (digit_char d) = Inr d"
  using digit_char_facts[of d] by (simp add: bToi_def)

lemma parse_two_digits: "n < 100 \<Longrightarrow> parseByte2Digits (digit_char (n div 10)) (digit_char (n mod 10)) = Inr n"
  by (simp add: parseByte2Digits_def)

lemma weighted_zero: "weighted n (ds @ [CHR ''0'']) = weighted n ds"
  by (induction n ds rule: weighted.induct) (simp_all add: bToi_def is_digit_def byte_def)

lemma weighted_trim: "weighted n (trim_zeros ds) = weighted n ds"
proof (induction ds rule: rev_induct)
  case (snoc d ds)
  then show ?case by (cases "d = CHR ''0''") (simp_all add: trim_zeros_def weighted_zero)
qed (simp add: trim_zeros_def)

lemma trim_zeros_append: "trim_zeros ys \<noteq> [] \<Longrightarrow> trim_zeros (xs @ ys) = xs @ trim_zeros ys"
proof (induction ys rule: rev_induct)
  case (snoc y ys)
  then show ?case by (cases "y = CHR ''0''") (simp_all add: trim_zeros_def)
qed (simp add: trim_zeros_def)

lemma length_trim_zeros: "length (trim_zeros s) \<le> length s"
  by (metis length_dropWhile_le length_rev trim_zeros_def)

lemma trim_zeros_all: "trim_zeros s = [] \<Longrightarrow> set s \<subseteq> {CHR ''0''}"
  by (auto simp: trim_zeros_def)

lemma year_digits:
  fixes y :: nat
  assumes "y \<le> 9999"
  shows "weighted 1000 (two_digits (y div 100) @ two_digits (y mod 100)) = Inr y"
proof -
  have "y div 100 < 100" using assms by simp
  then have d: "y div 100 div 10 < 10" by simp
  have "y div 100 div 10 * 1000 + (y div 100 mod 10 * 100 + (y mod 100 div 10 * 10 + y mod 100 mod 10)) = y"
  proof -
    have "y div 100 div 10 * 10 + y div 100 mod 10 = y div 100" "y mod 100 div 10 * 10 + y mod 100 mod 10 = y mod 100"
      "y div 100 * 100 + y mod 100 = y" by simp_all
    then show ?thesis by linarith
  qed
  then show ?thesis using d by (simp add: two_digits_def)
qed

lemma micro_digits:
  fixes n :: nat
  assumes "n < 10 ^ 9" "n mod 1000 = 0"
  defines "ds \<equiv> [digit_char (n div 100000000)] @ two_digits (n div 1000000 mod 100) @ two_digits (n div 10000 mod 100) @ [digit_char (n div 1000 mod 10)]"
  shows "weighted 100000 ds = Inr (n div 1000)"
    and "[digit_char (n div 100000000)] @ two_digits (n div 1000000 mod 100) @ two_digits (n div 10000 mod 100)
      @ two_digits (n div 100 mod 100) @ two_digits (n mod 100) = ds @ ''000''"
proof -
  obtain m where n: "n = 1000 * m" using assms(2) by (metis mod_0_imp_dvd dvd_def)
  have m: "m < 1000000" using assms(1) n by simp
  have c: "n div 100000000 = m div 100000" "n div 1000000 = m div 1000" "n div 10000 = m div 10" "n div 1000 = m" "n div 100 = 10 * m"
    using div_mult_mult1[of 1000 m 100000] div_mult_mult1[of 1000 m 1000] div_mult_mult1[of 1000 m 10]
    by (simp_all only: n)
  have h: "10 * m mod 100 = 10 * (m mod 10)" using mult_mod_right[of 10 m 10] by simp
  have z: "n mod 100 = 0" unfolding n by (rule dvd_imp_mod_0, rule dvd_mult2) simp
  note d = c h z
  have "m div 100000 * 100000 + (m div 1000 mod 100 div 10 * 10000 + (m div 1000 mod 100 mod 10 * 1000
      + (m div 10 mod 100 div 10 * 100 + (m div 10 mod 100 mod 10 * 10 + m mod 10)))) = m"
  proof -
    have "m div 1000 mod 100 div 10 * 10 + m div 1000 mod 100 mod 10 = m div 1000 mod 100"
      "m div 10 mod 100 div 10 * 10 + m div 10 mod 100 mod 10 = m div 10 mod 100" by simp_all
    moreover have "m div 100000 * 100000 + m div 1000 mod 100 * 1000 + m div 10 mod 100 * 10 + m mod 10 = m"
    proof -
      have "m div 10 * 10 + m mod 10 = m" "m div 10 div 100 * 100 + m div 10 mod 100 = m div 10"
        "m div 1000 div 100 * 100 + m div 1000 mod 100 = m div 1000" by simp_all
      moreover have "m div 10 div 100 = m div 1000" "m div 1000 div 100 = m div 100000" by (simp_all flip: div_mult2_eq)
      ultimately show ?thesis by linarith
    qed
    ultimately show ?thesis by linarith
  qed
  moreover have "m div 100000 < 10" using m by simp
  moreover have "m div 1000 mod 100 div 10 < 10" "m div 10 mod 100 div 10 < 10" by (rule less_mult_imp_div_less, simp)+
  ultimately show "weighted 100000 ds = Inr (n div 1000)" by (simp add: ds_def d two_digits_def)
  show "[digit_char (n div 100000000)] @ two_digits (n div 1000000 mod 100) @ two_digits (n div 10000 mod 100)
      @ two_digits (n div 100 mod 100) @ two_digits (n mod 100) = ds @ ''000''"
    by (simp add: ds_def d two_digits_def) (simp add: digit_char_def char_of_def bit_0)
qed

lemma not_zero_date:
  assumes "weighted 1000 (take 4 b) = Inr y" "y \<noteq> 0" "4 \<le> length b"
  shows "b \<noteq> take (length b) ''0000-00-00 00:00:00.000000''"
proof
  assume "b = take (length b) ''0000-00-00 00:00:00.000000''"
  then have "take 4 b = take 4 (take (length b) ''0000-00-00 00:00:00.000000'')" by (rule arg_cong)
  then have "take 4 b = ''0000''" using assms(3) by (simp add: min_def)
  with assms(1,2) show False by (simp add: bToi_def is_digit_def byte_def)
qed

text \<open>What the parser makes of the three forms the writer has.\<close>

lemma parse_written:
  assumes "y \<noteq> 0" "y \<le> 9999" "m < 100" "d < 100" "h < 100" "mi < 100" "sec < 100"
  defines "date \<equiv> two_digits (y div 100) @ two_digits (y mod 100) @ ''-'' @ two_digits m @ ''-'' @ two_digits d"
  defines "clock \<equiv> '' '' @ two_digits h @ '':'' @ two_digits mi @ '':'' @ two_digits sec"
  shows "parseDateTime date
      = Inr (Some \<lparr>dt_year = y, dt_month = m, dt_day = d, dt_hour = 0, dt_min = 0, dt_sec = 0, dt_nsec = 0\<rparr>)" (is ?A)
    and "parseDateTime (date @ clock)
      = Inr (Some \<lparr>dt_year = y, dt_month = m, dt_day = d, dt_hour = h, dt_min = mi, dt_sec = sec, dt_nsec = 0\<rparr>)" (is ?B)
    and "\<lbrakk>weighted 100000 us = Inr k; length us \<in> {1, 2, 3, 4, 5, 6}\<rbrakk> \<Longrightarrow> parseDateTime (date @ clock @ ''.'' @ us)
      = Inr (Some \<lparr>dt_year = y, dt_month = m, dt_day = d, dt_hour = h, dt_min = mi, dt_sec = sec, dt_nsec = k * 1000\<rparr>)"
proof -
  have four: "take 4 (date @ x) = two_digits (y div 100) @ two_digits (y mod 100)" for x
    by (simp add: date_def two_digits_def)
  have wy: "weighted 1000 (take 4 (date @ x)) = Inr y" for x using year_digits[OF assms(2)] four by simp
  have len: "length date = 10" "length clock = 9" by (simp_all add: date_def clock_def two_digits_def)
  have nz: "date @ x \<noteq> take (length (date @ x)) ''0000-00-00 00:00:00.000000''" for x
    by (rule not_zero_date[OF wy assms(1)]) (simp add: len)
  have at_date: "(date @ x) ! 4 = CHR ''-''" "(date @ x) ! 5 = digit_char (m div 10)" "(date @ x) ! 6 = digit_char (m mod 10)"
    "(date @ x) ! 7 = CHR ''-''" "(date @ x) ! 8 = digit_char (d div 10)" "(date @ x) ! 9 = digit_char (d mod 10)" for x
    by (simp_all add: date_def two_digits_def)
  have at_clock: "(date @ clock @ x) ! 10 = CHR '' ''" "(date @ clock @ x) ! 11 = digit_char (h div 10)"
    "(date @ clock @ x) ! 12 = digit_char (h mod 10)" "(date @ clock @ x) ! 13 = CHR '':''"
    "(date @ clock @ x) ! 14 = digit_char (mi div 10)" "(date @ clock @ x) ! 15 = digit_char (mi mod 10)"
    "(date @ clock @ x) ! 16 = CHR '':''" "(date @ clock @ x) ! 17 = digit_char (sec div 10)"
    "(date @ clock @ x) ! 18 = digit_char (sec mod 10)" for x
    by (simp_all add: nth_append len) (simp_all add: clock_def two_digits_def)
  note parse = parseDateTime_def parseByteYear_def wy at_date at_clock parse_two_digits assms(3-7) expect_char_def
  show ?A using nz[of "[]"] wy[of "[]"] at_date[of "[]"] by (simp add: parseDateTime_def parseByteYear_def parse_two_digits assms(3,4) expect_char_def len)
  show ?B using nz[of clock] at_clock[of "[]"] wy[of "[]"] by (simp add: parse len)
  assume us: "weighted 100000 us = Inr k" "length us \<in> {1, 2, 3, 4, 5, 6}"
  have "(date @ clock @ ''.'' @ us) ! 19 = CHR ''.''" "drop 20 (date @ clock @ ''.'' @ us) = us" by (simp_all add: nth_append len)
  then show "parseDateTime (date @ clock @ ''.'' @ us)
      = Inr (Some \<lparr>dt_year = y, dt_month = m, dt_day = d, dt_hour = h, dt_min = mi, dt_sec = sec, dt_nsec = k * 1000\<rparr>)"
    using nz[of "clock @ ''.'' @ us"] at_clock[of "''.'' @ us"] wy[of "[]"] us by (auto simp: parse len parseByteNanoSec_def)
qed

text \<open>
  An instant the driver writes as text reads back as the same instant, for every instant with a year of four
  digits and microseconds: a midnight is written as a date alone, a whole second without a fraction, and a
  fraction without its trailing zeros.
\<close>

theorem datetime_roundtrip:
  assumes "valid_datetime t"
  shows "\<exists>s. appendDateTime t = Some s \<and> parseDateTime s = Inr (Some t)"
proof -
  have v: "dt_year t \<noteq> 0" "dt_year t \<le> 9999" "dt_month t < 100" "dt_day t < 100" "dt_hour t < 100" "dt_min t < 100" "dt_sec t < 100"
    and n: "dt_nsec t < 10 ^ 9" "dt_nsec t mod 1000 = 0" using assms by (auto simp: valid_datetime_def)
  note pw = parse_written[OF v]
  let ?ds = "[digit_char (dt_nsec t div 100000000)] @ two_digits (dt_nsec t div 1000000 mod 100)
    @ two_digits (dt_nsec t div 10000 mod 100) @ [digit_char (dt_nsec t div 1000 mod 10)]"
  have full: "(\<lambda>y m d h mi s n. t = \<lparr>dt_year = y, dt_month = m, dt_day = d, dt_hour = h, dt_min = mi, dt_sec = s, dt_nsec = n\<rparr>)
    (dt_year t) (dt_month t) (dt_day t) (dt_hour t) (dt_min t) (dt_sec t) (dt_nsec t)" by simp
  show ?thesis
  proof (cases "dt_nsec t = 0")
    case True
    then show ?thesis using pw(1,2) v full by (auto simp: appendDateTime_def Let_def)
  next
    case False
    have w: "weighted 100000 (trim_zeros ?ds) = Inr (dt_nsec t div 1000)" using micro_digits(1)[OF n] weighted_trim by simp
    have k: "dt_nsec t div 1000 * 1000 = dt_nsec t" using n(2) by auto
    have ne: "trim_zeros ?ds \<noteq> []" using w k False by auto
    have "length (trim_zeros ?ds) \<le> 6" using length_trim_zeros[of ?ds] by (simp add: two_digits_def)
    moreover have "0 < length (trim_zeros ?ds)" using ne by simp
    ultimately have len: "length (trim_zeros ?ds) \<in> {1, 2, 3, 4, 5, 6}" by (simp only: insert_iff empty_iff) presburger
    have t0: "trim_zeros (?ds @ ''000'') = trim_zeros ?ds" by (simp add: trim_zeros_def)
    have "trim_zeros (xs @ ?ds @ ''000'') = xs @ trim_zeros ?ds" for xs using trim_zeros_append[of "?ds @ ''000''" xs] t0 ne by simp
    from this[of "(two_digits (dt_year t div 100) @ two_digits (dt_year t mod 100) @ ''-'' @ two_digits (dt_month t) @ ''-'' @ two_digits (dt_day t))
        @ ('' '' @ two_digits (dt_hour t) @ '':'' @ two_digits (dt_min t) @ '':'' @ two_digits (dt_sec t)) @ ''.''"] micro_digits(2)[OF n]
    have "appendDateTime t = Some ((two_digits (dt_year t div 100) @ two_digits (dt_year t mod 100) @ ''-'' @ two_digits (dt_month t) @ ''-''
        @ two_digits (dt_day t)) @ ('' '' @ two_digits (dt_hour t) @ '':'' @ two_digits (dt_min t) @ '':'' @ two_digits (dt_sec t))
        @ ''.'' @ trim_zeros ?ds)"
      using False v by (simp add: appendDateTime_def Let_def)
    with pw(3)[OF w len] full k show ?thesis by simp
  qed
qed

lemma datetime_roundtrip_witness:
  "\<exists>s. appendDateTime \<lparr>dt_year = 2024, dt_month = 2, dt_day = 29, dt_hour = 23, dt_min = 5, dt_sec = 9, dt_nsec = 120500000\<rparr> = Some s
     \<and> parseDateTime s = Inr (Some \<lparr>dt_year = 2024, dt_month = 2, dt_day = 29, dt_hour = 23, dt_min = 5, dt_sec = 9, dt_nsec = 120500000\<rparr>)"
  by (rule datetime_roundtrip) (simp add: valid_datetime_def)

section \<open>Columns\<close>

record mysqlField =
  fl_name :: bytes
  fl_charSet :: "8 word"
  fl_length :: nat
  fl_type :: "8 word"
  fl_flags :: "16 word"
  fl_decimals :: "8 word"

definition after :: "nat \<Rightarrow> bytes \<Rightarrow> (wire_error, bytes) result" where
  "after n b = (if n \<le> length b then Inr (drop n b) else Inl Panics)"

text \<open>Catalog, database, table, original table; name; original name; a filler byte and 11 fixed ones.\<close>

definition skip_strings :: "nat \<Rightarrow> bytes \<Rightarrow> (wire_error, bytes) result" where
  "skip_strings k b =
     ((\<lambda>r. ebind r (\<lambda>x. ebind (skipLengthEncodedString x) (\<lambda>n. after n x))) ^^ k) (Inr b)"

definition parse_column :: "bytes \<Rightarrow> (wire_error, mysqlField) result" where
  "parse_column data =
     ebind (skip_strings 4 data) (\<lambda>b.
     ebind (readLengthEncodedString b) (\<lambda>(name, _, n).
     ebind (after n b) (\<lambda>b.
     ebind (skip_strings 1 b) (\<lambda>b.
     if length b < 11 then Inl Panics
     else Inr \<lparr>fl_name = name, fl_charSet = b ! 1, fl_length = unat (le_val (take 4 (drop 3 b))), fl_type = b ! 7,
               fl_flags = ucast (le_val (take 2 (drop 8 b))), fl_decimals = b ! 10\<rparr>))))"

section \<open>Rows\<close>

datatype wire_value =
    WNull
  | WBytes bytes
  | WInt int
  | WFloat32 "64 word"
  | WFloat64 "64 word"
  | WTime "datetime option"

datatype cell_error = WireError wire_error | TimeError time_error | NotANumber string

definition as_cell :: "'a option \<Rightarrow> ('a \<Rightarrow> wire_value) \<Rightarrow> string \<Rightarrow> (cell_error, wire_value) result" where
  "as_cell x f s = (case x of None \<Rightarrow> Inl (NotANumber s) | Some v \<Rightarrow> Inr (f v))"

text \<open>\<^verbatim>\<open>strconv.ParseUint\<close> takes no sign.\<close>

definition ParseUint10 :: "string \<Rightarrow> int option" where
  "ParseUint10 s = (if s = [] \<or> \<not> list_all is_digit s \<or> 2 ^ 64 \<le> digits_val s then None else Some (int (digits_val s)))"

definition convert_cell :: "(string \<Rightarrow> 64 word option) \<Rightarrow> bool \<Rightarrow> mysqlField \<Rightarrow> bytes \<Rightarrow> (cell_error, wire_value) result" where
  "convert_cell parse32 parseTime f buf =
     (let t = fl_type f; s = to_text buf
      in if t \<in> {7, 12, 10, 14} then
           (if parseTime then emap_err TimeError (ebind (parseDateTime s) (\<lambda>x. Inr (WTime x))) else Inr (WBytes buf))
         else if t \<in> {1, 2, 9, 13, 3} then as_cell (ParseInt10 s) WInt s
         else if t = 8 then (if fl_flags f AND 0x20 \<noteq> 0 then as_cell (ParseUint10 s) WInt s else as_cell (ParseInt10 s) WInt s)
         else if t = 4 then as_cell (parse32 s) WFloat32 s
         else if t = 5 then as_cell (ParseFloat_text s) WFloat64 s
         else Inr (WBytes buf))"

fun read_cells :: "(string \<Rightarrow> 64 word option) \<Rightarrow> bool \<Rightarrow> mysqlField list \<Rightarrow> bytes \<Rightarrow> (cell_error, wire_value list) result" where
  "read_cells p32 pt [] b = Inr []"
| "read_cells p32 pt (f # fs) b =
     ebind (emap_err WireError (readLengthEncodedString b)) (\<lambda>(buf, isNull, n).
     ebind (if isNull then Inr WNull else convert_cell p32 pt f buf) (\<lambda>v.
     ebind (if fs = [] then Inr [] else ebind (emap_err WireError (after n b)) (read_cells p32 pt fs)) (\<lambda>vs.
     Inr (v # vs))))"

datatype row = Values "wire_value list" | EndOfRows "16 word"

text \<open>A packet that starts with \<open>0xfe\<close> ends the rows only when it is short: a long one starts with the eight-byte
  length of its first cell.\<close>

definition readRow :: "(string \<Rightarrow> 64 word option) \<Rightarrow> bool \<Rightarrow> mysqlField list \<Rightarrow> bytes \<Rightarrow> (cell_error, row) result" where
  "readRow p32 pt cols data =
     (if hd data = iEOF \<and> length data \<le> 0xffffff then
        emap_err WireError
          (ebind (readLengthEncodedInteger (drop 1 data)) (\<lambda>(_, _, n).
           ebind (after (1 + n) data) (\<lambda>b.
           ebind (readLengthEncodedInteger b) (\<lambda>(_, _, m).
           ebind (slice_of (1 + n + m) (1 + n + m + 2) data) (\<lambda>st. Inr (EndOfRows (ucast (le_val st))))))))
      else if hd data = iERR then Inl (WireError (error_packet data))
      else ebind (read_cells p32 pt cols data) (\<lambda>vs. Inr (Values vs)))"

section \<open>A whole query\<close>

lemma read_packets_shorter: "read_packets prev bad sq s = (Inr data, sq', s') \<Longrightarrow> length s' < length s"
proof (induction prev bad sq s rule: read_packets.induct)
  case (1 prev bad sq s)
  show ?case
  proof (rule ccontr)
    assume n: "\<not> length s' < length s"
    have "length s \<ge> 4" using "1.prems" by (subst (asm) read_packets.simps) (auto split: if_splits)
    with 1 n show False by (subst (asm) (2) read_packets.simps) (auto simp: Let_def split: if_splits; use diff_le_self less_le_trans in blast)
  qed
qed

lemma readPacket_shorter: "readPacket c = (Inr data, c') \<Longrightarrow> length (c_in c') < length (c_in c)"
  by (auto simp: readPacket_def Let_def dest: read_packets_shorter split: prod.splits)

text \<open>The rows up to the packet that ends them.\<close>

function read_rows :: "(string \<Rightarrow> 64 word option) \<Rightarrow> bool \<Rightarrow> mysqlField list \<Rightarrow> conn \<Rightarrow> (cell_error, wire_value list list) result \<times> conn" where
  "read_rows p32 pt cols c =
     (case readPacket c of
        (Inl e, c') \<Rightarrow> (Inl (WireError e), c')
      | (Inr data, c') \<Rightarrow>
          (case readRow p32 pt cols data of
             Inl e \<Rightarrow> (Inl e, c')
           | Inr (EndOfRows st) \<Rightarrow> (Inr [], c')
           | Inr (Values vs) \<Rightarrow> (let (r, c'') = read_rows p32 pt cols c' in (ebind r (\<lambda>rows. Inr (vs # rows)), c''))))"
  by pat_completeness auto
termination
  by (relation "measure (\<lambda>(p32, pt, cols, c). length (c_in c))") (auto dest: readPacket_shorter[OF sym])

declare read_rows.simps [simp del]

primrec read_columns :: "nat \<Rightarrow> mysqlField list wire" where
  "read_columns 0 = wreturn (Inr [])"
| "read_columns (Suc k) =
     wbind readPacket (\<lambda>data. wbind (wreturn (parse_column data)) (\<lambda>f. wbind (read_columns k) (\<lambda>fs. wreturn (Inr (f # fs)))))"

definition iLocalInFile :: "8 word" where "iLocalInFile = 0xfb"

text \<open>The header of a result: an OK packet is a statement without rows. The request for a local file is answered with
  an empty packet, and what the server says to that is dropped; a number of columns that is no \<^verbatim>\<open>int\<close> panics.\<close>

definition result_header :: "bytes \<Rightarrow> (wire_error, nat) result" where
  "result_header data =
     (if hd data = iOK then ebind (ok_packet data) (\<lambda>_. Inr 0)
      else if hd data = iERR then Inl (error_packet data)
      else ebind (readLengthEncodedInteger data) (\<lambda>(n, _, _). if sint n < 0 then Inl Panics else Inr (unat n)))"

definition handleInFileRequest :: "nat \<Rightarrow> string \<Rightarrow> 'a wire" where
  "handleInFileRequest maxAllowed name =
     wbind (writePacket maxAllowed []) (\<lambda>_ c. (Inl (LocalFileRefused name), snd (readPacket c)))"

definition readResultSetHeaderPacket :: "nat \<Rightarrow> nat wire" where
  "readResultSetHeaderPacket maxAllowed =
     wbind readPacket (\<lambda>data.
       if hd data = iLocalInFile then handleInFileRequest maxAllowed (to_text (tl data)) else wreturn (result_header data))"

definition comQuery :: "8 word" where "comQuery = 3"

definition writeCommandPacketStr :: "nat \<Rightarrow> 8 word \<Rightarrow> bytes \<Rightarrow> unit wire" where
  "writeCommandPacketStr maxAllowed command arg c = writePacket maxAllowed (command # arg) (c\<lparr>c_sequence := 0\<rparr>)"

definition mysql_query :: "(string \<Rightarrow> 64 word option) \<Rightarrow> bool \<Rightarrow> nat \<Rightarrow> bytes \<Rightarrow> conn
    \<Rightarrow> (cell_error, mysqlField list \<times> wire_value list list) result \<times> conn" where
  "mysql_query p32 pt maxAllowed sql c =
     (case wbind (writeCommandPacketStr maxAllowed comQuery sql) (\<lambda>_.
           wbind (readResultSetHeaderPacket maxAllowed) read_columns) c of
        (Inl e, c') \<Rightarrow> (Inl (WireError e), c')
      | (Inr cols, c') \<Rightarrow>
          if cols = [] then (Inr ([], []), c')
          else (let (r, c'') = read_rows p32 pt cols c' in (ebind r (\<lambda>rows. Inr (cols, rows)), c'')))"

section \<open>Rows read back\<close>

text \<open>How a server writes a text row.\<close>

definition encode_cell :: "bytes option \<Rightarrow> bytes" where
  "encode_cell x = (case x of None \<Rightarrow> [0xfb] | Some s \<Rightarrow> appendLengthEncodedString s)"

definition cell_value :: "(string \<Rightarrow> 64 word option) \<Rightarrow> bool \<Rightarrow> mysqlField \<Rightarrow> bytes option \<Rightarrow> (cell_error, wire_value) result" where
  "cell_value p32 pt f x = (case x of None \<Rightarrow> Inr WNull | Some s \<Rightarrow> convert_cell p32 pt f s)"

lemma read_encoded_cell:
  assumes "\<And>s. x = Some s \<Longrightarrow> int (length s) < 2 ^ 62"
  shows "readLengthEncodedString (encode_cell x @ rest) = Inr (case x of None \<Rightarrow> [] | Some s \<Rightarrow> s, x = None, length (encode_cell x))"
  using assms readLengthEncodedString_append
  by (cases x) (simp_all add: encode_cell_def readLengthEncodedString_def readLengthEncodedInteger_def)

lemma after_encoded [simp]: "after (length xs) (xs @ ys) = Inr ys"
  by (simp add: after_def)

lemma read_encoded_cells:
  assumes "length cells = length cols" "\<And>s. Some s \<in> set cells \<Longrightarrow> int (length s) < 2 ^ 62"
  shows "read_cells p32 pt cols (concat (map encode_cell cells)) = emap (\<lambda>(f, x). cell_value p32 pt f x) (zip cols cells)"
  using assms
proof (induction cols arbitrary: cells)
  case (Cons f fs)
  then obtain x xs where c: "cells = x # xs" and l: "length xs = length fs" by (cases cells) auto
  have r: "readLengthEncodedString (encode_cell x @ concat (map encode_cell xs))
    = Inr (case x of None \<Rightarrow> [] | Some s \<Rightarrow> s, x = None, length (encode_cell x))"
    using Cons.prems(2) by (intro read_encoded_cell) (simp add: c)
  have "read_cells p32 pt fs (concat (map encode_cell xs)) = emap (\<lambda>(f, x). cell_value p32 pt f x) (zip fs xs)"
    using Cons.prems(2) by (intro Cons.IH l) (simp add: c)
  then show ?case using r l by (cases "fs = []") (auto simp: c cell_value_def split: option.splits)
qed simp

lemma first_byte_of_length:
  "hd (appendLengthEncodedInteger n @ r) \<noteq> iERR"
  "hd (appendLengthEncodedInteger n @ r) = iEOF \<Longrightarrow> 0xffffff < n"
proof -
  have "hd (appendLengthEncodedInteger n @ r) \<noteq> iERR \<and> (hd (appendLengthEncodedInteger n @ r) = iEOF \<longrightarrow> 0xffffff < n)"
  proof (cases "n \<le> 250")
    case True
    then have "unat n \<le> 250" by (simp add: word_le_nat_alt)
    moreover have "unat (ucast n :: 8 word) = unat n" using calculation by (simp add: unsigned_ucast_eq take_bit_nat_eq_self)
    ultimately have "(ucast n :: 8 word) \<le> 250" by (simp add: word_le_nat_alt)
    then have "(ucast n :: 8 word) \<noteq> 0xff" "(ucast n :: 8 word) \<noteq> 0xfe" by (auto simp: word_le_nat_alt)
    then show ?thesis using True by (simp add: appendLengthEncodedInteger_def iERR_def iEOF_def)
  next
    case False
    show ?thesis by (simp add: appendLengthEncodedInteger_def iERR_def iEOF_def False) (simp add: not_le)
  qed
  then show "hd (appendLengthEncodedInteger n @ r) \<noteq> iERR"
    and "hd (appendLengthEncodedInteger n @ r) = iEOF \<Longrightarrow> 0xffffff < n" by auto
qed

text \<open>
  C38. A text row reads back: over the bytes a server writes for a row, NULLs and cells of any length below \<open>2 ^ 62\<close>, the
  driver returns exactly the conversion of every cell by the type of its column, and never mistakes a row for the
  packet that ends the result or for an error packet.
\<close>

theorem text_row_roundtrip:
  assumes "cols \<noteq> []" "length cells = length cols" "\<And>s. Some s \<in> set cells \<Longrightarrow> int (length s) < 2 ^ 62"
  shows "readRow p32 pt cols (concat (map encode_cell cells))
    = ebind (emap (\<lambda>(f, x). cell_value p32 pt f x) (zip cols cells)) (\<lambda>vs. Inr (Values vs))"
proof -
  obtain x xs where c: "cells = x # xs" using assms(1,2) by (cases cells) auto
  let ?d = "concat (map encode_cell cells)"
  have "hd ?d \<noteq> iERR \<and> \<not> (hd ?d = iEOF \<and> length ?d \<le> 0xffffff)"
  proof (cases x)
    case None
    then show ?thesis by (simp add: c encode_cell_def iERR_def iEOF_def)
  next
    case (Some s)
    let ?n = "of_nat (length s) :: 64 word" and ?r = "s @ concat (map encode_cell xs)"
    have d: "?d = appendLengthEncodedInteger ?n @ ?r" by (simp add: c Some encode_cell_def appendLengthEncodedString_def)
    have "0xffffff < length ?d" if "0xffffff < ?n"
    proof -
      have "unat ?n \<le> length s" by (simp add: unat_of_nat)
      with that have "0xffffff < length s" by (simp add: word_less_nat_alt)
      then show ?thesis unfolding d by simp
    qed
    then show ?thesis using first_byte_of_length[of ?n ?r] unfolding d by fastforce
  qed
  then show ?thesis using read_encoded_cells[OF assms(2,3)] unfolding readRow_def by (simp only: if_False simp_thms)
qed

lemma text_row_roundtrip_witness:
  "readRow (\<lambda>_. None) True
      [\<lparr>fl_name = [], fl_charSet = 33, fl_length = 11, fl_type = 8, fl_flags = 0, fl_decimals = 0\<rparr>,
       \<lparr>fl_name = [], fl_charSet = 33, fl_length = 11, fl_type = 253, fl_flags = 0, fl_decimals = 0\<rparr>]
      (concat (map encode_cell [Some [0x34, 0x32], None])) = Inr (Values [WInt 42, WNull])"
proof -
  let ?f = "\<lambda>t. \<lparr>fl_name = [], fl_charSet = 33, fl_length = 11, fl_type = t, fl_flags = 0, fl_decimals = 0\<rparr>"
  have "emap (\<lambda>(f, x). cell_value (\<lambda>_. None) True f x) (zip [?f 8, ?f 253] [Some [0x34, 0x32], None]) = Inr [WInt 42, WNull]"
    by code_simp
  then show ?thesis by (subst text_row_roundtrip) auto
qed

end
