(* ===== verification/Spec2Isabelle.thy ===== *)
theory Spec2Isabelle
  imports GoBase GoValues GoJson JsonText Strconv Effects Machine Emitter ApiTypes Expr RowPredicate Governance PlanModel JoinTree
    PlanRequest PlanSql Plan Ossie Limits ModelStore Cache Authorization Service ServiceRuns Discovery Auth Exchange Scan
    Views Controller ControllerProofs Catalog Datahub StrictJson Opa Ranger Providers
    Requests Adapters Engines Server MysqlWire MysqlRows
begin

text \<open>
  A verification library for the semantic operator, a Go program that turns requests for certified
  metrics into SQL. An operator watches SemanticModel resources, validates and compiles each spec,
  compares it with the physical schema and publishes the compiled model in a ConfigMap; a server
  ingests these ConfigMaps, authenticates callers, authorizes requests by roles and by external
  providers, compiles each request into one SQL statement and runs it on the engine, with a plan
  cache and a result cache in Redis.

  \<^bold>\<open>Foundations.\<close> \<open>GoBase\<close>, \<open>GoValues\<close>, \<open>GoJson\<close>, \<open>JsonText\<close> and \<open>Strconv\<close> are what the code uses of the Go
  language and library: results as sums with the error on the left, strings as byte lists, dynamic
  values, number formatting and parsing, JSON text both ways, UTF-8, SHA-256. \<open>Effects\<close> is the state
  monad for code that calls other systems, with the rules for what such code may emit. \<open>Machine\<close> holds
  the two locales for components with state: a transition system with an invariant, and a handler of
  events that refines a specification. Their interpretations are the limiter (\<open>Limits\<close>), the token
  exchanger (\<open>Exchange\<close>), the informer (\<open>ModelStore\<close>) and the serving loop over shared caches
  (\<open>ServiceRuns\<close>).

  \<^bold>\<open>Planning.\<close> \<open>ApiTypes\<close>: the spec types and helpers of \<^verbatim>\<open>api/v1alpha1\<close>. \<open>Emitter\<close>: the dialects of
  \<^verbatim>\<open>internal/emitter\<close>, with the proof that a rendered literal reads back as its value. \<open>Expr\<close> and
  \<open>RowPredicate\<close>: the metric expressions and row filters of \<^verbatim>\<open>internal/planner/expr\<close>, the latter proved
  equivalent to its documented grammar. \<open>Governance\<close>: \<^verbatim>\<open>internal/governance\<close>, roles, authorization and
  claim templates. \<open>PlanModel\<close>: \<^verbatim>\<open>internal/planner/model.go\<close>. \<open>JoinTree\<close>, \<open>PlanRequest\<close>, \<open>PlanSql\<close> and
  \<open>Plan\<close>: \<^verbatim>\<open>plan.go\<close> and \<^verbatim>\<open>plan_sql.go\<close>, from the search for a join tree to the final statement. \<open>Ossie\<close>:
  \<^verbatim>\<open>internal/ossie/validate.go\<close>, whose checks are proved equivalent to a declarative condition on specs.
  The lemmas show that every plan was authorized for all it reads, that row filters reach every
  SELECT, and that planning on a compiled model neither panics nor fails with an internal error.

  \<^bold>\<open>Serving.\<close> \<open>Limits\<close>: \<^verbatim>\<open>limits.go\<close> and \<^verbatim>\<open>limiter.go\<close>. \<open>ModelStore\<close>: \<^verbatim>\<open>store.go\<close>. \<open>Cache\<close>:
  \<^verbatim>\<open>internal/cache/cache.go\<close>. \<open>Authorization\<close>: \<^verbatim>\<open>authorization.go\<close>. \<open>Service\<close>: the query path of \<^verbatim>\<open>service.go\<close>, as
  an outcome with the list of what was asked of Redis, the providers and the engine. \<open>ServiceRuns\<close>:
  many requests over one Redis, and what its entries are therefore worth. \<open>Discovery\<close>: what callers may
  find out. \<open>Auth\<close>: \<^verbatim>\<open>auth.go\<close>. \<open>Exchange\<close>: \<^verbatim>\<open>exchange.go\<close> and \<^verbatim>\<open>credential.go\<close>, with concurrent callers as
  a step relation. \<open>Scan\<close>: \<^verbatim>\<open>internal/dbclient/scan.go\<close>. \<open>Requests\<close>: the body of a query, from bytes to the
  planner's request. \<open>Adapters\<close>: \<^verbatim>\<open>rest.go\<close> and \<^verbatim>\<open>mcp.go\<close>, from the header of a request to the status or tool
  result, with what is asked of Redis, the providers and the engine on the way; both are proved to agree.

  \<^bold>\<open>Engines.\<close> \<open>Engines\<close>: \<^verbatim>\<open>dbclient.go\<close> and both engine clients, under whose login a statement runs and what they report
  of a table. \<open>MysqlWire\<close> and \<open>MysqlRows\<close>: the MySQL driver carried in \<^verbatim>\<open>internal/starrocks/mysqldriver\<close>, its packets,
  handshake and authentication plugins, and its rows, with what may travel unencrypted. \<open>Server\<close>: \<^verbatim>\<open>cmd/server\<close>, from the
  configuration to the server built from all of these parts, and whose statement each statement on the engine is.

  \<^bold>\<open>Policy providers.\<close> \<open>StrictJson\<close>: strict decoding of JSON into Go structs. \<open>Opa\<close> and \<open>Ranger\<close>: the
  providers of \<^verbatim>\<open>internal/serving/authorization\<close>, from the request they send to the decision they accept, each with
  the exact condition under which it allows. \<open>Providers\<close>: \<^verbatim>\<open>cmd/server/authorization.go\<close>, the registry built from the
  configuration, and what an allow of it rests on.

  \<^bold>\<open>Deriving.\<close> \<open>Catalog\<close>: \<^verbatim>\<open>internal/catalog\<close>, from physical tables and business metadata to the spec a scaffold
  denotes, which is proved to validate. \<open>Datahub\<close>: \<^verbatim>\<open>datahub.go\<close>, and a classification followed from DataHub
  to the planner, which refuses the column.

  \<^bold>\<open>Operating.\<close> \<open>Views\<close>: \<^verbatim>\<open>views.go\<close>. \<open>Controller\<close>: \<^verbatim>\<open>semanticmodel_controller.go\<close>, every call to the API server
  and the engine recorded and answered in view of all calls before it. \<open>ControllerProofs\<close>: what the
  reconciler guarantees. This theory connects the operator with the server.

  \<^bold>\<open>Conventions.\<close> Definitions keep the names of the Go functions; parts of a long function are definitions
  of their own, composed as the function composes them. Go maps are partial functions or association
  lists, and where Go iterates a map in no fixed order the order is an argument. Error values are
  constructors that carry the arguments of their messages; the wording of messages is left out.
  Code outside the repository is an argument of the definitions that use it: glob matching, token
  verification, Redis, the engines, the HTTP round trips, the Kubernetes API and its helpers, and the
  encodings that contain values marshalled by Kubernetes code. Theorems name what they need of it as
  hypotheses.

  \<^bold>\<open>Bounds.\<close> Loops that are not structural recurse on a measure with a termination proof. Two use fuel: the
  climb to the root in \<open>JoinTree\<close>, which stops after as many steps as datasets were found, and the
  depth-first search in \<open>Ossie\<close>, which never recurses deeper than there are names; both are proved never to
  run out. The one sum on values of the request that could overflow, the row limit plus one, wraps
  at 64 bits; parsed integers are checked against their width.

  \<^bold>\<open>Not modelled.\<close> The layering of configuration from files and the environment; the commands of the operator
  and \<^verbatim>\<open>ossiectl\<close>; the HTTP multiplexer, the MCP library and the writing of replies as bytes; the rendering of
  scaffolds by the template and YAML libraries and the catalog sources that copy library records; of the MySQL driver the
  DSN text, compression, prepared statements, binary rows, parameters, transactions and the watching of connections;
  observability; the natural-language benchmark, examples and generated deep copies. Of the modelled parts: log lines,
  counters and traces, the probe of the key set, the HTTP client of the token exchange, \<^verbatim>\<open>Exec\<close> and \<^verbatim>\<open>Ping\<close> of the
  engine clients, the endpoints of Ranger the server never calls and the accessors of request contexts.
\<close>

section \<open>From the operator to the planner\<close>


lemma sample_bind:
  assumes "Compile (\<lambda>_. []) sample_spec ''n'' ''x'' = Inr cm"
  shows "\<exists>bindings bound. \<forall>json w. run_state (bind_schema (sample_reconciler art json) cm) w
    = (Inr ([], bindings, bound), w @ [DescribeTable ''lake'' ''db'' ''t''])"
proof -
  obtain e where "Parse ''SUM(s.a)'' = Inr e"
  proof -
    have "isOK (Parse ''SUM(s.a)'')" by code_simp
    with that show thesis by (auto simp: isOK_iff)
  qed
  with assms obtain d f where cm: "cm_DatasetOrder cm = [''s'']" "cm_Datasets cm ''s'' = Some d" "cm_Relationships cm = []" "cm_Governance cm = None"
    "cd_Catalog d = ''lake''" "cd_Database d = ''db''" "cd_Table d = ''t''" "cd_FieldOrder d = [''a'']" "cd_Fields d ''a'' = Some f" "cf_Expr f = ''a''"
    by (auto simp: Compile_def sample_spec_def sample_dataset_def sample_field_def sample_metric_def
        compile_dataset_def compile_field_def compile_metric_def ResolveSource_def Select_def
        DialectPreference_def first_dialect_def map_by_def)
  have a: "isBareIdent ''a''" by code_simp
  have d: "out_describe (rc_Outside (sample_reconciler art json)) w
      = (\<lambda>c d t. if t = ''t'' then Inr [\<lparr>col_Name = ''a'', col_Type = ''bigint''\<rparr>] else Inl ''no such table'')" for json w
    by (simp add: sample_reconciler_def sample_outside_def)
  show ?thesis
    by (simp add: bind_schema_def cm run_describe_table[OF d] bind_columns_def a col_types_def bind_result_def
        governance_drift_def)
qed

end
